(* ===== verification/Prelude.thy ===== *)
theory Prelude
  imports Main "HOL-Library.Sublist" "HOL-Library.Word"
begin

text \<open>
  What every component shares: the operation type (a state transformer with an error
  result, the shape of a Go method that returns \<open>(value, error)\<close> and changes its
  receiver), its combinators and their preservation rules, and generic lemmas on lists and
  maps. Nothing here is specific to the program.
\<close>

named_theorems op_simps \<open>unfolding rules of the operation combinators\<close>
named_theorems keeps \<open>rules: an operation keeps a state predicate\<close>
named_theorems spec_defs \<open>definitions that a component's proofs unfold\<close>

section \<open>Operations: state, error result\<close>

type_synonym error = string
type_synonym 'a result = "error + 'a"
type_synonym ('s, 'e, 'a) opx = "'s \<Rightarrow> ('e + 'a) \<times> 's"
type_synonym ('s, 'a) op = "('s, error, 'a) opx"

definition ret :: "'a \<Rightarrow> ('s, 'e, 'a) opx" where
  "ret x = (\<lambda>s. (Inr x, s))"

definition throw :: "'e \<Rightarrow> ('s, 'e, 'a) opx" where
  "throw e = (\<lambda>s. (Inl e, s))"

definition bindE :: "('s, 'e, 'a) opx \<Rightarrow> ('a \<Rightarrow> ('s, 'e, 'b) opx) \<Rightarrow> ('s, 'e, 'b) opx" where
  "bindE m f = (\<lambda>s. case m s of (Inl e, s') \<Rightarrow> (Inl e, s') | (Inr x, s') \<Rightarrow> f x s')"

definition thenE :: "('s, 'e, 'a) opx \<Rightarrow> ('s, 'e, 'b) opx \<Rightarrow> ('s, 'e, 'b) opx" where
  "thenE m n = bindE m (\<lambda>_. n)"

definition gets :: "('s \<Rightarrow> 'a) \<Rightarrow> ('s, 'e, 'a) opx" where
  "gets f = (\<lambda>s. (Inr (f s), s))"

definition modifyE :: "('s \<Rightarrow> 's) \<Rightarrow> ('s, 'e, unit) opx" where
  "modifyE f = (\<lambda>s. (Inr (), f s))"

text \<open>A Go result computed without touching the state, and \<open>if err != nil { return err }\<close>.\<close>

definition liftE :: "('e + 'a) \<Rightarrow> ('s, 'e, 'a) opx" where
  "liftE r = (\<lambda>s. (r, s))"

definition guardE :: "bool \<Rightarrow> 'e \<Rightarrow> ('s, 'e, unit) opx" where
  "guardE b e = (if b then ret () else throw e)"

lemmas [op_simps] = ret_def throw_def bindE_def thenE_def gets_def modifyE_def liftE_def guardE_def

lemma bindE_Inr: "m s = (Inr x, s') \<Longrightarrow> bindE m f s = f x s'"
  by (simp add: bindE_def)

lemma bindE_Inl: "m s = (Inl e, s') \<Longrightarrow> bindE m f s = (Inl e, s')"
  by (simp add: bindE_def)

lemma bindE_Inr_iff:
  "bindE m f s = (Inr y, t) \<longleftrightarrow> (\<exists>x u. m s = (Inr x, u) \<and> f x u = (Inr y, t))"
  by (auto simp: bindE_def split: prod.splits sum.splits)

lemma thenE_Inr_iff:
  "thenE m n s = (Inr y, t) \<longleftrightarrow> (\<exists>x u. m s = (Inr x, u) \<and> n u = (Inr y, t))"
  by (simp add: thenE_def bindE_Inr_iff)

lemma bindE_assoc: "bindE (bindE m f) g = bindE m (\<lambda>x. bindE (f x) g)"
  by (auto simp: bindE_def fun_eq_iff split: prod.splits sum.splits)

lemma bindE_ret [simp]: "bindE (ret x) f = f x"
  by (simp add: bindE_def ret_def fun_eq_iff)

lemma thenE_ret [simp]: "thenE (ret x) m = m"
  by (simp add: thenE_def)

lemma ret_iff [simp]: "ret x s = (r, t) \<longleftrightarrow> r = Inr x \<and> t = s"
  by (auto simp: ret_def)

lemma throw_iff [simp]: "throw e s = (r, t) \<longleftrightarrow> r = Inl e \<and> t = s"
  by (auto simp: throw_def)

lemma gets_iff [simp]: "gets f s = (r, t) \<longleftrightarrow> r = Inr (f s) \<and> t = s"
  by (auto simp: gets_def)

lemma modifyE_iff [simp]: "modifyE f s = (r, t) \<longleftrightarrow> r = Inr () \<and> t = f s"
  by (auto simp: modifyE_def)

lemma liftE_iff [simp]: "liftE r' s = (r, t) \<longleftrightarrow> r' = r \<and> t = s"
  by (auto simp: liftE_def)

lemma if_throw_iff [simp]: "(if b then throw e else m) s = (Inr x, t) \<longleftrightarrow> \<not> b \<and> m s = (Inr x, t)"
  by simp

lemma guardE_Inr_iff [simp]: "guardE b e s = (Inr u, t) \<longleftrightarrow> b \<and> t = s"
  by (auto simp: guardE_def)

subsection \<open>Preservation\<close>

definition preserves :: "('s \<Rightarrow> bool) \<Rightarrow> ('s, 'e, 'a) opx \<Rightarrow> bool" where
  "preserves I m \<longleftrightarrow> (\<forall>s. I s \<longrightarrow> I (snd (m s)))"

lemma preservesI: "(\<And>s. I s \<Longrightarrow> I (snd (m s))) \<Longrightarrow> preserves I m"
  by (simp add: preserves_def)

lemma preservesD: "preserves I m \<Longrightarrow> I s \<Longrightarrow> m s = (r, t) \<Longrightarrow> I t"
  unfolding preserves_def by (metis snd_conv)

lemma preserves_ret [keeps]: "preserves I (ret x)"
  by (simp add: preserves_def ret_def)

lemma preserves_throw [keeps]: "preserves I (throw e)"
  by (simp add: preserves_def throw_def)

lemma preserves_gets [keeps]: "preserves I (gets f)"
  by (simp add: preserves_def gets_def)

lemma preserves_liftE [keeps]: "preserves I (liftE r)"
  by (simp add: preserves_def liftE_def)

lemma preserves_guardE [keeps]: "preserves I (guardE b e)"
  by (simp add: preserves_def guardE_def ret_def throw_def)

lemma preserves_modifyE: "(\<And>s. I s \<Longrightarrow> I (f s)) \<Longrightarrow> preserves I (modifyE f)"
  by (simp add: preserves_def modifyE_def)

lemma preserves_bindE [keeps]:
  assumes "preserves I m" and "\<And>x. preserves I (f x)"
  shows "preserves I (bindE m f)"
  using assms by (auto simp: preserves_def bindE_def split: prod.splits sum.splits)

lemma preserves_thenE [keeps]: "preserves I m \<Longrightarrow> preserves I n \<Longrightarrow> preserves I (thenE m n)"
  by (simp add: thenE_def preserves_bindE)

lemma preserves_bind_liftE:
  "(\<And>x. r = Inr x \<Longrightarrow> preserves I (f x)) \<Longrightarrow> preserves I (bindE (liftE r) f)"
  by (cases r) (auto simp: preserves_def bindE_def liftE_def)

lemma preserves_if [keeps]:
  "(b \<Longrightarrow> preserves I m) \<Longrightarrow> (\<not> b \<Longrightarrow> preserves I n) \<Longrightarrow> preserves I (if b then m else n)"
  by simp

lemma preserves_case_option [keeps]:
  "preserves I m \<Longrightarrow> (\<And>x. preserves I (f x)) \<Longrightarrow> preserves I (case v of None \<Rightarrow> m | Some x \<Rightarrow> f x)"
  by (cases v) simp_all

lemma preserves_case_sum [keeps]:
  "(\<And>x. preserves I (f x)) \<Longrightarrow> (\<And>y. preserves I (g y)) \<Longrightarrow>
   preserves I (case v of Inl x \<Rightarrow> f x | Inr y \<Rightarrow> g y)"
  by (cases v) simp_all

subsection \<open>Triples: a precondition, a postcondition, a postcondition of every failure\<close>

definition triple :: "('s \<Rightarrow> bool) \<Rightarrow> ('s, 'e, 'a) opx \<Rightarrow> ('a \<Rightarrow> 's \<Rightarrow> bool) \<Rightarrow> ('s \<Rightarrow> bool) \<Rightarrow> bool" where
  "triple P m Q E \<longleftrightarrow>
     (\<forall>s. P s \<longrightarrow> (case m s of (Inl e, t) \<Rightarrow> E t | (Inr x, t) \<Rightarrow> Q x t))"

lemma triple_bindE:
  "triple P m Q E \<Longrightarrow> (\<And>x. triple (Q x) (f x) R E) \<Longrightarrow> triple P (bindE m f) R E"
  by (fastforce simp: triple_def bindE_def split: prod.splits sum.splits)

lemma triple_thenE:
  "triple P m (\<lambda>_. Q) E \<Longrightarrow> triple Q n R E \<Longrightarrow> triple P (thenE m n) R E"
  unfolding thenE_def by (rule triple_bindE)

lemma triple_pre: "triple P m Q E \<Longrightarrow> (\<And>s. P' s \<Longrightarrow> P s) \<Longrightarrow> triple P' m Q E"
  by (auto simp: triple_def)

lemma triple_post:
  "triple P m Q E \<Longrightarrow> (\<And>x s. Q x s \<Longrightarrow> Q' x s) \<Longrightarrow> (\<And>s. E s \<Longrightarrow> E' s) \<Longrightarrow> triple P m Q' E'"
  by (fastforce simp: triple_def split: prod.splits sum.splits)

lemma triple_if:
  "(b \<Longrightarrow> triple P m Q E) \<Longrightarrow> (\<not> b \<Longrightarrow> triple P n Q E) \<Longrightarrow> triple P (if b then m else n) Q E"
  by simp

lemma triple_ret: "(\<And>s. P s \<Longrightarrow> Q x s) \<Longrightarrow> triple P (ret x) Q E"
  by (simp add: triple_def ret_def)

lemma triple_throw: "(\<And>s. P s \<Longrightarrow> E s) \<Longrightarrow> triple P (throw e) Q E"
  by (simp add: triple_def throw_def)

lemma triple_gets: "(\<And>s. P s \<Longrightarrow> Q (f s) s) \<Longrightarrow> triple P (gets f) Q E"
  by (simp add: triple_def gets_def)

lemma triple_preserves: "preserves I m \<Longrightarrow> triple I m (\<lambda>_. I) I"
  unfolding triple_def preserves_def by (metis (no_types, lifting) case_prod_beta sum.case_eq_if)

lemma tripleD:
  assumes "triple P m Q E" "P s" "m s = (r, t)"
  shows "case r of Inl _ \<Rightarrow> E t | Inr x \<Rightarrow> Q x t"
  using assms unfolding triple_def by (auto split: sum.splits)

subsection \<open>Results, whatever the state\<close>

definition yields :: "('a \<Rightarrow> bool) \<Rightarrow> ('s, 'e, 'a) opx \<Rightarrow> bool" where
  "yields Q m \<longleftrightarrow> (\<forall>s x t. m s = (Inr x, t) \<longrightarrow> Q x)"

lemma yields_ret: "Q x \<Longrightarrow> yields Q (ret x)"
  by (simp add: yields_def)

lemma yields_throw: "yields Q (throw e)"
  by (simp add: yields_def)

lemma yields_bind: "(\<And>x. yields Q (f x)) \<Longrightarrow> yields Q (bindE m f)"
  by (auto simp: yields_def bindE_Inr_iff)

lemma yields_then: "yields Q n \<Longrightarrow> yields Q (thenE m n)"
  by (auto simp: yields_def thenE_Inr_iff)

lemma yields_if: "(b \<Longrightarrow> yields Q m) \<Longrightarrow> (\<not> b \<Longrightarrow> yields Q n) \<Longrightarrow> yields Q (if b then m else n)"
  by simp

section \<open>Results without a state\<close>

text \<open>\<open>if err != nil { return err }\<close> in a function, and a loop that returns the first error.\<close>

definition bindR :: "('e + 'a) \<Rightarrow> ('a \<Rightarrow> 'e + 'b) \<Rightarrow> 'e + 'b" where
  "bindR r f = (case r of Inl e \<Rightarrow> Inl e | Inr x \<Rightarrow> f x)"

definition checkR :: "bool \<Rightarrow> 'e \<Rightarrow> 'e + unit" where
  "checkR b e = (if b then Inr () else Inl e)"

fun check_all :: "('a \<Rightarrow> 'e + unit) \<Rightarrow> 'a list \<Rightarrow> 'e + unit" where
  "check_all f [] = Inr ()"
| "check_all f (x # xs) = bindR (f x) (\<lambda>_. check_all f xs)"

fun map_all :: "('a \<Rightarrow> 'e + 'b) \<Rightarrow> 'a list \<Rightarrow> 'e + 'b list" where
  "map_all f [] = Inr []"
| "map_all f (x # xs) = bindR (f x) (\<lambda>y. bindR (map_all f xs) (\<lambda>ys. Inr (y # ys)))"

lemma bindR_Inr_iff [simp]: "bindR r f = Inr y \<longleftrightarrow> (\<exists>x. r = Inr x \<and> f x = Inr y)"
  by (auto simp: bindR_def split: sum.splits)

lemma bindR_Inl [simp]: "bindR (Inl e) f = Inl e"
  by (simp add: bindR_def)

lemma bindR_Inr [simp]: "bindR (Inr x) f = f x"
  by (simp add: bindR_def)

lemma checkR_Inr_iff [simp]: "checkR b e = Inr u \<longleftrightarrow> b"
  by (simp add: checkR_def)

lemma checkR_True [simp]: "checkR True e = Inr ()"
  by (simp add: checkR_def)

lemma checkR_False [simp]: "checkR False e = Inl e"
  by (simp add: checkR_def)

lemma if_Inl_Inr_iff [simp]: "(if b then Inl e else r) = Inr x \<longleftrightarrow> \<not> b \<and> r = Inr x"
  by simp

lemma check_all_Inr_iff [simp]: "check_all f xs = Inr u \<longleftrightarrow> (\<forall>x \<in> set xs. f x = Inr ())"
  by (induction xs) auto

lemma map_all_Inr_iff: "map_all f xs = Inr ys \<longleftrightarrow> list_all2 (\<lambda>x y. f x = Inr y) xs ys"
  by (induction xs arbitrary: ys) (auto simp: list_all2_Cons1)

section \<open>Lists and maps\<close>

lemma distinct_map_filter_iff: "distinct (map f xs) \<Longrightarrow> distinct (map f (filter P xs))"
  by (induction xs) auto

lemma map_of_map_pair: "map_of (map (\<lambda>x. (f x, x)) xs) k = Some v \<Longrightarrow> v \<in> set xs \<and> f v = k"
  by (induction xs) (auto split: if_splits)

lemma find_Some_set: "find P xs = Some x \<Longrightarrow> x \<in> set xs \<and> P x"
  by (induction xs) (auto split: if_splits)

lemma find_None_iff_ball: "find P xs = None \<longleftrightarrow> (\<forall>x\<in>set xs. \<not> P x)"
  by (induction xs) auto

lemma find_append: "find P (xs @ ys) = (case find P xs of None \<Rightarrow> find P ys | Some x \<Rightarrow> Some x)"
  by (induction xs) auto

fun replace_first :: "('a \<Rightarrow> bool) \<Rightarrow> ('a \<Rightarrow> 'a) \<Rightarrow> 'a list \<Rightarrow> 'a list option" where
  "replace_first P f [] = None"
| "replace_first P f (x # xs) =
     (if P x then Some (f x # xs) else map_option ((#) x) (replace_first P f xs))"

lemma replace_first_Some:
  assumes "replace_first P f xs = Some ys"
  shows "\<exists>us x vs. xs = us @ x # vs \<and> ys = us @ f x # vs \<and> P x \<and> (\<forall>u \<in> set us. \<not> P u)"
  using assms
proof (induction xs arbitrary: ys)
  case (Cons x xs)
  show ?case
  proof (cases "P x")
    case True
    with Cons.prems show ?thesis by (intro exI [of _ "[]"]) auto
  next
    case False
    with Cons obtain zs where zs: "replace_first P f xs = Some zs" "ys = x # zs" by auto
    with Cons.IH obtain us y vs where "xs = us @ y # vs" "zs = us @ f y # vs" "P y" "\<forall>u \<in> set us. \<not> P u"
      by blast
    with False zs show ?thesis by (intro exI [of _ "x # us"]) auto
  qed
qed simp

end
