(* ===== verification/GoStrings.thy ===== *)
theory GoStrings
  imports Prelude "HOL-Library.Char_ord" "HOL-Library.List_Lexorder"
begin

text \<open>
  The functions of Go's packages \<open>strings\<close>, \<open>strconv\<close> and \<open>encoding/hex\<close> that the program calls.
  A Go string is its list of bytes. White space and letter case are those of ASCII: the program
  applies them to names, host names and header values, and every value it then accepts is
  checked to be ASCII. The laws are the ones the components use.
\<close>

section \<open>Characters\<close>

definition ascii :: "char \<Rightarrow> nat" where
  "ascii c = of_char c"

definition between :: "char \<Rightarrow> char \<Rightarrow> char \<Rightarrow> bool" where
  "between lo hi c \<longleftrightarrow> ascii lo \<le> ascii c \<and> ascii c \<le> ascii hi"

definition is_space :: "char \<Rightarrow> bool" where
  "is_space c \<longleftrightarrow> ascii c \<in> {9, 10, 11, 12, 13, 32}"

definition is_digit :: "char \<Rightarrow> bool" where
  "is_digit c \<longleftrightarrow> between CHR ''0'' CHR ''9'' c"

definition is_lower :: "char \<Rightarrow> bool" where
  "is_lower c \<longleftrightarrow> between CHR ''a'' CHR ''z'' c"

definition is_upper :: "char \<Rightarrow> bool" where
  "is_upper c \<longleftrightarrow> between CHR ''A'' CHR ''Z'' c"

definition is_alnum :: "char \<Rightarrow> bool" where
  "is_alnum c \<longleftrightarrow> is_lower c \<or> is_upper c \<or> is_digit c"

definition lower :: "char \<Rightarrow> char" where
  "lower c = (if is_upper c then char_of (ascii c + 32) else c)"

definition LF :: char where "LF = CHR 0x0A"
definition CR :: char where "CR = CHR 0x0D"
definition TAB :: char where "TAB = CHR 0x09"
definition QUOTE :: char where "QUOTE = CHR 0x22"

lemmas char_defs = ascii_def between_def is_space_def is_digit_def is_lower_def is_upper_def is_alnum_def

lemma ascii_eq_iff: "ascii a = ascii b \<longleftrightarrow> a = b"
  by (simp add: ascii_def)

lemma lower_idem [simp]: "lower (lower c) = lower c"
  by (auto simp: lower_def char_defs)

lemma not_upper_lower: "\<not> is_upper (lower c)"
  by (auto simp: lower_def char_defs)

lemma lower_id: "\<not> is_upper c \<Longrightarrow> lower c = c"
  by (simp add: lower_def)

lemma alnum_not_space: "is_alnum c \<Longrightarrow> \<not> is_space c"
  by (auto simp: char_defs)

section \<open>Strings\<close>

definition ToLower :: "string \<Rightarrow> string" where
  "ToLower s = map lower s"

definition EqualFold :: "string \<Rightarrow> string \<Rightarrow> bool" where
  "EqualFold s t \<longleftrightarrow> ToLower s = ToLower t"

definition TrimLeft :: "(char \<Rightarrow> bool) \<Rightarrow> string \<Rightarrow> string" where
  "TrimLeft P s = dropWhile P s"

definition TrimRight :: "(char \<Rightarrow> bool) \<Rightarrow> string \<Rightarrow> string" where
  "TrimRight P s = rev (dropWhile P (rev s))"

definition TrimSpace :: "string \<Rightarrow> string" where
  "TrimSpace s = TrimRight is_space (TrimLeft is_space s)"

definition HasPrefix :: "string \<Rightarrow> string \<Rightarrow> bool" where
  "HasPrefix s p \<longleftrightarrow> take (length p) s = p"

definition HasSuffix :: "string \<Rightarrow> string \<Rightarrow> bool" where
  "HasSuffix s p \<longleftrightarrow> length p \<le> length s \<and> drop (length s - length p) s = p"

definition TrimPrefix :: "string \<Rightarrow> string \<Rightarrow> string" where
  "TrimPrefix s p = (if HasPrefix s p then drop (length p) s else s)"

definition TrimSuffix :: "string \<Rightarrow> string \<Rightarrow> string" where
  "TrimSuffix s p = (if HasSuffix s p then take (length s - length p) s else s)"

fun Contains :: "string \<Rightarrow> string \<Rightarrow> bool" where
  "Contains [] p \<longleftrightarrow> p = []"
| "Contains (c # s) p \<longleftrightarrow> HasPrefix (c # s) p \<or> Contains s p"

definition ContainsAny :: "string \<Rightarrow> string \<Rightarrow> bool" where
  "ContainsAny s cs \<longleftrightarrow> (\<exists>c \<in> set s. c \<in> set cs)"

text \<open>\<open>strings.Cut\<close> and \<open>strings.Split\<close> at a separator of one byte; \<open>strings.Join\<close>.\<close>

definition cut :: "char \<Rightarrow> string \<Rightarrow> (string \<times> string) option" where
  "cut c s = (case dropWhile (\<lambda>x. x \<noteq> c) s of [] \<Rightarrow> None
     | _ # rest \<Rightarrow> Some (takeWhile (\<lambda>x. x \<noteq> c) s, rest))"

fun Split :: "char \<Rightarrow> string \<Rightarrow> string list" where
  "Split c [] = [[]]"
| "Split c (x # s) = (if x = c then [] # Split c s
     else (case Split c s of [] \<Rightarrow> [[x]] | w # ws \<Rightarrow> (x # w) # ws))"

fun Join :: "string list \<Rightarrow> string \<Rightarrow> string" where
  "Join [] sep = []"
| "Join [s] sep = s"
| "Join (s # t # ss) sep = s @ sep @ Join (t # ss) sep"

definition Fields :: "string \<Rightarrow> string list" where
  "Fields s = filter (\<lambda>w. w \<noteq> []) (Split (CHR '' '') (map (\<lambda>c. if is_space c then CHR '' '' else c) s))"

section \<open>Numbers\<close>

definition digit :: "nat \<Rightarrow> char" where
  "digit n = (if n < 10 then char_of (48 + n) else char_of (87 + n))"

definition digit_value :: "char \<Rightarrow> nat" where
  "digit_value c = ascii c - 48"

fun Itoa :: "nat \<Rightarrow> string" where
  "Itoa n = (if n < 10 then [digit n] else Itoa (n div 10) @ [digit (n mod 10)])"

declare Itoa.simps [simp del]

fun hexnum :: "nat \<Rightarrow> string" where
  "hexnum n = (if n < 16 then [digit n] else hexnum (n div 16) @ [digit (n mod 16)])"

declare hexnum.simps [simp del]

text \<open>The verbs \<open>%d\<close> and \<open>%q\<close> (without its escapes) of \<open>fmt\<close>.\<close>

definition show_int :: "int \<Rightarrow> string" where
  "show_int n = (if n < 0 then CHR ''-'' # Itoa (nat (- n)) else Itoa (nat n))"

definition quoted :: "string \<Rightarrow> string" where
  "quoted s = QUOTE # s @ [QUOTE]"

definition Atoi :: "string \<Rightarrow> nat option" where
  "Atoi s = (if s \<noteq> [] \<and> list_all is_digit s then Some (foldl (\<lambda>n c. 10 * n + digit_value c) 0 s) else None)"

text \<open>\<open>strconv.ParseInt(s, 10, 64)\<close>: an optional sign, digits, the range of an \<open>int64\<close>.\<close>

definition ParseInt :: "string \<Rightarrow> int option" where
  "ParseInt s = (let (neg, d) = (case s of [] \<Rightarrow> (False, s)
       | c # t \<Rightarrow> if c = CHR ''-'' then (True, t) else if c = CHR ''+'' then (False, t) else (False, s)) in
     case Atoi d of None \<Rightarrow> None
     | Some n \<Rightarrow> let v = (if neg then - int n else int n) in
         if - (2 ^ 63) \<le> v \<and> v < 2 ^ 63 then Some v else None)"

definition hexEncode :: "string \<Rightarrow> string" where
  "hexEncode s = concat (map (\<lambda>c. [digit (ascii c div 16), digit (ascii c mod 16)]) s)"

section \<open>Laws\<close>

lemma ToLower_idem [simp]: "ToLower (ToLower s) = ToLower s"
  by (simp add: ToLower_def)

lemma length_ToLower [simp]: "length (ToLower s) = length s"
  by (simp add: ToLower_def)

lemma EqualFold_refl [simp]: "EqualFold s s"
  by (simp add: EqualFold_def)

lemma EqualFold_sym: "EqualFold s t \<longleftrightarrow> EqualFold t s"
  by (auto simp: EqualFold_def)

lemma EqualFold_trans: "EqualFold s t \<Longrightarrow> EqualFold t u \<Longrightarrow> EqualFold s u"
  by (simp add: EqualFold_def)

lemma HasPrefix_iff: "HasPrefix s p \<longleftrightarrow> (\<exists>t. s = p @ t)"
  unfolding HasPrefix_def by (metis append_eq_conv_conj append_take_drop_id)

lemma HasSuffix_iff: "HasSuffix s p \<longleftrightarrow> (\<exists>t. s = t @ p)"
proof
  assume "HasSuffix s p"
  then have "s = take (length s - length p) s @ p"
    unfolding HasSuffix_def by (metis append_take_drop_id)
  then show "\<exists>t. s = t @ p" by blast
qed (auto simp: HasSuffix_def)

lemma TrimPrefix_append [simp]: "TrimPrefix (p @ s) p = s"
  by (simp add: TrimPrefix_def HasPrefix_def)

lemma TrimRight_ends: "TrimRight P s \<noteq> [] \<Longrightarrow> \<not> P (last (TrimRight P s))"
  by (simp add: TrimRight_def last_rev hd_dropWhile)

lemma TrimRight_nochange: "s = [] \<or> \<not> P (last s) \<Longrightarrow> TrimRight P s = s"
  by (cases s rule: rev_cases) (auto simp: TrimRight_def)

lemma TrimRight_idem [simp]: "TrimRight P (TrimRight P s) = TrimRight P s"
  by (rule TrimRight_nochange) (use TrimRight_ends in blast)

lemma TrimLeft_TrimRight_hd:
  assumes "s = [] \<or> \<not> P (hd s)"
  shows "TrimRight P s = [] \<or> \<not> P (hd (TrimRight P s))"
proof (cases s)
  case (Cons c t)
  with assms have "\<not> P c" by simp
  have "dropWhile P (rev t @ [c]) = dropWhile P (rev t) @ [c]"
    using \<open>\<not> P c\<close> by (induction "rev t") (auto simp: dropWhile_append3 dropWhile_append)
  with Cons \<open>\<not> P c\<close> show ?thesis by (simp add: TrimRight_def)
qed (simp add: TrimRight_def)

lemma TrimSpace_idem [simp]: "TrimSpace (TrimSpace s) = TrimSpace s"
proof -
  let ?t = "TrimLeft is_space s"
  have "?t = [] \<or> \<not> is_space (hd ?t)" by (metis TrimLeft_def hd_dropWhile)
  from TrimLeft_TrimRight_hd [where P = is_space, OF this]
  have "TrimLeft is_space (TrimRight is_space ?t) = TrimRight is_space ?t"
    by (cases "TrimRight is_space ?t") (auto simp: TrimLeft_def)
  then show ?thesis by (simp add: TrimSpace_def)
qed

lemma TrimSpace_nospace: "list_all (\<lambda>c. \<not> is_space c) s \<Longrightarrow> TrimSpace s = s"
proof -
  assume s: "list_all (\<lambda>c. \<not> is_space c) s"
  then have "dropWhile is_space s = s" by (cases s) auto
  moreover from s have "s = [] \<or> \<not> is_space (last s)" by (auto simp: list_all_iff)
  ultimately show ?thesis by (simp add: TrimSpace_def TrimLeft_def TrimRight_nochange)
qed

lemma Split_not_Nil [simp]: "Split c s \<noteq> []"
  by (induction s) (auto split: list.splits)

lemma Split_no_sep: "w \<in> set (Split c s) \<Longrightarrow> c \<notin> set w"
  by (induction s arbitrary: w) (auto split: if_splits list.splits)

lemma Join_Split: "Join (Split c s) [c] = s"
proof (induction s)
  case (Cons x s)
  obtain w ws where *: "Split c s = w # ws" by (cases "Split c s") auto
  with Cons show ?case by (cases ws) auto
qed simp

lemma Split_append: "c \<notin> set w \<Longrightarrow> Split c (w @ c # s) = w # Split c s"
  by (induction w) auto

lemma Split_single: "c \<notin> set w \<Longrightarrow> Split c w = [w]"
  by (induction w) auto

lemma Split_Join: "ws \<noteq> [] \<Longrightarrow> \<forall>w \<in> set ws. c \<notin> set w \<Longrightarrow> Split c (Join ws [c]) = ws"
  by (induction ws "[c]" rule: Join.induct) (auto simp: Split_append Split_single)

lemma cut_append: "c \<notin> set w \<Longrightarrow> cut c (w @ c # s) = Some (w, s)"
proof -
  assume "c \<notin> set w"
  then have "\<forall>x \<in> set w. x \<noteq> c" by auto
  then show ?thesis by (simp add: cut_def)
qed

lemma cut_Some: "cut c s = Some (w, t) \<Longrightarrow> s = w @ c # t \<and> c \<notin> set w"
proof -
  assume a: "cut c s = Some (w, t)"
  obtain x r where d: "dropWhile (\<lambda>x. x \<noteq> c) s = x # r" using a by (auto simp: cut_def split: list.splits)
  then have "x = c" by (metis (mono_tags, lifting) dropWhile_eq_Cons_conv)
  with a d have "w = takeWhile (\<lambda>x. x \<noteq> c) s" "t = r" by (auto simp: cut_def)
  moreover have "c \<notin> set (takeWhile (\<lambda>x. x \<noteq> c) s)" using set_takeWhileD by fastforce
  ultimately show ?thesis using d \<open>x = c\<close> by (metis takeWhile_dropWhile_id)
qed

lemma digit_is_digit: "n < 10 \<Longrightarrow> is_digit (digit n) \<and> digit_value (digit n) = n"
  by (simp add: digit_def digit_value_def char_defs)

lemma Itoa_digits: "list_all is_digit (Itoa n) \<and> Itoa n \<noteq> []"
  by (induction n rule: Itoa.induct) (subst (1 2) Itoa.simps, auto simp: digit_is_digit)

lemma Itoa_value: "foldl (\<lambda>n c. 10 * n + digit_value c) 0 (Itoa n) = n"
  by (induction n rule: Itoa.induct) (subst Itoa.simps, auto simp: digit_is_digit)

lemma Atoi_Itoa [simp]: "Atoi (Itoa n) = Some n"
  by (simp add: Atoi_def Itoa_digits Itoa_value)

lemma Itoa_inj: "Itoa m = Itoa n \<Longrightarrow> m = n"
  by (metis Atoi_Itoa option.inject)

lemma Itoa_hd: "\<exists>c t. Itoa n = c # t \<and> is_digit c"
  using Itoa_digits [of n] by (cases "Itoa n") auto

lemma ParseInt_Itoa: "int n < 2 ^ 63 \<Longrightarrow> ParseInt (Itoa n) = Some (int n)"
proof -
  assume "int n < 2 ^ 63"
  moreover obtain c t where "Itoa n = c # t" "is_digit c" using Itoa_hd by blast
  moreover from this have "c \<noteq> CHR ''-''" "c \<noteq> CHR ''+''" by (auto simp: char_defs)
  ultimately have "ParseInt (Itoa n) = (case Atoi (Itoa n) of None \<Rightarrow> None
     | Some n \<Rightarrow> if - (2 ^ 63) \<le> int n \<and> int n < 2 ^ 63 then Some (int n) else None)"
    by (simp add: ParseInt_def Let_def split: option.split)
  with \<open>int n < 2 ^ 63\<close> show ?thesis by simp
qed

lemma digit_char: "n < 16 \<Longrightarrow> is_digit (digit n) \<or> between CHR ''a'' CHR ''f'' (digit n)"
  by (auto simp: digit_def char_defs)

lemma hexnum_chars: "c \<in> set (hexnum n) \<Longrightarrow> is_digit c \<or> between CHR ''a'' CHR ''f'' c"
proof (induction n rule: hexnum.induct)
  case (1 n)
  then show ?case
    using digit_char [of n] digit_char [of "n mod 16"]
    by (subst (asm) hexnum.simps) (auto split: if_splits)
qed

lemma hexnum_not_Nil [simp]: "hexnum n \<noteq> []"
  by (subst hexnum.simps) simp

end
