(* ===== verification/Base64.thy ===== *)
theory Base64
  imports GoStrings
begin

text \<open>
  The unpadded encodings of Go's \<open>encoding/base64\<close>, \<open>RawStdEncoding\<close> and \<open>RawURLEncoding\<close>, which differ in the
  characters of 62 and 63. What a client of either relies on is the locale \<open>alphabet\<close>: every value has a character that
  decodes to it and that is neither a line end (which the decoder skips) nor one of the program's separators.
\<close>

definition base64_char :: "char \<Rightarrow> char \<Rightarrow> nat \<Rightarrow> char" where
  "base64_char c62 c63 n =
     (if n < 26 then char_of (n + 65)
      else if n < 52 then char_of (n + 71)
      else if n < 62 then char_of (n - 4)
      else if n = 62 then c62 else c63)"

definition base64_val :: "char \<Rightarrow> char \<Rightarrow> char \<Rightarrow> nat option" where
  "base64_val c62 c63 c =
     (if is_upper c then Some (ascii c - 65)
      else if is_lower c then Some (ascii c - 71)
      else if is_digit c then Some (ascii c + 4)
      else if c = c62 then Some 62
      else if c = c63 then Some 63
      else None)"

text \<open>Groups of three bytes; the last group has one or two bytes left.\<close>

fun encode64 :: "(nat \<Rightarrow> char) \<Rightarrow> string \<Rightarrow> string" where
  "encode64 e [] = []"
| "encode64 e [a] = [e (ascii a div 4), e (ascii a mod 4 * 16)]"
| "encode64 e [a, b] = [e (ascii a div 4), e (ascii a mod 4 * 16 + ascii b div 16), e (ascii b mod 16 * 4)]"
| "encode64 e (a # b # c # s) =
     e (ascii a div 4) # e (ascii a mod 4 * 16 + ascii b div 16) # e (ascii b mod 16 * 4 + ascii c div 64) # e (ascii c mod 64)
       # encode64 e s"

fun decode_groups :: "(char \<Rightarrow> nat option) \<Rightarrow> string \<Rightarrow> string option" where
  "decode_groups v [] = Some []"
| "decode_groups v [a] = None"
| "decode_groups v [a, b] =
     (case (v a, v b) of (Some x, Some y) \<Rightarrow> Some [char_of (4 * x + y div 16)] | _ \<Rightarrow> None)"
| "decode_groups v [a, b, c] =
     (case (v a, v b, v c) of
        (Some x, Some y, Some z) \<Rightarrow> Some [char_of (4 * x + y div 16), char_of (y mod 16 * 16 + z div 4)]
      | _ \<Rightarrow> None)"
| "decode_groups v (a # b # c # d # s) =
     (case (v a, v b, v c, v d) of
        (Some x, Some y, Some z, Some w) \<Rightarrow>
          map_option (\<lambda>r. char_of (4 * x + y div 16) # char_of (y mod 16 * 16 + z div 4) # char_of (z mod 4 * 64 + w) # r)
            (decode_groups v s)
      | _ \<Rightarrow> None)"

definition decode64 :: "(char \<Rightarrow> nat option) \<Rightarrow> string \<Rightarrow> string option" where
  "decode64 v s = decode_groups v (filter (\<lambda>c. c \<noteq> CR \<and> c \<noteq> LF) s)"

lemma groups_of_three [case_names none one two three]:
  fixes P :: "string \<Rightarrow> bool"
  shows "P [] \<Longrightarrow> (\<And>a. P [a]) \<Longrightarrow> (\<And>a b. P [a, b]) \<Longrightarrow> (\<And>a b c s. P s \<Longrightarrow> P (a # b # c # s)) \<Longrightarrow> P s"
  by (rule encode64.induct [of "\<lambda>_. P" undefined])

locale alphabet =
  fixes e :: "nat \<Rightarrow> char" and v :: "char \<Rightarrow> nat option"
  assumes value_of_char: "n < 64 \<Longrightarrow> v (e n) = Some n"
    and safe_char: "n < 64 \<Longrightarrow> e n \<notin> {CR, LF, CHR ''.'', CHR ''$'', CHR ''|''}"
begin

lemma byte_bounds:
  "ascii a div 4 < 64" "ascii a mod 4 * 16 < 64" "ascii a mod 4 * 16 + ascii b div 16 < 64"
  "ascii b mod 16 * 4 < 64" "ascii b mod 16 * 4 + ascii c div 64 < 64" "ascii c mod 64 < 64"
proof -
  have "ascii x div 4 < 64" "ascii x div 16 < 16" "ascii x div 64 < 4" for x
    by (simp_all add: ascii_def less_mult_imp_div_less)
  then show "ascii a div 4 < 64" "ascii a mod 4 * 16 < 64" "ascii b mod 16 * 4 < 64" "ascii c mod 64 < 64"
    by simp_all
  have "ascii a mod 4 < 4" "ascii b div 16 < 16" by (simp_all add: \<open>\<And>x. ascii x div 16 < 16\<close>)
  then show "ascii a mod 4 * 16 + ascii b div 16 < 64" by linarith
  have "ascii b mod 16 < 16" "ascii c div 64 < 4" by (simp_all add: \<open>\<And>x. ascii x div 64 < 4\<close>)
  then show "ascii b mod 16 * 4 + ascii c div 64 < 64" by linarith
qed

lemma encode_chars: "set (encode64 e s) \<subseteq> e ` {..<64}"
proof -
  have mem: "n < 64 \<Longrightarrow> e n \<in> e ` {..<64}" for n by blast
  show ?thesis by (induction s rule: groups_of_three) (simp_all only: encode64.simps list.set insert_subset byte_bounds mem empty_subsetI simp_thms)
qed

lemma encode_safe: "c \<in> set (encode64 e s) \<Longrightarrow> c \<notin> {CR, LF, CHR ''.'', CHR ''$'', CHR ''|''}"
proof -
  assume "c \<in> set (encode64 e s)"
  with encode_chars [of s] obtain n where "n < 64" "c = e n" by auto
  with safe_char show ?thesis by simp
qed

lemma decode_encode_groups: "decode_groups v (encode64 e s) = Some s"
proof -
  have char: "char_of (ascii c) = c" for c by (simp add: ascii_def)
  have 1: "4 * (ascii a div 4) + (ascii a mod 4 * 16 + r) div 16 = ascii a" if "r < 16" for a r
    using that by simp
  have 2: "(r * 16 + ascii b div 16) mod 16 * 16 + (ascii b mod 16 * 4 + t) div 4 = ascii b" if "t < 4" for b r t
  proof -
    have "ascii b div 16 < 16" by (simp add: ascii_def less_mult_imp_div_less)
    with that show ?thesis by simp
  qed
  have 3: "(r * 4 + ascii c div 64) mod 4 * 64 + ascii c mod 64 = ascii c" for c r
  proof -
    have "ascii c div 64 < 4" by (simp add: ascii_def less_mult_imp_div_less)
    then show ?thesis by simp
  qed
  have b: "ascii c div 16 < 16" "ascii c div 64 < 4" for c by (simp_all add: ascii_def less_mult_imp_div_less)
  note v = byte_bounds [THEN value_of_char]
  show ?thesis
  proof (induction s rule: groups_of_three)
    case none show ?case by simp
  next
    case (one a)
    show ?case using 1 [of 0 a] by (simp add: v char)
  next
    case (two a b)
    show ?case using 1 [of "ascii b div 16" a] 2 [of 0 "ascii a mod 4" b] by (simp add: v char b)
  next
    case (three a b c s)
    then show ?case
      using 1 [of "ascii b div 16" a] 2 [of "ascii c div 64" "ascii a mod 4" b] 3 [of "ascii b mod 16" c]
      by (simp add: v char b)
  qed
qed

lemma decode_encode: "decode64 v (encode64 e s) = Some s"
proof -
  have "filter (\<lambda>c. c \<noteq> CR \<and> c \<noteq> LF) (encode64 e s) = encode64 e s"
    using encode_safe by (intro filter_True) blast
  then show ?thesis by (simp add: decode64_def decode_encode_groups)
qed

end

definition std_char :: "nat \<Rightarrow> char" where "std_char = base64_char CHR ''+'' CHR ''/''"
definition std_val :: "char \<Rightarrow> nat option" where "std_val = base64_val CHR ''+'' CHR ''/''"
definition url_char :: "nat \<Rightarrow> char" where "url_char = base64_char CHR ''-'' CHR ''_''"
definition url_val :: "char \<Rightarrow> nat option" where "url_val = base64_val CHR ''-'' CHR ''_''"

lemma std_laws:
  assumes "n < 64"
  shows "std_val (std_char n) = Some n" and "std_char n \<notin> {CR, LF, CHR ''.'', CHR ''$'', CHR ''|''}"
proof -
  from assms consider "n < 26" | "26 \<le> n" "n < 52" | "52 \<le> n" "n < 62" | "n = 62" | "n = 63" by linarith
  note split = this
  from split show "std_val (std_char n) = Some n"
    by cases (simp_all add: std_val_def std_char_def base64_char_def base64_val_def char_defs, arith?)
  have "ascii (std_char n) \<notin> ascii ` {CR, LF, CHR ''.'', CHR ''$'', CHR ''|''}"
    using split by cases (simp_all add: std_char_def base64_char_def ascii_def CR_def LF_def, arith?)
  then show "std_char n \<notin> {CR, LF, CHR ''.'', CHR ''$'', CHR ''|''}" by blast
qed

interpretation std: alphabet std_char std_val
  by unfold_locales (rule std_laws, assumption)+

lemma url_laws:
  assumes "n < 64"
  shows "url_val (url_char n) = Some n" and "url_char n \<notin> {CR, LF, CHR ''.'', CHR ''$'', CHR ''|''}"
proof -
  from assms consider "n < 26" | "26 \<le> n" "n < 52" | "52 \<le> n" "n < 62" | "n = 62" | "n = 63" by linarith
  note split = this
  from split show "url_val (url_char n) = Some n"
    by cases (simp_all add: url_val_def url_char_def base64_char_def base64_val_def char_defs, arith?)
  have "ascii (url_char n) \<notin> ascii ` {CR, LF, CHR ''.'', CHR ''$'', CHR ''|''}"
    using split by cases (simp_all add: url_char_def base64_char_def ascii_def CR_def LF_def, arith?)
  then show "url_char n \<notin> {CR, LF, CHR ''.'', CHR ''$'', CHR ''|''}" by blast
qed

interpretation url: alphabet url_char url_val
  by unfold_locales (rule url_laws, assumption)+

end
