(* ===== verification/Netip.thy ===== *)
theory Netip
  imports GoStrings
begin

text \<open>
  Addresses and prefixes of Go's \<open>net/netip\<close> and the functions of \<open>net\<close> on host strings, as far
  as the program uses them. A \<open>netip.Addr\<close> is a value of \<open>addr\<close> (the program drops IPv6 zones
  before it compares); a \<open>net.IP\<close> is an \<open>addr\<close> with IPv4-mapped IPv6 unmapped, which is the
  equality \<open>net.IP.Equal\<close> decides.
\<close>

section \<open>Addresses\<close>

datatype addr = V4 "32 word" | V6 "128 word"

fun Is4In6 :: "addr \<Rightarrow> bool" where
  "Is4In6 (V4 _) = False"
| "Is4In6 (V6 w) \<longleftrightarrow> drop_bit 32 w = 0xFFFF"

fun Unmap :: "addr \<Rightarrow> addr" where
  "Unmap (V4 w) = V4 w"
| "Unmap (V6 w) = (if drop_bit 32 w = 0xFFFF then V4 (ucast w) else V6 w)"

fun BitLen :: "addr \<Rightarrow> nat" where
  "BitLen (V4 _) = 32"
| "BitLen (V6 _) = 128"

lemma Unmap_idem [simp]: "Unmap (Unmap a) = Unmap a"
  by (cases a) auto

lemma Unmap_not_mapped [simp]: "\<not> Is4In6 (Unmap a)"
  by (cases a) auto

section \<open>Parsing\<close>

definition octet :: "string \<Rightarrow> nat option" where
  "octet s = (if length s > 1 \<and> hd s = CHR ''0'' then None
     else case Atoi s of None \<Rightarrow> None | Some n \<Rightarrow> if n \<le> 255 then Some n else None)"

definition parseIPv4 :: "string \<Rightarrow> (32 word) option" where
  "parseIPv4 s = (case map octet (Split CHR ''.'' s) of
       [Some a, Some b, Some c, Some d] \<Rightarrow> Some (of_nat (((a * 256 + b) * 256 + c) * 256 + d))
     | _ \<Rightarrow> None)"

definition is_hex :: "char \<Rightarrow> bool" where
  "is_hex c \<longleftrightarrow> is_digit c \<or> between CHR ''a'' CHR ''f'' c \<or> between CHR ''A'' CHR ''F'' c"

definition hex_value :: "char \<Rightarrow> nat" where
  "hex_value c = (if is_digit c then ascii c - 48
     else if between CHR ''a'' CHR ''f'' c then ascii c - 87 else ascii c - 55)"

text \<open>
  The loop of \<open>netip.parseIPv6\<close>: \<open>room\<close> groups of 16 bits may follow, \<open>gs\<close> are read, and the
  double colon was seen after \<open>e\<close> of them.
\<close>

fun groups6 :: "nat \<Rightarrow> string \<Rightarrow> nat list \<Rightarrow> nat option \<Rightarrow> (nat list \<times> nat option) option" where
  "groups6 0 s gs e = (if s = [] then Some (gs, e) else None)"
| "groups6 (Suc room) s gs e =
     (let h = takeWhile is_hex s; rest = dropWhile is_hex s in
      if h = [] \<or> length h > 4 then None
      else case rest of
          [] \<Rightarrow> Some (gs @ [foldl (\<lambda>n c. 16 * n + hex_value c) 0 h], e)
        | c # more \<Rightarrow>
            if c = CHR ''.'' then
              (if e = None \<and> length gs \<noteq> 6 \<or> length gs > 6 then None
               else case parseIPv4 s of None \<Rightarrow> None
                 | Some w \<Rightarrow> Some (gs @ [unat w div 65536, unat w mod 65536], e))
            else if c \<noteq> CHR '':'' \<or> more = [] then None
            else
              (let g = gs @ [foldl (\<lambda>n c. 16 * n + hex_value c) 0 h] in
               if hd more = CHR '':'' then
                 (if e \<noteq> None then None
                  else if tl more = [] then Some (g, Some (length g))
                  else groups6 room (tl more) g (Some (length g)))
               else groups6 room more g e))"

definition words6 :: "nat list \<Rightarrow> 128 word" where
  "words6 gs = of_nat (foldl (\<lambda>n g. 65536 * n + g) 0 gs)"

definition parseIPv6 :: "string \<Rightarrow> (128 word) option" where
  "parseIPv6 s = (if s = ''::'' then Some 0 else
     let lead = HasPrefix s ''::'' in
     case groups6 8 (if lead then drop 2 s else s) [] (if lead then Some 0 else None) of
       None \<Rightarrow> None
     | Some (gs, e) \<Rightarrow>
         (if length gs < 8 then
            (case e of None \<Rightarrow> None
             | Some k \<Rightarrow> Some (words6 (take k gs @ replicate (8 - length gs) 0 @ drop k gs)))
          else if e \<noteq> None then None else Some (words6 gs)))"

text \<open>\<open>netip.ParseAddr\<close> without its zone, \<open>net.ParseIP\<close> (which refuses zones).\<close>

definition ParseAddr :: "string \<Rightarrow> addr option" where
  "ParseAddr s = (case find (\<lambda>c. c \<in> {CHR ''.'', CHR '':'', CHR ''%''}) s of
       None \<Rightarrow> None
     | Some c \<Rightarrow>
         if c = CHR ''.'' then map_option V4 (parseIPv4 s)
         else if c = CHR '':'' then
           (case cut (CHR ''%'') s of
              None \<Rightarrow> map_option V6 (parseIPv6 s)
            | Some (a, zone) \<Rightarrow> if zone = [] then None else map_option V6 (parseIPv6 a))
         else None)"

definition ParseIP :: "string \<Rightarrow> addr option" where
  "ParseIP s = (if CHR ''%'' \<in> set s then None else map_option Unmap (ParseAddr s))"

section \<open>Printing\<close>

definition string4 :: "32 word \<Rightarrow> string" where
  "string4 w = (let n = unat w in
     Join [Itoa (n div 16777216), Itoa (n div 65536 mod 256), Itoa (n div 256 mod 256), Itoa (n mod 256)] ''.'')"

definition groups_of :: "128 word \<Rightarrow> nat list" where
  "groups_of w = map (\<lambda>i. unat w div 2 ^ (16 * (7 - i)) mod 65536) [0..<8]"

definition zero_run :: "nat list \<Rightarrow> nat \<Rightarrow> nat" where
  "zero_run gs i = length (takeWhile (\<lambda>g. g = 0) (drop i gs))"

text \<open>The first of the longest runs of at least two zero groups is written as two colons.\<close>

definition best_run :: "nat list \<Rightarrow> (nat \<times> nat) option" where
  "best_run gs = foldl (\<lambda>b i. let l = zero_run gs i in
      if l \<ge> 2 \<and> (case b of None \<Rightarrow> True | Some (_, m) \<Rightarrow> l > m) then Some (i, l) else b) None [0..<8]"

definition string6 :: "128 word \<Rightarrow> string" where
  "string6 w = (let gs = groups_of w in
     case best_run gs of
       None \<Rightarrow> Join (map hexnum gs) '':''
     | Some (i, l) \<Rightarrow> Join (map hexnum (take i gs)) '':'' @ ''::'' @ Join (map hexnum (drop (i + l) gs)) '':'')"

fun addr_string :: "addr \<Rightarrow> string" where
  "addr_string (V4 w) = string4 w"
| "addr_string (V6 w) = (if drop_bit 32 w = 0xFFFF then ''::ffff:'' @ string4 (ucast w) else string6 w)"

section \<open>Prefixes\<close>

datatype prefix = Prefix addr int

fun prefix_addr :: "prefix \<Rightarrow> addr" where
  "prefix_addr (Prefix a _) = a"

fun prefix_valid :: "prefix \<Rightarrow> bool" where
  "prefix_valid (Prefix a b) \<longleftrightarrow> 0 \<le> b \<and> b \<le> int (BitLen a)"

fun Masked :: "prefix \<Rightarrow> prefix" where
  "Masked (Prefix (V4 w) b) = Prefix (V4 (push_bit (32 - nat b) (drop_bit (32 - nat b) w))) b"
| "Masked (Prefix (V6 w) b) = Prefix (V6 (push_bit (128 - nat b) (drop_bit (128 - nat b) w))) b"

fun prefix_contains :: "prefix \<Rightarrow> addr \<Rightarrow> bool" where
  "prefix_contains (Prefix (V4 p) b) (V4 w) \<longleftrightarrow> 0 \<le> b \<and> b \<le> 32 \<and> drop_bit (32 - nat b) p = drop_bit (32 - nat b) w"
| "prefix_contains (Prefix (V6 p) b) (V6 w) \<longleftrightarrow> 0 \<le> b \<and> b \<le> 128 \<and> drop_bit (128 - nat b) p = drop_bit (128 - nat b) w"
| "prefix_contains _ _ \<longleftrightarrow> False"

section \<open>Host and port\<close>

definition SplitHostPort :: "string \<Rightarrow> (string \<times> string) option" where
  "SplitHostPort hp = (case cut (CHR '':'') (rev hp) of
       None \<Rightarrow> None
     | Some (rport, rhost) \<Rightarrow>
         (let host = rev rhost; port = rev rport in
          if HasPrefix hp ''['' then
            (case cut (CHR '']'') hp of
               None \<Rightarrow> None
             | Some (front, after) \<Rightarrow>
                 if after = CHR '':'' # port \<and> CHR ''['' \<notin> set (tl front) \<and> CHR ''['' \<notin> set after \<and> CHR '']'' \<notin> set after
                 then Some (tl front, port) else None)
          else if CHR '':'' \<in> set host \<or> CHR ''['' \<in> set hp \<or> CHR '']'' \<in> set hp then None
          else Some (host, port)))"

definition JoinHostPort :: "string \<Rightarrow> string \<Rightarrow> string" where
  "JoinHostPort host port = (if CHR '':'' \<in> set host then ''['' @ host @ '']:'' @ port else host @ '':'' @ port)"

text \<open>The part before the port, or all of a host without a port.\<close>

definition host_only :: "string \<Rightarrow> string" where
  "host_only hp = (case SplitHostPort hp of None \<Rightarrow> hp | Some (h, _) \<Rightarrow> h)"

section \<open>Laws\<close>

lemma octet_Itoa: "n \<le> 255 \<Longrightarrow> octet (Itoa n) = Some n"
proof -
  assume n: "n \<le> 255"
  have "\<not> (length (Itoa n) > 1 \<and> hd (Itoa n) = CHR ''0'')"
  proof (induction n rule: Itoa.induct)
    case (1 n)
    show ?case
    proof (cases "n < 10")
      case True then show ?thesis by (subst (1) Itoa.simps) simp
    next
      case False
      have hd: "hd (Itoa m) \<noteq> CHR ''0''" if "m \<noteq> 0" for m
        using that
      proof (induction m rule: Itoa.induct)
        case (1 m)
        show ?case
        proof (cases "m < 10")
          case True
          have "digit m = CHR ''0'' \<Longrightarrow> m = 0"
          proof -
            assume "digit m = CHR ''0''"
            then have "ascii (digit m) = 48" by (simp add: ascii_def)
            with True show "m = 0" by (simp add: digit_def ascii_def)
          qed
          with True 1(2) show ?thesis by (subst Itoa.simps) auto
        next
          case False
          with 1(1) have "hd (Itoa (m div 10)) \<noteq> CHR ''0''" by simp
          moreover have "Itoa (m div 10) \<noteq> []" using Itoa_digits by blast
          ultimately show ?thesis using False by (subst Itoa.simps) simp
        qed
      qed
      show ?thesis using hd [of n] False by auto
    qed
  qed
  with n show ?thesis by (simp add: octet_def)
qed

lemma Itoa_no_dot: "CHR ''.'' \<notin> set (Itoa n)"
  using Itoa_digits [of n] by (auto simp: list_all_iff char_defs)

lemma four_octets:
  fixes n :: nat
  shows "((n div 16777216 * 256 + n div 65536 mod 256) * 256 + n div 256 mod 256) * 256 + n mod 256 = n"
proof -
  have "n div 16777216 * 256 + n div 65536 mod 256 = n div 65536"
    using div_mult_mod_eq [of "n div 65536" 256] by (simp add: div_mult2_eq [symmetric])
  moreover have "n div 65536 * 256 + n div 256 mod 256 = n div 256"
    using div_mult_mod_eq [of "n div 256" 256] by (simp add: div_mult2_eq [symmetric])
  ultimately show ?thesis using div_mult_mod_eq [of n 256] by simp
qed

lemma parse_string4: "parseIPv4 (string4 w) = Some w"
proof -
  define n where "n = unat w"
  have b: "n < 4294967296" using unsigned_less [of w] by (simp add: n_def)
  have 1: "n div 16777216 \<le> 255" using b by (simp add: less_mult_imp_div_less [of n 256 16777216, simplified] less_Suc_eq_le [symmetric] del: One_nat_def)
  have 2: "k mod 256 \<le> 255" for k :: nat using mod_less_divisor [of 256 k] by linarith
  have "Split CHR ''.'' (string4 w) =
      [Itoa (n div 16777216), Itoa (n div 65536 mod 256), Itoa (n div 256 mod 256), Itoa (n mod 256)]"
    unfolding string4_def Let_def n_def by (rule Split_Join) (auto simp: Itoa_no_dot)
  then have "parseIPv4 (string4 w) =
      Some (of_nat (((n div 16777216 * 256 + n div 65536 mod 256) * 256 + n div 256 mod 256) * 256 + n mod 256))"
    unfolding parseIPv4_def by (simp add: octet_Itoa 1 2)
  also have "\<dots> = Some w" unfolding four_octets by (simp add: n_def)
  finally show ?thesis .
qed

lemma string4_inj: "string4 v = string4 w \<Longrightarrow> v = w"
  by (metis parse_string4 option.inject)

lemma drop_push_drop [simp]:
  fixes w :: "'a::len word"
  shows "drop_bit n (push_bit n (drop_bit n w)) = drop_bit n w"
  by (rule bit_word_eqI) (auto simp: bit_push_bit_iff bit_drop_bit_eq ac_simps dest: bit_imp_le_length)

lemma Masked_idem [simp]: "Masked (Masked p) = Masked p"
  by (cases p rule: Masked.cases) simp_all

lemma Masked_contains [simp]: "prefix_contains (Masked p) a = prefix_contains p a"
  by (cases p rule: Masked.cases; cases a) simp_all

end
