(* ===== verification/Model.thy ===== *)
theory Model
  imports Netip
begin

unbundle bit_operations_syntax

text \<open>
  The data of the program: certificates and keys as its code sees them through \<open>crypto/x509\<close>,
  the records it keeps as JSON, and the store on disk. Go strings with fixed values (key
  algorithms, profiles, record kinds, roles) stay strings, because the program accepts any string
  there and checks it. A file is its parsed content; a read or a write of the disk can fail before
  or after its effect.
\<close>

section \<open>Time\<close>

text \<open>
  A \<open>time.Time\<close> is a number of nanoseconds and the zero time is 0. \<open>AddDate(0, 0, n)\<close> adds days
  of 24 hours (the program runs in UTC). DER keeps whole seconds.
\<close>

type_synonym time = int

definition second :: time where "second = 10 ^ 9"
definition minute :: time where "minute = 60 * second"
definition hour :: time where "hour = 60 * minute"
definition day :: time where "day = 24 * hour"

lemmas time_units = second_def minute_def hour_def day_def

definition AddDays :: "time \<Rightarrow> int \<Rightarrow> time" where
  "AddDays t n = t + n * day"

definition der_time :: "time \<Rightarrow> time" where
  "der_time t = t div second * second"

lemma der_time_le: "der_time t \<le> t"
  by (simp add: der_time_def second_def)

lemma der_time_mono: "s \<le> t \<Longrightarrow> der_time s \<le> der_time t"
  by (simp add: der_time_def second_def zdiv_mono1)

lemma der_time_idem [simp]: "der_time (der_time t) = der_time t"
  by (simp add: der_time_def second_def)

section \<open>Keys and certificates\<close>

type_synonym keyAlgo = string
type_synonym certProfile = string

definition algoRSA2048 :: keyAlgo where "algoRSA2048 = ''rsa2048''"
definition algoRSA4096 :: keyAlgo where "algoRSA4096 = ''rsa4096''"
definition algoECP256 :: keyAlgo where "algoECP256 = ''ecp256''"
definition algoECP384 :: keyAlgo where "algoECP384 = ''ecp384''"

definition profileServer :: certProfile where "profileServer = ''server''"
definition profileClient :: certProfile where "profileClient = ''client''"
definition profileBoth :: certProfile where "profileBoth = ''both''"
definition profileCode :: certProfile where "profileCode = ''code''"
definition profileEmail :: certProfile where "profileEmail = ''email''"

lemmas algo_defs = algoRSA2048_def algoRSA4096_def algoECP256_def algoECP384_def
lemmas profile_defs = profileServer_def profileClient_def profileBoth_def profileCode_def profileEmail_def

text \<open>A public key is an identity with its size; its private key is named by it.\<close>

datatype pubkey = RSAKey nat nat | ECKey string nat | OtherKey nat

datatype privkey = Private (public: pubkey)

fun is_rsa :: "pubkey \<Rightarrow> bool" where
  "is_rsa (RSAKey _ _) = True"
| "is_rsa _ = False"

fun rsa_bits :: "pubkey \<Rightarrow> nat" where
  "rsa_bits (RSAKey _ b) = b"
| "rsa_bits _ = 0"

record name =
  CommonName :: string
  Organization :: "string list"
  Country :: "string list"
  OtherRDNs :: "string list"
  Names :: "string list"

definition KeyUsageDigitalSignature :: int where "KeyUsageDigitalSignature = 1"
definition KeyUsageContentCommitment :: int where "KeyUsageContentCommitment = 2"
definition KeyUsageKeyEncipherment :: int where "KeyUsageKeyEncipherment = 4"
definition KeyUsageCertSign :: int where "KeyUsageCertSign = 32"
definition KeyUsageCRLSign :: int where "KeyUsageCRLSign = 64"

lemmas ku_defs = KeyUsageDigitalSignature_def KeyUsageContentCommitment_def KeyUsageKeyEncipherment_def
  KeyUsageCertSign_def KeyUsageCRLSign_def

datatype ext_key_usage = ServerAuth | ClientAuth | CodeSigning | EmailProtection

text \<open>
  An \<open>x509.Certificate\<close>. Its DER is identified with the certificate it parses to, and
  \<open>SignedBy\<close> is the key its signature verifies under.
\<close>

record xcert =
  SerialNumber :: nat
  Subject :: name
  NotBefore :: time
  NotAfter :: time
  IsCA :: bool
  MaxPathLenZero :: bool
  KeyUsage :: int
  ExtKeyUsage :: "ext_key_usage list"
  DNSNames :: "string list"
  IPAddresses :: "addr list"
  EmailAddresses :: "string list"
  URIs :: "string list"
  PublicKey :: pubkey
  SignedBy :: pubkey

text \<open>
  \<open>x509.CreateCertificate\<close>: refuses a key that does not match the parent's certificate, and
  writes times in whole seconds.
\<close>

definition CreateCertificate :: "xcert \<Rightarrow> xcert \<Rightarrow> pubkey \<Rightarrow> privkey \<Rightarrow> xcert result" where
  "CreateCertificate tmpl parent pub key =
     (if public key \<noteq> PublicKey parent then Inl ''x509: provided PrivateKey does not match parent'' else
      Inr (tmpl\<lparr>NotBefore := der_time (NotBefore tmpl), NotAfter := der_time (NotAfter tmpl),
        PublicKey := pub, SignedBy := public key\<rparr>))"

text \<open>A certificate file: PEM blocks, each of which may hold no certificate, and other text.\<close>

datatype pem_item = Block "xcert option" | Junk

type_synonym certpem = "pem_item list"

definition encodeCertPEM :: "xcert \<Rightarrow> certpem" where
  "encodeCertPEM c = [Block (Some c)]"

fun pem_Decode :: "certpem \<Rightarrow> (xcert option \<times> certpem) option" where
  "pem_Decode [] = None"
| "pem_Decode (Junk # is) = pem_Decode is"
| "pem_Decode (Block c # is) = Some (c, is)"

text \<open>
  A certificate request as \<open>x509.ParseCertificateRequest\<close> presents it. An extension carries what
  \<open>asn1.Unmarshal\<close> reads from its value at each type the code asks for (\<open>None\<close>: it fails).
\<close>

record extension =
  ExtId :: "nat list"
  Critical :: bool
  sanView :: "(nat \<times> nat) option list option"
  isCAView :: "bool option"
  keyUsageView :: "bool list option"
  ekuView :: "nat list list option"

text \<open>
  An attribute of a request: its type and, of each of its values, the string that \<open>asn1.Unmarshal\<close> reads. The
  attributes of a request are what \<open>asn1.Unmarshal\<close> reads from its signed part.
\<close>

record attribute =
  atOID :: "nat list"
  atValues :: "string option list"

record csr =
  csrSubject :: name
  csrDNS :: "string list"
  csrIPs :: "addr list"
  csrEmails :: "string list"
  csrURIs :: "string list"
  csrPublicKey :: pubkey
  csrExtensions :: "extension list"
  csrSignedBy :: pubkey
  csrAttributes :: "attribute list option"
  csrRaw :: string

section \<open>Records kept by the store\<close>

record CertTemplate =
  tName :: string
  tDescription :: string
  tOrganization :: string
  tCountry :: string
  tAlgo :: keyAlgo
  tValidDays :: int
  tMaxDays :: int
  tAllowedAlgos :: "keyAlgo list"
  tAllowedIssuers :: "string list"
  tProfile :: certProfile
  tBuiltin :: bool
  tCreatedAt :: time

definition noTemplate :: CertTemplate where
  "noTemplate = \<lparr>tName = [], tDescription = [], tOrganization = [], tCountry = [], tAlgo = [], tValidDays = 0,
     tMaxDays = 0, tAllowedAlgos = [], tAllowedIssuers = [], tProfile = [], tBuiltin = False, tCreatedAt = 0\<rparr>"

record DevicePush =
  pTarget :: string
  pCertID :: string
  pAdmin :: string
  pTime :: time
  pOutcome :: string

record CertRecord =
  rSerial :: string
  rCommonName :: string
  rKind :: string
  rIssuerID :: string
  rCAID :: string
  rAllowSubCA :: bool
  rNotBefore :: time
  rNotAfter :: time
  rHasKey :: bool
  rKeyEnc :: bool
  rCreatedAt :: time
  rTemplateName :: string
  rTemplatePolicy :: CertTemplate
  rProvenance :: string
  rPushes :: "DevicePush list"

definition noRecord :: CertRecord where
  "noRecord = \<lparr>rSerial = [], rCommonName = [], rKind = [], rIssuerID = [], rCAID = [], rAllowSubCA = False,
     rNotBefore = 0, rNotAfter = 0, rHasKey = False, rKeyEnc = False, rCreatedAt = 0, rTemplateName = [],
     rTemplatePolicy = noTemplate, rProvenance = [], rPushes = []\<rparr>"

definition caRoot :: string where "caRoot = ''root''"
definition caIntermediate :: string where "caIntermediate = ''intermediate''"

lemmas ca_kinds = caRoot_def caIntermediate_def

text \<open>The enrollment journal \<open>scep.json\<close>.\<close>

record scepIssuance =
  iUsed :: time
  iTransaction :: string
  iRequestHash :: string
  iSignerHash :: string
  iDER :: "xcert option"
  iRecord :: CertRecord
  iPublished :: bool

definition noIssuance :: scepIssuance where
  "noIssuance = \<lparr>iUsed = 0, iTransaction = [], iRequestHash = [], iSignerHash = [], iDER = None,
     iRecord = noRecord, iPublished = False\<rparr>"

record scepChallenge =
  cHash :: string
  cCA :: string
  cProfile :: CertTemplate
  cDNS :: "string list"
  cIPs :: "addr list"
  cDays :: int
  cExpires :: time
  cRevoked :: bool
  cIssuance :: scepIssuance

record scepSharedIssuance =
  sIssuance :: scepIssuance
  sIdentity :: string
  sSource :: addr

record scepSharedChallenge =
  hHash :: string
  hCA :: string
  hProfile :: CertTemplate
  hRanges :: "prefix list"
  hSuffixes :: "string list"
  hDays :: int
  hExpires :: time
  hCreated :: time
  hRevoked :: bool
  hIssuances :: "scepSharedIssuance list"

record scepState =
  stCA :: string
  stAllowDES :: bool
  stChallenges :: "scepChallenge list"
  stShared :: "scepSharedChallenge list"

definition noSCEP :: scepState where
  "noSCEP = \<lparr>stCA = [], stAllowDES = False, stChallenges = [], stShared = []\<rparr>"

text \<open>The device inventory and the certificate definitions.\<close>

record DeviceCert =
  dcCertID :: string
  dcSubject :: string
  dcIssuer :: string
  dcNotBefore :: time
  dcNotAfter :: time
  dcFingerprint :: string

record DeviceSnapshot =
  snTaken :: time
  snCerts :: "DeviceCert list"
  snServed :: "DeviceCert option"

record deviceCreds =
  dcUsername :: string
  dcPassword :: string

text \<open>
  An AES-GCM message: sealed under a key and a nonce, other bytes, or fewer than a nonce.
  It opens under the key it was sealed with and no other.
\<close>

datatype ('k, 'p) sealed = Sealed 'k string 'p | NotSealed | TooShort

record Device =
  dID :: string
  dName :: string
  dFQDN :: string
  dManagementIP :: string
  dPort :: int
  dPlatform :: string
  dSite :: string
  dTags :: "string list"
  dNotes :: string
  dModel :: string
  dSerial :: string
  dPin :: string
  dPinAddress :: string
  dCredentials :: "(string, deviceCreds option) sealed option"
  dSnapshot :: "DeviceSnapshot option"
  dCreated :: time
  dUpdated :: time

record CertDefinition =
  fID :: string
  fName :: string
  fCAID :: string
  fProfile :: string
  fCountry :: string
  fState :: string
  fOrganization :: string
  fCity :: string
  fOU :: string
  fValidDays :: int
  fCertID :: string
  fCommonName :: string
  fDNSSANs :: "string list"
  fIPSANs :: "string list"
  fExtraSANs :: "string list"
  fCNSource :: string
  fCreated :: time
  fUpdated :: time

record User =
  uUsername :: string
  uRole :: string
  uPasswordHash :: string
  uCreatedAt :: time

section \<open>The store\<close>

text \<open>
  A key file: PKCS#8 in a plain PEM block, or wrapped by the program: salt, nonce and an
  AES-GCM message under the key that PBKDF2 derives from passphrase, salt and iterations.
\<close>

datatype dkey = PBKDF2 string string nat

datatype der_key = PKCS8 privkey | NotSigner | NotPKCS8

record keyblock =
  kType :: string
  kHeaders :: "(string \<times> string) list"
  kSalt :: string
  kNonce :: string
  kPlain :: der_key
  kCipher :: "(dkey, der_key) sealed"

type_synonym keypem = "keyblock option"

record ca_dir =
  caCert :: "certpem option"
  caKey :: "keypem option"

record unlockedCA =
  ucert :: xcert
  ukey :: privkey
  passFile :: bool
  saveErr :: "error option"

record trash_entry =
  trIndex :: "CertRecord list"
  trCAs :: "string \<Rightarrow> ca_dir option"
  trCerts :: "string \<Rightarrow> certpem option"
  trKeys :: "string \<Rightarrow> keypem option"
  trSecrets :: "string \<Rightarrow> string option"

datatype disk_fault = NoFault | Failed | FailedLate

record store =
  disk :: "disk_fault list"
  cas :: "string \<Rightarrow> ca_dir option"
  certs :: "string \<Rightarrow> certpem option"
  keys :: "string \<Rightarrow> keypem option"
  index :: "CertRecord list"
  templates :: "CertTemplate list"
  scep :: scepState
  devices :: "Device list"
  definitions :: "CertDefinition list"
  users :: "User list"
  secrets :: "string \<Rightarrow> string option"
  trashed :: "trash_entry list"
  unlocked :: "string \<Rightarrow> unlockedCA option"
  deviceKey :: string

definition empty_store :: store where
  "empty_store = \<lparr>disk = [], cas = (\<lambda>_. None), certs = (\<lambda>_. None), keys = (\<lambda>_. None), index = [],
     templates = [], scep = noSCEP, devices = [], definitions = [], users = [], secrets = (\<lambda>_. None),
     trashed = [], unlocked = (\<lambda>_. None), deviceKey = []\<rparr>"

type_synonym 'a sop = "(store, 'a) op"

text \<open>One access of the disk, with the outcome taken from the list of faults.\<close>

definition io :: "(store \<Rightarrow> store) \<Rightarrow> unit sop" where
  "io f = (\<lambda>s. case disk s of
       [] \<Rightarrow> (Inr (), f s)
     | NoFault # fs \<Rightarrow> (Inr (), f (s\<lparr>disk := fs\<rparr>))
     | Failed # fs \<Rightarrow> (Inl ''input/output error'', s\<lparr>disk := fs\<rparr>)
     | FailedLate # fs \<Rightarrow> (Inl ''input/output error'', f (s\<lparr>disk := fs\<rparr>)))"

definition readE :: "(store \<Rightarrow> 'a) \<Rightarrow> 'a sop" where
  "readE f = thenE (io id) (gets f)"

lemma preserves_io:
  assumes "\<And>s. I s \<Longrightarrow> I (f s)" and "\<And>s fs. I s \<Longrightarrow> I (s\<lparr>disk := fs\<rparr>)"
  shows "preserves I (io f)"
  using assms by (auto simp: preserves_def io_def split: list.splits disk_fault.splits)

lemma preserves_readE [keeps]:
  assumes "\<And>s fs. I s \<Longrightarrow> I (s\<lparr>disk := fs\<rparr>)"
  shows "preserves I (readE f)"
  unfolding readE_def by (intro keeps preserves_io) (simp_all add: assms)

text \<open>Whatever happens to an access, its effect took place in full or not at all.\<close>

lemma io_cases:
  assumes "io f s = (r, t)"
  obtains fs where "r = Inr ()" "t = f (s\<lparr>disk := fs\<rparr>)"
  | fs e where "r = Inl e" "t = s\<lparr>disk := fs\<rparr>"
  | fs e where "r = Inl e" "t = f (s\<lparr>disk := fs\<rparr>)"
proof -
  have same: "s\<lparr>disk := disk s\<rparr> = s" by simp
  from assms that show ?thesis
    by (auto simp: io_def split: list.splits disk_fault.splits) (metis same)
qed

lemma readE_Inr_iff: "readE f s = (Inr x, t) \<longleftrightarrow> (\<exists>fs. io id s = (Inr (), s\<lparr>disk := fs\<rparr>) \<and> t = s\<lparr>disk := fs\<rparr> \<and> x = f t)"
proof -
  have same: "s\<lparr>disk := disk s\<rparr> = s" by simp
  show ?thesis
    by (auto simp: readE_def op_simps io_def split: list.splits disk_fault.splits) (metis same)+
qed

section \<open>One file of the store\<close>

text \<open>
  The interface every component has to its file: reading gives its content, writing replaces it
  and nothing is said of the faults. A component's state predicate \<open>P\<close> over the content is kept by
  a read-modify-write cycle when the new content satisfies it whenever the old one does.
\<close>

locale stored =
  fixes get :: "store \<Rightarrow> 'a" and put :: "'a \<Rightarrow> store \<Rightarrow> store"
  assumes get_put [simp]: "get (put x s) = x"
    and get_disk [simp]: "get (s\<lparr>disk := fs\<rparr>) = get s"
begin

lemma load_Inr:
  assumes "readE get s = (Inr x, t)"
  shows "x = get s \<and> get t = get s"
  using assms by (auto simp: readE_Inr_iff)

lemma load_keeps: "get (snd (readE f s)) = get s"
  by (simp add: readE_def op_simps io_def split: list.splits disk_fault.splits)

lemma save_Inr:
  assumes "io (put x) s = (Inr (), t)"
  shows "get t = x"
  using assms by (rule io_cases) auto

lemma save_cases:
  assumes "io (put x) s = (r, t)"
  shows "get t = x \<or> get t = get s \<and> r \<noteq> Inr ()"
  using assms by (rule io_cases) auto

lemma preserves_save: "P x \<Longrightarrow> preserves (\<lambda>s. P (get s)) (io (put x))"
  by (rule preserves_io) simp_all

lemma preserves_load: "preserves (\<lambda>s. P (get s)) (readE f)"
  by (rule preserves_readE) simp

lemma preserves_cycle:
  assumes "\<And>x. P x \<Longrightarrow> preserves (\<lambda>s. P (get s)) (f x)"
  shows "preserves (\<lambda>s. P (get s)) (bindE (readE get) f)"
proof (rule preservesI)
  fix s assume P: "P (get s)"
  obtain r t where rt: "readE get s = (r, t)" by (cases "readE get s")
  have t: "get t = get s" using load_keeps [of get s] rt by simp
  show "P (get (snd (bindE (readE get) f s)))"
  proof (cases r)
    case (Inl e)
    with rt P t show ?thesis by (simp add: bindE_Inl)
  next
    case (Inr x)
    with rt load_Inr have "x = get s" by blast
    with assms [of x] P have "preserves (\<lambda>s. P (get s)) (f x)" by simp
    with rt Inr P t show ?thesis by (simp add: bindE_Inr preserves_def)
  qed
qed

end

interpretation index_file: stored index "\<lambda>x s. s\<lparr>index := x\<rparr>" by unfold_locales simp_all
interpretation template_file: stored templates "\<lambda>x s. s\<lparr>templates := x\<rparr>" by unfold_locales simp_all
interpretation scep_file: stored scep "\<lambda>x s. s\<lparr>scep := x\<rparr>" by unfold_locales simp_all
interpretation device_file: stored devices "\<lambda>x s. s\<lparr>devices := x\<rparr>" by unfold_locales simp_all
interpretation definition_file: stored definitions "\<lambda>x s. s\<lparr>definitions := x\<rparr>" by unfold_locales simp_all
interpretation user_file: stored users "\<lambda>x s. s\<lparr>users := x\<rparr>" by unfold_locales simp_all

end
