(* ===== verification/Keycrypt.thy ===== *)
theory Keycrypt
  imports Model
begin

text \<open>
  Private keys at rest: \<open>keycrypt.go\<close>, the keys of \<open>ca.go\<close> and the keyring of \<open>ca_unlock.go\<close>. AES-GCM and PBKDF2 are ideal: a message opens under the key and nonce it was
  sealed with, and passphrase, salt and iterations determine the derived key and nothing else does.
  Random bytes are arguments.
\<close>

definition plainKeyType :: string where "plainKeyType = ''PRIVATE KEY''"
definition encKeyType :: string where "encKeyType = ''NETANCHOR ENCRYPTED KEY''"
definition pbkdf2Iter :: nat where "pbkdf2Iter = 600000"

definition errPassphraseRequired :: error where
  "errPassphraseRequired = ''this key is passphrase-protected; please provide the passphrase''"

definition marshalKey :: "string \<Rightarrow> string \<Rightarrow> privkey \<Rightarrow> string \<Rightarrow> keypem" where
  "marshalKey salt nonce key passphrase =
     (if passphrase = [] then
        Some \<lparr>kType = plainKeyType, kHeaders = [], kSalt = [], kNonce = [], kPlain = PKCS8 key, kCipher = NotSealed\<rparr>
      else
        Some \<lparr>kType = encKeyType,
          kHeaders = [(''KDF'', ''PBKDF2-SHA256''), (''Iterations'', Itoa pbkdf2Iter), (''Cipher'', ''AES-256-GCM'')],
          kSalt = salt, kNonce = nonce, kPlain = NotPKCS8,
          kCipher = Sealed (PBKDF2 passphrase salt pbkdf2Iter) nonce (PKCS8 key)\<rparr>)"

definition header :: "keyblock \<Rightarrow> string \<Rightarrow> string" where
  "header b k = (case map_of (kHeaders b) k of None \<Rightarrow> [] | Some v \<Rightarrow> v)"

definition decryptKey :: "keyblock \<Rightarrow> string \<Rightarrow> der_key result" where
  "decryptKey b passphrase =
     (let iter = (case ParseInt (header b ''Iterations'') of
            None \<Rightarrow> pbkdf2Iter | Some n \<Rightarrow> if n \<le> 0 then pbkdf2Iter else nat n);
          gcm = PBKDF2 passphrase (kSalt b) iter in
      case kCipher b of
        TooShort \<Rightarrow> Inl ''encrypted key is malformed''
      | NotSealed \<Rightarrow> Inl ''could not decrypt key (wrong passphrase?)''
      | Sealed k nonce plain \<Rightarrow>
          if k = gcm \<and> nonce = kNonce b then Inr plain else Inl ''could not decrypt key (wrong passphrase?)'')"

definition unmarshalKey :: "keypem \<Rightarrow> string \<Rightarrow> privkey result" where
  "unmarshalKey pem passphrase =
     (case pem of
        None \<Rightarrow> Inl ''invalid private key PEM''
      | Some b \<Rightarrow>
          bindR (if kType b = encKeyType then
                   (if passphrase = [] then Inl errPassphraseRequired else decryptKey b passphrase)
                 else Inr (kPlain b)) (\<lambda>der.
            case der of
              NotPKCS8 \<Rightarrow> Inl ''x509: failed to parse private key''
            | NotSigner \<Rightarrow> Inl ''key is not a usable signer''
            | PKCS8 key \<Rightarrow> Inr key))"

definition isEncryptedKeyPEM :: "keypem \<Rightarrow> bool" where
  "isEncryptedKeyPEM pem = (case pem of None \<Rightarrow> False | Some b \<Rightarrow> kType b = encKeyType)"

text \<open>Generated keys: the random modulus or point is an argument.\<close>

definition generateKey :: "nat \<Rightarrow> keyAlgo \<Rightarrow> privkey result" where
  "generateKey r algo =
     (if algo = algoRSA2048 then Inr (Private (RSAKey r 2048))
      else if algo = algoRSA4096 then Inr (Private (RSAKey r 4096))
      else if algo = algoECP256 then Inr (Private (ECKey ''P-256'' r))
      else if algo = algoECP384 then Inr (Private (ECKey ''P-384'' r))
      else Inl (''unknown key algorithm '' @ quoted algo))"

section \<open>The keyring and the passphrase files\<close>

definition keyring_get :: "store \<Rightarrow> string \<Rightarrow> unlockedCA option" where
  "keyring_get s ca = unlocked s ca"

definition keyring_put :: "string \<Rightarrow> unlockedCA \<Rightarrow> store \<Rightarrow> store" where
  "keyring_put ca u s = s\<lparr>unlocked := (unlocked s)(ca := Some u)\<rparr>"

definition keyring_drop :: "string \<Rightarrow> store \<Rightarrow> store" where
  "keyring_drop ca s = s\<lparr>unlocked := (unlocked s)(ca := None)\<rparr>"

definition LoadCACertPEM :: "store \<Rightarrow> string \<Rightarrow> certpem option" where
  "LoadCACertPEM s ca = Option.bind (cas s ca) caCert"

definition LoadCAKeyPEM :: "store \<Rightarrow> string \<Rightarrow> keypem option" where
  "LoadCAKeyPEM s ca = Option.bind (cas s ca) caKey"

definition CAKeyEncrypted :: "store \<Rightarrow> string \<Rightarrow> bool" where
  "CAKeyEncrypted s ca = (case LoadCAKeyPEM s ca of None \<Rightarrow> False | Some pem \<Rightarrow> isEncryptedKeyPEM pem)"

definition CALocked :: "store \<Rightarrow> string \<Rightarrow> bool" where
  "CALocked s ca \<longleftrightarrow> keyring_get s ca = None \<and> CAKeyEncrypted s ca"

text \<open>\<open>loadCA\<close>: an unlocked CA needs no passphrase.\<close>

definition loadCA :: "store \<Rightarrow> string \<Rightarrow> string \<Rightarrow> (xcert \<times> privkey) result" where
  "loadCA s ca passphrase =
     (case (keyring_get s ca, passphrase) of
        (Some u, []) \<Rightarrow> Inr (ucert u, ukey u)
      | _ \<Rightarrow>
        (case LoadCACertPEM s ca of
           None \<Rightarrow> Inl (''loading '' @ ca @ '' CA certificate: file does not exist'')
         | Some pem \<Rightarrow>
           (case pem_Decode pem of
              None \<Rightarrow> Inl (ca @ '' CA certificate PEM is invalid'')
            | Some (None, _) \<Rightarrow> Inl ''x509: malformed certificate''
            | Some (Some cert, _) \<Rightarrow>
              (case LoadCAKeyPEM s ca of
                 None \<Rightarrow> Inl (''loading '' @ ca @ '' CA key: file does not exist'')
               | Some kpem \<Rightarrow> bindR (unmarshalKey kpem passphrase) (\<lambda>key. Inr (cert, key))))))"

definition savePassphrase :: "string \<Rightarrow> string \<Rightarrow> unit sop" where
  "savePassphrase ca passphrase =
     (if HasSuffix passphrase [LF] \<or> HasSuffix passphrase [CR]
      then throw ''passphrase ends in a line break, which the file format cannot keep''
      else thenE (io (\<lambda>s. s)) (io (\<lambda>s. s\<lparr>secrets := (secrets s)(ca := Some passphrase)\<rparr>)))"

definition keepUnlocked :: "string \<Rightarrow> xcert \<Rightarrow> privkey \<Rightarrow> string \<Rightarrow> unit sop" where
  "keepUnlocked ca cert key passphrase =
     (\<lambda>s. case savePassphrase ca passphrase s of (r, s') \<Rightarrow>
        (Inr (), keyring_put ca \<lparr>ucert = cert, ukey = key, passFile = True,
            saveErr = (case r of Inl e \<Rightarrow> Some e | Inr _ \<Rightarrow> None)\<rparr> s'))"

text \<open>
  \<open>unlockSecrets\<close> at startup: for each listed CA in turn, its passphrase file with the line
  breaks at its end removed.
\<close>

definition is_crlf :: "char \<Rightarrow> bool" where
  "is_crlf c \<longleftrightarrow> c = CR \<or> c = LF"

definition unlockOne :: "(string \<Rightarrow> string option) \<Rightarrow> string \<Rightarrow> store \<Rightarrow> store" where
  "unlockOne files ca s =
     (if \<not> CAKeyEncrypted s ca then s
      else case files ca of
          None \<Rightarrow> s
        | Some b \<Rightarrow>
            (case loadCA s ca (TrimRight is_crlf b) of
               Inl _ \<Rightarrow> s
             | Inr (cert, key) \<Rightarrow> keyring_put ca \<lparr>ucert = cert, ukey = key, passFile = False, saveErr = None\<rparr> s))"

definition unlockSecrets :: "string list \<Rightarrow> (string \<Rightarrow> string option) \<Rightarrow> store \<Rightarrow> store" where
  "unlockSecrets ids files s = fold (unlockOne files) ids s"

section \<open>Keys at rest\<close>

lemma unmarshal_marshal:
  "unmarshalKey (marshalKey salt nonce key p) q =
     (if p = [] then Inr key
      else if q = [] then Inl errPassphraseRequired
      else if q = p then Inr key
      else Inl ''could not decrypt key (wrong passphrase?)'')"
proof -
  have "plainKeyType \<noteq> encKeyType" by (simp add: plainKeyType_def encKeyType_def)
  moreover have "ParseInt (Itoa pbkdf2Iter) = Some (int pbkdf2Iter)"
    by (rule ParseInt_Itoa) (simp add: pbkdf2Iter_def)
  ultimately show ?thesis
    by (simp add: unmarshalKey_def marshalKey_def decryptKey_def header_def Let_def)
qed

text \<open>
  A key comes back from the file it was written to with the passphrase it was written with; a
  protected key asks for a passphrase and does not open with another one.
\<close>

lemma key_roundtrip:
  "unmarshalKey (marshalKey salt nonce key p) q =
     (if p = [] then Inr key
      else if q = [] then Inl errPassphraseRequired
      else if q = p then Inr key
      else Inl ''could not decrypt key (wrong passphrase?)'')"
  by (rule unmarshal_marshal)

end
