(* ===== verification/Templates.thy ===== *)
theory Templates
  imports Model
begin

text \<open>
  Certificate templates and the issuance policy: \<open>certtemplates.go\<close>, \<open>profile_policy.go\<close> and the
  template part of \<open>store.go\<close>. A template that the store keeps is well formed and its name is
  unique among templates and built-ins without regard to case; the two policy checks accept
  exactly what their specifications say.
\<close>

section \<open>Templates\<close>

definition all_algos :: "keyAlgo list" where
  "all_algos = [algoRSA2048, algoRSA4096, algoECP256, algoECP384]"

definition all_profiles :: "certProfile list" where
  "all_profiles = [profileServer, profileClient, profileBoth, profileCode, profileEmail]"

definition builtin :: "string \<Rightarrow> string \<Rightarrow> certProfile \<Rightarrow> int \<Rightarrow> int \<Rightarrow> CertTemplate" where
  "builtin name description profile valid max_days = noTemplate\<lparr>tName := name, tDescription := description,
     tProfile := profile, tAlgo := algoECP256, tValidDays := valid, tMaxDays := max_days,
     tAllowedAlgos := all_algos, tBuiltin := True\<rparr>"

definition builtinTemplates :: "CertTemplate list" where
  "builtinTemplates = [
     builtin ''TLS-Server'' ''TLS server'' profileServer 90 365,
     builtin ''TLS-Client'' ''TLS client (device/service)'' profileClient 365 730,
     builtin ''Server-Client'' ''TLS server and client'' profileBoth 90 365,
     builtin ''Code-Signing'' ''Code signing'' profileCode 365 1095,
     builtin ''S-MIME'' ''S/MIME email'' profileEmail 365 730]"

definition builtinByName :: "string \<Rightarrow> CertTemplate option" where
  "builtinByName name = find (\<lambda>t. EqualFold (tName t) name) builtinTemplates"

definition validTemplateName :: "string \<Rightarrow> bool" where
  "validTemplateName name \<longleftrightarrow> name \<noteq> [] \<and> length name \<le> 64 \<and>
     list_all (\<lambda>c. is_alnum c \<or> c = CHR ''-'' \<or> c = CHR ''_'') name"

text \<open>The loop over the allowed algorithms, with the map of those seen.\<close>

fun check_algos :: "keyAlgo set \<Rightarrow> keyAlgo list \<Rightarrow> keyAlgo set result" where
  "check_algos seen [] = Inr seen"
| "check_algos seen (a # rest) =
     (if a \<notin> set all_algos then Inl ''unsupported allowed key algorithm''
      else if a \<in> seen then Inl ''duplicate allowed key algorithm''
      else check_algos (insert a seen) rest)"

definition normalize :: "CertTemplate \<Rightarrow> CertTemplate result" where
  "normalize t0 =
     (let t = t0\<lparr>tName := TrimSpace (tName t0)\<rparr> in
      if \<not> validTemplateName (tName t) then Inl ''name must be 1-64 chars: letters, digits, - or _''
      else if tAlgo t \<notin> set all_algos then Inl ''choose a supported default key algorithm''
      else if tProfile t \<notin> set all_profiles then Inl ''choose a supported certificate purpose''
      else if tValidDays t \<le> 0 \<or> tMaxDays t \<le> 0 then Inl ''default and maximum validity must be positive''
      else if tValidDays t > tMaxDays t then Inl ''default validity cannot exceed maximum validity''
      else if tAllowedAlgos t = [] then Inl ''select at least one allowed key algorithm''
      else bindR (check_algos {} (tAllowedAlgos t)) (\<lambda>seen.
        if tAlgo t \<notin> seen then Inl ''default key algorithm must be allowed by the template''
        else bindR (map_all (\<lambda>id. if TrimSpace id = [] then Inl ''issuer IDs cannot be empty''
              else Inr (TrimSpace id)) (tAllowedIssuers t)) (\<lambda>ids.
        Inr (t\<lparr>tAllowedIssuers := ids\<rparr>))))"

text \<open>What a normalized template satisfies.\<close>

definition wf_template :: "CertTemplate \<Rightarrow> bool" where
  "wf_template t \<longleftrightarrow> validTemplateName (tName t) \<and> tProfile t \<in> set all_profiles \<and>
     0 < tValidDays t \<and> tValidDays t \<le> tMaxDays t \<and>
     distinct (tAllowedAlgos t) \<and> set (tAllowedAlgos t) \<subseteq> set all_algos \<and> tAlgo t \<in> set (tAllowedAlgos t) \<and>
     (\<forall>id \<in> set (tAllowedIssuers t). id \<noteq> [] \<and> TrimSpace id = id)"

section \<open>Policy\<close>

definition serverAuth :: "certProfile \<Rightarrow> bool" where
  "serverAuth p \<longleftrightarrow> p = profileServer \<or> p = profileBoth"

definition extKeyUsage :: "certProfile \<Rightarrow> ext_key_usage list" where
  "extKeyUsage p =
     (if p = profileClient then [ClientAuth]
      else if p = profileBoth then [ServerAuth, ClientAuth]
      else if p = profileCode then [CodeSigning]
      else if p = profileEmail then [EmailProtection]
      else [ServerAuth])"

definition profileKeyUsage :: "certProfile \<Rightarrow> keyAlgo \<Rightarrow> int" where
  "profileKeyUsage p a =
     (let ku = KeyUsageDigitalSignature;
          ku = (if HasPrefix a ''rsa'' \<and> serverAuth p then ku OR KeyUsageKeyEncipherment else ku)
      in if p = profileCode then ku OR KeyUsageContentCommitment else ku)"

definition allowedAlgo :: "CertTemplate \<Rightarrow> keyAlgo \<Rightarrow> bool" where
  "allowedAlgo t a \<longleftrightarrow> a \<in> set (tAllowedAlgos t)"

fun publicKeyAlgo :: "pubkey \<Rightarrow> keyAlgo option" where
  "publicKeyAlgo (RSAKey _ bits) =
     (if bits = 4096 then Some algoRSA4096 else if bits = 2048 then Some algoRSA2048 else None)"
| "publicKeyAlgo (ECKey curve _) =
     (if curve = ''P-256'' then Some algoECP256 else if curve = ''P-384'' then Some algoECP384 else None)"
| "publicKeyAlgo (OtherKey _) = None"

definition publicKeyAlgoValue :: "pubkey \<Rightarrow> keyAlgo" where
  "publicKeyAlgoValue pub = (case publicKeyAlgo pub of None \<Rightarrow> [] | Some a \<Rightarrow> a)"

fun validPublicKey :: "pubkey \<Rightarrow> unit result" where
  "validPublicKey (RSAKey _ bits) = checkR (\<not> bits < 2048) ''RSA key must be at least 2048 bits''"
| "validPublicKey (ECKey curve _) =
     checkR (\<not> (curve \<noteq> ''P-256'' \<and> curve \<noteq> ''P-384'')) ''unsupported or weak ECDSA curve''"
| "validPublicKey (OtherKey _) = Inl ''unsupported public-key algorithm''"

definition policyBasics :: "CertTemplate \<Rightarrow> string \<Rightarrow> int \<Rightarrow> unit result" where
  "policyBasics t issuer days =
     (if tProfile t \<notin> set all_profiles then Inl ''invalid certificate purpose''
      else if days < 1 \<or> days > tMaxDays t then Inl (''validity must be between 1 and '' @ show_int (tMaxDays t) @ '' days'')
      else if tAllowedIssuers t \<noteq> [] \<and> issuer \<notin> set (tAllowedIssuers t)
        then Inl ''selected issuer CA is not allowed by this template''
      else Inr ())"

definition validateIssuePolicy ::
  "CertTemplate \<Rightarrow> string \<Rightarrow> int \<Rightarrow> keyAlgo \<Rightarrow> string \<Rightarrow> string list \<Rightarrow> addr list \<Rightarrow> string list \<Rightarrow> string list \<Rightarrow> unit result" where
  "validateIssuePolicy t issuer days a cn dns ips emails uris =
     bindR (policyBasics t issuer days) (\<lambda>_.
       if \<not> allowedAlgo t a then Inl ''key algorithm is not allowed by this template''
       else if serverAuth (tProfile t) then
         checkR (\<not> (length dns + length ips = 0 \<or> length emails + length uris > 0)) ''this purpose requires DNS or IP SANs only''
       else if tProfile t = profileEmail then
         checkR (\<not> (length emails = 0 \<or> length dns + length ips + length uris > 0)) ''S/MIME requires email SANs only''
       else if tProfile t = profileClient then
         checkR (TrimSpace cn \<noteq> []) ''client identity is required''
       else if tProfile t = profileCode then
         (if TrimSpace cn = [] then Inl ''subject identity is required''
          else checkR (\<not> length dns + length ips + length emails + length uris > 0) ''code signing does not permit SANs'')
       else Inr ())"

definition ekuOID :: "ext_key_usage \<Rightarrow> nat list" where
  "ekuOID u = [1, 3, 6, 1, 5, 5, 7, 3] @
     (case u of ServerAuth \<Rightarrow> [1] | ClientAuth \<Rightarrow> [2] | CodeSigning \<Rightarrow> [3] | EmailProtection \<Rightarrow> [4])"

definition ekuAllowed :: "certProfile \<Rightarrow> nat list \<Rightarrow> bool" where
  "ekuAllowed p oid \<longleftrightarrow> oid \<in> set (
     if p = profileServer then [ekuOID ServerAuth]
     else if p = profileClient then [ekuOID ClientAuth]
     else if p = profileBoth then [ekuOID ServerAuth, ekuOID ClientAuth]
     else if p = profileCode then [ekuOID CodeSigning]
     else if p = profileEmail then [ekuOID EmailProtection]
     else [])"

definition bit_At :: "bool list \<Rightarrow> nat \<Rightarrow> bool" where
  "bit_At bs i \<longleftrightarrow> i < length bs \<and> bs ! i"

text \<open>One extension of a certificate request, then the loop with the map of those seen.\<close>

definition check_extension :: "certProfile \<Rightarrow> extension \<Rightarrow> unit result" where
  "check_extension p e =
     (if ExtId e = [2, 5, 29, 17] then
        (case sanView e of
           None \<Rightarrow> Inl ''CSR contains malformed subject alternative names''
         | Some sans \<Rightarrow> check_all (\<lambda>san. checkR (case san of None \<Rightarrow> False
               | Some (class, tag) \<Rightarrow> class = 2 \<and> tag \<in> {1, 2, 6, 7}) ''CSR requests an unsupported SAN type'') sans)
      else if ExtId e = [2, 5, 29, 19] then
        (case isCAView e of
           None \<Rightarrow> Inl ''CSR contains malformed basic constraints''
         | Some ca \<Rightarrow> checkR (\<not> ca) ''CSR requests CA privileges'')
      else if ExtId e = [2, 5, 29, 15] then
        (case keyUsageView e of
           None \<Rightarrow> Inl ''CSR contains malformed key usage''
         | Some ku \<Rightarrow>
             if bit_At ku 5 \<or> bit_At ku 6 then Inl ''CSR requests CA key usages''
             else checkR (bit_At ku 0) ''CSR key usage conflicts with leaf signing policy'')
      else if ExtId e = [2, 5, 29, 37] then
        (case ekuView e of
           None \<Rightarrow> Inl ''CSR contains malformed extended key usage''
         | Some ekus \<Rightarrow> check_all (\<lambda>oid. checkR (ekuAllowed p oid)
             ''CSR requests extended key usage conflicting with selected purpose'') ekus)
      else checkR (\<not> Critical e) ''CSR contains a critical extension that cannot be safely honored'')"

fun check_extensions :: "certProfile \<Rightarrow> nat list set \<Rightarrow> extension list \<Rightarrow> unit result" where
  "check_extensions p seen [] = Inr ()"
| "check_extensions p seen (e # es) =
     (if ExtId e \<in> seen then Inl ''CSR contains duplicate extensions''
      else bindR (check_extension p e) (\<lambda>_. check_extensions p (insert (ExtId e) seen) es))"

definition validateCSRPolicy :: "csr \<Rightarrow> CertTemplate \<Rightarrow> string \<Rightarrow> int \<Rightarrow> unit result" where
  "validateCSRPolicy c t issuer days =
     bindR (policyBasics t issuer days) (\<lambda>_.
     bindR (validPublicKey (csrPublicKey c)) (\<lambda>_.
     bindR (check_extensions (tProfile t) {} (csrExtensions c)) (\<lambda>_.
       let dns = length (csrDNS c); ips = length (csrIPs c); emails = length (csrEmails c); uris = length (csrURIs c) in
       if serverAuth (tProfile t) then
         checkR (\<not> (dns + ips = 0 \<or> emails + uris > 0)) ''this purpose requires DNS or IP SANs only''
       else if tProfile t = profileEmail then
         checkR (\<not> (emails = 0 \<or> dns + ips + uris > 0)) ''S/MIME requires email SANs only''
       else if tProfile t = profileClient then
         checkR (\<not> (CommonName (csrSubject c) = [] \<and> Names (csrSubject c) = [] \<and> dns + ips + emails + uris = 0))
           ''client identity is required''
       else if tProfile t = profileCode then
         (if CommonName (csrSubject c) = [] \<and> Names (csrSubject c) = [] then Inl ''subject identity is required''
          else checkR (\<not> dns + ips + emails + uris > 0) ''code signing does not permit SANs'')
       else Inr ())))"

section \<open>The template store\<close>

definition HasCA :: "store \<Rightarrow> string \<Rightarrow> bool" where
  "HasCA s ca = (case cas s ca of None \<Rightarrow> False | Some d \<Rightarrow> caCert d \<noteq> None)"

definition ValidSerial :: "string \<Rightarrow> bool" where
  "ValidSerial s \<longleftrightarrow> s \<noteq> [] \<and> list_all (\<lambda>c. is_digit c \<or> between CHR ''a'' CHR ''f'' c) s"

definition ValidCAID :: "store \<Rightarrow> string \<Rightarrow> bool" where
  "ValidCAID s ca =
     (if ca = caRoot \<or> ca = caIntermediate then HasCA s ca
      else if ValidSerial ca then HasCA s ca
      else False)"

definition migrateTemplate :: "CertTemplate \<Rightarrow> CertTemplate" where
  "migrateTemplate t0 =
     (let t = (if tMaxDays t0 = 0
                 then t0\<lparr>tMaxDays := foldl (\<lambda>m b. if tProfile b = tProfile t0 \<and> tMaxDays b > m then tMaxDays b else m)
                     (tValidDays t0) builtinTemplates\<rparr>
                 else t0)
      in if tAllowedAlgos t = [] then t\<lparr>tAllowedAlgos := all_algos\<rparr> else t)"

definition migrateTemplates :: "CertTemplate list \<Rightarrow> CertTemplate list" where
  "migrateTemplates ts = map migrateTemplate ts"

definition saveTemplates :: "CertTemplate list \<Rightarrow> unit sop" where
  "saveTemplates ts = io (\<lambda>s. s\<lparr>templates := ts\<rparr>)"

definition LoadTemplates :: "CertTemplate list sop" where
  "LoadTemplates = bindE (readE templates) (\<lambda>ts.
     let migrated = migrateTemplates ts in
     thenE (if migrated \<noteq> [] \<and> ts \<noteq> migrated then saveTemplates migrated else ret ())
       (ret migrated))"

definition validateTemplateIssuers :: "store \<Rightarrow> CertTemplate \<Rightarrow> unit result" where
  "validateTemplateIssuers s t =
     check_all (\<lambda>id. checkR (ValidCAID s id) (''issuer CA '' @ quoted id @ '' does not exist'')) (tAllowedIssuers t)"

definition GetTemplate :: "string \<Rightarrow> store \<Rightarrow> CertTemplate option \<times> store" where
  "GetTemplate name s =
     (if HasPrefix name ''builtin:'' then (builtinByName (TrimPrefix name ''builtin:''), s)
      else case LoadTemplates s of
          (Inl _, s') \<Rightarrow> (None, s')
        | (Inr ts, s') \<Rightarrow> (case find (\<lambda>t. EqualFold (tName t) name) ts of
              Some t \<Rightarrow> (Some t, s')
            | None \<Rightarrow> (builtinByName name, s')))"

definition AddTemplate :: "time \<Rightarrow> CertTemplate \<Rightarrow> unit sop" where
  "AddTemplate now t0 =
     bindE (liftE (normalize t0)) (\<lambda>t.
     thenE (\<lambda>s. (validateTemplateIssuers s t, s))
     (bindE LoadTemplates (\<lambda>ts.
       if builtinByName (tName t) \<noteq> None then throw ''built-in templates cannot be overwritten''
       else if \<exists>e \<in> set ts. EqualFold (tName e) (tName t) then throw ''a template with that name already exists''
       else saveTemplates (ts @ [t\<lparr>tCreatedAt := now\<rparr>]))))"

definition UpdateTemplate :: "string \<Rightarrow> CertTemplate \<Rightarrow> unit sop" where
  "UpdateTemplate name t0 =
     bindE (liftE (normalize (t0\<lparr>tName := name\<rparr>))) (\<lambda>t.
     thenE (\<lambda>s. (validateTemplateIssuers s t, s))
     (bindE LoadTemplates (\<lambda>ts.
       case replace_first (\<lambda>e. EqualFold (tName e) name) (\<lambda>e. t\<lparr>tCreatedAt := tCreatedAt e\<rparr>) ts of
         Some ts' \<Rightarrow> saveTemplates ts'
       | None \<Rightarrow> throw ''template not found'')))"

definition DeleteTemplate :: "string \<Rightarrow> unit sop" where
  "DeleteTemplate name =
     bindE LoadTemplates (\<lambda>ts.
       let kept = filter (\<lambda>t. \<not> EqualFold (tName t) name) ts in
       if length kept = length ts then throw ''template not found'' else saveTemplates kept)"

section \<open>Normalization\<close>

lemma check_algos_Inr:
  "check_algos seen xs = Inr seen' \<longleftrightarrow>
     distinct xs \<and> set xs \<subseteq> set all_algos \<and> set xs \<inter> seen = {} \<and> seen' = seen \<union> set xs"
  by (induction seen xs rule: check_algos.induct) auto

lemma issuers_Inr:
  "map_all (\<lambda>id. if TrimSpace id = [] then Inl e else Inr (TrimSpace id)) ids = Inr ids' \<longleftrightarrow>
     ids' = map TrimSpace ids \<and> (\<forall>id \<in> set ids. TrimSpace id \<noteq> [])"
  by (induction ids arbitrary: ids') auto

lemma validTemplateName_trimmed: "validTemplateName n \<Longrightarrow> TrimSpace n = n"
proof -
  assume "validTemplateName n"
  then have "list_all (\<lambda>c. \<not> is_space c) n"
    by (auto simp: validTemplateName_def list_all_iff char_defs)
  then show ?thesis by (rule TrimSpace_nospace)
qed

lemma normalize_Inr:
  "normalize t0 = Inr t \<longleftrightarrow>
     wf_template t \<and> t = t0\<lparr>tName := TrimSpace (tName t0), tAllowedIssuers := map TrimSpace (tAllowedIssuers t0)\<rparr>"
proof
  assume "normalize t0 = Inr t"
  then show "wf_template t \<and> t = t0\<lparr>tName := TrimSpace (tName t0), tAllowedIssuers := map TrimSpace (tAllowedIssuers t0)\<rparr>"
    unfolding normalize_def Let_def if_Inl_Inr_iff bindR_Inr_iff check_algos_Inr issuers_Inr wf_template_def
    apply (elim conjE exE)
    apply (drule Inr_inject)
    apply hypsubst
    apply (simp add: not_le not_less)
    done
next
  assume w: "wf_template t \<and> t = t0\<lparr>tName := TrimSpace (tName t0), tAllowedIssuers := map TrimSpace (tAllowedIssuers t0)\<rparr>"
  then have t: "t = t0\<lparr>tName := TrimSpace (tName t0), tAllowedIssuers := map TrimSpace (tAllowedIssuers t0)\<rparr>" ..
  from w have "wf_template (t0\<lparr>tName := TrimSpace (tName t0), tAllowedIssuers := map TrimSpace (tAllowedIssuers t0)\<rparr>)"
    by (simp only: t [symmetric] simp_thms)
  then have "validTemplateName (TrimSpace (tName t0))" "tProfile t0 \<in> set all_profiles"
      "0 < tValidDays t0" "tValidDays t0 \<le> tMaxDays t0" "distinct (tAllowedAlgos t0)"
      "set (tAllowedAlgos t0) \<subseteq> set all_algos" "tAlgo t0 \<in> set (tAllowedAlgos t0)"
      "\<forall>id \<in> set (tAllowedIssuers t0). TrimSpace id \<noteq> []"
    by (simp_all add: wf_template_def)
  then show "normalize t0 = Inr t"
    unfolding t normalize_def Let_def if_Inl_Inr_iff bindR_Inr_iff check_algos_Inr issuers_Inr
    by (auto simp: not_le not_less)
qed

lemma normalize_wf: "wf_template t \<Longrightarrow> normalize t = Inr t"
proof -
  assume t: "wf_template t"
  then have "TrimSpace (tName t) = tName t" "map TrimSpace (tAllowedIssuers t) = tAllowedIssuers t"
    by (auto simp: wf_template_def validTemplateName_trimmed map_idI)
  with t show ?thesis by (simp add: normalize_Inr)
qed

text \<open>
  The templates that \<open>normalize\<close> returns are exactly the well-formed ones (name, purpose,
  algorithms, validity and issuer list as specified), and it returns those unchanged.
\<close>

lemma normalize_range: "(\<exists>t0. normalize t0 = Inr t) = wf_template t \<and> (normalize t = Inr t) = wf_template t"
  using normalize_wf normalize_Inr by blast

section \<open>Policy\<close>

text \<open>What a certificate request may ask for under a template.\<close>

definition ext_permitted :: "certProfile \<Rightarrow> extension \<Rightarrow> bool" where
  "ext_permitted p e \<longleftrightarrow>
     (if ExtId e = [2, 5, 29, 17] then
        (\<exists>sans. sanView e = Some sans \<and> set sans \<subseteq> Some ` ({2} \<times> {1, 2, 6, 7}))
      else if ExtId e = [2, 5, 29, 19] then isCAView e = Some False
      else if ExtId e = [2, 5, 29, 15] then
        (\<exists>ku. keyUsageView e = Some ku \<and> bit_At ku 0 \<and> \<not> bit_At ku 5 \<and> \<not> bit_At ku 6)
      else if ExtId e = [2, 5, 29, 37] then
        (\<exists>ekus. ekuView e = Some ekus \<and> set ekus \<subseteq> ekuOID ` set (extKeyUsage p))
      else \<not> Critical e)"

definition names_permitted :: "certProfile \<Rightarrow> csr \<Rightarrow> bool" where
  "names_permitted p c \<longleftrightarrow>
     (let hosts = (csrDNS c \<noteq> [] \<or> csrIPs c \<noteq> []); emails = (csrEmails c \<noteq> []); uris = (csrURIs c \<noteq> []);
          subject = (CommonName (csrSubject c) \<noteq> [] \<or> Names (csrSubject c) \<noteq> []) in
      if p = profileServer \<or> p = profileBoth then hosts \<and> \<not> emails \<and> \<not> uris
      else if p = profileEmail then emails \<and> \<not> hosts \<and> \<not> uris
      else if p = profileClient then subject \<or> hosts \<or> emails \<or> uris
      else subject \<and> \<not> hosts \<and> \<not> emails \<and> \<not> uris)"

definition csr_permitted :: "csr \<Rightarrow> CertTemplate \<Rightarrow> string \<Rightarrow> int \<Rightarrow> bool" where
  "csr_permitted c t issuer days \<longleftrightarrow>
     tProfile t \<in> set all_profiles \<and> 1 \<le> days \<and> days \<le> tMaxDays t \<and>
     (tAllowedIssuers t = [] \<or> issuer \<in> set (tAllowedIssuers t)) \<and>
     validPublicKey (csrPublicKey c) = Inr () \<and>
     distinct (map ExtId (csrExtensions c)) \<and> (\<forall>e \<in> set (csrExtensions c). ext_permitted (tProfile t) e) \<and>
     names_permitted (tProfile t) c"

lemma ekuAllowed_iff:
  "p \<in> set all_profiles \<Longrightarrow> ekuAllowed p oid \<longleftrightarrow> oid \<in> ekuOID ` set (extKeyUsage p)"
  by (auto simp: ekuAllowed_def extKeyUsage_def all_profiles_def profile_defs)

lemma check_extension_iff:
  "p \<in> set all_profiles \<Longrightarrow> check_extension p e = Inr () \<longleftrightarrow> ext_permitted p e"
  by (auto simp: check_extension_def ext_permitted_def ekuAllowed_iff split: option.splits)

lemma check_extensions_iff:
  assumes "p \<in> set all_profiles"
  shows "check_extensions p seen es = Inr () \<longleftrightarrow>
     distinct (map ExtId es) \<and> ExtId ` set es \<inter> seen = {} \<and> (\<forall>e \<in> set es. ext_permitted p e)"
  by (induction es arbitrary: seen) (auto simp: check_extension_iff [OF assms])

lemma policyBasics_iff:
  "policyBasics t issuer days = Inr () \<longleftrightarrow> tProfile t \<in> set all_profiles \<and> 1 \<le> days \<and> days \<le> tMaxDays t \<and>
     (tAllowedIssuers t = [] \<or> issuer \<in> set (tAllowedIssuers t))"
  by (auto simp: policyBasics_def)

lemma validateCSRPolicy_permitted:
  "validateCSRPolicy c t issuer days = Inr () \<longleftrightarrow> csr_permitted c t issuer days"
proof (cases "tProfile t \<in> set all_profiles")
  case True
  then have p: "tProfile t = profileServer \<or> tProfile t = profileBoth \<or> tProfile t = profileEmail \<or>
      tProfile t = profileClient \<or> tProfile t = profileCode"
    by (auto simp: all_profiles_def)
  have names: "(let dns = length (csrDNS c); ips = length (csrIPs c); emails = length (csrEmails c); uris = length (csrURIs c) in
       if serverAuth (tProfile t) then
         checkR (\<not> (dns + ips = 0 \<or> emails + uris > 0)) ''this purpose requires DNS or IP SANs only''
       else if tProfile t = profileEmail then
         checkR (\<not> (emails = 0 \<or> dns + ips + uris > 0)) ''S/MIME requires email SANs only''
       else if tProfile t = profileClient then
         checkR (\<not> (CommonName (csrSubject c) = [] \<and> Names (csrSubject c) = [] \<and> dns + ips + emails + uris = 0))
           ''client identity is required''
       else if tProfile t = profileCode then
         (if CommonName (csrSubject c) = [] \<and> Names (csrSubject c) = [] then Inl ''subject identity is required''
          else checkR (\<not> dns + ips + emails + uris > 0) ''code signing does not permit SANs'')
       else Inr ()) = Inr () \<longleftrightarrow> names_permitted (tProfile t) c"
    using p by (elim disjE) (auto simp: names_permitted_def Let_def serverAuth_def profile_defs)
  show ?thesis
    unfolding validateCSRPolicy_def csr_permitted_def bindR_Inr_iff names
    by (simp add: policyBasics_iff check_extensions_iff [OF True])
qed (simp add: validateCSRPolicy_def csr_permitted_def policyBasics_iff)


section \<open>The template store\<close>

definition templates_ok :: "CertTemplate list \<Rightarrow> bool" where
  "templates_ok ts \<longleftrightarrow> (\<forall>t \<in> set ts. wf_template t \<and> builtinByName (tName t) = None) \<and>
     distinct (map (\<lambda>t. ToLower (tName t)) ts)"

datatype template_op = Add time CertTemplate | Update string CertTemplate | Delete string

fun template_step :: "template_op \<Rightarrow> unit sop" where
  "template_step (Add now t) = AddTemplate now t"
| "template_step (Update name t) = UpdateTemplate name t"
| "template_step (Delete name) = DeleteTemplate name"

fun run_templates :: "template_op list \<Rightarrow> store \<Rightarrow> store" where
  "run_templates [] s = s"
| "run_templates (op # ops) s = run_templates ops (snd (template_step op s))"

lemma migrate_wf: "wf_template t \<Longrightarrow> migrateTemplate t = t"
  by (auto simp: migrateTemplate_def wf_template_def)

lemma migrate_ok: "templates_ok ts \<Longrightarrow> migrateTemplates ts = ts"
  by (auto simp: migrateTemplates_def templates_ok_def migrate_wf intro: map_idI)

abbreviation (input) keeps_templates :: "('a sop) \<Rightarrow> bool" where
  "keeps_templates m \<equiv> preserves (\<lambda>s. templates_ok (templates s)) m"

lemma load_cycle:
  assumes "\<And>ts. templates_ok ts \<Longrightarrow> keeps_templates (f ts)"
  shows "keeps_templates (bindE LoadTemplates f)"
  unfolding LoadTemplates_def bindE_assoc
  by (rule template_file.preserves_cycle) (simp add: migrate_ok assms)

lemma keeps_save: "templates_ok ts \<Longrightarrow> keeps_templates (saveTemplates ts)"
  unfolding saveTemplates_def by (rule template_file.preserves_save)

lemma keeps_validate: "keeps_templates (\<lambda>s. (validateTemplateIssuers s t, s))"
  by (simp add: preserves_def)

lemma ok_append:
  assumes "templates_ok ts" "wf_template t" "builtinByName (tName t) = None"
    and "\<not> (\<exists>e \<in> set ts. EqualFold (tName e) (tName t))"
  shows "templates_ok (ts @ [t\<lparr>tCreatedAt := now\<rparr>])"
  using assms by (auto simp: templates_ok_def EqualFold_def wf_template_def)

lemma builtinByName_fold: "EqualFold m n \<Longrightarrow> builtinByName m = builtinByName n"
  unfolding builtinByName_def EqualFold_def by simp

lemma ok_replace:
  assumes ok: "templates_ok ts" and t: "wf_template t" "tName t = TrimSpace name"
    and r: "replace_first (\<lambda>e. EqualFold (tName e) name) (\<lambda>e. t\<lparr>tCreatedAt := tCreatedAt e\<rparr>) ts = Some ts'"
  shows "templates_ok ts'"
proof -
  from replace_first_Some [OF r] obtain us e vs
    where ts: "ts = us @ e # vs" "ts' = us @ t\<lparr>tCreatedAt := tCreatedAt e\<rparr> # vs" "EqualFold (tName e) name"
    by blast
  from ok ts have e: "validTemplateName (tName e)" "builtinByName (tName e) = None"
    by (auto simp: templates_ok_def wf_template_def)
  have "list_all (\<lambda>c. \<not> is_space c) (tName e)"
    using e by (auto simp: validTemplateName_def list_all_iff char_defs)
  moreover have "is_space (lower c) = is_space c" for c
    by (auto simp: lower_def char_defs)
  ultimately have "list_all (\<lambda>c. \<not> is_space c) (ToLower (tName e))"
    by (auto simp: ToLower_def list_all_iff)
  then have "list_all (\<lambda>c. \<not> is_space c) (ToLower name)"
    using ts(3) by (simp add: EqualFold_def)
  moreover have "is_space (lower c) = is_space c" for c
    by (auto simp: lower_def char_defs)
  ultimately have "list_all (\<lambda>c. \<not> is_space c) name"
    by (auto simp: ToLower_def list_all_iff)
  then have "tName t = name" using t(2) TrimSpace_nospace by simp
  with ts(3) have n: "ToLower (tName t) = ToLower (tName e)" by (simp add: EqualFold_def)
  with e(2) builtinByName_fold [of "tName e" "tName t"] have "builtinByName (tName t) = None"
    by (simp add: EqualFold_def)
  with ok t n ts show ?thesis
    by (auto simp: templates_ok_def wf_template_def)
qed

lemma ok_filter: "templates_ok ts \<Longrightarrow> templates_ok (filter P ts)"
  by (auto simp: templates_ok_def distinct_map_filter_iff)

lemma template_step_keeps: "keeps_templates (template_step op)"
proof (cases op)
  case (Add now t0)
  have "keeps_templates (AddTemplate now t0)"
    unfolding AddTemplate_def
    by (intro preserves_bind_liftE preserves_thenE keeps_validate load_cycle preserves_if keeps_save ok_append)
      (auto simp: normalize_Inr preserves_throw)
  with Add show ?thesis by simp
next
  case (Update name t0)
  have "keeps_templates (UpdateTemplate name t0)"
    unfolding UpdateTemplate_def
    by (intro preserves_bind_liftE preserves_thenE keeps_validate load_cycle)
      (auto simp: normalize_Inr preserves_throw split: option.splits intro!: keeps_save intro: ok_replace)
  with Update show ?thesis by simp
next
  case (Delete name)
  have "keeps_templates (DeleteTemplate name)"
    unfolding DeleteTemplate_def Let_def
    by (intro load_cycle preserves_if keeps keeps_save ok_filter)
  with Delete show ?thesis by simp
qed

text \<open>
  C4. Whatever templates administrators add, change and delete, and whatever disk accesses fail on the
  way, the stored templates are well formed, and no two of them, nor one and a built-in, share a
  name without regard to case.
\<close>

theorem templates_invariant: "templates_ok (templates (run_templates ops (s\<lparr>templates := []\<rparr>)))"
proof -
  have "templates_ok (templates s) \<Longrightarrow> templates_ok (templates (run_templates ops s))" for s
    by (induction ops arbitrary: s) (use template_step_keeps in \<open>auto simp: preserves_def\<close>)
  moreover have "templates_ok []" by (simp add: templates_ok_def)
  ultimately show ?thesis by simp
qed

text \<open>Without faults, and on a store that is well formed, loading changes nothing.\<close>

lemma LoadTemplates_fine:
  "disk s = [] \<Longrightarrow> templates_ok (templates s) \<Longrightarrow> LoadTemplates s = (Inr (templates s), s)"
  by (simp add: LoadTemplates_def readE_def io_def op_simps migrate_ok Let_def)

lemma fold_valid_no_builtin_prefix:
  assumes "EqualFold name n" "validTemplateName n"
  shows "\<not> HasPrefix name ''builtin:''"
proof
  assume "HasPrefix name ''builtin:''"
  then have "CHR '':'' \<in> set name" by (auto simp: HasPrefix_iff)
  then have "lower CHR '':'' \<in> set (ToLower name)" by (simp add: ToLower_def)
  moreover have "lower CHR '':'' = CHR '':''" by (simp add: lower_def char_defs)
  ultimately have "CHR '':'' \<in> set (ToLower n)" using assms(1) by (simp add: EqualFold_def)
  then obtain c where c: "c \<in> set n" "lower c = CHR '':''" by (auto simp: ToLower_def)
  then have "is_alnum c \<or> c = CHR ''-'' \<or> c = CHR ''_''"
    using assms(2) by (auto simp: validTemplateName_def list_all_iff)
  moreover from c(2) have "ascii (lower c) = 58" by (simp add: ascii_def)
  ultimately show False
    by (auto simp: lower_def char_defs split: if_splits)
qed

text \<open>
  A template that was added is found under its name in any case, with the time of its creation,
  and shadows no other.
\<close>

lemma template_added_is_found:
  assumes ok: "templates_ok (templates s)" "disk s = []"
    and add: "AddTemplate now t0 s = (Inr (), s')" and t: "normalize t0 = Inr t" "EqualFold name (tName t)"
  shows "fst (GetTemplate name s') = Some (t\<lparr>tCreatedAt := now\<rparr>)"
proof -
  have wf: "wf_template t" using t normalize_Inr by blast
  from add have s': "s' = s\<lparr>templates := templates s @ [t\<lparr>tCreatedAt := now\<rparr>]\<rparr>"
    and new: "\<not> (\<exists>e \<in> set (templates s). EqualFold (tName e) (tName t))" "builtinByName (tName t) = None"
    using ok t by (auto simp: AddTemplate_def bindE_Inr_iff thenE_Inr_iff LoadTemplates_fine saveTemplates_def io_def
        split: if_splits)
  have "templates_ok (templates s')"
    unfolding s' using ok_append [OF ok(1) wf new(2,1)] by simp
  then have load: "LoadTemplates s' = (Inr (templates s'), s')"
    by (rule LoadTemplates_fine [rotated]) (simp add: s' ok)
  have "find (\<lambda>e. EqualFold (tName e) name) (templates s @ [t\<lparr>tCreatedAt := now\<rparr>]) = Some (t\<lparr>tCreatedAt := now\<rparr>)"
    using new(1) t(2) find_None_iff_ball [of "\<lambda>e. EqualFold (tName e) name" "templates s"]
    by (auto simp: find_append EqualFold_def)
  then show ?thesis
    using fold_valid_no_builtin_prefix [OF t(2)] wf
    by (simp add: GetTemplate_def load wf_template_def) (simp add: s')
qed

definition example_template :: CertTemplate where
  "example_template = builtin ''Web'' ''web servers'' profileServer 30 90"

lemma example_template_wf: "wf_template example_template"
  by code_simp

theorem template_added_is_found_witness:
  "fst (GetTemplate ''WEB'' (snd (AddTemplate 5 example_template empty_store)))
     = Some (example_template\<lparr>tCreatedAt := 5\<rparr>)"
proof (rule template_added_is_found)
  have n: "normalize example_template = Inr example_template"
    using example_template_wf by (rule normalize_wf)
  have b: "builtinByName (tName example_template) = None" by code_simp
  have i: "tAllowedIssuers example_template = []" by code_simp
  show "normalize example_template = Inr example_template" by (rule n)
  show "templates_ok (templates empty_store)" by (simp add: templates_ok_def empty_store_def)
  show "EqualFold ''WEB'' (tName example_template)" by code_simp
  show "AddTemplate 5 example_template empty_store =
      (Inr (), snd (AddTemplate 5 example_template empty_store))"
    by (simp add: AddTemplate_def op_simps n b i validateTemplateIssuers_def LoadTemplates_def readE_def io_def
        migrateTemplates_def saveTemplates_def empty_store_def)
qed (simp add: empty_store_def)

end
