(* ===== verification/CaTree.thy ===== *)
theory CaTree
  imports Keycrypt Templates
begin

text \<open>
  The certificate index and the CA tree of \<open>store.go\<close>: records, pushes, the walks from a CA up to
  the root (\<open>IssuerChainPEM\<close>, \<open>CAPath\<close>, \<open>CAs\<close>), the subtree that the deletion of a CA removes
  (\<open>caSubtree\<close>), and \<open>trash\<close>. The walks are specified by paths of the tree, the subtree by the
  descendants of a CA, and \<open>trash\<close> by what it never loses.
\<close>

section \<open>The index\<close>

definition loadIndex :: "CertRecord list sop" where
  "loadIndex = readE index"

definition saveIndex :: "CertRecord list \<Rightarrow> unit sop" where
  "saveIndex recs = io (\<lambda>s. s\<lparr>index := recs\<rparr>)"

definition AddRecord :: "CertRecord \<Rightarrow> unit sop" where
  "AddRecord rec = bindE loadIndex (\<lambda>recs.
     saveIndex ((if rKind rec = caRoot then filter (\<lambda>r. rKind r \<noteq> caRoot) recs else recs) @ [rec]))"

definition AddPush :: "string \<Rightarrow> DevicePush \<Rightarrow> unit sop" where
  "AddPush serial p = bindE loadIndex (\<lambda>recs.
     case replace_first (\<lambda>r. rSerial r = serial) (\<lambda>r. r\<lparr>rPushes := rPushes r @ [p]\<rparr>) recs of
       Some recs' \<Rightarrow> saveIndex recs'
     | None \<Rightarrow> throw (''no certificate with serial '' @ serial))"

definition Records :: "store \<Rightarrow> CertRecord list" where
  "Records s = sort_key (\<lambda>r. - rCreatedAt r) (index s)"

definition RecordBySerial :: "store \<Rightarrow> string \<Rightarrow> CertRecord option" where
  "RecordBySerial s serial = find (\<lambda>r. rSerial r = serial) (Records s)"

definition is_ca_record :: "string \<Rightarrow> CertRecord \<Rightarrow> bool" where
  "is_ca_record ca r =
     (if rKind r = caIntermediate then
        rCAID r = ca \<or> (rCAID r = [] \<and> ca = caIntermediate \<and> rIssuerID r = caRoot)
      else rKind r = caRoot \<and> ca = caRoot)"

definition findCARecord :: "store \<Rightarrow> string \<Rightarrow> CertRecord option" where
  "findCARecord s ca = find (is_ca_record ca) (Records s)"

lemma set_Records [simp]: "set (Records s) = set (index s)"
  by (simp add: Records_def)

lemma findCARecord_in: "findCARecord s ca = Some r \<Longrightarrow> r \<in> set (index s)"
  unfolding findCARecord_def by (drule find_Some_set) simp

lemma RecordBySerial_None_iff: "RecordBySerial s serial = None \<longleftrightarrow> serial \<notin> rSerial ` set (index s)"
  by (auto simp: RecordBySerial_def find_None_iff_ball)

section \<open>Walks up the tree\<close>

definition candidates :: "store \<Rightarrow> string set" where
  "candidates s = rIssuerID ` set (index s)"

lemma walk_decreases:
  assumes "ca \<notin> seen" "findCARecord s ca = Some r"
  shows "card (insert (rIssuerID r) (candidates s) - insert ca seen) < card (insert ca (candidates s) - seen)"
proof (rule psubset_card_mono)
  show "finite (insert ca (candidates s) - seen)" by (simp add: candidates_def)
  have "rIssuerID r \<in> candidates s" using findCARecord_in [OF assms(2)] by (simp add: candidates_def)
  with assms(1) show "insert (rIssuerID r) (candidates s) - insert ca seen \<subset> insert ca (candidates s) - seen" by auto
qed

function issuer_chain :: "store \<Rightarrow> string \<Rightarrow> string set \<Rightarrow> certpem list result" where
  "issuer_chain s ca seen =
     (if ca \<in> seen then Inl (''CA chain loop detected at '' @ ca)
      else case LoadCACertPEM s ca of
          None \<Rightarrow> Inl (''loading CA '' @ ca @ '': file does not exist'')
        | Some pem \<Rightarrow>
            if ca = caRoot then Inr [pem]
            else (case findCARecord s ca of
                None \<Rightarrow> Inl (''CA '' @ ca @ '' has no record'')
              | Some rec \<Rightarrow>
                  if rIssuerID rec = [] then Inl (''CA '' @ ca @ '' has no issuer'')
                  else bindR (issuer_chain s (rIssuerID rec) (insert ca seen)) (\<lambda>rest. Inr (pem # rest))))"
  by auto
termination
  by (relation "measure (\<lambda>(s, ca, seen). card (insert ca (candidates s) - seen))") (auto intro: walk_decreases)

definition IssuerChainPEM :: "store \<Rightarrow> string \<Rightarrow> certpem result" where
  "IssuerChainPEM s issuer = bindR (issuer_chain s issuer {}) (\<lambda>chain. Inr (concat chain))"

text \<open>The records in the order of the walk; \<open>CAPath\<close> puts each in front of those below it.\<close>

function ca_path :: "store \<Rightarrow> string \<Rightarrow> string set \<Rightarrow> CertRecord list result" where
  "ca_path s ca seen =
     (if ca \<in> seen then Inl (''CA chain loop detected at '' @ ca)
      else case findCARecord s ca of
          None \<Rightarrow> Inl (''CA '' @ ca @ '' has no record'')
        | Some rec \<Rightarrow>
            if ca = caRoot then Inr [rec]
            else bindR (ca_path s (rIssuerID rec) (insert ca seen)) (\<lambda>above. Inr (rec # above)))"
  by auto
termination
  by (relation "measure (\<lambda>(s, ca, seen). card (insert ca (candidates s) - seen))") (auto intro: walk_decreases)

definition CAPath :: "store \<Rightarrow> string \<Rightarrow> CertRecord list result" where
  "CAPath s ca = bindR (ca_path s ca {}) (\<lambda>path. Inr (rev path))"

declare issuer_chain.simps [simp del] ca_path.simps [simp del]

text \<open>\<open>CAs\<close>: every CA with the names on its way to the root, in the order of these paths.\<close>

definition caIDOf :: "CertRecord \<Rightarrow> string" where
  "caIDOf rec = (if rKind rec = caRoot then caRoot else if rCAID rec \<noteq> [] then rCAID rec else caIntermediate)"

definition is_ca :: "CertRecord \<Rightarrow> bool" where
  "is_ca rec \<longleftrightarrow> rKind rec = caRoot \<or> rKind rec = caIntermediate"

record CAInfo =
  caiID :: string
  caiRecord :: CertRecord
  caiParentID :: string
  caiPath :: "string list"
  caiCanSignSubCA :: bool

text \<open>The map from id to record: the last record of an id wins.\<close>

definition idToRec :: "CertRecord list \<Rightarrow> string \<Rightarrow> CertRecord option" where
  "idToRec recs = map_of (rev (map (\<lambda>r. (caIDOf r, r)) (filter is_ca recs)))"

function path_names :: "CertRecord list \<Rightarrow> string \<Rightarrow> string set \<Rightarrow> string list \<Rightarrow> string list" where
  "path_names recs walk seen parts =
     (if walk \<in> seen then parts
      else case idToRec recs walk of
          None \<Rightarrow> parts
        | Some rec \<Rightarrow>
            if walk = caRoot then rCommonName rec # parts
            else path_names recs (rIssuerID rec) (insert walk seen) (rCommonName rec # parts))"
  by auto
termination
proof (relation "measure (\<lambda>(recs, walk, seen, _). card (insert walk (rIssuerID ` set recs) - seen))", goal_cases)
  case (2 recs walk seen parts rec)
  then have "rec \<in> set recs" by (auto simp: idToRec_def dest: map_of_SomeD)
  with 2 show ?case
    by (auto intro!: psubset_card_mono)
qed simp

declare path_names.simps [simp del]

definition pathString :: "string list \<Rightarrow> string" where
  "pathString parts = Join parts [CHR '' '', CHR 0xE2, CHR 0x80, CHR 0xBA, CHR '' '']"

definition CAs :: "store \<Rightarrow> CAInfo list" where
  "CAs s = (let recs = Records s in
     sort_key (\<lambda>i. pathString (caiPath i))
       (map (\<lambda>r. \<lparr>caiID = caIDOf r, caiRecord = r, caiParentID = rIssuerID r,
                  caiPath = path_names recs (caIDOf r) {} [],
                  caiCanSignSubCA = (rKind r = caRoot \<or> rAllowSubCA r)\<rparr>) (filter is_ca recs)))"

section \<open>The subtree of a CA\<close>

definition is_child :: "string \<Rightarrow> CertRecord \<Rightarrow> bool" where
  "is_child parent r \<longleftrightarrow> rKind r = caIntermediate \<and> rIssuerID r = parent"

fun add_children :: "string \<Rightarrow> CertRecord list \<Rightarrow> CertRecord list \<times> string set \<Rightarrow> CertRecord list \<times> string set" where
  "add_children parent [] acc = acc"
| "add_children parent (r # rs) (got, inTree) =
     (if is_child parent r \<and> caIDOf r \<notin> inTree
      then add_children parent rs (got @ [r], insert (caIDOf r) inTree)
      else add_children parent rs (got, inTree))"


lemma add_children_grows:
  assumes "add_children parent rs (got, T) = (got', T')"
  shows "\<exists>new. got' = got @ new \<and> T' = T \<union> caIDOf ` set new \<and> set new \<subseteq> set rs \<and>
     distinct (map caIDOf new) \<and> caIDOf ` set new \<inter> T = {} \<and> (\<forall>r \<in> set new. is_child parent r)"
  using assms
proof (induction rs arbitrary: got T)
  case (Cons r rs)
  show ?case
  proof (cases "is_child parent r \<and> caIDOf r \<notin> T")
    case True
    with Cons.prems Cons.IH [of "got @ [r]" "insert (caIDOf r) T"] obtain new
      where "got' = (got @ [r]) @ new" "T' = insert (caIDOf r) T \<union> caIDOf ` set new" "set new \<subseteq> set rs"
        "distinct (map caIDOf new)" "caIDOf ` set new \<inter> insert (caIDOf r) T = {}" "\<forall>x \<in> set new. is_child parent x"
      by auto
    with True show ?thesis by (intro exI [of _ "r # new"]) auto
  next
    case False
    with Cons.prems Cons.IH [of got T] show ?thesis by auto
  qed
qed simp

lemma add_children_complete:
  "add_children parent rs (got, T) = (got', T') \<Longrightarrow> r \<in> set rs \<Longrightarrow> is_child parent r \<Longrightarrow> caIDOf r \<in> T'"
proof (induction rs arbitrary: got T)
  case (Cons x rs)
  have mono: "T1 \<subseteq> T2" if "add_children parent rs (c1, T1) = (c2, T2)" for c1 T1 c2 T2
    using add_children_grows [OF that] by auto
  show ?case
  proof (cases "is_child parent x \<and> caIDOf x \<notin> T")
    case True
    with Cons.prems have a: "add_children parent rs (got @ [x], insert (caIDOf x) T) = (got', T')" by simp
    show ?thesis
    proof (cases "r = x")
      case True with mono [OF a] show ?thesis by auto
    next
      case False with Cons.prems Cons.IH [OF a] show ?thesis by auto
    qed
  next
    case False
    with Cons.prems have a: "add_children parent rs (got, T) = (got', T')" by (auto split: if_splits)
    with False Cons.prems mono [OF a] Cons.IH [OF a] show ?thesis by auto
  qed
qed simp

text \<open>The breadth-first loop: \<open>i\<close> runs over a list that grows while it is walked.\<close>

function subtree_loop :: "CertRecord list \<Rightarrow> nat \<Rightarrow> CertRecord list \<times> string set \<Rightarrow> CertRecord list \<times> string set" where
  "subtree_loop recs i (got, inTree) =
     (if i < length got then subtree_loop recs (Suc i) (add_children (caIDOf (got ! i)) recs (got, inTree))
      else (got, inTree))"
  by pat_completeness auto
termination
proof (relation "measure (\<lambda>(recs, i, got, inTree). card (caIDOf ` set recs - inTree) + length got - i)", goal_cases)
  case (2 recs i got T)
  obtain got' T' where a: "add_children (caIDOf (got ! i)) recs (got, T) = (got', T')" by fastforce
  from add_children_grows [OF a] obtain new where new: "got' = got @ new" "T' = T \<union> caIDOf ` set new"
      "set new \<subseteq> set recs" "distinct (map caIDOf new)" "caIDOf ` set new \<inter> T = {}" by blast
  have "card (caIDOf ` set recs - T) = card (caIDOf ` set recs - T') + card (caIDOf ` set new)"
  proof -
    have "caIDOf ` set recs - T = (caIDOf ` set recs - T') \<union> caIDOf ` set new"
      using new by auto
    moreover have "(caIDOf ` set recs - T') \<inter> caIDOf ` set new = {}" using new(2) by auto
    ultimately show ?thesis by (simp add: card_Un_disjoint)
  qed
  moreover have "card (caIDOf ` set new) = length new"
    using new(4) distinct_card by fastforce
  ultimately show ?case using 2 a new(1) by simp
qed simp

declare subtree_loop.simps [simp del]

definition caSubtree :: "CertRecord list \<Rightarrow> string \<Rightarrow> (CertRecord list \<times> CertRecord list) result" where
  "caSubtree recs ca =
     (if ca = caRoot then Inl ''the root CA cannot be deleted''
      else
        let first = filter (\<lambda>r. rKind r = caIntermediate \<and> caIDOf r = ca) recs in
        if first = [] then Inl (''CA '' @ ca @ '' not found'')
        else let (got, inTree) = subtree_loop recs 0 (first, {ca}) in
          Inr (got, filter (\<lambda>r. (rKind r = ''issued'' \<or> rKind r = ''csr'') \<and> rIssuerID r \<in> inTree) recs))"

section \<open>The trash\<close>

text \<open>The newest entry of the trash, which a deletion fills.\<close>

definition in_trash :: "(trash_entry \<Rightarrow> trash_entry) \<Rightarrow> store \<Rightarrow> store" where
  "in_trash f s = s\<lparr>trashed := (case trashed s of [] \<Rightarrow> [] | e # es \<Rightarrow> f e # es)\<rparr>"

definition new_trash :: "CertRecord list \<Rightarrow> store \<Rightarrow> store" where
  "new_trash removed s = s\<lparr>trashed := \<lparr>trIndex = removed, trCAs = (\<lambda>_. None), trCerts = (\<lambda>_. None),
     trKeys = (\<lambda>_. None), trSecrets = (\<lambda>_. None)\<rparr> # trashed s\<rparr>"

definition move_ca :: "string \<Rightarrow> store \<Rightarrow> store" where
  "move_ca ca s = (in_trash (\<lambda>e. e\<lparr>trCAs := (trCAs e)(ca := cas s ca)\<rparr>) s)\<lparr>cas := (cas s)(ca := None)\<rparr>"

definition move_cert :: "string \<Rightarrow> store \<Rightarrow> store" where
  "move_cert n s = (in_trash (\<lambda>e. e\<lparr>trCerts := (trCerts e)(n := certs s n)\<rparr>) s)\<lparr>certs := (certs s)(n := None)\<rparr>"

definition move_key :: "string \<Rightarrow> store \<Rightarrow> store" where
  "move_key n s = (in_trash (\<lambda>e. e\<lparr>trKeys := (trKeys e)(n := keys s n)\<rparr>) s)\<lparr>keys := (keys s)(n := None)\<rparr>"

definition move_secret :: "string \<Rightarrow> store \<Rightarrow> store" where
  "move_secret ca s =
     (in_trash (\<lambda>e. e\<lparr>trSecrets := (trSecrets e)(ca := secrets s ca)\<rparr>) s)\<lparr>secrets := (secrets s)(ca := None)\<rparr>"

text \<open>A rename whose source must exist, and one for which its absence is no error.\<close>

definition rename_required :: "(store \<Rightarrow> bool) \<Rightarrow> (store \<Rightarrow> store) \<Rightarrow> unit sop" where
  "rename_required source f = (\<lambda>s. if source s then io f s else (Inl ''file does not exist'', s))"

definition rename_if_exists :: "(store \<Rightarrow> bool) \<Rightarrow> (store \<Rightarrow> store) \<Rightarrow> unit sop" where
  "rename_if_exists source f = (\<lambda>s. if source s then io f s else (Inr (), s))"

definition trash_record :: "CertRecord \<Rightarrow> unit sop" where
  "trash_record r =
     (if rKind r = caIntermediate
      then rename_required (\<lambda>s. cas s (caIDOf r) \<noteq> None) (move_ca (caIDOf r))
      else thenE (rename_if_exists (\<lambda>s. certs s (rSerial r) \<noteq> None) (move_cert (rSerial r)))
                 (rename_if_exists (\<lambda>s. keys s (rSerial r) \<noteq> None) (move_key (rSerial r))))"

text \<open>The passphrase file of a removed CA: a failure is logged and ignored.\<close>

definition ignoring :: "unit sop \<Rightarrow> unit sop" where
  "ignoring m = (\<lambda>s. (Inr (), snd (m s)))"

definition trash_secret :: "CertRecord \<Rightarrow> unit sop" where
  "trash_secret r =
     (if \<not> is_ca r then ret ()
      else ignoring (\<lambda>s. if secrets s (caIDOf r) = None then (Inr (), s)
             else thenE (io (\<lambda>s. s)) (io (move_secret (caIDOf r))) s))"

fun each :: "('a \<Rightarrow> ('s, 'e, unit) opx) \<Rightarrow> 'a list \<Rightarrow> ('s, 'e, unit) opx" where
  "each f [] = ret ()"
| "each f (x # xs) = thenE (f x) (each f xs)"

definition trash :: "CertRecord list \<Rightarrow> CertRecord list \<Rightarrow> unit sop" where
  "trash recs removed =
     thenE (io (\<lambda>s. s)) (thenE (io (\<lambda>s. s))
     (thenE (io (new_trash removed))
     (thenE (each trash_record removed)
     (thenE (each trash_secret removed)
       (saveIndex (filter (\<lambda>r. rSerial r \<notin> rSerial ` set removed) recs))))))"

section \<open>Walks and paths\<close>

text \<open>
  The contract of a walk up a tree: \<open>up\<close> gives the entry of a node and the node above it, or
  none at the root; \<open>go\<close> follows it and refuses to visit a node twice.
\<close>

inductive walk_path :: "(string \<Rightarrow> error + 'a \<times> string option) \<Rightarrow> string \<Rightarrow> 'a list \<Rightarrow> bool"
  for up :: "string \<Rightarrow> error + 'a \<times> string option" where
  top: "up n = Inr (x, None) \<Longrightarrow> walk_path up n [x]"
| above: "up n = Inr (x, Some m) \<Longrightarrow> walk_path up m xs \<Longrightarrow> walk_path up n (x # xs)"

inductive_cases walk_pathE: "walk_path up n xs"

lemma walk_path_det: "walk_path up n xs \<Longrightarrow> walk_path up n ys \<Longrightarrow> xs = ys"
proof (induction arbitrary: ys rule: walk_path.induct)
  case (top n x)
  from top(2) show ?case by (rule walk_pathE) (use top(1) in auto)
next
  case (above n x m xs)
  from above.prems show ?case
  proof (rule walk_pathE)
    fix y assume "ys = [y]" "up n = Inr (y, None)"
    with above.hyps show ?thesis by simp
  next
    fix y k zs assume ys: "ys = y # zs" "up n = Inr (y, Some k)" "walk_path up k zs"
    with above.hyps have "y = x" "k = m" by simp_all
    with ys above.IH [of zs] show ?thesis by simp
  qed
qed

locale tree_walk =
  fixes up :: "string \<Rightarrow> error + 'a \<times> string option" and go :: "string \<Rightarrow> string set \<Rightarrow> 'a list result"
  assumes go: "go n seen = (if n \<in> seen then Inl (''CA chain loop detected at '' @ n)
      else bindR (up n) (\<lambda>(x, next). case next of None \<Rightarrow> Inr [x]
        | Some m \<Rightarrow> bindR (go m (insert n seen)) (\<lambda>xs. Inr (x # xs))))"
begin

lemma go_sound:
  assumes "go n seen = Inr xs"
  shows "walk_path up n xs"
  using assms
proof (induction xs arbitrary: n seen)
  case Nil
  then show ?case by (subst (asm) go) (auto split: if_splits option.splits)
next
  case (Cons x xs)
  from Cons.prems obtain above where up: "up n = Inr (x, above)"
    and rest: "case above of None \<Rightarrow> xs = [] | Some m \<Rightarrow> go m (insert n seen) = Inr xs"
    by (subst (asm) go) (auto split: if_splits option.splits)
  show ?case
  proof (cases above)
    case None
    with up rest show ?thesis by (auto intro: walk_path.top)
  next
    case (Some m)
    with up rest Cons.IH show ?thesis by (auto intro: walk_path.above)
  qed
qed

lemma go_complete:
  assumes "walk_path up n xs" and "\<And>m ys. m \<in> seen \<Longrightarrow> walk_path up m ys \<Longrightarrow> length xs < length ys"
  shows "go n seen = Inr xs"
  using assms
proof (induction arbitrary: seen rule: walk_path.induct)
  case (top n x)
  then have "n \<notin> seen" using walk_path.top by fastforce
  with top show ?case by (subst go) simp
next
  case (above n x m xs)
  have n: "walk_path up n (x # xs)" using above.hyps by (rule walk_path.above)
  then have "n \<notin> seen" using above.prems by fastforce
  moreover have "go m (insert n seen) = Inr xs"
  proof (rule above.IH)
    fix k ys assume "k \<in> insert n seen" "walk_path up k ys"
    then show "length xs < length ys"
      using walk_path_det [OF n] above.prems [of k ys] by fastforce
  qed
  ultimately show ?case using above.hyps by (subst go) simp
qed

lemma go_iff: "go n {} = Inr xs \<longleftrightarrow> walk_path up n xs"
  using go_sound go_complete by blast

end

definition record_up :: "store \<Rightarrow> string \<Rightarrow> error + CertRecord \<times> string option" where
  "record_up s ca = (case findCARecord s ca of
       None \<Rightarrow> Inl (''CA '' @ ca @ '' has no record'')
     | Some rec \<Rightarrow> Inr (rec, if ca = caRoot then None else Some (rIssuerID rec)))"

definition issuer_up :: "store \<Rightarrow> string \<Rightarrow> error + certpem \<times> string option" where
  "issuer_up s ca = (case LoadCACertPEM s ca of
       None \<Rightarrow> Inl (''loading CA '' @ ca @ '': file does not exist'')
     | Some pem \<Rightarrow> if ca = caRoot then Inr (pem, None)
         else (case findCARecord s ca of
             None \<Rightarrow> Inl (''CA '' @ ca @ '' has no record'')
           | Some rec \<Rightarrow> if rIssuerID rec = [] then Inl (''CA '' @ ca @ '' has no issuer'')
               else Inr (pem, Some (rIssuerID rec))))"

interpretation record_walk: tree_walk "record_up s" "ca_path s" for s
  by unfold_locales (subst ca_path.simps, simp add: record_up_def split: option.split)

interpretation issuer_walk: tree_walk "issuer_up s" "issuer_chain s" for s
  by unfold_locales (subst issuer_chain.simps, simp add: issuer_up_def split: option.split)

text \<open>
  \<open>CAPath\<close> returns exactly the records on the way from the root down to a CA, when the records
  lead there, and never fails or loops on a tree that has such a way.
\<close>

lemma CAPath_iff: "CAPath s ca = Inr path \<longleftrightarrow> walk_path (record_up s) ca (rev path)"
  by (auto simp: CAPath_def record_walk.go_iff)

text \<open>
  C5. \<open>IssuerChainPEM\<close> returns the certificates from a CA up to the root in this order, and nothing else,
  exactly when each of them is stored and each record names its issuer.
\<close>

theorem IssuerChainPEM_iff:
  "IssuerChainPEM s ca = Inr pem \<longleftrightarrow> (\<exists>chain. walk_path (issuer_up s) ca chain \<and> pem = concat chain)"
  by (auto simp: IssuerChainPEM_def issuer_walk.go_iff)

section \<open>The subtree\<close>

inductive descends :: "CertRecord list \<Rightarrow> string \<Rightarrow> string \<Rightarrow> bool" for recs :: "CertRecord list" and ca :: string where
  self: "descends recs ca ca"
| child: "descends recs ca x \<Longrightarrow> r \<in> set recs \<Longrightarrow> is_child x r \<Longrightarrow> descends recs ca (caIDOf r)"

lemma subtree_loop_spec:
  assumes "subtree_loop recs i (got, T) = (got', T')"
    and "T = caIDOf ` set got" "set got \<subseteq> set recs" "\<forall>x \<in> T. descends recs ca x"
    and "\<forall>j < i. j < length got \<longrightarrow> (\<forall>r \<in> set recs. is_child (caIDOf (got ! j)) r \<longrightarrow> caIDOf r \<in> T)"
  shows "T' = caIDOf ` set got' \<and> set got' \<subseteq> set recs \<and> T \<subseteq> T' \<and> (\<forall>x \<in> T'. descends recs ca x) \<and>
     (\<forall>x \<in> T'. \<forall>r \<in> set recs. is_child x r \<longrightarrow> caIDOf r \<in> T')"
  using assms
proof (induction recs i "(got, T)" arbitrary: got T rule: subtree_loop.induct)
  case (1 recs i got T)
  show ?case
  proof (cases "i < length got")
    case True
    obtain g U where a: "add_children (caIDOf (got ! i)) recs (got, T) = (g, U)" by fastforce
    from add_children_grows [OF a] obtain new where new: "g = got @ new" "U = T \<union> caIDOf ` set new"
        "set new \<subseteq> set recs" "\<forall>r \<in> set new. is_child (caIDOf (got ! i)) r" by blast
    have "caIDOf (got ! i) \<in> T" using True 1(3) by simp
    then have d: "descends recs ca (caIDOf (got ! i))" using 1(5) by blast
    from 1(2) True a have "subtree_loop recs (Suc i) (g, U) = (got', T')"
      by (subst (asm) subtree_loop.simps) simp
    moreover have "U = caIDOf ` set g" "set g \<subseteq> set recs" using new 1(3,4) by auto
    moreover have "\<forall>x \<in> U. descends recs ca x"
      using new(2,3,4) 1(5) d by (auto intro: descends.child)
    moreover have "\<forall>j < Suc i. j < length g \<longrightarrow> (\<forall>r \<in> set recs. is_child (caIDOf (g ! j)) r \<longrightarrow> caIDOf r \<in> U)"
    proof (intro allI impI ballI)
      fix j r assume j: "j < Suc i" "j < length g" and r: "r \<in> set recs" "is_child (caIDOf (g ! j)) r"
      have gj: "g ! j = got ! j" using j True new(1) by (simp add: nth_append)
      show "caIDOf r \<in> U"
      proof (cases "j = i")
        case True with r gj add_children_complete [OF a] show ?thesis by simp
      next
        case False with j r gj 1(6) True new(2) show ?thesis by (auto simp: less_Suc_eq)
      qed
    qed
    ultimately have "T' = caIDOf ` set got' \<and> set got' \<subseteq> set recs \<and> U \<subseteq> T' \<and> (\<forall>x \<in> T'. descends recs ca x) \<and>
       (\<forall>x \<in> T'. \<forall>r \<in> set recs. is_child x r \<longrightarrow> caIDOf r \<in> T')"
      by (rule 1(1) [OF True a])
    with new(2) show ?thesis by blast
  next
    case False
    with 1(2) have "got' = got" "T' = T" by (subst (asm) subtree_loop.simps; simp)+
    moreover have "\<forall>x \<in> T. \<forall>r \<in> set recs. is_child x r \<longrightarrow> caIDOf r \<in> T"
    proof (intro ballI impI)
      fix x r assume x: "x \<in> T" and r: "r \<in> set recs" "is_child x r"
      from x 1(3) obtain j where "j < length got" "x = caIDOf (got ! j)" by (auto simp: in_set_conv_nth)
      with r 1(6) False show "caIDOf r \<in> T" by (metis not_less_iff_gr_or_eq order.strict_trans)
    qed
    ultimately show ?thesis using 1(3,4,5) by simp
  qed
qed

text \<open>
  C6. What deleting a CA removes: never the root; the CA records are records of the index whose ids are exactly
  the CA and its descendants in the tree, and the certificates are all those that one of them issued.
\<close>

theorem caSubtree_spec:
  assumes "caSubtree recs ca = Inr (tree, leaves)"
  shows "ca \<noteq> caRoot \<and> set tree \<subseteq> set recs \<and> (\<forall>x. x \<in> caIDOf ` set tree \<longleftrightarrow> descends recs ca x) \<and>
     leaves = filter (\<lambda>r. (rKind r = ''issued'' \<or> rKind r = ''csr'') \<and> descends recs ca (rIssuerID r)) recs"
proof -
  let ?first = "filter (\<lambda>r. rKind r = caIntermediate \<and> caIDOf r = ca) recs"
  from assms obtain T where ca: "ca \<noteq> caRoot" "?first \<noteq> []"
    and loop: "subtree_loop recs 0 (?first, {ca}) = (tree, T)"
    and leaves: "leaves = filter (\<lambda>r. (rKind r = ''issued'' \<or> rKind r = ''csr'') \<and> rIssuerID r \<in> T) recs"
    by (auto simp: caSubtree_def Let_def split: if_splits prod.splits)
  have "{ca} = caIDOf ` set ?first" using ca(2) by (auto simp: filter_empty_conv)
  then have spec: "T = caIDOf ` set tree \<and> set tree \<subseteq> set recs \<and> {ca} \<subseteq> T \<and> (\<forall>x \<in> T. descends recs ca x) \<and>
     (\<forall>x \<in> T. \<forall>r \<in> set recs. is_child x r \<longrightarrow> caIDOf r \<in> T)"
    by (intro subtree_loop_spec [OF loop]) (auto intro: descends.self)
  have "x \<in> T" if "descends recs ca x" for x
    using that by induction (use spec in auto)
  with spec have T: "x \<in> T \<longleftrightarrow> descends recs ca x" for x by blast
  with spec have "\<forall>x. x \<in> caIDOf ` set tree \<longleftrightarrow> descends recs ca x" by simp
  with ca(1) spec show ?thesis unfolding leaves T by blast
qed


definition example_ca :: "string \<Rightarrow> string \<Rightarrow> CertRecord" where
  "example_ca n issuer = noRecord\<lparr>rSerial := n, rKind := (if n = caRoot then caRoot else caIntermediate),
     rCAID := n, rIssuerID := issuer\<rparr>"

definition example_tree :: "CertRecord list" where
  "example_tree = [example_ca ''b'' ''a'', example_ca caRoot [], example_ca ''a'' caRoot, example_ca ''c'' caRoot,
     noRecord\<lparr>rSerial := ''1'', rKind := ''issued'', rIssuerID := ''b''\<rparr>,
     noRecord\<lparr>rSerial := ''2'', rKind := ''csr'', rIssuerID := ''c''\<rparr>]"

lemma example_subtree:
  "caSubtree example_tree ''a'' = Inr ([example_ca ''a'' caRoot, example_ca ''b'' ''a''],
     [noRecord\<lparr>rSerial := ''1'', rKind := ''issued'', rIssuerID := ''b''\<rparr>])"
  by (simp add: caSubtree_def example_tree_def example_ca_def noRecord_def ca_kinds caIDOf_def is_child_def
      subtree_loop.simps)

theorem caSubtree_spec_witness:
  "descends example_tree ''a'' ''b'' \<and> \<not> descends example_tree ''a'' ''c''"
proof -
  have "\<forall>x. x \<in> caIDOf ` set [example_ca ''a'' caRoot, example_ca ''b'' ''a''] \<longleftrightarrow> descends example_tree ''a'' x"
    using caSubtree_spec [OF example_subtree] by blast
  from this [rule_format, of "''b''"] this [rule_format, of "''c''"] show ?thesis
    by (simp add: example_ca_def ca_kinds caIDOf_def noRecord_def)
qed

section \<open>What the trash keeps\<close>

text \<open>A file of the store is kept when it is in its place or in an entry of the trash.\<close>

definition kept :: "(store \<Rightarrow> string \<Rightarrow> 'a option) \<Rightarrow> (trash_entry \<Rightarrow> string \<Rightarrow> 'a option) \<Rightarrow> string \<Rightarrow> 'a \<Rightarrow> store \<Rightarrow> bool" where
  "kept live bin n x s \<longleftrightarrow> live s n = Some x \<or> (\<exists>e \<in> set (trashed s). bin e n = Some x)"

text \<open>During a deletion the newest entry holds nothing that is still in its place.\<close>

definition moving :: "store \<Rightarrow> bool" where
  "moving s \<longleftrightarrow> (case trashed s of [] \<Rightarrow> False | e # es \<Rightarrow>
     (\<forall>n. cas s n = None \<or> trCAs e n = None) \<and> (\<forall>n. certs s n = None \<or> trCerts e n = None) \<and>
     (\<forall>n. keys s n = None \<or> trKeys e n = None) \<and> (\<forall>n. secrets s n = None \<or> trSecrets e n = None))"

definition intact :: "string \<Rightarrow> ca_dir option \<Rightarrow> certpem option \<Rightarrow> keypem option \<Rightarrow> string option \<Rightarrow> store \<Rightarrow> bool" where
  "intact n d c k p s \<longleftrightarrow> (\<forall>x. d = Some x \<longrightarrow> kept cas trCAs n x s) \<and> (\<forall>x. c = Some x \<longrightarrow> kept certs trCerts n x s) \<and>
     (\<forall>x. k = Some x \<longrightarrow> kept keys trKeys n x s) \<and> (\<forall>x. p = Some x \<longrightarrow> kept secrets trSecrets n x s)"

lemmas move_defs = move_ca_def move_cert_def move_key_def move_secret_def in_trash_def

lemma moving_disk [simp]: "moving (s\<lparr>disk := fs\<rparr>) = moving s"
  by (simp add: moving_def split: list.split)

lemma intact_disk [simp]: "intact n d c k p (s\<lparr>disk := fs\<rparr>) = intact n d c k p s"
  by (simp add: intact_def kept_def)

lemma move_moving:
  assumes "moving s"
  shows "moving (move_ca m s)" "moving (move_cert m s)" "moving (move_key m s)" "moving (move_secret m s)"
  using assms by (auto simp: moving_def move_defs split: list.splits)

lemma move_intact:
  assumes "moving s" "intact n d c k p s"
  shows "cas s m \<noteq> None \<Longrightarrow> intact n d c k p (move_ca m s)"
    "certs s m \<noteq> None \<Longrightarrow> intact n d c k p (move_cert m s)"
    "keys s m \<noteq> None \<Longrightarrow> intact n d c k p (move_key m s)"
    "secrets s m \<noteq> None \<Longrightarrow> intact n d c k p (move_secret m s)"
proof -
  obtain e es where e: "trashed s = e # es" using assms(1) by (auto simp: moving_def split: list.splits)
  show "cas s m \<noteq> None \<Longrightarrow> intact n d c k p (move_ca m s)"
    using assms e by (auto simp: moving_def intact_def kept_def move_defs; metis option.distinct(1))
  show "certs s m \<noteq> None \<Longrightarrow> intact n d c k p (move_cert m s)"
    using assms e by (auto simp: moving_def intact_def kept_def move_defs; metis option.distinct(1))
  show "keys s m \<noteq> None \<Longrightarrow> intact n d c k p (move_key m s)"
    using assms e by (auto simp: moving_def intact_def kept_def move_defs; metis option.distinct(1))
  show "secrets s m \<noteq> None \<Longrightarrow> intact n d c k p (move_secret m s)"
    using assms e by (auto simp: moving_def intact_def kept_def move_defs; metis option.distinct(1))
qed


abbreviation (input) deleting :: "string \<Rightarrow> ca_dir option \<Rightarrow> certpem option \<Rightarrow> keypem option \<Rightarrow> string option \<Rightarrow> store \<Rightarrow> bool" where
  "deleting n d c k p s \<equiv> moving s \<and> intact n d c k p s"

lemma preserves_rename:
  assumes "\<And>s. I s \<Longrightarrow> source s \<Longrightarrow> I (f s)" "\<And>s fs. I (s\<lparr>disk := fs\<rparr>) = I s" "\<And>s fs. source (s\<lparr>disk := fs\<rparr>) = source s"
  shows "preserves I (rename_required source f)" "preserves I (rename_if_exists source f)"
proof -
  have "I (snd (io f s))" if "I s" "source s" for s
    using that assms by (auto simp: io_def split: list.split disk_fault.split)
  then show "preserves I (rename_required source f)" "preserves I (rename_if_exists source f)"
    by (simp_all add: preserves_def rename_required_def rename_if_exists_def)
qed

lemma preserves_each: "(\<And>x. preserves I (f x)) \<Longrightarrow> preserves I (each f xs)"
  by (induction xs) (auto intro: keeps)

lemma trash_record_keeps: "preserves (deleting n d c k p) (trash_record r)"
  unfolding trash_record_def
  by (intro preserves_if preserves_thenE preserves_rename) (auto simp: move_moving move_intact)

lemma trash_secret_keeps: "preserves (deleting n d c k p) (trash_secret r)"
proof -
  have *: "deleting n d c k p (snd (thenE (io (\<lambda>s. s)) (io (move_secret m)) s))"
    if "deleting n d c k p s" "secrets s m \<noteq> None" for s m
    using that by (auto simp: thenE_def bindE_def io_def move_moving move_intact split: list.split disk_fault.split)
  show ?thesis
    unfolding trash_secret_def
    by (rule preserves_if) (use * in \<open>auto simp: preserves_def ignoring_def ret_def\<close>)
qed

lemma io_triple:
  assumes "\<And>s. P s \<Longrightarrow> Q (f s)" "\<And>s. P s \<Longrightarrow> E s" "\<And>s. P s \<Longrightarrow> E (f s)" "\<And>s fs. P (s\<lparr>disk := fs\<rparr>) = P s"
  shows "triple P (io f) (\<lambda>_. Q) E"
  unfolding triple_def
proof (intro allI impI)
  fix s assume "P s"
  then have "P (s\<lparr>disk := fs\<rparr>)" for fs by (simp add: assms)
  with \<open>P s\<close> assms(1-3) show "case io f s of (Inl e, t) \<Rightarrow> E t | (Inr x, t) \<Rightarrow> Q t"
    by (auto simp: io_def split: list.splits disk_fault.splits)
qed

lemma new_trash_intact: "intact n d c k p s \<Longrightarrow> deleting n d c k p (new_trash removed s)"
  by (auto simp: intact_def kept_def moving_def new_trash_def)

lemma trash_keeps: "preserves (intact n d c k p) (trash recs removed)"
proof -
  let ?I = "intact n d c k p"
  let ?D = "deleting n d c k p"
  have id: "triple ?I (io (\<lambda>s. s)) (\<lambda>_. ?I) ?I"
    by (rule io_triple) simp_all
  have 1: "triple ?I (io (new_trash removed)) (\<lambda>_. ?D) ?I"
    by (rule io_triple) (simp_all add: new_trash_intact)
  have 2: "triple ?D (each f removed) (\<lambda>_. ?D) ?I" if "\<And>r. preserves ?D (f r)" for f :: "CertRecord \<Rightarrow> unit sop"
    by (rule triple_post [OF triple_preserves [OF preserves_each [OF that]]]) simp_all
  have 3: "triple ?D (saveIndex recs') (\<lambda>_. ?I) ?I" for recs'
    unfolding saveIndex_def by (rule io_triple) (simp_all add: intact_def kept_def)
  have "triple ?I (trash recs removed) (\<lambda>_. ?I) ?I"
    unfolding trash_def
    by (intro triple_thenE [OF id] triple_thenE [OF 1] triple_thenE [OF 2] trash_record_keeps trash_secret_keeps 3)
  then show ?thesis
    by (auto simp: preserves_def triple_def split: prod.splits sum.splits) (metis prod.collapse sum.exhaust)
qed

text \<open>
  C31. A deletion never destroys a file. Whatever disk access fails, and at whatever point, every CA directory,
  certificate, key and passphrase file that was in the store or in its trash is afterwards in one of them, unchanged.
\<close>

theorem trash_loses_nothing:
  "(kept cas trCAs n d s \<longrightarrow> kept cas trCAs n d (snd (trash recs removed s))) \<and>
   (kept certs trCerts n c s \<longrightarrow> kept certs trCerts n c (snd (trash recs removed s))) \<and>
   (kept keys trKeys n k s \<longrightarrow> kept keys trKeys n k (snd (trash recs removed s))) \<and>
   (kept secrets trSecrets n p s \<longrightarrow> kept secrets trSecrets n p (snd (trash recs removed s)))"
proof -
  have *: "intact n d c k p s \<Longrightarrow> intact n d c k p (snd (trash recs removed s))" for d c k p
    using trash_keeps [of n d c k p recs removed] by (simp add: preserves_def)
  show ?thesis
    using * [of "Some d" None None None] * [of None "Some c" None None] * [of None None "Some k" None]
      * [of None None None "Some p"]
    by (simp add: intact_def)
qed

definition example_leaf :: CertRecord where
  "example_leaf = noRecord\<lparr>rSerial := ''ab'', rKind := ''issued'', rIssuerID := ''root''\<rparr>"

text \<open>The rename of the certificate fails after it took effect.\<close>

definition example_deletion :: store where
  "example_deletion = empty_store\<lparr>disk := [NoFault, NoFault, NoFault, FailedLate],
     certs := [''ab'' \<mapsto> [Junk]], index := [example_leaf]\<rparr>"

theorem trash_loses_nothing_witness:
  "kept certs trCerts ''ab'' [Junk] (snd (trash [example_leaf] [example_leaf] example_deletion)) \<and>
   certs (snd (trash [example_leaf] [example_leaf] example_deletion)) ''ab'' = None"
proof
  have "kept certs trCerts ''ab'' [Junk] example_deletion"
    by (simp add: kept_def example_deletion_def)
  then show "kept certs trCerts ''ab'' [Junk] (snd (trash [example_leaf] [example_leaf] example_deletion))"
    using trash_loses_nothing [where s = example_deletion and recs = "[example_leaf]" and removed = "[example_leaf]"
        and n = "''ab''" and c = "[Junk]"] by blast
  show "certs (snd (trash [example_leaf] [example_leaf] example_deletion)) ''ab'' = None"
    by (simp add: trash_def io_def op_simps example_deletion_def example_leaf_def trash_record_def ca_kinds
        rename_if_exists_def new_trash_def move_cert_def in_trash_def)
qed

end
