(* ===== verification/CaIssue.thy ===== *)
theory CaIssue
  imports CaTree
begin

text \<open>
  Certificate authorities and issuance: \<open>ca.go\<close> and the file operations of \<open>store.go\<close> it uses.
  Creating a root or an intermediate, issuing a leaf with a new key, and signing a request. Every
  random value (key, serial number, salt, nonce) and the time are arguments.
\<close>

section \<open>Names and serial numbers\<close>

definition serialString :: "nat \<Rightarrow> string" where
  "serialString serial = ToLower (hexnum serial)"

definition subject :: "string \<Rightarrow> string \<Rightarrow> string \<Rightarrow> name" where
  "subject cn org country = \<lparr>CommonName = cn, Organization = (if org \<noteq> [] then [org] else []),
     Country = (if country \<noteq> [] then [country] else []), OtherRDNs = [], Names = []\<rparr>"

definition normalizeIssuer :: "store \<Rightarrow> string \<Rightarrow> string" where
  "normalizeIssuer s ca = (if ca = [] \<or> \<not> ValidCAID s ca then caRoot else ca)"

definition splitSANs :: "string list \<Rightarrow> string list \<times> addr list" where
  "splitSANs sans = (let hs = filter (\<lambda>h. h \<noteq> []) (map TrimSpace sans) in
     (filter (\<lambda>h. ParseIP h = None) hs, List.map_filter ParseIP hs))"

text \<open>What \<open>url.Parse\<close> reads of a URI; the parser is an argument of the operations that use it.\<close>

record url =
  Scheme :: string
  Opaque :: string
  Host :: string
  Text :: string

definition parsePolicyURIs :: "(string \<Rightarrow> url option) \<Rightarrow> string list \<Rightarrow> string list result" where
  "parsePolicyURIs parse values = map_all (\<lambda>v.
     case parse (TrimSpace v) of
       None \<Rightarrow> Inl (''invalid URI SAN '' @ quoted v)
     | Some u \<Rightarrow>
         if Scheme u = [] \<or> Opaque u \<noteq> [] \<or> ((Scheme u = ''http'' \<or> Scheme u = ''https'') \<and> Host u = [])
         then Inl (''invalid URI SAN '' @ quoted v) else Inr (Text u)) values"

section \<open>Files\<close>

definition set_ca :: "string \<Rightarrow> (ca_dir \<Rightarrow> ca_dir) \<Rightarrow> store \<Rightarrow> store" where
  "set_ca ca f s = s\<lparr>cas := (cas s)(ca := Some (f (case cas s ca of None \<Rightarrow> \<lparr>caCert = None, caKey = None\<rparr> | Some d \<Rightarrow> d)))\<rparr>"

definition SaveCA :: "string \<Rightarrow> certpem \<Rightarrow> keypem \<Rightarrow> unit sop" where
  "SaveCA ca certPEM keyPEM =
     thenE (io (set_ca ca (\<lambda>d. d)))
     (thenE (io (set_ca ca (\<lambda>d. d\<lparr>caCert := Some certPEM\<rparr>)))
       (io (set_ca ca (\<lambda>d. d\<lparr>caKey := Some keyPEM\<rparr>))))"

definition SaveCert :: "string \<Rightarrow> certpem \<Rightarrow> keypem option \<Rightarrow> unit sop" where
  "SaveCert serial certPEM keyPEM =
     thenE (io (\<lambda>s. s\<lparr>certs := (certs s)(serial := Some certPEM)\<rparr>))
       (case keyPEM of None \<Rightarrow> ret ()
        | Some k \<Rightarrow> io (\<lambda>s. s\<lparr>keys := (keys s)(serial := Some k)\<rparr>))"

section \<open>Certificate authorities\<close>

record randoms =
  rndKey :: nat
  rndSerial :: nat
  rndSalt :: string
  rndNonce :: string

definition noCert :: xcert where
  "noCert = \<lparr>SerialNumber = 0, Subject = subject [] [] [], NotBefore = 0, NotAfter = 0, IsCA = False,
     MaxPathLenZero = False, KeyUsage = 0, ExtKeyUsage = [], DNSNames = [], IPAddresses = [], EmailAddresses = [],
     URIs = [], PublicKey = OtherKey 0, SignedBy = OtherKey 0\<rparr>"

record CAParams =
  cpCommonName :: string
  cpOrganization :: string
  cpCountry :: string
  cpAlgo :: keyAlgo
  cpValidDays :: int
  cpPassphrase :: string

definition ca_key_usage :: int where
  "ca_key_usage = (KeyUsageCertSign OR KeyUsageCRLSign) OR KeyUsageDigitalSignature"

text \<open>A template is its own parent when it is self-signed: it holds no key yet, so the check passes.\<close>

definition CreateCA :: "time \<Rightarrow> randoms \<Rightarrow> CAParams \<Rightarrow> CertRecord sop" where
  "CreateCA now r p =
     (if cpCommonName p = [] then throw ''common name is required'' else
      bindE (liftE (generateKey (rndKey r) (cpAlgo p))) (\<lambda>key.
        let tmpl = noCert\<lparr>SerialNumber := rndSerial r, Subject := subject (cpCommonName p) (cpOrganization p) (cpCountry p),
              NotBefore := now - 5 * minute, NotAfter := AddDays now (cpValidDays p), IsCA := True, KeyUsage := ca_key_usage\<rparr> in
      bindE (liftE (CreateCertificate tmpl (tmpl\<lparr>PublicKey := public key\<rparr>) (public key) key)) (\<lambda>der.
        let keyPEM = marshalKey (rndSalt r) (rndNonce r) key (cpPassphrase p) in
      thenE (SaveCA caRoot (encodeCertPEM der) keyPEM)
      (thenE (if cpPassphrase p \<noteq> [] then keepUnlocked caRoot der key (cpPassphrase p) else ret ())
      (let rec = noRecord\<lparr>rSerial := serialString (rndSerial r), rCommonName := cpCommonName p, rKind := caRoot,
             rNotBefore := NotBefore tmpl, rNotAfter := NotAfter tmpl, rHasKey := True,
             rKeyEnc := (cpPassphrase p \<noteq> []), rCreatedAt := now\<rparr> in
       thenE (AddRecord rec) (ret rec))))))"

record IntermediateParams = CAParams +
  ipParentID :: string
  ipParentPassphrase :: string
  ipAllowSubCAs :: bool
  ipSCEP :: bool

definition CreateIntermediate :: "time \<Rightarrow> randoms \<Rightarrow> IntermediateParams \<Rightarrow> CertRecord sop" where
  "CreateIntermediate now r p =
     (if ipSCEP p \<and> (ipAllowSubCAs p \<or> (cpAlgo p \<noteq> algoRSA2048 \<and> cpAlgo p \<noteq> algoRSA4096))
        then throw ''SCEP requires a leaf-only RSA intermediate''
      else if cpCommonName p = [] then throw ''common name is required''
      else
      bindE (gets (\<lambda>s. normalizeIssuer s (ipParentID p))) (\<lambda>parentID.
      thenE (\<lambda>s. (checkR (HasCA s parentID) (''parent CA '' @ parentID @ '' does not exist''), s))
      (bindE (\<lambda>s. (loadCA s parentID (ipParentPassphrase p), s)) (\<lambda>(parentCert, parentKey).
      thenE (guardE (\<not> (MaxPathLenZero parentCert \<and> parentID \<noteq> caRoot))
               (''parent CA '' @ parentID @ '' does not allow sub-CAs (path length is 0)''))
      (bindE (liftE (generateKey (rndKey r) (cpAlgo p))) (\<lambda>key.
        let notAfter = AddDays now (cpValidDays p);
            notAfter = (if notAfter > NotAfter parentCert then NotAfter parentCert else notAfter);
            tmpl = noCert\<lparr>SerialNumber := rndSerial r,
              Subject := subject (cpCommonName p) (cpOrganization p) (cpCountry p),
              NotBefore := now - 5 * minute, NotAfter := notAfter, IsCA := True,
              MaxPathLenZero := \<not> ipAllowSubCAs p,
              KeyUsage := (if ipSCEP p then ca_key_usage OR KeyUsageKeyEncipherment else ca_key_usage)\<rparr> in
      bindE (liftE (CreateCertificate tmpl parentCert (public key) parentKey)) (\<lambda>der.
        let keyPEM = marshalKey (rndSalt r) (rndNonce r) key (cpPassphrase p); caID = serialString (rndSerial r) in
      thenE (SaveCA caID (encodeCertPEM der) keyPEM)
      (thenE (if cpPassphrase p \<noteq> [] then keepUnlocked caID der key (cpPassphrase p) else ret ())
      (let rec = noRecord\<lparr>rSerial := caID, rCommonName := cpCommonName p, rKind := caIntermediate,
             rIssuerID := parentID, rCAID := caID, rAllowSubCA := ipAllowSubCAs p,
             rNotBefore := NotBefore tmpl, rNotAfter := NotAfter tmpl, rHasKey := True,
             rKeyEnc := (cpPassphrase p \<noteq> []), rCreatedAt := now\<rparr> in
       thenE (AddRecord rec) (ret rec))))))))))"

section \<open>Leaf certificates\<close>

record IssueParams =
  isCommonName :: string
  isOrganization :: string
  isCountry :: string
  isSANs :: "string list"
  isAlgo :: keyAlgo
  isValidDays :: int
  isProfile :: certProfile
  isTemplate :: CertTemplate
  isTemplateName :: string
  isDNSNames :: "string list"
  isEmails :: "string list"
  isURIs :: "string list"
  isIPs :: "addr list"
  isIssuerID :: string
  isCAPassphrase :: string

definition leaf_key_usage :: int where
  "leaf_key_usage = KeyUsageDigitalSignature OR KeyUsageKeyEncipherment"

definition IssueCert :: "(string \<Rightarrow> url option) \<Rightarrow> time \<Rightarrow> randoms \<Rightarrow> IssueParams \<Rightarrow> CertRecord sop" where
  "IssueCert parse now r p =
     (if isCommonName p = [] \<and> tName (isTemplate p) = [] then throw ''common name is required'' else
      thenE (\<lambda>s. (checkR (isIssuerID p \<noteq> [] \<and> ValidCAID s (isIssuerID p)) ''select a valid issuing CA'', s))
      (bindE (gets (\<lambda>s. normalizeIssuer s (isIssuerID p))) (\<lambda>issuer.
      bindE (\<lambda>s. (loadCA s issuer (isCAPassphrase p), s)) (\<lambda>(caCert, caKey).
      bindE (liftE (generateKey (rndKey r) (isAlgo p))) (\<lambda>key.
        let dns = fst (splitSANs (isSANs p)) @ isDNSNames p;
            ips = snd (splitSANs (isSANs p)) @ isIPs p;
            t = isTemplate p;
            templated = (tName t \<noteq> []);
            org = (if templated \<and> isOrganization p = [] then tOrganization t else isOrganization p);
            country = (if templated \<and> isCountry p = [] then tCountry t else isCountry p) in
      thenE (liftE (if templated then validateIssuePolicy t issuer (isValidDays p) (isAlgo p) (isCommonName p) dns ips
                 (isEmails p) (isURIs p) else Inr ()))
      (bindE (liftE (if templated then parsePolicyURIs parse (isURIs p) else Inr [])) (\<lambda>uris.
        let tmpl = noCert\<lparr>SerialNumber := rndSerial r, Subject := subject (isCommonName p) org country,
              NotBefore := now - 5 * minute, NotAfter := AddDays now (isValidDays p),
              KeyUsage := (if templated then profileKeyUsage (tProfile t) (isAlgo p) else leaf_key_usage),
              ExtKeyUsage := extKeyUsage (if templated then tProfile t else isProfile p),
              DNSNames := dns, IPAddresses := ips, EmailAddresses := isEmails p, URIs := uris\<rparr> in
      thenE (guardE (\<not> NotAfter tmpl > NotAfter caCert) ''requested validity exceeds issuing CA expiration'')
      (bindE (liftE (CreateCertificate tmpl caCert (public key) caKey)) (\<lambda>der.
        let keyPEM = marshalKey [] [] key []; ser = serialString (rndSerial r) in
      thenE (SaveCert ser (encodeCertPEM der) (Some keyPEM))
      (let rec = noRecord\<lparr>rSerial := ser, rCommonName := isCommonName p, rKind := ''issued'', rIssuerID := issuer,
             rNotBefore := NotBefore tmpl, rNotAfter := NotAfter tmpl, rHasKey := True, rCreatedAt := now,
             rTemplateName := isTemplateName p, rTemplatePolicy := t\<rparr> in
       thenE (AddRecord rec) (ret rec)))))))))))"

record SignCSRParams =
  spCSR :: "csr option"
  spValidDays :: int
  spProfile :: certProfile
  spIssuerID :: string
  spCAPassphrase :: string
  spTemplate :: CertTemplate
  spTemplateName :: string
  spBackdate :: time

text \<open>
  \<open>signCSRWithoutPersistence\<close>: no state and no key loading. The request and the CA are present; the
  nil checks of the code are the \<open>None\<close> cases of its callers.
\<close>

definition signCSRWithoutPersistence ::
  "time \<Rightarrow> nat \<Rightarrow> csr \<Rightarrow> SignCSRParams \<Rightarrow> xcert \<Rightarrow> privkey \<Rightarrow> bool \<Rightarrow> (CertRecord \<times> xcert) result" where
  "signCSRWithoutPersistence now serial csr p issCert issKey boundExpiry =
     (let t = spTemplate p; templated = (tName t \<noteq> []) in
      if csrSignedBy csr \<noteq> csrPublicKey csr then Inl ''CSR signature is invalid''
      else bindR (if templated then validateCSRPolicy csr t (spIssuerID p) (spValidDays p) else Inr ()) (\<lambda>_.
        if templated \<and> \<not> (case publicKeyAlgo (csrPublicKey csr) of None \<Rightarrow> False | Some a \<Rightarrow> allowedAlgo t a)
          then Inl ''CSR public-key algorithm is not allowed by this template''
        else
        (let backdate = (if spBackdate p = 0 then 5 * minute else spBackdate p);
             notAfter = AddDays now (spValidDays p);
             notAfter = (if templated \<and> boundExpiry \<and> notAfter > NotAfter issCert then NotAfter issCert else notAfter);
             tmpl = noCert\<lparr>SerialNumber := serial, Subject := csrSubject csr, NotBefore := now - backdate, NotAfter := notAfter,
               KeyUsage := (if templated then profileKeyUsage (tProfile t) (publicKeyAlgoValue (csrPublicKey csr)) else leaf_key_usage),
               ExtKeyUsage := extKeyUsage (if templated then tProfile t else spProfile p),
               DNSNames := csrDNS csr, IPAddresses := csrIPs csr, EmailAddresses := csrEmails csr, URIs := csrURIs csr\<rparr> in
         if templated \<and> NotAfter tmpl > NotAfter issCert then Inl ''requested validity exceeds issuing CA expiration''
         else if templated \<and> \<not> NotAfter tmpl > now then Inl ''issuing CA has expired''
         else bindR (CreateCertificate tmpl issCert (csrPublicKey csr) issKey) (\<lambda>der.
           let cn = (if CommonName (csrSubject csr) = [] \<and> csrDNS csr \<noteq> [] then hd (csrDNS csr)
                     else CommonName (csrSubject csr)) in
           Inr (noRecord\<lparr>rSerial := serialString serial, rCommonName := cn, rKind := ''csr'', rIssuerID := spIssuerID p,
                  rNotBefore := NotBefore tmpl, rNotAfter := NotAfter tmpl, rHasKey := False, rCreatedAt := now,
                  rTemplateName := spTemplateName p, rTemplatePolicy := t\<rparr>, der)))))"

definition SignCSR :: "time \<Rightarrow> nat \<Rightarrow> SignCSRParams \<Rightarrow> CertRecord sop" where
  "SignCSR now serial p =
     (case spCSR p of
        None \<Rightarrow> throw ''could not decode CSR PEM''
      | Some csr \<Rightarrow>
        thenE (\<lambda>s. (checkR (spIssuerID p \<noteq> [] \<and> ValidCAID s (spIssuerID p)) ''select a valid issuing CA'', s))
        (bindE (\<lambda>s. (loadCA s (spIssuerID p) (spCAPassphrase p), s)) (\<lambda>(caCert, caKey).
        bindE (liftE (signCSRWithoutPersistence now serial csr p caCert caKey False)) (\<lambda>(rec, der).
        thenE (SaveCert (rSerial rec) (encodeCertPEM der) None)
        (thenE (AddRecord rec) (ret rec))))))"

section \<open>Successful accesses\<close>

lemma io_success: "io f s = (Inr u, t) \<Longrightarrow> \<exists>fs. t = f (s\<lparr>disk := fs\<rparr>)"
  by (erule io_cases) auto

lemma readE_success: "readE f s = (Inr x, t) \<Longrightarrow> \<exists>fs. t = s\<lparr>disk := fs\<rparr> \<and> x = f t"
  by (auto simp: readE_Inr_iff)

lemma ca_dir_full [simp]: "(d :: ca_dir)\<lparr>caCert := c, caKey := k\<rparr> = \<lparr>caCert = c, caKey = k\<rparr>"
  by (cases d) simp

text \<open>The parts of the store that issuance does not touch.\<close>

definition same_others :: "store \<Rightarrow> store \<Rightarrow> bool" where
  "same_others s t \<longleftrightarrow> templates t = templates s \<and> scep t = scep s \<and> devices t = devices s \<and>
     definitions t = definitions s \<and> users t = users s \<and> trashed t = trashed s \<and> deviceKey t = deviceKey s"

lemma SaveCA_success:
  assumes "SaveCA ca c k s = (Inr u, t)"
  shows "cas t = (cas s)(ca := Some \<lparr>caCert = Some c, caKey = Some k\<rparr>) \<and> certs t = certs s \<and> keys t = keys s \<and>
    index t = index s \<and> secrets t = secrets s \<and> unlocked t = unlocked s \<and> same_others s t"
proof -
  from assms obtain s1 s2 where "io (set_ca ca (\<lambda>d. d)) s = (Inr (), s1)"
      "io (set_ca ca (\<lambda>d. d\<lparr>caCert := Some c\<rparr>)) s1 = (Inr (), s2)"
      "io (set_ca ca (\<lambda>d. d\<lparr>caKey := Some k\<rparr>)) s2 = (Inr (), t)"
    by (auto simp: SaveCA_def thenE_Inr_iff)
  from this [THEN io_success] show ?thesis
    by (auto simp: set_ca_def same_others_def)
qed

lemma SaveCert_success:
  assumes "SaveCert n c k s = (Inr u, t)"
  shows "certs t = (certs s)(n := Some c) \<and>
     keys t = (case k of None \<Rightarrow> keys s | Some kp \<Rightarrow> (keys s)(n := Some kp)) \<and> cas t = cas s \<and>
     index t = index s \<and> secrets t = secrets s \<and> unlocked t = unlocked s \<and> same_others s t"
  using assms by (cases k) (auto simp: SaveCert_def thenE_Inr_iff same_others_def dest!: io_success)

lemma AddRecord_success:
  assumes "AddRecord rec s = (Inr u, t)"
  shows "index t = (if rKind rec = caRoot then filter (\<lambda>r. rKind r \<noteq> caRoot) (index s) else index s) @ [rec] \<and>
     cas t = cas s \<and> certs t = certs s \<and> keys t = keys s \<and> secrets t = secrets s \<and> unlocked t = unlocked s \<and> same_others s t"
  using assms by (auto simp: AddRecord_def loadIndex_def saveIndex_def bindE_Inr_iff same_others_def
      dest!: io_success readE_success)

lemma savePassphrase_frame:
  "savePassphrase ca p s = (r, t) \<Longrightarrow> cas t = cas s \<and> certs t = certs s \<and> keys t = keys s \<and> index t = index s \<and>
     unlocked t = unlocked s"
  by (auto simp: savePassphrase_def thenE_def bindE_def io_def throw_def split: if_splits list.splits disk_fault.splits
      prod.splits sum.splits)

section \<open>What a signed certificate holds\<close>

lemma profileKeyUsage_no_certSign: "profileKeyUsage p a AND KeyUsageCertSign = 0"
  by (simp add: profileKeyUsage_def ku_defs Let_def)

lemma signed_request_facts:
  assumes "signCSRWithoutPersistence now serial csr p issCert issKey bound = Inr (rec, der)"
    and "tName (spTemplate p) \<noteq> []"
  shows "csr_permitted csr (spTemplate p) (spIssuerID p) (spValidDays p) \<and>
    csrSignedBy csr = PublicKey der \<and> PublicKey der = csrPublicKey csr \<and>
    (\<exists>a. publicKeyAlgo (PublicKey der) = Some a \<and> allowedAlgo (spTemplate p) a \<and>
       KeyUsage der = profileKeyUsage (tProfile (spTemplate p)) a) \<and>
    \<not> IsCA der \<and> KeyUsage der AND KeyUsageCertSign = 0 \<and>
    ExtKeyUsage der = extKeyUsage (tProfile (spTemplate p)) \<and>
    DNSNames der = csrDNS csr \<and> IPAddresses der = csrIPs csr \<and> EmailAddresses der = csrEmails csr \<and> URIs der = csrURIs csr \<and>
    SignedBy der = PublicKey issCert \<and> NotAfter der \<le> NotAfter issCert \<and>
    NotAfter der \<le> AddDays now (tMaxDays (spTemplate p)) \<and> now < rNotAfter rec \<and>
    rSerial rec = serialString (SerialNumber der) \<and> rIssuerID rec = spIssuerID p"
proof -
  let ?t = "spTemplate p"
  let ?na0 = "AddDays now (spValidDays p)"
  let ?na = "if bound \<and> ?na0 > NotAfter issCert then NotAfter issCert else ?na0"
  from assms obtain a where sig: "csrSignedBy csr = csrPublicKey csr"
    and pol: "validateCSRPolicy csr ?t (spIssuerID p) (spValidDays p) = Inr ()"
    and a: "publicKeyAlgo (csrPublicKey csr) = Some a" "allowedAlgo ?t a"
    and na: "?na \<le> NotAfter issCert" "now < ?na"
    and key: "public issKey = PublicKey issCert"
    and der: "PublicKey der = csrPublicKey csr" "SignedBy der = public issKey" "NotAfter der = der_time ?na"
      "IsCA der = False" "KeyUsage der = profileKeyUsage (tProfile ?t) (publicKeyAlgoValue (csrPublicKey csr))"
      "ExtKeyUsage der = extKeyUsage (tProfile ?t)" "DNSNames der = csrDNS csr" "IPAddresses der = csrIPs csr"
      "EmailAddresses der = csrEmails csr" "URIs der = csrURIs csr" "SerialNumber der = serial"
    and rec: "rNotAfter rec = ?na" "rSerial rec = serialString serial" "rIssuerID rec = spIssuerID p"
    by (auto simp: signCSRWithoutPersistence_def Let_def CreateCertificate_def noCert_def not_le split: if_splits option.splits)
  have perm: "csr_permitted csr ?t (spIssuerID p) (spValidDays p)"
    using pol by (simp add: validateCSRPolicy_permitted)
  then have "spValidDays p \<le> tMaxDays ?t" by (simp add: csr_permitted_def)
  then have "?na0 \<le> AddDays now (tMaxDays ?t)"
    by (simp add: AddDays_def time_units)
  then have "?na \<le> AddDays now (tMaxDays ?t)" by auto
  then have bounds: "NotAfter der \<le> AddDays now (tMaxDays ?t)" "NotAfter der \<le> NotAfter issCert"
    using der(3) na(1) der_time_le [of ?na] by linarith+
  have "KeyUsage der = profileKeyUsage (tProfile ?t) a" using a der by (simp add: publicKeyAlgoValue_def)
  with a der rec sig perm bounds na key profileKeyUsage_no_certSign show ?thesis by simp
qed

text \<open>
  C7. A certificate signed for a request under a template obeys it: the request was one the template permits, the key is
  of an allowed algorithm and the requester's own, the certificate is no CA and cannot sign certificates, carries
  exactly the key usages of its purpose and the names of the request, and outlives neither the
  template's maximum nor its CA.
\<close>

theorem signed_request_obeys_template:
  assumes "signCSRWithoutPersistence now serial csr p issCert issKey bound = Inr (rec, der)"
    and "tName (spTemplate p) \<noteq> []"
  shows "csr_permitted csr (spTemplate p) (spIssuerID p) (spValidDays p) \<and>
    csrSignedBy csr = PublicKey der \<and> PublicKey der = csrPublicKey csr \<and>
    (\<exists>a. publicKeyAlgo (PublicKey der) = Some a \<and> allowedAlgo (spTemplate p) a \<and>
       KeyUsage der = profileKeyUsage (tProfile (spTemplate p)) a) \<and>
    \<not> IsCA der \<and> KeyUsage der AND KeyUsageCertSign = 0 \<and>
    ExtKeyUsage der = extKeyUsage (tProfile (spTemplate p)) \<and>
    DNSNames der = csrDNS csr \<and> IPAddresses der = csrIPs csr \<and> EmailAddresses der = csrEmails csr \<and> URIs der = csrURIs csr \<and>
    SignedBy der = PublicKey issCert \<and> NotAfter der \<le> NotAfter issCert \<and>
    NotAfter der \<le> AddDays now (tMaxDays (spTemplate p)) \<and> now < rNotAfter rec \<and>
    rSerial rec = serialString (SerialNumber der) \<and> rIssuerID rec = spIssuerID p"
  using assms by (rule signed_request_facts)


lemma generateKey_algo: "generateKey r a = Inr k \<Longrightarrow> publicKeyAlgo (public k) = Some a"
  by (auto simp: generateKey_def algo_defs split: if_splits)

lemma validateIssuePolicy_basics:
  "validateIssuePolicy t issuer days a cn dns ips emails uris = Inr () \<Longrightarrow>
     days \<le> tMaxDays t \<and> (tAllowedIssuers t = [] \<or> issuer \<in> set (tAllowedIssuers t)) \<and> allowedAlgo t a"
  by (auto simp: validateIssuePolicy_def policyBasics_iff split: if_splits)

text \<open>
  A certificate issued under a template is stored with its record and its private key, the key belongs to it
  and opens without a passphrase, and the certificate obeys the template: signed by the chosen and permitted CA, a key of the
  requested and allowed algorithm, no CA rights, exactly the usages of the purpose, and
  a lifetime within the template's maximum and the CA's own.
\<close>

lemma issued_certificate:
  assumes issue: "IssueCert parse now r p s = (Inr rec, s')" and t: "tName (isTemplate p) \<noteq> []"
  shows "\<exists>cert key der kpem k. loadCA s (isIssuerID p) (isCAPassphrase p) = Inr (cert, key) \<and>
    rec \<in> set (index s') \<and> rIssuerID rec = isIssuerID p \<and> rSerial rec = serialString (SerialNumber der) \<and>
    certs s' (rSerial rec) = Some (encodeCertPEM der) \<and> keys s' (rSerial rec) = Some kpem \<and>
    unmarshalKey kpem [] = Inr k \<and> public k = PublicKey der \<and>
    SignedBy der = PublicKey cert \<and>
    (tAllowedIssuers (isTemplate p) = [] \<or> isIssuerID p \<in> set (tAllowedIssuers (isTemplate p))) \<and>
    publicKeyAlgo (PublicKey der) = Some (isAlgo p) \<and> allowedAlgo (isTemplate p) (isAlgo p) \<and>
    \<not> IsCA der \<and> KeyUsage der = profileKeyUsage (tProfile (isTemplate p)) (isAlgo p) \<and> KeyUsage der AND KeyUsageCertSign = 0 \<and>
    ExtKeyUsage der = extKeyUsage (tProfile (isTemplate p)) \<and>
    NotAfter der \<le> NotAfter cert \<and> NotAfter der \<le> AddDays now (tMaxDays (isTemplate p))"
proof -
  let ?t = "isTemplate p"
  let ?na = "AddDays now (isValidDays p)"
  let ?dns = "fst (splitSANs (isSANs p)) @ isDNSNames p" and ?ips = "snd (splitSANs (isSANs p)) @ isIPs p"
  let ?org = "if isOrganization p = [] then tOrganization ?t else isOrganization p"
  let ?country = "if isCountry p = [] then tCountry ?t else isCountry p"
  let ?rec = "noRecord\<lparr>rSerial := serialString (rndSerial r), rCommonName := isCommonName p, rKind := ''issued'',
     rIssuerID := normalizeIssuer s (isIssuerID p), rNotBefore := now - 5 * minute, rNotAfter := ?na, rHasKey := True,
     rCreatedAt := now, rTemplateName := isTemplateName p, rTemplatePolicy := ?t\<rparr>"
  from issue t obtain cert key k der s1 uris where ca: "ValidCAID s (isIssuerID p)" "isIssuerID p \<noteq> []"
    and load: "loadCA s (normalizeIssuer s (isIssuerID p)) (isCAPassphrase p) = Inr (cert, key)"
    and k: "generateKey (rndKey r) (isAlgo p) = Inr k"
    and pol: "validateIssuePolicy ?t (normalizeIssuer s (isIssuerID p)) (isValidDays p) (isAlgo p) (isCommonName p)
        ?dns ?ips (isEmails p) (isURIs p) = Inr ()"
    and na: "?na \<le> NotAfter cert"
    and create: "CreateCertificate (noCert\<lparr>SerialNumber := rndSerial r, Subject := subject (isCommonName p) ?org ?country,
        NotBefore := now - 5 * minute, NotAfter := ?na, KeyUsage := profileKeyUsage (tProfile ?t) (isAlgo p),
        ExtKeyUsage := extKeyUsage (tProfile ?t), DNSNames := ?dns, IPAddresses := ?ips, EmailAddresses := isEmails p,
        URIs := uris\<rparr>) cert (public k) key = Inr der"
    and save: "SaveCert (serialString (rndSerial r)) (encodeCertPEM der) (Some (marshalKey [] [] k [])) s = (Inr (), s1)"
    and add: "AddRecord ?rec s1 = (Inr (), s')" and rec: "rec = ?rec"
    by (auto simp: IssueCert_def Let_def bindE_Inr_iff thenE_Inr_iff not_less)
  from create have pk: "public key = PublicKey cert"
    and der: "PublicKey der = public k" "SignedBy der = public key" "NotAfter der = der_time ?na" "\<not> IsCA der"
      "KeyUsage der = profileKeyUsage (tProfile ?t) (isAlgo p)" "ExtKeyUsage der = extKeyUsage (tProfile ?t)"
      "SerialNumber der = rndSerial r"
    by (auto simp: CreateCertificate_def noCert_def split: if_splits)
  have issuer: "normalizeIssuer s (isIssuerID p) = isIssuerID p" using ca by (simp add: normalizeIssuer_def)
  from validateIssuePolicy_basics [OF pol] have days: "isValidDays p \<le> tMaxDays ?t"
    and allowed: "tAllowedIssuers ?t = [] \<or> isIssuerID p \<in> set (tAllowedIssuers ?t)" "allowedAlgo ?t (isAlgo p)"
    by (simp_all add: issuer)
  have "?na \<le> AddDays now (tMaxDays ?t)" using days by (simp add: AddDays_def time_units)
  then have bounds: "NotAfter der \<le> AddDays now (tMaxDays ?t)" "NotAfter der \<le> NotAfter cert"
    using der(3) na der_time_le [of ?na] by linarith+
  have "unmarshalKey (marshalKey [] [] k []) [] = Inr k" by (simp add: unmarshal_marshal)
  moreover have "rSerial rec = serialString (rndSerial r)" "rIssuerID rec = isIssuerID p" "rKind rec = ''issued''"
    by (simp_all add: rec issuer)
  moreover have "rec \<in> set (index s')" "certs s' = certs s1" "keys s' = keys s1"
    using AddRecord_success [OF add] by (simp_all add: rec)
  ultimately show ?thesis
    using SaveCert_success [OF save] load k generateKey_algo [OF k] der issuer allowed bounds pk profileKeyUsage_no_certSign
    by (intro exI [of _ cert] exI [of _ key] exI [of _ der] exI [of _ "marshalKey [] [] k []"] exI [of _ k]) simp
qed


section \<open>Intermediates and the tree\<close>

lemma find_filter: "find P xs = (case filter P xs of [] \<Rightarrow> None | x # _ \<Rightarrow> Some x)"
  by (induction xs) auto

lemma findCARecord_filter:
  "findCARecord s ca = (case sort_key (\<lambda>r. - rCreatedAt r) (filter (is_ca_record ca) (index s)) of [] \<Rightarrow> None | r # _ \<Rightarrow> Some r)"
  by (simp add: findCARecord_def Records_def find_filter filter_sort)

lemma serialString_valid: "ValidSerial (serialString n)"
proof -
  have "ToLower (hexnum n) = hexnum n"
    unfolding ToLower_def
  proof (rule map_idI)
    fix c assume "c \<in> set (hexnum n)"
    from hexnum_chars [OF this] show "lower c = c" by (auto simp: lower_def char_defs)
  qed
  then show ?thesis
    using hexnum_chars [of _ n] by (auto simp: ValidSerial_def serialString_def list_all_iff)
qed

lemma serialString_not_root [simp]: "serialString n \<noteq> caRoot" "serialString n \<noteq> caIntermediate" "serialString n \<noteq> []"
  using serialString_valid [of n] by (auto simp: ValidSerial_def ca_kinds char_defs)

lemma keepUnlocked_success:
  "keepUnlocked ca cert key p s = (Inr u, t) \<Longrightarrow> cas t = cas s \<and> certs t = certs s \<and> keys t = keys s \<and> index t = index s \<and>
     (\<exists>r s1. savePassphrase ca p s = (r, s1) \<and> secrets t = secrets s1 \<and>
       unlocked t = (unlocked s)(ca := Some \<lparr>ucert = cert, ukey = key, passFile = True,
         saveErr = (case r of Inl e \<Rightarrow> Some e | Inr _ \<Rightarrow> None)\<rparr>))"
  by (auto simp: keepUnlocked_def keyring_put_def split: prod.splits dest!: savePassphrase_frame)

definition intermediate_record :: "time \<Rightarrow> randoms \<Rightarrow> IntermediateParams \<Rightarrow> string \<Rightarrow> xcert \<Rightarrow> CertRecord" where
  "intermediate_record now r p parent cert = noRecord\<lparr>rSerial := serialString (rndSerial r), rCommonName := cpCommonName p,
     rKind := caIntermediate, rIssuerID := parent, rCAID := serialString (rndSerial r), rAllowSubCA := ipAllowSubCAs p,
     rNotBefore := now - 5 * minute,
     rNotAfter := min (AddDays now (cpValidDays p)) (NotAfter cert), rHasKey := True,
     rKeyEnc := (cpPassphrase p \<noteq> []), rCreatedAt := now\<rparr>"

lemma CreateIntermediate_success:
  assumes "CreateIntermediate now r p s = (Inr rec, s')"
  obtains cert pkey key der s1 s2 where
    "loadCA s (normalizeIssuer s (ipParentID p)) (ipParentPassphrase p) = Inr (cert, pkey)"
    "\<not> (MaxPathLenZero cert \<and> normalizeIssuer s (ipParentID p) \<noteq> caRoot)"
    "SignedBy der = PublicKey cert" "PublicKey der = public key" "NotAfter der \<le> NotAfter cert" "IsCA der"
    "MaxPathLenZero der = (\<not> ipAllowSubCAs p)" "SerialNumber der = rndSerial r"
    "KeyUsage der = (if ipSCEP p then ca_key_usage OR KeyUsageKeyEncipherment else ca_key_usage)"
    "SaveCA (serialString (rndSerial r)) (encodeCertPEM der) (marshalKey (rndSalt r) (rndNonce r) key (cpPassphrase p)) s
       = (Inr (), s1)"
    "(if cpPassphrase p \<noteq> [] then keepUnlocked (serialString (rndSerial r)) der key (cpPassphrase p) s1 else (Inr (), s1))
       = (Inr (), s2)"
    "AddRecord rec s2 = (Inr (), s')"
    "rec = intermediate_record now r p (normalizeIssuer s (ipParentID p)) cert"
proof -
  let ?parent = "normalizeIssuer s (ipParentID p)"
  let ?n = "serialString (rndSerial r)"
  from assms obtain cert pkey key der s1 s2 where
    load: "loadCA s ?parent (ipParentPassphrase p) = Inr (cert, pkey)"
    and sub: "\<not> (MaxPathLenZero cert \<and> ?parent \<noteq> caRoot)"
    and create: "CreateCertificate (noCert\<lparr>SerialNumber := rndSerial r,
        Subject := subject (cpCommonName p) (cpOrganization p) (cpCountry p), NotBefore := now - 5 * minute,
        NotAfter := (if AddDays now (cpValidDays p) > NotAfter cert then NotAfter cert else AddDays now (cpValidDays p)),
        IsCA := True, MaxPathLenZero := \<not> ipAllowSubCAs p,
        KeyUsage := (if ipSCEP p then ca_key_usage OR KeyUsageKeyEncipherment else ca_key_usage)\<rparr>)
        cert (public key) pkey = Inr der"
    and save: "SaveCA ?n (encodeCertPEM der) (marshalKey (rndSalt r) (rndNonce r) key (cpPassphrase p)) s = (Inr (), s1)"
    and keep: "(if cpPassphrase p \<noteq> [] then keepUnlocked ?n der key (cpPassphrase p) else ret ()) s1 = (Inr (), s2)"
    and add: "AddRecord rec s2 = (Inr (), s')"
    and rec: "rec = noRecord\<lparr>rSerial := ?n, rCommonName := cpCommonName p, rKind := caIntermediate,
        rIssuerID := ?parent, rCAID := ?n, rAllowSubCA := ipAllowSubCAs p, rNotBefore := now - 5 * minute,
        rNotAfter := (if AddDays now (cpValidDays p) > NotAfter cert then NotAfter cert else AddDays now (cpValidDays p)),
        rHasKey := True, rKeyEnc := (cpPassphrase p \<noteq> []), rCreatedAt := now\<rparr>"
    by (auto simp: CreateIntermediate_def Let_def bindE_Inr_iff thenE_Inr_iff)
  have m: "(if AddDays now (cpValidDays p) > NotAfter cert then NotAfter cert else AddDays now (cpValidDays p))
      = min (AddDays now (cpValidDays p)) (NotAfter cert)" by auto
  have "der_time (min (AddDays now (cpValidDays p)) (NotAfter cert)) \<le> NotAfter cert"
    using der_time_le [of "min (AddDays now (cpValidDays p)) (NotAfter cert)"] by linarith
  with create have f: "SignedBy der = PublicKey cert" "PublicKey der = public key" "NotAfter der \<le> NotAfter cert" "IsCA der"
    "MaxPathLenZero der = (\<not> ipAllowSubCAs p)" "SerialNumber der = rndSerial r"
    "KeyUsage der = (if ipSCEP p then ca_key_usage OR KeyUsageKeyEncipherment else ca_key_usage)"
    unfolding m by (auto simp: CreateCertificate_def noCert_def split: if_splits)
  have k: "(if cpPassphrase p \<noteq> [] then keepUnlocked ?n der key (cpPassphrase p) s1 else (Inr (), s1)) = (Inr (), s2)"
    using keep by (auto split: if_splits)
  have "rec = intermediate_record now r p ?parent cert"
    unfolding rec m intermediate_record_def ..
  then show thesis by (rule that [OF load sub f save k add])
qed


lemma walk_path_mono:
  assumes "walk_path up n xs" "\<And>m y. up m = Inr y \<Longrightarrow> up' m = Inr y"
  shows "walk_path up' n xs"
  using assms by induction (auto intro: walk_path.intros)

text \<open>
  A new intermediate takes its place in the tree: when its serial number is not yet that of a CA, its path is its parent's path with its
  own record at the end, and its chain is its certificate followed by the parent's chain.
\<close>

lemma intermediate_in_tree:
  assumes create: "CreateIntermediate now r p s = (Inr rec, s')"
    and fresh: "findCARecord s (serialString (rndSerial r)) = None"
  shows "(\<forall>path. CAPath s (rIssuerID rec) = Inr path \<longrightarrow> CAPath s' (rCAID rec) = Inr (path @ [rec])) \<and>
    (\<forall>chain. IssuerChainPEM s (rIssuerID rec) = Inr chain \<longrightarrow>
      (\<exists>der. IssuerChainPEM s' (rCAID rec) = Inr (encodeCertPEM der @ chain)))"
  using create
proof (rule CreateIntermediate_success, goal_cases)
  case (1 cert pkey key der s1 s2)
  let ?n = "serialString (rndSerial r)" and ?parent = "normalizeIssuer s (ipParentID p)"
  have rec: "rIssuerID rec = ?parent" "rCAID rec = ?n" "rKind rec = caIntermediate"
    by (simp_all add: 1 intermediate_record_def)
  have "cas s2 = cas s1" "index s2 = index s1" using 1(11) keepUnlocked_success by (fastforce split: if_splits)+
  then have cas: "cas s' = (cas s)(?n := Some \<lparr>caCert = Some (encodeCertPEM der),
      caKey = Some (marshalKey (rndSalt r) (rndNonce r) key (cpPassphrase p))\<rparr>)"
    and idx: "index s' = index s @ [rec]"
    using AddRecord_success [OF 1(12)] SaveCA_success [OF 1(10)] rec by (simp_all add: ca_kinds)
  have other: "\<not> is_ca_record x rec" if "x \<noteq> ?n" for x
    using that rec by (simp add: is_ca_record_def)
  have find_other: "findCARecord s' x = findCARecord s x" if "x \<noteq> ?n" for x
    using other [OF that] by (simp add: findCARecord_filter idx)
  have "filter (is_ca_record ?n) (index s) = []"
    using fresh by (auto simp: findCARecord_def find_None_iff_ball filter_empty_conv)
  then have find_new: "findCARecord s' ?n = Some rec"
    using rec by (simp add: findCARecord_filter idx is_ca_record_def)
  have parent_ne: "?parent \<noteq> []" by (simp add: normalizeIssuer_def ca_kinds)
  have rup: "record_up s' m = Inr y" if "record_up s m = Inr y" for m y
    using that fresh find_other by (cases "m = ?n") (auto simp: record_up_def split: option.splits)
  have "record_up s' ?n = Inr (rec, Some ?parent)" by (simp add: record_up_def find_new rec)
  then have path: "walk_path (record_up s') ?n (rec # xs)" if "walk_path (record_up s) ?parent xs" for xs
    using walk_path_mono [OF that rup] by (auto intro: walk_path.above)
  have iup: "issuer_up s' m = Inr y" if "issuer_up s m = Inr y" for m y
    using that fresh find_other cas
    by (cases "m = ?n") (auto simp: issuer_up_def LoadCACertPEM_def split: option.splits if_splits)
  have "issuer_up s' ?n = Inr (encodeCertPEM der, Some ?parent)"
    using parent_ne by (simp add: issuer_up_def LoadCACertPEM_def find_new rec cas)
  then have chain: "walk_path (issuer_up s') ?n (encodeCertPEM der # xs)" if "walk_path (issuer_up s) ?parent xs" for xs
    using walk_path_mono [OF that iup] by (auto intro: walk_path.above)
  have "CAPath s' ?n = Inr (path @ [rec])" if "CAPath s ?parent = Inr path" for path
    using record_walk.go_iff [of s' ?n] path [of "rev path"] record_walk.go_iff [of s ?parent] that
    by (auto simp: CAPath_def)
  moreover have "\<exists>der. IssuerChainPEM s' ?n = Inr (encodeCertPEM der @ pem)" if "IssuerChainPEM s ?parent = Inr pem" for pem
  proof -
    from that obtain xs where "walk_path (issuer_up s) ?parent xs" "pem = concat xs"
      by (auto simp: IssuerChainPEM_def issuer_walk.go_iff)
    with chain [of xs] show ?thesis
      by (auto simp: IssuerChainPEM_def issuer_walk.go_iff intro!: exI [of _ der])
  qed
  ultimately show ?case by (simp add: rec)
qed

section \<open>Keys across a restart\<close>

text \<open>The start of the program: nothing is unlocked but what the passphrase files open.\<close>

definition startup_keys :: "store \<Rightarrow> store" where
  "startup_keys s = unlockSecrets (map caiID (CAs s)) (secrets s) (s\<lparr>unlocked := (\<lambda>_. None)\<rparr>)"

lemma unlockOne_cas: "cas (unlockOne files ca s) = cas s"
  by (simp add: unlockOne_def keyring_put_def split: option.split sum.split prod.split)

lemma unlockOne_other: "ca \<noteq> m \<Longrightarrow> unlocked (unlockOne files ca s) m = unlocked s m"
  by (simp add: unlockOne_def keyring_put_def split: option.split sum.split prod.split)

lemma unlock_fold:
  assumes one: "\<And>t. cas t = D \<Longrightarrow> \<exists>v. unlocked (unlockOne files ca t) ca = Some v \<and> good v"
    and "ca \<in> set ids" "cas s = D"
  shows "\<exists>v. unlocked (fold (unlockOne files) ids s) ca = Some v \<and> good v"
proof -
  have keep: "\<exists>v. unlocked (fold (unlockOne files) ids s) ca = Some v \<and> good v"
    if "cas s = D" "\<exists>v. unlocked s ca = Some v \<and> good v" for ids s
    using that
  proof (induction ids arbitrary: s)
    case (Cons x ids)
    then show ?case
      using one [of s] unlockOne_other [of x ca files s] unlockOne_cas [of files x s] by (cases "x = ca") auto
  qed simp
  show ?thesis using assms(2,3)
  proof (induction ids arbitrary: s)
    case (Cons x ids)
    show ?case
    proof (cases "x = ca")
      case True
      with Cons.prems one [of s] keep [of "unlockOne files x s" ids] unlockOne_cas [of files x s] show ?thesis by simp
    next
      case False
      with Cons unlockOne_cas [of files x s] show ?thesis by simp
    qed
  qed simp
qed


section \<open>An example\<close>

definition succeeds :: "'e + 'a \<Rightarrow> bool" where
  "succeeds r = (case r of Inl _ \<Rightarrow> False | Inr _ \<Rightarrow> True)"

definition example_cert :: xcert where
  "example_cert = noCert\<lparr>SerialNumber := 1, Subject := subject ''Root'' [] [], NotAfter := 4000 * day, IsCA := True,
     KeyUsage := ca_key_usage, PublicKey := ECKey ''P-384'' 1, SignedBy := ECKey ''P-384'' 1\<rparr>"

definition example_store :: store where
  "example_store = empty_store\<lparr>cas := [caRoot \<mapsto> \<lparr>caCert = Some (encodeCertPEM example_cert), caKey = Some None\<rparr>],
     index := [noRecord\<lparr>rSerial := ''1'', rKind := caRoot, rCommonName := ''Root''\<rparr>],
     unlocked := [caRoot \<mapsto> \<lparr>ucert = example_cert, ukey = Private (ECKey ''P-384'' 1), passFile = False, saveErr = None\<rparr>]\<rparr>"

definition example_randoms :: randoms where
  "example_randoms = \<lparr>rndKey = 2, rndSerial = 10, rndSalt = ''salt'', rndNonce = ''nonce''\<rparr>"

definition example_sub :: IntermediateParams where
  "example_sub = \<lparr>cpCommonName = ''SCEP'', cpOrganization = [], cpCountry = [], cpAlgo = algoRSA2048,
     cpValidDays = 5000, cpPassphrase = ''pass'', ipParentID = caRoot, ipParentPassphrase = [],
     ipAllowSubCAs = False, ipSCEP = True\<rparr>"

lemmas example_defs = example_cert_def example_store_def example_randoms_def example_sub_def

lemma hex_10: "serialString 10 = ''a''"
  by code_simp

lemma example_create:
  "CreateIntermediate (1000 * day) example_randoms example_sub example_store =
     (Inr (intermediate_record (1000 * day) example_randoms example_sub caRoot example_cert),
      snd (CreateIntermediate (1000 * day) example_randoms example_sub example_store)) \<and>
   unlocked (snd (CreateIntermediate (1000 * day) example_randoms example_sub example_store)) ''a'' \<noteq> None"
  by (simp add: CreateIntermediate_def Let_def op_simps example_defs normalizeIssuer_def ValidCAID_def HasCA_def loadCA_def
      keyring_get_def algo_defs ca_kinds empty_store_def generateKey_def CreateCertificate_def SaveCA_def io_def set_ca_def
      keepUnlocked_def savePassphrase_def keyring_put_def HasSuffix_def AddRecord_def loadIndex_def saveIndex_def readE_def
      hex_10 intermediate_record_def noCert_def noRecord_def AddDays_def time_units LF_def CR_def min_def)


abbreviation (input) example_after :: store where
  "example_after \<equiv> snd (CreateIntermediate (1000 * day) example_randoms example_sub example_store)"

abbreviation (input) example_new :: CertRecord where
  "example_new \<equiv> intermediate_record (1000 * day) example_randoms example_sub caRoot example_cert"

lemma example_new_id: "rCAID example_new = ''a''" "rIssuerID example_new = caRoot" "\<not> rAllowSubCA example_new"
  by (simp_all add: intermediate_record_def example_randoms_def example_sub_def hex_10)

lemma example_saved: "\<exists>u. unlocked example_after ''a'' = Some u \<and> saveErr u = None"
  by (simp add: CreateIntermediate_def Let_def op_simps example_defs normalizeIssuer_def ValidCAID_def HasCA_def loadCA_def
      keyring_get_def algo_defs ca_kinds empty_store_def generateKey_def CreateCertificate_def SaveCA_def io_def set_ca_def
      keepUnlocked_def savePassphrase_def keyring_put_def HasSuffix_def AddRecord_def loadIndex_def saveIndex_def readE_def
      hex_10 intermediate_record_def noCert_def noRecord_def AddDays_def time_units LF_def CR_def min_def)


lemma example_pass: "ipParentPassphrase example_sub = []"
  by (simp add: example_sub_def)

lemma example_cert_times: "NotAfter example_cert = 4000 * day"
  by (simp add: example_cert_def noCert_def)


theorem intermediate_in_tree_witness:
  "CAPath example_after ''a'' = Inr [noRecord\<lparr>rSerial := ''1'', rKind := caRoot, rCommonName := ''Root''\<rparr>, example_new]"
proof -
  have none: "findCARecord example_store (serialString (rndSerial example_randoms)) = None"
    by (simp add: findCARecord_filter is_ca_record_def example_store_def empty_store_def ca_kinds noRecord_def
        example_randoms_def hex_10)
  have "CAPath example_store caRoot = Inr [noRecord\<lparr>rSerial := ''1'', rKind := caRoot, rCommonName := ''Root''\<rparr>]"
    by (simp add: CAPath_def ca_path.simps findCARecord_filter is_ca_record_def example_store_def empty_store_def
        ca_kinds noRecord_def)
  with intermediate_in_tree [OF conjunct1 [OF example_create] none] show ?thesis
    by (simp add: example_new_id)
qed

definition example_csr :: csr where
  "example_csr = \<lparr>csrSubject = subject ''a.example'' [] [], csrDNS = [''a.example''], csrIPs = [], csrEmails = [], csrURIs = [],
     csrPublicKey = RSAKey 7 2048, csrExtensions = [], csrSignedBy = RSAKey 7 2048, csrAttributes = Some [],
     csrRaw = ''csr''\<rparr>"

definition example_sign :: SignCSRParams where
  "example_sign = \<lparr>spCSR = Some example_csr, spValidDays = 90, spProfile = [], spIssuerID = caRoot, spCAPassphrase = [],
     spTemplate = builtin ''TLS-Server'' [] profileServer 90 365, spTemplateName = ''TLS-Server'', spBackdate = 0\<rparr>"

lemma example_policy: "validateCSRPolicy example_csr (spTemplate example_sign) caRoot 90 = Inr ()"
  unfolding validateCSRPolicy_permitted
  by (simp add: csr_permitted_def example_csr_def example_sign_def builtin_def noTemplate_def all_profiles_def profile_defs
      names_permitted_def)

lemma example_algo: "publicKeyAlgo (csrPublicKey example_csr) = Some algoRSA2048" "allowedAlgo (spTemplate example_sign) algoRSA2048"
  by (simp_all add: example_csr_def example_sign_def builtin_def allowedAlgo_def all_algos_def algo_defs)

lemma example_params: "csrSignedBy example_csr = csrPublicKey example_csr" "spIssuerID example_sign = caRoot"
    "spValidDays example_sign = 90" "tName (spTemplate example_sign) \<noteq> []" "public (Private k) = k"
    "PublicKey example_cert = ECKey ''P-384'' 1"
  by (simp_all add: example_csr_def example_sign_def builtin_def example_cert_def)

lemma example_signed:
  "succeeds (signCSRWithoutPersistence (1000 * day) 11 example_csr example_sign example_cert (Private (ECKey ''P-384'' 1)) False)"
  by (simp add: succeeds_def signCSRWithoutPersistence_def Let_def example_policy example_algo example_params
      example_cert_times CreateCertificate_def AddDays_def time_units noCert_def)

theorem signed_request_obeys_template_witness:
  "\<exists>rec der. signCSRWithoutPersistence (1000 * day) 11 example_csr example_sign example_cert (Private (ECKey ''P-384'' 1)) False
      = Inr (rec, der) \<and> \<not> IsCA der \<and> ExtKeyUsage der = [ServerAuth] \<and> DNSNames der = [''a.example'']"
proof -
  from example_signed obtain rec der where
    *: "signCSRWithoutPersistence (1000 * day) 11 example_csr example_sign example_cert (Private (ECKey ''P-384'' 1)) False
      = Inr (rec, der)"
    by (auto simp: succeeds_def split: sum.splits)
  have "tName (spTemplate example_sign) \<noteq> []" by (simp add: example_sign_def builtin_def)
  from signed_request_obeys_template [OF * this] have "\<not> IsCA der" "DNSNames der = csrDNS example_csr"
    "ExtKeyUsage der = extKeyUsage (tProfile (spTemplate example_sign))" by blast+
  moreover have "extKeyUsage (tProfile (spTemplate example_sign)) = [ServerAuth]" "csrDNS example_csr = [''a.example'']"
    by (simp_all add: example_sign_def example_csr_def builtin_def extKeyUsage_def profile_defs)
  ultimately show ?thesis using * by metis
qed

definition example_issue :: IssueParams where
  "example_issue = \<lparr>isCommonName = ''web'', isOrganization = [], isCountry = [], isSANs = [], isAlgo = algoECP256,
     isValidDays = 90, isProfile = [], isTemplate = builtin ''TLS-Server'' [] profileServer 90 365,
     isTemplateName = ''TLS-Server'', isDNSNames = [''web.example''], isEmails = [], isURIs = [], isIPs = [],
     isIssuerID = caRoot, isCAPassphrase = []\<rparr>"

lemma example_issued:
  "succeeds (fst (IssueCert (\<lambda>_. None) (1000 * day) example_randoms example_issue example_store))"
  by (simp add: succeeds_def IssueCert_def Let_def op_simps example_issue_def example_defs normalizeIssuer_def ValidCAID_def HasCA_def
      loadCA_def keyring_get_def algo_defs ca_kinds empty_store_def generateKey_def CreateCertificate_def SaveCert_def io_def
      validateIssuePolicy_def policyBasics_def builtin_def noTemplate_def all_profiles_def profile_defs allowedAlgo_def
      all_algos_def serverAuth_def splitSANs_def List.map_filter_def parsePolicyURIs_def noCert_def AddDays_def time_units
      AddRecord_def loadIndex_def saveIndex_def readE_def noRecord_def)

theorem issued_certificate_witness:
  "\<exists>rec s' der. IssueCert (\<lambda>_. None) (1000 * day) example_randoms example_issue example_store = (Inr rec, s') \<and>
     certs s' (rSerial rec) = Some (encodeCertPEM der) \<and> SignedBy der = ECKey ''P-384'' 1 \<and> ExtKeyUsage der = [ServerAuth]"
proof -
  from example_issued obtain rec s' where
    *: "IssueCert (\<lambda>_. None) (1000 * day) example_randoms example_issue example_store = (Inr rec, s')"
    by (cases "IssueCert (\<lambda>_. None) (1000 * day) example_randoms example_issue example_store") (auto simp: succeeds_def split: sum.splits)
  have t: "tName (isTemplate example_issue) \<noteq> []" by (simp add: example_issue_def builtin_def)
  have "loadCA example_store caRoot [] = Inr (example_cert, Private (ECKey ''P-384'' 1))"
    by (simp add: loadCA_def keyring_get_def example_store_def)
  moreover have "isIssuerID example_issue = caRoot" "isCAPassphrase example_issue = []"
    "extKeyUsage (tProfile (isTemplate example_issue)) = [ServerAuth]"
    by (simp_all add: example_issue_def builtin_def extKeyUsage_def profile_defs)
  ultimately obtain der where "certs s' (rSerial rec) = Some (encodeCertPEM der)" "SignedBy der = PublicKey example_cert"
      "ExtKeyUsage der = [ServerAuth]"
    using issued_certificate [OF * t] by auto
  with * example_params show ?thesis by metis
qed

end
