(* ===== verification/ScepStore.thy ===== *)
theory ScepStore
  imports CaIssue
begin

text \<open>
  The enrollment journal of \<open>scep_store.go\<close> and the deletions of \<open>store.go\<close> that depend on it. The journal \<open>scep.json\<close> is the authority: an
  enrollment is committed there before anything else, and the certificate store is a projection of
  committed entries that \<open>recover\<close> completes. SHA-256 is an argument \<open>H\<close>; secrets and the time are arguments.
\<close>

section \<open>Journal entries\<close>

definition scepRetention :: time where "scepRetention = 7 * 24 * hour"

definition challengeStatus :: "time \<Rightarrow> scepChallenge \<Rightarrow> string" where
  "challengeStatus now c =
     (if iUsed (cIssuance c) \<noteq> 0 then ''used''
      else if cRevoked c then ''revoked''
      else if now > cExpires c then ''expired''
      else ''active'')"

definition sharedStatus :: "time \<Rightarrow> scepSharedChallenge \<Rightarrow> string" where
  "sharedStatus now c =
     (if hRevoked c then ''revoked''
      else if now > hExpires c then ''expired''
      else ''active'')"

definition scep_load :: "scepState sop" where
  "scep_load = readE scep"

definition scep_save :: "scepState \<Rightarrow> unit sop" where
  "scep_save st = io (\<lambda>s. s\<lparr>scep := st\<rparr>)"

section \<open>The CA\<close>

definition scep_key_usage :: int where
  "scep_key_usage = ca_key_usage OR KeyUsageKeyEncipherment"

definition scep_ca :: "store \<Rightarrow> string \<Rightarrow> xcert result" where
  "scep_ca s ca =
     (if ca = caRoot \<or> \<not> ValidCAID s ca then Inl ''select an existing SCEP intermediate''
      else case LoadCACertPEM s ca of
          None \<Rightarrow> Inl ''file does not exist''
        | Some pem \<Rightarrow>
            (case pem_Decode pem of
               None \<Rightarrow> Inl ''invalid CA PEM''
             | Some (None, _) \<Rightarrow> Inl ''x509: malformed certificate''
             | Some (Some c, _) \<Rightarrow>
                 if \<not> is_rsa (PublicKey c) \<or> rsa_bits (PublicKey c) < 2048 \<or> \<not> IsCA c \<or> \<not> MaxPathLenZero c \<or>
                    KeyUsage c AND scep_key_usage \<noteq> scep_key_usage
                 then Inl ''SCEP requires a leaf-only RSA intermediate with certSign, crlSign, digitalSignature and keyEncipherment''
                 else Inr c))"

definition unlockedKey :: "store \<Rightarrow> string \<Rightarrow> xcert \<Rightarrow> privkey result" where
  "unlockedKey s ca c =
     (case keyring_get s ca of
        None \<Rightarrow> Inl ''SCEP CA is locked''
      | Some u \<Rightarrow>
          if \<not> is_rsa (public (ukey u)) \<or> public (ukey u) \<noteq> PublicKey c then Inl ''CA key mismatch''
          else Inr (ukey u))"

definition selectCA :: "string \<Rightarrow> unit sop" where
  "selectCA ca =
     bindE scep_load (\<lambda>st.
     bindE (\<lambda>s. (scep_ca s ca, s)) (\<lambda>c.
     bindE (\<lambda>s. (unlockedKey s ca c, s)) (\<lambda>_.
       scep_save (st\<lparr>stCA := ca\<rparr>))))"

text \<open>The loop of \<open>ready\<close>: every certificate of the chain is valid now and caps the CA's expiry.\<close>

fun chain_valid :: "time \<Rightarrow> xcert \<Rightarrow> certpem \<Rightarrow> xcert result" where
  "chain_valid now c [] = Inr c"
| "chain_valid now c (Junk # is) = (if pem_Decode is = None then Inl ''invalid CA chain'' else chain_valid now c is)"
| "chain_valid now c (Block None # is) = Inl ''x509: malformed certificate''"
| "chain_valid now c (Block (Some a) # is) =
     (if now < NotBefore a \<or> \<not> now < NotAfter a then Inl ''CA chain not currently valid''
      else chain_valid now (if NotAfter a < NotAfter c then c\<lparr>NotAfter := NotAfter a\<rparr> else c) is)"

definition ready :: "time \<Rightarrow> scepState \<Rightarrow> store \<Rightarrow> (xcert \<times> privkey) result" where
  "ready now st s =
     bindR (scep_ca s (stCA st)) (\<lambda>c.
     bindR (unlockedKey s (stCA st) c) (\<lambda>k.
     bindR (IssuerChainPEM s (stCA st)) (\<lambda>chain.
     bindR (chain_valid now c chain) (\<lambda>c'. Inr (c', k)))))"

section \<open>Publication and recovery\<close>

definition publish :: "scepIssuance \<Rightarrow> scepIssuance sop" where
  "publish iss =
     thenE (io (\<lambda>s. s\<lparr>certs := (certs s)(rSerial (iRecord iss) := Some [Block (iDER iss)])\<rparr>))
     (bindE loadIndex (\<lambda>recs.
      thenE (if \<exists>r \<in> set recs. rSerial r = rSerial (iRecord iss) then ret () else saveIndex (recs @ [iRecord iss]))
        (ret (iss\<lparr>iPublished := True\<rparr>))))"

definition is_pending :: "scepIssuance \<Rightarrow> bool" where
  "is_pending iss \<longleftrightarrow> \<not> (iUsed iss = 0 \<or> iPublished iss)"

definition pending :: "string \<Rightarrow> scepIssuance \<Rightarrow> scepIssuance sop" where
  "pending ca iss =
     (if \<not> is_pending iss then ret iss
      else bindE (\<lambda>s. (scep_ca s ca, s)) (\<lambda>_. publish iss))"

fun mapE :: "('a \<Rightarrow> ('s, 'e, 'b) opx) \<Rightarrow> 'a list \<Rightarrow> ('s, 'e, 'b list) opx" where
  "mapE f [] = ret []"
| "mapE f (x # xs) = bindE (f x) (\<lambda>y. bindE (mapE f xs) (\<lambda>ys. ret (y # ys)))"

definition pending_challenge :: "scepChallenge \<Rightarrow> scepChallenge sop" where
  "pending_challenge c = bindE (pending (cCA c) (cIssuance c)) (\<lambda>iss. ret (c\<lparr>cIssuance := iss\<rparr>))"

definition pending_shared :: "scepSharedChallenge \<Rightarrow> scepSharedChallenge sop" where
  "pending_shared c =
     bindE (mapE (\<lambda>i. bindE (pending (hCA c) (sIssuance i)) (\<lambda>iss. ret (i\<lparr>sIssuance := iss\<rparr>))) (hIssuances c))
       (\<lambda>is. ret (c\<lparr>hIssuances := is\<rparr>))"

definition dirty :: "scepState \<Rightarrow> bool" where
  "dirty st \<longleftrightarrow> (\<exists>c \<in> set (stChallenges st). is_pending (cIssuance c)) \<or>
     (\<exists>c \<in> set (stShared st). \<exists>i \<in> set (hIssuances c). is_pending (sIssuance i))"

definition scep_recover :: "scepState \<Rightarrow> scepState sop" where
  "scep_recover st =
     bindE (mapE pending_challenge (stChallenges st)) (\<lambda>cs.
     bindE (mapE pending_shared (stShared st)) (\<lambda>hs.
       let st' = st\<lparr>stChallenges := cs, stShared := hs\<rparr> in
       thenE (if dirty st then scep_save st' else ret ()) (ret st')))"

definition scep_startup :: "unit sop" where
  "scep_startup = bindE scep_load (\<lambda>st. thenE (scep_recover st) (ret ()))"

definition reconcileSCEP :: "unit sop" where
  "reconcileSCEP = bindE scep_load (\<lambda>st. thenE (scep_recover st) (ret ()))"

section \<open>Retention\<close>

definition keep_challenge :: "time \<Rightarrow> scepChallenge \<Rightarrow> bool" where
  "keep_challenge now c =
     (let iss = cIssuance c;
          limit = (if iUsed iss \<noteq> 0 then iUsed iss + scepRetention else cExpires c + scepRetention) in
      now < limit \<or> (iUsed iss \<noteq> 0 \<and> \<not> iPublished iss))"

text \<open>The newest issuance of each identity; the first of equally new ones.\<close>

fun newest :: "scepSharedIssuance list \<Rightarrow> nat \<Rightarrow> (string \<Rightarrow> (nat \<times> time) option) \<Rightarrow> string \<Rightarrow> (nat \<times> time) option" where
  "newest [] j m = m"
| "newest (i # is) j m =
     newest is (Suc j)
       (case m (sIdentity i) of
          None \<Rightarrow> m(sIdentity i \<mapsto> (j, iUsed (sIssuance i)))
        | Some (_, t) \<Rightarrow> if iUsed (sIssuance i) > t then m(sIdentity i \<mapsto> (j, iUsed (sIssuance i))) else m)"

definition keep_issuances :: "time \<Rightarrow> scepSharedIssuance list \<Rightarrow> scepSharedIssuance list" where
  "keep_issuances now is =
     map snd (filter (\<lambda>(j, i). now < iUsed (sIssuance i) + scepRetention \<or> \<not> iPublished (sIssuance i) \<or>
         map_option fst (newest is 0 (\<lambda>_. None) (sIdentity i)) = Some j)
       (List.enumerate 0 is))"

definition pruneShared :: "time \<Rightarrow> scepSharedChallenge list \<Rightarrow> scepSharedChallenge list" where
  "pruneShared now hs =
     filter (\<lambda>c. now < hExpires c + scepRetention \<or> hIssuances c \<noteq> [])
       (map (\<lambda>c. c\<lparr>hIssuances := keep_issuances now (hIssuances c)\<rparr>) hs)"

definition pruneSCEP :: "time \<Rightarrow> scepState \<Rightarrow> scepState" where
  "pruneSCEP now st = st\<lparr>stChallenges := filter (keep_challenge now) (stChallenges st),
     stShared := pruneShared now (stShared st)\<rparr>"

section \<open>Challenges\<close>

definition dns_label :: "string \<Rightarrow> bool" where
  "dns_label l \<longleftrightarrow> l \<noteq> [] \<and> length l \<le> 63 \<and> hd l \<noteq> CHR ''-'' \<and> last l \<noteq> CHR ''-'' \<and>
     list_all (\<lambda>c. is_alnum c \<or> c = CHR ''-'') l"

definition challenge_dns :: "string \<Rightarrow> unit result" where
  "challenge_dns d =
     (if length d > 253 \<or> ContainsAny d (''* /:@'' @ [TAB, CR, LF]) then Inl (''invalid DNS identity '' @ quoted d)
      else check_all (\<lambda>l. checkR (dns_label l) ''invalid DNS label'') (Split CHR ''.'' d))"

definition getTemplateE :: "string \<Rightarrow> CertTemplate option sop" where
  "getTemplateE name = (\<lambda>s. case GetTemplate name s of (t, s') \<Rightarrow> (Inr t, s'))"

text \<open>What both kinds of challenge check of the template and the lifetime.\<close>

definition challenge_profile :: "scepState \<Rightarrow> string \<Rightarrow> int \<Rightarrow> (CertTemplate \<times> int) sop" where
  "challenge_profile st profile days0 =
     thenE (\<lambda>s. (bindR (scep_ca s (stCA st)) (\<lambda>_. Inr ()), s))
     (bindE (getTemplateE profile) (\<lambda>found.
       case found of
         None \<Rightarrow> throw ''select a TLS server template''
       | Some t \<Rightarrow>
           if \<not> serverAuth (tProfile t) then throw ''select a TLS server template''
           else
           let days = (if days0 = 0 then 365 else days0) in
           if days < 1 \<or> days > 36500 then throw ''invalid certificate lifetime''
           else
           let days = (if days > tMaxDays t then tMaxDays t else days) in
           thenE (liftE (policyBasics t (stCA st) days)) (ret (t, days))))"

definition challenge_capacity :: "time \<Rightarrow> scepState \<Rightarrow> scepState sop" where
  "challenge_capacity now st =
     bindE (scep_recover st) (\<lambda>st.
       let st = pruneSCEP now st in
       if length (stChallenges st) + length (stShared st) \<ge> 10000
       then throw ''SCEP challenge capacity reached; wait for retention cleanup''
       else ret st)"

definition new_challenge :: "(string \<Rightarrow> string) \<Rightarrow> time \<Rightarrow> string \<Rightarrow> string \<Rightarrow> string list \<Rightarrow> int \<Rightarrow> int \<Rightarrow> string sop" where
  "new_challenge H now secret profile identities days0 hours0 =
     bindE scep_load (\<lambda>st.
     bindE (challenge_profile st profile days0) (\<lambda>(t, days).
       let hours = (if hours0 = 0 then 24 else hours0) in
       if hours < 1 \<or> hours > 168 then throw ''challenge lifetime must be 1-168 hours''
       else
       let (dns, ips) = splitSANs identities in
       if length dns + length ips = 0 \<or> length dns + length ips > 100
       then throw ''supply 1-100 authorized DNS/IP identities''
       else
       thenE (liftE (check_all challenge_dns dns))
       (bindE (challenge_capacity now st) (\<lambda>st.
        thenE (scep_save (st\<lparr>stChallenges := stChallenges st @
             [\<lparr>cHash = H secret, cCA = stCA st, cProfile = t, cDNS = dns, cIPs = ips, cDays = days,
               cExpires = now + hours * hour, cRevoked = False, cIssuance = noIssuance\<rparr>]\<rparr>))
          (ret secret)))))"

definition setAllowDES :: "bool \<Rightarrow> unit sop" where
  "setAllowDES allow = bindE scep_load (\<lambda>st. scep_save (st\<lparr>stAllowDES := allow\<rparr>))"

definition revoke :: "string \<Rightarrow> unit sop" where
  "revoke hash =
     bindE scep_load (\<lambda>st.
       case find (\<lambda>c. cHash c = hash) (stChallenges st) of
         Some c \<Rightarrow>
           (if iUsed (cIssuance c) \<noteq> 0 then throw ''challenge already used; certificate revocation is not supported''
            else scep_save (st\<lparr>stChallenges := the (replace_first (\<lambda>c. cHash c = hash) (\<lambda>c. c\<lparr>cRevoked := True\<rparr>) (stChallenges st))\<rparr>))
       | None \<Rightarrow>
           (case replace_first (\<lambda>c. hHash c = hash) (\<lambda>c. c\<lparr>hRevoked := True\<rparr>) (stShared st) of
              Some hs \<Rightarrow> scep_save (st\<lparr>stShared := hs\<rparr>)
            | None \<Rightarrow> throw ''challenge not found''))"

definition deletable :: "string \<Rightarrow> bool" where
  "deletable status \<longleftrightarrow> status = ''revoked'' \<or> status = ''expired''"

fun remove_first :: "('a \<Rightarrow> bool) \<Rightarrow> 'a list \<Rightarrow> 'a list" where
  "remove_first P [] = []"
| "remove_first P (x # xs) = (if P x then xs else x # remove_first P xs)"

definition deleteChallenge :: "time \<Rightarrow> string \<Rightarrow> unit sop" where
  "deleteChallenge now hash =
     bindE scep_load (\<lambda>st.
       case find (\<lambda>c. cHash c = hash) (stChallenges st) of
         Some c \<Rightarrow>
           (if \<not> deletable (challengeStatus now c) then throw ''only revoked or expired challenges can be deleted''
            else scep_save (st\<lparr>stChallenges := remove_first (\<lambda>c. cHash c = hash) (stChallenges st)\<rparr>))
       | None \<Rightarrow>
           (case find (\<lambda>c. hHash c = hash) (stShared st) of
              Some c \<Rightarrow>
                (if \<not> deletable (sharedStatus now c) then throw ''only revoked or expired challenges can be deleted''
                 else if \<exists>i \<in> set (hIssuances c). \<not> iPublished (sIssuance i)
                 then throw ''challenge has an unpublished certificate; retry after it is published''
                 else scep_save (st\<lparr>stShared := remove_first (\<lambda>c. hHash c = hash) (stShared st)\<rparr>))
            | None \<Rightarrow> throw ''challenge not found''))"

section \<open>Deletions\<close>

definition DeleteCA :: "string \<Rightarrow> unit sop" where
  "DeleteCA ca =
     thenE reconcileSCEP
     (thenE (\<lambda>s. (checkR (ValidCAID s ca) (''CA '' @ ca @ '' not found''), s))
     (bindE loadIndex (\<lambda>recs.
      bindE (liftE (caSubtree recs ca)) (\<lambda>(tree, leaves).
      thenE (trash recs (tree @ leaves))
        (modifyE (fold (\<lambda>r. keyring_drop (caIDOf r)) tree))))))"

definition DeleteCert :: "string \<Rightarrow> unit sop" where
  "DeleteCert serial =
     thenE reconcileSCEP
     (if \<not> ValidSerial serial then throw ''invalid serial''
      else bindE loadIndex (\<lambda>recs.
        case find (\<lambda>r. rSerial r = serial \<and> (rKind r = ''issued'' \<or> rKind r = ''csr'')) recs of
          Some r \<Rightarrow> trash recs [r]
        | None \<Rightarrow> throw ''certificate not found''))"

section \<open>Recovery\<close>

text \<open>What recovery does to the journal: every pending entry is published.\<close>

definition mark :: "scepIssuance \<Rightarrow> scepIssuance" where
  "mark iss = (if is_pending iss then iss\<lparr>iPublished := True\<rparr> else iss)"

definition mark_challenge :: "scepChallenge \<Rightarrow> scepChallenge" where
  "mark_challenge c = c\<lparr>cIssuance := mark (cIssuance c)\<rparr>"

definition mark_shared :: "scepSharedChallenge \<Rightarrow> scepSharedChallenge" where
  "mark_shared c = c\<lparr>hIssuances := map (\<lambda>i. i\<lparr>sIssuance := mark (sIssuance i)\<rparr>) (hIssuances c)\<rparr>"

definition mark_all :: "scepState \<Rightarrow> scepState" where
  "mark_all st = st\<lparr>stChallenges := map mark_challenge (stChallenges st), stShared := map mark_shared (stShared st)\<rparr>"

definition pending_records :: "scepState \<Rightarrow> CertRecord set" where
  "pending_records st =
     iRecord ` {iss. is_pending iss \<and> ((\<exists>c \<in> set (stChallenges st). iss = cIssuance c) \<or>
       (\<exists>c \<in> set (stShared st). \<exists>i \<in> set (hIssuances c). iss = sIssuance i))}"

lemma mark_not_pending [simp]: "\<not> is_pending (mark iss)"
  by (simp add: mark_def is_pending_def)

lemma mark_id: "\<not> is_pending iss \<Longrightarrow> mark iss = iss"
  by (simp add: mark_def)

lemma mark_all_clean [simp]: "\<not> dirty (mark_all st)"
  by (auto simp: dirty_def mark_all_def mark_challenge_def mark_shared_def)

lemma mark_all_id: "\<not> dirty st \<Longrightarrow> mark_all st = st"
proof -
  assume c: "\<not> dirty st"
  have "map mark_challenge (stChallenges st) = stChallenges st"
    by (rule map_idI) (use c in \<open>simp add: dirty_def mark_challenge_def mark_id\<close>)
  moreover have "map mark_shared (stShared st) = stShared st"
  proof (rule map_idI)
    fix h assume "h \<in> set (stShared st)"
    with c have "map (\<lambda>i. i\<lparr>sIssuance := mark (sIssuance i)\<rparr>) (hIssuances h) = hIssuances h"
      by (intro map_idI) (simp add: dirty_def mark_id)
    then show "mark_shared h = h" by (simp add: mark_shared_def)
  qed
  ultimately show ?thesis by (simp add: mark_all_def)
qed

lemma pending_records_clean: "\<not> dirty st \<Longrightarrow> pending_records st = {}"
  by (auto simp: pending_records_def dirty_def)

subsection \<open>The journal during recovery\<close>

lemma preserves_read: "preserves I (\<lambda>s. (f s, s))"
  by (simp add: preserves_def)

lemma publish_scep: "preserves (\<lambda>s. scep s = st) (publish iss)"
  unfolding publish_def loadIndex_def saveIndex_def
  by (intro keeps preserves_io preserves_readE) simp_all

lemma pending_scep: "preserves (\<lambda>s. scep s = st) (pending ca iss)"
  unfolding pending_def by (intro keeps preserves_read publish_scep)

lemma publish_result: "publish iss s = (Inr iss', t) \<Longrightarrow> iss' = iss\<lparr>iPublished := True\<rparr>"
  by (auto simp: publish_def thenE_Inr_iff bindE_Inr_iff)

lemma pending_result: "pending ca iss s = (Inr iss', t) \<Longrightarrow> iss' = mark iss"
  by (auto simp: pending_def mark_def bindE_Inr_iff dest: publish_result split: if_splits)

lemma preserves_mapE: "(\<And>x. preserves I (f x)) \<Longrightarrow> preserves I (mapE f xs)"
  by (induction xs) (auto intro: keeps)

lemma mapE_result:
  assumes "\<And>x s y t. f x s = (Inr y, t) \<Longrightarrow> y = g x" and "mapE f xs s = (Inr ys, t)"
  shows "ys = map g xs"
  using assms(2) by (induction xs arbitrary: ys s) (auto simp: bindE_Inr_iff dest!: assms(1))

lemma pending_challenge_result: "pending_challenge c s = (Inr c', t) \<Longrightarrow> c' = mark_challenge c"
  by (auto simp: pending_challenge_def mark_challenge_def bindE_Inr_iff dest: pending_result)

lemma pending_shared_result: "pending_shared c s = (Inr c', t) \<Longrightarrow> c' = mark_shared c"
  unfolding pending_shared_def mark_shared_def bindE_Inr_iff
  by (auto dest!: mapE_result [rotated, where g = "\<lambda>i. i\<lparr>sIssuance := mark (sIssuance i)\<rparr>"] simp: bindE_Inr_iff dest: pending_result)

lemma recover_result: "scep_recover st s = (Inr st', t) \<Longrightarrow> st' = mark_all st"
  unfolding scep_recover_def mark_all_def Let_def
  by (auto simp: bindE_Inr_iff thenE_Inr_iff dest!: mapE_result [rotated, OF _ pending_challenge_result]
      mapE_result [rotated, OF _ pending_shared_result])

lemma mapE_pending_scep:
  "preserves (\<lambda>s. scep s = st) (mapE pending_challenge cs)" "preserves (\<lambda>s. scep s = st) (mapE pending_shared hs)"
  unfolding pending_challenge_def pending_shared_def
  by (intro preserves_mapE keeps pending_scep)+

lemma save_triple: "triple (\<lambda>s. scep s = st) (scep_save st') (\<lambda>_ s. scep s = st') (\<lambda>s. scep s = st \<or> scep s = st')"
  unfolding scep_save_def by (rule io_triple) simp_all

text \<open>
  Recovery leaves the journal as it was or with every pending entry published, and when it
  succeeds it is the latter.
\<close>

lemma recover_triple:
  "triple (\<lambda>s. scep s = st) (scep_recover st) (\<lambda>st' s. st' = mark_all st \<and> scep s = mark_all st)
     (\<lambda>s. scep s = st \<or> scep s = mark_all st)"
proof (unfold triple_def, intro allI impI)
  fix s :: store assume s: "scep s = st"
  obtain r1 t1 where 1: "mapE pending_challenge (stChallenges st) s = (r1, t1)" by fastforce
  have s1: "scep t1 = st" using preservesD [OF mapE_pending_scep(1) s 1] .
  show "case scep_recover st s of (Inl e, t) \<Rightarrow> scep t = st \<or> scep t = mark_all st
      | (Inr st', t) \<Rightarrow> st' = mark_all st \<and> scep t = mark_all st"
  proof (cases r1)
    case (Inl e)
    with 1 s1 show ?thesis by (simp add: scep_recover_def bindE_Inl)
  next
    case (Inr cs)
    obtain r2 t2 where 2: "mapE pending_shared (stShared st) t1 = (r2, t2)" by fastforce
    have s2: "scep t2 = st" using preservesD [OF mapE_pending_scep(2) s1 2] .
    show ?thesis
    proof (cases r2)
      case (Inl e)
      with 1 2 Inr s2 show ?thesis by (simp add: scep_recover_def bindE_def)
    next
      case (Inr hs)
      have "cs = map mark_challenge (stChallenges st)"
        using pending_challenge_result 1 \<open>r1 = Inr cs\<close> by (intro mapE_result [of pending_challenge mark_challenge _ s _ t1]) auto
      moreover have "hs = map mark_shared (stShared st)"
        using pending_shared_result 2 Inr by (intro mapE_result [of pending_shared mark_shared _ t1 _ t2]) auto
      ultimately
      have m: "st\<lparr>stChallenges := cs, stShared := hs\<rparr> = mark_all st" by (simp add: mark_all_def)
      have "scep_recover st s = thenE (if dirty st then scep_save (mark_all st) else ret ()) (ret (mark_all st)) t2"
        using 1 2 \<open>r1 = Inr cs\<close> Inr by (simp add: scep_recover_def bindE_def Let_def m)
      moreover have "triple (\<lambda>s. scep s = st) (thenE (if dirty st then scep_save (mark_all st) else ret ()) (ret (mark_all st)))
          (\<lambda>st' s. st' = mark_all st \<and> scep s = mark_all st) (\<lambda>s. scep s = st \<or> scep s = mark_all st)"
        by (intro triple_thenE [where Q = "\<lambda>s. scep s = mark_all st"] triple_if save_triple triple_ret) (simp_all add: mark_all_id)
      ultimately show ?thesis using s2 by (auto simp: triple_def)
    qed
  qed
qed

text \<open>A clean journal is left alone: nothing is read, written or checked.\<close>

lemma recover_clean:
  assumes "\<not> dirty st"
  shows "scep_recover st s = (Inr st, s)"
proof -
  have p: "pending ca iss = ret iss" if "\<not> is_pending iss" for ca iss
    using that by (simp add: pending_def)
  have "mapE f xs = ret xs" if "\<And>x. x \<in> set xs \<Longrightarrow> f x = ret x" for f :: "'a \<Rightarrow> 'a sop" and xs
    using that by (induction xs) simp_all
  note mapE_ret = this
  have c: "mapE pending_challenge (stChallenges st) = ret (stChallenges st)"
    by (rule mapE_ret) (use assms in \<open>simp add: dirty_def pending_challenge_def p\<close>)
  have h: "mapE pending_shared (stShared st) = ret (stShared st)"
  proof (rule mapE_ret)
    fix x assume x: "x \<in> set (stShared st)"
    have "mapE (\<lambda>i. bindE (pending (hCA x) (sIssuance i)) (\<lambda>iss. ret (i\<lparr>sIssuance := iss\<rparr>))) (hIssuances x) = ret (hIssuances x)"
      by (rule mapE_ret) (use assms x in \<open>simp add: dirty_def p\<close>)
    then show "pending_shared x = ret x" by (simp add: pending_shared_def)
  qed
  show ?thesis unfolding scep_recover_def c h by (simp add: assms)
qed


subsection \<open>The certificate store during recovery\<close>

text \<open>Recovery only adds records, those of pending entries, and adds each of them.\<close>

definition grows :: "CertRecord list \<Rightarrow> CertRecord set \<Rightarrow> CertRecord list \<Rightarrow> bool" where
  "grows recs new recs' \<longleftrightarrow> (\<exists>more. recs' = recs @ more \<and> set more \<subseteq> new)"

lemma grows_refl [simp]: "grows recs new recs"
  by (simp add: grows_def)

lemma grows_trans: "grows a P b \<Longrightarrow> grows b Q c \<Longrightarrow> P \<subseteq> R \<Longrightarrow> Q \<subseteq> R \<Longrightarrow> grows a R c"
  unfolding grows_def by (elim exE conjE) (intro exI, rule conjI, simp, auto)

lemma grows_set: "grows recs new recs' \<Longrightarrow> set recs \<subseteq> set recs' \<and> set recs' \<subseteq> set recs \<union> new"
  by (auto simp: grows_def)

lemma publish_grows:
  assumes "publish iss s = (r, t)"
  shows "grows (index s) {iRecord iss} (index t) \<and>
    (r = Inr (iss\<lparr>iPublished := True\<rparr>) \<longrightarrow> rSerial (iRecord iss) \<in> rSerial ` set (index t) \<and>
       certs t (rSerial (iRecord iss)) = Some [Block (iDER iss)])"
  using assms
  by (auto simp: publish_def loadIndex_def saveIndex_def readE_def io_def op_simps grows_def
      intro: rev_image_eqI split: list.splits disk_fault.splits if_splits prod.splits sum.splits)


lemma preserves_grows:
  assumes "is_pending iss \<Longrightarrow> iRecord iss \<in> R"
  shows "preserves (\<lambda>s. grows recs R (index s)) (pending ca iss)"
proof -
  have "preserves (\<lambda>s. grows recs R (index s)) (publish iss)" if "is_pending iss"
  proof (rule preservesI)
    fix s :: store assume g: "grows recs R (index s)"
    have "grows (index s) {iRecord iss} (index (snd (publish iss s)))"
      using publish_grows [of iss s] by (cases "publish iss s") auto
    then show "grows recs R (index (snd (publish iss s)))"
      using grows_trans [OF g _ order_refl] assms [OF that] by blast
  qed
  then show ?thesis
    unfolding pending_def by (intro preserves_if preserves_ret preserves_bindE preserves_read) auto
qed

lemma mapE_all:
  assumes "\<And>x y. preserves (Q y) (f x)" and "\<And>x s y t. f x s = (Inr y, t) \<Longrightarrow> Q x t"
    and "mapE f xs s = (Inr ys, t)"
  shows "\<forall>x \<in> set xs. Q x t"
  using assms(3)
proof (induction xs arbitrary: s ys)
  case (Cons x xs)
  then obtain y zs u where 1: "f x s = (Inr y, u)" "mapE f xs u = (Inr zs, t)" by (auto simp: bindE_Inr_iff)
  have "Q x t" using preservesD [OF preserves_mapE [of "Q x", OF assms(1)] assms(2) [OF 1(1)] 1(2)] .
  with Cons.IH [OF 1(2)] show ?case by simp
qed simp

text \<open>The serial number of an entry that was pending is in the index.\<close>

definition recorded_issuance :: "scepIssuance \<Rightarrow> store \<Rightarrow> bool" where
  "recorded_issuance iss s \<longleftrightarrow> (is_pending iss \<longrightarrow> rSerial (iRecord iss) \<in> rSerial ` set (index s))"

lemma pending_recorded: "preserves (recorded_issuance i) (pending ca iss)"
proof -
  have "preserves (recorded_issuance i) (publish iss)"
  proof (rule preservesI)
    fix s :: store assume g: "recorded_issuance i s"
    have "grows (index s) {iRecord iss} (index (snd (publish iss s)))"
      using publish_grows [of iss s] by (cases "publish iss s") auto
    with g grows_set show "recorded_issuance i (snd (publish iss s))" unfolding recorded_issuance_def by blast
  qed
  then show ?thesis unfolding pending_def by (intro preserves_if preserves_ret preserves_bindE preserves_read) auto
qed

lemma pending_records_it: "pending ca iss s = (Inr y, t) \<Longrightarrow> recorded_issuance iss t"
  by (auto simp: pending_def recorded_issuance_def bindE_Inr_iff dest: publish_grows publish_result split: if_splits)

lemma recover_grows:
  "preserves (\<lambda>s. grows recs (pending_records st) (index s)) (scep_recover st)"
proof -
  have c: "preserves (\<lambda>s. grows recs (pending_records st) (index s)) (mapE pending_challenge cs)"
    if "set cs \<subseteq> set (stChallenges st)" for cs
    using that
  proof (induction cs)
    case (Cons c cs)
    have "is_pending (cIssuance c) \<Longrightarrow> iRecord (cIssuance c) \<in> pending_records st"
      using Cons.prems by (auto simp: pending_records_def)
    then have "preserves (\<lambda>s. grows recs (pending_records st) (index s)) (pending_challenge c)"
      unfolding pending_challenge_def by (intro preserves_bindE preserves_grows preserves_ret)
    with Cons show ?case by (auto intro: keeps)
  qed (simp add: preserves_ret)
  have h: "preserves (\<lambda>s. grows recs (pending_records st) (index s)) (mapE pending_shared hs)"
    if "set hs \<subseteq> set (stShared st)" for hs
    using that
  proof (induction hs)
    case (Cons h hs)
    have "preserves (\<lambda>s. grows recs (pending_records st) (index s))
        (mapE (\<lambda>i. bindE (pending (hCA h) (sIssuance i)) (\<lambda>iss. ret (i\<lparr>sIssuance := iss\<rparr>))) is)"
      if "set is \<subseteq> set (hIssuances h)" for "is"
      using that
    proof (induction "is")
      case (Cons i "is")
      have "is_pending (sIssuance i) \<Longrightarrow> iRecord (sIssuance i) \<in> pending_records st"
        using Cons.prems \<open>set (h # hs) \<subseteq> set (stShared st)\<close> by (auto simp: pending_records_def)
      then show ?case using Cons by (auto intro!: keeps preserves_grows)
    qed (simp add: preserves_ret)
    then have "preserves (\<lambda>s. grows recs (pending_records st) (index s)) (pending_shared h)"
      unfolding pending_shared_def by (intro preserves_bindE preserves_ret) auto
    with Cons show ?case by (auto intro: keeps)
  qed (simp add: preserves_ret)
  have w: "preserves (\<lambda>s. grows recs (pending_records st) (index s)) (scep_save st')" for st'
    unfolding scep_save_def by (rule preserves_io) simp_all
  show ?thesis
    unfolding scep_recover_def Let_def
    by (intro preserves_bindE preserves_thenE preserves_if preserves_ret c h w) simp_all
qed

lemma recover_records:
  assumes "scep_recover st s = (Inr st', t)" and "r \<in> pending_records st"
  shows "rSerial r \<in> rSerial ` set (index t)"
proof -
  from assms(1) obtain cs hs t1 t2 where 1: "mapE pending_challenge (stChallenges st) s = (Inr cs, t1)"
    and 2: "mapE pending_shared (stShared st) t1 = (Inr hs, t2)" and t: "index t = index t2"
    by (auto simp: scep_recover_def Let_def bindE_Inr_iff thenE_Inr_iff scep_save_def split: if_splits dest!: io_success)
  have sh: "preserves (recorded_issuance i) (pending_shared h)" for i h
    unfolding pending_shared_def by (intro keeps preserves_mapE pending_recorded)
  have "\<forall>c \<in> set (stChallenges st). recorded_issuance (cIssuance c) t1"
    by (rule mapE_all [OF _ _ 1])
      (auto simp: pending_challenge_def bindE_Inr_iff dest: pending_records_it intro: keeps pending_recorded)
  then have a: "\<forall>c \<in> set (stChallenges st). recorded_issuance (cIssuance c) t2"
    using preservesD [OF preserves_mapE [OF sh] _ 2] by blast
  have "\<forall>h \<in> set (stShared st). \<forall>i \<in> set (hIssuances h). recorded_issuance (sIssuance i) t2"
  proof (rule mapE_all [OF _ _ 2])
    fix h y show "preserves (\<lambda>s. \<forall>i \<in> set (hIssuances y). recorded_issuance (sIssuance i) s) (pending_shared h)"
      using sh by (auto simp: preserves_def)
  next
    fix h s y t assume "pending_shared h s = (Inr y, t)"
    then obtain iss where "mapE (\<lambda>i. bindE (pending (hCA h) (sIssuance i)) (\<lambda>iss. ret (i\<lparr>sIssuance := iss\<rparr>))) (hIssuances h) s
        = (Inr iss, t)"
      by (auto simp: pending_shared_def bindE_Inr_iff)
    then show "\<forall>i \<in> set (hIssuances h). recorded_issuance (sIssuance i) t"
      by (rule mapE_all [rotated 2]) (auto simp: bindE_Inr_iff dest: pending_records_it intro: keeps pending_recorded)
  qed
  with a assms(2) show ?thesis by (auto simp: pending_records_def recorded_issuance_def t)
qed


end
