(* ===== verification/ScepJournal.thy ===== *)
theory ScepJournal
  imports ScepStore
begin

text \<open>
  How the enrollment journal evolves. Whatever operation runs, and wherever a fault of the disk
  ends it, a challenge keeps its terms, a revocation stays, a committed issuance never changes and an unknown hash stays unknown.
  The operations of \<open>scep_store.go\<close> and the deletions of \<open>store.go\<close> are shown to consist of such steps.
\<close>


section \<open>How the journal evolves\<close>

definition lookup :: "scepState \<Rightarrow> string \<Rightarrow> scepChallenge option" where
  "lookup st h = find (\<lambda>c. cHash c = h) (stChallenges st)"

definition unique_hashes :: "scepState \<Rightarrow> bool" where
  "unique_hashes st \<longleftrightarrow> distinct (map cHash (stChallenges st))"

text \<open>The same issuance, published or not; what is published stays so.\<close>

definition sameIss :: "scepIssuance \<Rightarrow> scepIssuance \<Rightarrow> bool" where
  "sameIss i i' \<longleftrightarrow> i'\<lparr>iPublished := True\<rparr> = i\<lparr>iPublished := True\<rparr> \<and> (iPublished i \<longrightarrow> iPublished i')"

text \<open>
  What may happen to the challenge with hash \<open>h\<close>: what it authorizes is fixed, a revocation stays, an issuance
  that was committed never changes, and a hash that is unknown stays unknown.
\<close>

definition same_terms :: "scepChallenge \<Rightarrow> scepChallenge \<Rightarrow> bool" where
  "same_terms c c' \<longleftrightarrow> cHash c' = cHash c \<and> cCA c' = cCA c \<and> cProfile c' = cProfile c \<and> cDNS c' = cDNS c \<and>
     cIPs c' = cIPs c \<and> cDays c' = cDays c \<and> cExpires c' = cExpires c \<and> (cRevoked c \<longrightarrow> cRevoked c') \<and>
     (iUsed (cIssuance c) \<noteq> 0 \<longrightarrow> sameIss (cIssuance c) (cIssuance c'))"

definition entry_evolves :: "scepChallenge option \<Rightarrow> scepChallenge option \<Rightarrow> bool" where
  "entry_evolves c c' = (case c of None \<Rightarrow> c' = None | Some c \<Rightarrow> (case c' of None \<Rightarrow> True | Some c' \<Rightarrow> same_terms c c'))"

definition evolves :: "string \<Rightarrow> scepState \<Rightarrow> scepState \<Rightarrow> bool" where
  "evolves h st st' \<longleftrightarrow> (unique_hashes st \<longrightarrow> unique_hashes st' \<and> entry_evolves (lookup st h) (lookup st' h))"

lemma sameIss_refl [simp]: "sameIss i i"
  by (simp add: sameIss_def)

lemma sameIss_trans: "sameIss i j \<Longrightarrow> sameIss j k \<Longrightarrow> sameIss i k"
  by (simp add: sameIss_def)

lemma sameIss_used: "sameIss i j \<Longrightarrow> iUsed j = iUsed i"
  unfolding sameIss_def by (metis (no_types, lifting) scepIssuance.select_convs(1) scepIssuance.surjective scepIssuance.update_convs(7))

lemma sameIss_DER: "sameIss i j \<Longrightarrow> iDER j = iDER i"
  unfolding sameIss_def by (metis (no_types, lifting) scepIssuance.select_convs(5) scepIssuance.surjective scepIssuance.update_convs(7))

lemma same_terms_refl [simp]: "same_terms c c"
  by (simp add: same_terms_def)

lemma same_terms_trans: "same_terms c d \<Longrightarrow> same_terms d e \<Longrightarrow> same_terms c e"
  unfolding same_terms_def using sameIss_trans sameIss_used by metis

lemma evolves_refl [simp]: "evolves h st st"
  by (simp add: evolves_def entry_evolves_def split: option.split)

lemma evolves_trans: "evolves h st st' \<Longrightarrow> evolves h st' st'' \<Longrightarrow> evolves h st st''"
  unfolding evolves_def entry_evolves_def
  by (auto split: option.splits intro: same_terms_trans)

lemma evolves_same_challenges: "stChallenges st' = stChallenges st \<Longrightarrow> evolves h st st'"
  by (simp add: evolves_def entry_evolves_def unique_hashes_def lookup_def split: option.split)

subsection \<open>The steps of which every operation consists\<close>

lemma find_map: "find P (map f xs) = map_option f (find (P \<circ> f) xs)"
  by (induction xs) auto

lemma evolves_map:
  assumes "\<And>c. same_terms c (f c)"
  shows "evolves h st (st\<lparr>stChallenges := map f (stChallenges st)\<rparr>)"
proof -
  have h: "cHash (f c) = cHash c" for c using assms by (simp add: same_terms_def)
  have "map cHash (map f (stChallenges st)) = map cHash (stChallenges st)" by (simp add: h)
  then show ?thesis
    by (auto simp: evolves_def entry_evolves_def unique_hashes_def lookup_def find_map comp_def h assms split: option.split)
qed

lemma distinct_tail: "distinct (map f (x # xs)) \<Longrightarrow> y \<in> set xs \<Longrightarrow> f y \<noteq> f x"
  by (metis distinct.simps(2) image_eqI list.set_map list.simps(9))

lemma find_filter_distinct:
  assumes "distinct (map f xs)"
  shows "find (\<lambda>x. f x = h) (filter Q xs) = (case find (\<lambda>x. f x = h) xs of None \<Rightarrow> None | Some x \<Rightarrow> if Q x then Some x else None)"
  using assms
proof (induction xs)
  case (Cons x xs)
  have "find (\<lambda>y. f y = h) xs = None" if "f x = h"
    using distinct_tail [OF Cons.prems] that by (auto simp: find_None_iff_ball)
  with Cons show ?case by (auto split: option.splits)
qed simp

lemma evolves_filter: "evolves h st (st\<lparr>stChallenges := filter Q (stChallenges st)\<rparr>)"
  by (auto simp: evolves_def entry_evolves_def unique_hashes_def lookup_def find_filter_distinct distinct_map_filter_iff
      split: option.splits)

lemma evolves_append:
  assumes "cHash c \<noteq> h" "cHash c \<notin> cHash ` set (stChallenges st)"
  shows "evolves h st (st\<lparr>stChallenges := stChallenges st @ [c]\<rparr>)"
  using assms
  by (auto simp: evolves_def entry_evolves_def unique_hashes_def lookup_def find_append split: option.splits)

lemma remove_first_filter:
  assumes "distinct (map f xs)"
  shows "remove_first (\<lambda>x. f x = h) xs = filter (\<lambda>x. f x \<noteq> h) xs"
  using assms
proof (induction xs)
  case (Cons x xs)
  then show ?case using distinct_tail [OF Cons.prems] by (auto intro!: filter_True [symmetric])
qed simp

lemma evolves_remove: "evolves h st (st\<lparr>stChallenges := remove_first (\<lambda>c. cHash c = k) (stChallenges st)\<rparr>)"
proof (cases "unique_hashes st")
  case True
  then show ?thesis
    using evolves_filter [of h st "\<lambda>c. cHash c \<noteq> k"] by (simp add: remove_first_filter unique_hashes_def)
qed (simp add: evolves_def)

lemma replace_first_map:
  assumes "distinct (map f xs)" "replace_first (\<lambda>x. f x = h) g xs = Some ys"
  shows "ys = map (\<lambda>x. if f x = h then g x else x) xs"
  using assms
proof (induction xs arbitrary: ys)
  case (Cons x xs)
  then show ?case using distinct_tail [OF Cons.prems(1)] by (auto split: if_splits intro!: map_idI [symmetric])
qed simp

lemma evolves_replace:
  assumes "replace_first (\<lambda>c. cHash c = k) g (stChallenges st) = Some cs" "\<And>c. c \<in> set (stChallenges st) \<Longrightarrow> cHash c = k \<Longrightarrow> same_terms c (g c)"
  shows "evolves h st (st\<lparr>stChallenges := cs\<rparr>)"
proof (cases "unique_hashes st")
  case True
  with replace_first_map [of cHash, OF _ assms(1)]
  have cs: "cs = map (\<lambda>c. if cHash c = k \<and> c \<in> set (stChallenges st) then g c else c) (stChallenges st)"
    by (auto simp: unique_hashes_def)
  show ?thesis
    unfolding cs by (rule evolves_map) (simp add: assms(2))
qed (simp add: evolves_def)

lemma mark_same: "same_terms c (mark_challenge c)"
  by (simp add: same_terms_def mark_challenge_def mark_def sameIss_def)

lemma evolves_mark: "evolves h st (mark_all st)"
proof -
  have "evolves h st (st\<lparr>stChallenges := map mark_challenge (stChallenges st)\<rparr>)"
    by (rule evolves_map [OF mark_same])
  then show ?thesis
    by (rule evolves_trans) (rule evolves_same_challenges, simp add: mark_all_def)
qed

lemma evolves_prune: "evolves h st (pruneSCEP now st)"
  by (rule evolves_trans [OF evolves_filter [of h st "keep_challenge now"]])
    (rule evolves_same_challenges, simp add: pruneSCEP_def)


section \<open>The operations\<close>

text \<open>Parts of an operation that do not touch the journal.\<close>

definition stays :: "'a sop \<Rightarrow> bool" where
  "stays m \<longleftrightarrow> (\<forall>st. preserves (\<lambda>s. scep s = st) m)"

lemma stays_I: "(\<And>st. preserves (\<lambda>s. scep s = st) m) \<Longrightarrow> stays m"
  by (simp add: stays_def)

lemma stays_rules:
  "stays (ret x)" "stays (throw e)" "stays (gets f)" "stays (liftE r)" "stays (guardE b e)" "stays (readE f)" "stays (\<lambda>s. (g s, s))"
  by (auto simp: stays_def intro: keeps preserves_read)

lemma stays_bind: "stays m \<Longrightarrow> (\<And>x. stays (f x)) \<Longrightarrow> stays (bindE m f)"
  by (auto simp: stays_def intro: keeps)

lemma stays_then: "stays m \<Longrightarrow> stays n \<Longrightarrow> stays (thenE m n)"
  by (auto simp: stays_def intro: keeps)

lemma stays_io: "(\<And>s. scep (f s) = scep s) \<Longrightarrow> stays (io f)"
  by (auto simp: stays_def intro: preserves_io)

lemma stays_if: "(b \<Longrightarrow> stays m) \<Longrightarrow> (\<not> b \<Longrightarrow> stays n) \<Longrightarrow> stays (if b then m else n)"
  by simp

lemma getTemplate_stays: "stays (getTemplateE name)"
proof (rule stays_I)
  fix st
  have "preserves (\<lambda>s. scep s = st) LoadTemplates"
    unfolding LoadTemplates_def saveTemplates_def Let_def by (intro keeps preserves_io) simp_all
  then show "preserves (\<lambda>s. scep s = st) (getTemplateE name)"
    unfolding preserves_def getTemplateE_def GetTemplate_def
    by (auto split: prod.splits sum.splits option.splits)
qed

lemma profile_stays: "stays (challenge_profile st profile days)"
  unfolding challenge_profile_def Let_def
  by (intro stays_then stays_bind stays_rules getTemplate_stays)
    (auto split: option.splits intro!: stays_if stays_then stays_rules)

lemma trash_stays: "stays (trash recs removed)"
proof -
  have r: "stays (rename_required src f)" "stays (rename_if_exists src f)" if "\<And>s. scep (f s) = scep s" for src f
    using stays_io [of f, OF that] by (auto simp: stays_def preserves_def rename_required_def rename_if_exists_def)
  have m: "scep (move_ca n s) = scep s" "scep (move_cert n s) = scep s" "scep (move_key n s) = scep s" "scep (move_secret n s) = scep s"
      for n s by (simp_all add: move_defs)
  have e: "stays (each f xs)" if "\<And>x. stays (f x)" for f :: "CertRecord \<Rightarrow> unit sop" and xs
    using that by (induction xs) (auto intro: stays_then stays_rules)
  have s: "stays (trash_secret x)" for x
  proof -
    have "stays (thenE (io (\<lambda>s. s)) (io (move_secret n)))" for n
      by (intro stays_then stays_io) (simp_all add: m)
    then show ?thesis
      unfolding trash_secret_def
      by (intro stays_if stays_rules) (auto simp: stays_def preserves_def ignoring_def)
  qed
  show ?thesis
    unfolding trash_def saveIndex_def
    by (intro stays_then stays_io e s) (auto simp: new_trash_def trash_record_def intro!: stays_if stays_then r m)
qed

text \<open>
  What an operation may do to the journal, as a relation between journals: it is closed under composition and
  contains the steps of which every operation consists. \<open>within\<close>: wherever an operation that starts on a
  journal ends, by success or by a fault, the journal is related.
\<close>

locale journal_steps =
  fixes R :: "scepState \<Rightarrow> scepState \<Rightarrow> bool"
  assumes R_refl: "R st st"
    and R_trans: "R st st1 \<Longrightarrow> R st1 st2 \<Longrightarrow> R st st2"
    and R_mark: "R st (mark_all st)"
    and R_prune: "R st (pruneSCEP now st)"
    and R_settings: "R st (st\<lparr>stCA := ca\<rparr>)" "R st (st\<lparr>stAllowDES := allow\<rparr>)"
    and R_revoke: "find (\<lambda>c. cHash c = k) (stChallenges st) = Some c \<Longrightarrow> iUsed (cIssuance c) = 0 \<Longrightarrow>
        replace_first (\<lambda>c. cHash c = k) (\<lambda>c. c\<lparr>cRevoked := True\<rparr>) (stChallenges st) = Some cs \<Longrightarrow> R st (st\<lparr>stChallenges := cs\<rparr>)"
    and R_revoke_shared: "replace_first (\<lambda>c. hHash c = k) (\<lambda>c. c\<lparr>hRevoked := True\<rparr>) (stShared st) = Some hs \<Longrightarrow>
        R st (st\<lparr>stShared := hs\<rparr>)"
    and R_remove: "R st (st\<lparr>stChallenges := remove_first (\<lambda>c. cHash c = k) (stChallenges st)\<rparr>)"
    and R_remove_shared: "R st (st\<lparr>stShared := remove_first (\<lambda>c. hHash c = k) (stShared st)\<rparr>)"
    and R_new_shared: "hIssuances sc = [] \<Longrightarrow> R st (st\<lparr>stShared := stShared st @ [sc]\<rparr>)"
begin

definition within :: "scepState \<Rightarrow> 'a sop \<Rightarrow> bool" where
  "within st m \<longleftrightarrow> triple (\<lambda>s. scep s = st) m (\<lambda>_ s. R st (scep s)) (\<lambda>s. R st (scep s))"

definition keeping :: "'a sop \<Rightarrow> bool" where
  "keeping m \<longleftrightarrow> (\<forall>s. R (scep s) (scep (snd (m s))))"

lemma keeping_I: "(\<And>st. within st m) \<Longrightarrow> keeping m"
  unfolding keeping_def within_def triple_def
  by (metis (no_types, lifting) case_prod_beta sum.case_eq_if)

lemma within_at: "within (scep s) m \<Longrightarrow> R (scep s) (scep (snd (m s)))"
  unfolding within_def triple_def by (auto split: prod.splits sum.splits) (metis prod.collapse sum.exhaust)

lemma stays_triple: "stays m \<Longrightarrow> triple (\<lambda>s. scep s = st) m (\<lambda>_ s. scep s = st) (\<lambda>s. R st (scep s))"
  unfolding stays_def by (rule triple_post [OF triple_preserves]) (auto simp: R_refl)

lemma within_bind: "stays m \<Longrightarrow> (\<And>x. within st (f x)) \<Longrightarrow> within st (bindE m f)"
  unfolding within_def by (rule triple_bindE [OF stays_triple])

lemma within_bind_result:
  assumes m: "stays m" and f: "\<And>x s t. m s = (Inr x, t) \<Longrightarrow> within st (f x)"
  shows "within st (bindE m f)"
  unfolding within_def triple_def
proof (intro allI impI)
  fix s :: store assume s: "scep s = st"
  obtain r t where r: "m s = (r, t)" by fastforce
  have t: "scep t = st" using preservesD [OF m [unfolded stays_def, rule_format] s r] .
  show "case bindE m f s of (Inl e, t) \<Rightarrow> R st (scep t) | (Inr x, t) \<Rightarrow> R st (scep t)"
  proof (cases r)
    case (Inl e)
    with r t show ?thesis by (simp add: bindE_def R_refl)
  next
    case (Inr x)
    with f [of s x t] r have "within st (f x)" by simp
    with r t Inr show ?thesis by (simp add: bindE_def within_def triple_def)
  qed
qed

lemma within_then: "stays m \<Longrightarrow> within st n \<Longrightarrow> within st (thenE m n)"
  unfolding thenE_def by (rule within_bind)

lemma within_stays: "stays m \<Longrightarrow> within st m"
  unfolding within_def by (rule triple_post [OF stays_triple]) (auto simp: R_refl)

lemma within_save: "R st st' \<Longrightarrow> within st (scep_save st')"
  unfolding within_def by (rule triple_post [OF save_triple]) (auto simp: R_refl)

lemma within_if: "(b \<Longrightarrow> within st m) \<Longrightarrow> (\<not> b \<Longrightarrow> within st n) \<Longrightarrow> within st (if b then m else n)"
  by simp

lemmas within_throw = within_stays [OF stays_rules(2)]
lemmas within_ret = within_stays [OF stays_rules(1)]

lemma within_bind_stays:
  assumes "within st m" "\<And>x. stays (f x)"
  shows "within st (bindE m f)"
  using assms(1) unfolding within_def
proof (rule triple_bindE)
  fix x
  from assms(2) have "preserves (\<lambda>s. R st (scep s)) (f x)"
    unfolding stays_def preserves_def by metis
  then show "triple (\<lambda>s. R st (scep s)) (f x) (\<lambda>_ s. R st (scep s)) (\<lambda>s. R st (scep s))"
    by (rule triple_preserves)
qed

lemma load_within:
  assumes "within st (f st)"
  shows "within st (bindE scep_load f)"
proof -
  have 1: "triple (\<lambda>s. scep s = st) scep_load (\<lambda>st' s. st' = st \<and> scep s = st) (\<lambda>s. scep s = st)"
    unfolding triple_def scep_load_def
    by (auto split: prod.splits sum.splits simp: readE_def io_def op_simps split: list.splits disk_fault.splits)
  have 2: "triple (\<lambda>s. st' = st \<and> scep s = st) (f st') (\<lambda>_ s. R st (scep s)) (\<lambda>s. R st (scep s))" for st'
    using assms by (cases "st' = st") (auto simp: within_def triple_def)
  show ?thesis
    unfolding within_def by (rule triple_bindE [OF triple_post [OF 1] 2]) (auto simp: R_refl)
qed

lemma load_keeping: "(\<And>st. within st (f st)) \<Longrightarrow> keeping (bindE scep_load f)"
  by (intro keeping_I load_within)

lemma within_recover:
  assumes "within (mark_all st) (f (mark_all st))"
  shows "within st (bindE (scep_recover st) f)"
  unfolding within_def
proof (rule triple_bindE)
  show "triple (\<lambda>s. scep s = st) (scep_recover st) (\<lambda>st' s. st' = mark_all st \<and> scep s = mark_all st) (\<lambda>s. R st (scep s))"
    by (rule triple_post [OF recover_triple]) (auto intro: R_mark R_refl)
  fix st'
  have "R st (scep s)" if "R (mark_all st) (scep s)" for s
    using R_trans [OF R_mark that] .
  then show "triple (\<lambda>s. st' = mark_all st \<and> scep s = mark_all st) (f st') (\<lambda>_ s. R st (scep s)) (\<lambda>s. R st (scep s))"
    using assms unfolding within_def triple_def by (fastforce split: prod.splits sum.splits)
qed

lemma within_recover_ret: "within st (thenE (scep_recover st) (ret x))"
  unfolding thenE_def by (intro within_recover within_ret)

lemma within_commit: "R st st' \<Longrightarrow> within st (thenE (scep_save st') (thenE (scep_recover st') (ret x)))"
  unfolding within_def
proof (rule triple_thenE)
  assume e: "R st st'"
  show "triple (\<lambda>s. scep s = st) (scep_save st') (\<lambda>_ s. scep s = st') (\<lambda>s. R st (scep s))"
    by (rule triple_post [OF save_triple]) (use e R_refl in auto)
  have "triple (\<lambda>s. scep s = st') (scep_recover st') (\<lambda>_ s. R st (scep s)) (\<lambda>s. R st (scep s))"
    by (rule triple_post [OF recover_triple]) (use e R_trans [OF e R_mark] in auto)
  then show "triple (\<lambda>s. scep s = st') (thenE (scep_recover st') (ret x)) (\<lambda>_ s. R st (scep s)) (\<lambda>s. R st (scep s))"
    by (rule triple_thenE) (rule triple_ret)
qed

lemma within_save_ret: "R st st' \<Longrightarrow> within st (thenE (scep_save st') (ret x))"
  unfolding within_def by (rule triple_thenE [OF triple_post [OF save_triple] triple_ret]) (auto simp: R_refl)

lemma within_capacity:
  assumes "within (mark_all st) (f (pruneSCEP now (mark_all st)))"
  shows "within st (bindE (challenge_capacity now st) f)"
proof -
  have "within (mark_all st) (bindE (let st = pruneSCEP now (mark_all st) in
        if length (stChallenges st) + length (stShared st) \<ge> 10000
        then throw ''SCEP challenge capacity reached; wait for retention cleanup'' else ret st) f)"
  proof (cases "length (stChallenges (pruneSCEP now (mark_all st))) + length (stShared (pruneSCEP now (mark_all st))) \<ge> 10000")
    case True
    then show ?thesis by (simp add: Let_def within_def triple_def bindE_def throw_def R_refl)
  next
    case False
    with assms show ?thesis by (simp add: Let_def)
  qed
  then show ?thesis
    unfolding challenge_capacity_def bindE_assoc by (rule within_recover)
qed

subsection \<open>Each operation is within the relation\<close>

lemma reconcile_keeping: "keeping reconcileSCEP" "keeping scep_startup"
  unfolding reconcileSCEP_def scep_startup_def by (intro load_keeping within_recover_ret)+

text \<open>A new challenge: the relation has to allow the one that is appended.\<close>

lemma new_challenge_within:
  assumes "\<And>c. cHash c = H secret \<Longrightarrow> cIssuance c = noIssuance \<Longrightarrow>
    R (pruneSCEP now (mark_all st)) (pruneSCEP now (mark_all st)\<lparr>stChallenges := stChallenges (pruneSCEP now (mark_all st)) @ [c]\<rparr>)"
  shows "within st (new_challenge H now secret profile identities days hours)"
  unfolding new_challenge_def Let_def
  by (rule load_within, rule within_bind [OF profile_stays])
    (auto simp: case_prod_beta intro!: within_if within_then within_throw stays_rules within_capacity within_save_ret
      R_trans [OF R_prune assms])

lemma revoke_keeping: "keeping (revoke k)"
proof -
  have "within st (case find (\<lambda>c. cHash c = k) (stChallenges st) of
         Some c \<Rightarrow>
           (if iUsed (cIssuance c) \<noteq> 0 then throw ''challenge already used; certificate revocation is not supported''
            else scep_save (st\<lparr>stChallenges := the (replace_first (\<lambda>c. cHash c = k) (\<lambda>c. c\<lparr>cRevoked := True\<rparr>) (stChallenges st))\<rparr>))
       | None \<Rightarrow>
           (case replace_first (\<lambda>c. hHash c = k) (\<lambda>c. c\<lparr>hRevoked := True\<rparr>) (stShared st) of
              Some hs \<Rightarrow> scep_save (st\<lparr>stShared := hs\<rparr>)
            | None \<Rightarrow> throw ''challenge not found''))" for st
  proof (cases "find (\<lambda>c. cHash c = k) (stChallenges st)")
    case None
    then show ?thesis
      by (auto split: option.split intro!: within_save within_throw R_revoke_shared)
  next
    case (Some c)
    have "\<exists>ys. replace_first P f xs = Some ys" if "find P xs \<noteq> None" for P f and xs :: "scepChallenge list"
      using that by (induction xs) auto
    with Some obtain cs where cs: "replace_first (\<lambda>c. cHash c = k) (\<lambda>c. c\<lparr>cRevoked := True\<rparr>) (stChallenges st) = Some cs"
      by blast
    have "R st (st\<lparr>stChallenges := cs\<rparr>)" if "iUsed (cIssuance c) = 0" by (rule R_revoke [OF Some that cs])
    with Some cs show ?thesis by (auto intro!: within_if within_save within_throw)
  qed
  then show ?thesis unfolding revoke_def by (rule load_keeping)
qed

lemma deleteChallenge_keeping: "keeping (deleteChallenge now k)"
  unfolding deleteChallenge_def
  by (rule load_keeping)
    (auto split: option.split intro!: within_if within_save within_throw R_remove R_remove_shared)

lemma settings_keeping: "keeping (setAllowDES b)" "keeping (selectCA ca)"
  unfolding setAllowDES_def selectCA_def
  by (rule load_keeping, auto intro!: within_bind within_save stays_rules R_settings)+

lemma reconcile_then:
  assumes "stays m"
  shows "keeping (thenE reconcileSCEP m)"
proof -
  have "thenE reconcileSCEP m = bindE scep_load (\<lambda>st. bindE (scep_recover st) (\<lambda>_. m))"
    unfolding reconcileSCEP_def thenE_def bindE_assoc by simp
  then show ?thesis using assms by (simp add: load_keeping within_recover within_stays)
qed

lemma delete_keeping: "keeping (DeleteCA ca)" "keeping (DeleteCert serial)"
proof -
  have k: "scep (fold (\<lambda>r. keyring_drop (caIDOf r)) rs s) = scep s" for rs s
    by (induction rs arbitrary: s) (simp_all add: keyring_drop_def)
  have "stays (modifyE (fold (\<lambda>r. keyring_drop (caIDOf r)) rs))" for rs
    by (auto simp: stays_def k intro: preserves_modifyE)
  then show "keeping (DeleteCA ca)" "keeping (DeleteCert serial)"
    unfolding DeleteCA_def DeleteCert_def loadIndex_def
    by (intro reconcile_then; auto split: option.split intro!: stays_if stays_then stays_bind stays_rules trash_stays)+
qed

end

section \<open>The relation of a challenge\<close>

interpretation ev: journal_steps "evolves h" for h
proof
  show "evolves h st (st\<lparr>stChallenges := cs\<rparr>)"
    if "replace_first (\<lambda>c. cHash c = k) (\<lambda>c. c\<lparr>cRevoked := True\<rparr>) (stChallenges st) = Some cs" for st k cs
    by (rule evolves_replace [OF that]) (simp add: same_terms_def)
  show "evolves h a b \<Longrightarrow> evolves h b c \<Longrightarrow> evolves h a c" for a b c by (rule evolves_trans)
qed (auto intro: evolves_mark evolves_prune evolves_remove evolves_same_challenges)

text \<open>The new hash is not the one observed, and not one of the journal.\<close>

definition fresh_hash :: "string \<Rightarrow> string \<Rightarrow> scepState \<Rightarrow> bool" where
  "fresh_hash h k st \<longleftrightarrow> k \<noteq> h \<and> (\<forall>c \<in> set (stChallenges st). cHash c \<noteq> k)"

lemma new_challenge_evolves:
  assumes "fresh_hash h (H secret) (scep s)"
  shows "evolves h (scep s) (scep (snd (new_challenge H now secret profile identities days hours s)))"
proof (rule ev.within_at, rule ev.new_challenge_within)
  fix c :: scepChallenge assume c: "cHash c = H secret"
  have "fresh_hash h (H secret) (pruneSCEP now (mark_all (scep s)))"
    using assms by (auto simp: fresh_hash_def pruneSCEP_def mark_all_def mark_challenge_def)
  with c show "evolves h (pruneSCEP now (mark_all (scep s)))
      (pruneSCEP now (mark_all (scep s))\<lparr>stChallenges := stChallenges (pruneSCEP now (mark_all (scep s))) @ [c]\<rparr>)"
    by (intro evolves_append) (auto simp: fresh_hash_def)
qed

end
