(* ===== verification/Upsert.thy ===== *)
theory Upsert
  imports Model
begin

text \<open>
  What \<open>Store.SaveDevice\<close> and \<open>Store.SaveDefinition\<close> promise: saving by id with unique names. The contract is
  the locale \<open>upsert\<close>; \<open>Devices\<close> and \<open>Definitions\<close> interpret it on the two operations. The loop over
  indices that keeps the last match is \<open>replace_last\<close>.
\<close>

section \<open>Saving by id\<close>

text \<open>
  An entry without an id is appended under a new one; an entry with an id replaces the last entry that has
  it; a name that another id has is refused.
\<close>

locale upsert =
  fixes ident :: "'a \<Rightarrow> string" and name :: "'a \<Rightarrow> string" and save :: "string \<Rightarrow> 'a \<Rightarrow> 'a list \<Rightarrow> ('a \<times> 'a list) result"
  assumes save_new: "save n x xs = Inr (y, ys) \<Longrightarrow> ident x = [] \<Longrightarrow> ident y = n \<and> name y = name x \<and> ys = xs @ [y]"
    and save_old: "save n x xs = Inr (y, ys) \<Longrightarrow> ident x \<noteq> [] \<Longrightarrow> ident y = ident x \<and> name y = name x \<and>
      (\<exists>us v vs. xs = us @ v # vs \<and> ident v = ident x \<and> ys = us @ y # vs)"
    and save_name: "save n x xs = Inr (y, ys) \<Longrightarrow> o' \<in> set xs \<Longrightarrow> name o' = name x \<Longrightarrow> ident o' = ident x"
begin

lemma save_distinct:
  assumes save: "save n x xs = Inr (y, ys)" and ok: "distinct (map ident xs)" "distinct (map name xs)" "[] \<notin> ident ` set xs"
    and n: "n \<noteq> []" "n \<notin> ident ` set xs"
  shows "distinct (map ident ys) \<and> distinct (map name ys) \<and> [] \<notin> ident ` set ys"
proof (cases "ident x = []")
  case True
  from save_new [OF save True] have y: "ident y = n" "name y = name x" "ys = xs @ [y]" by auto
  have "name o' \<noteq> name x" if "o' \<in> set xs" for o'
  proof
    assume "name o' = name x"
    from save_name [OF save that this] True have "ident o' = []" by simp
    with that ok(3) show False by force
  qed
  then have "name x \<notin> name ` set xs" by force
  with y ok n show ?thesis by auto
next
  case False
  from save_old [OF save False] obtain us v vs where y: "ident y = ident x" "name y = name x"
    and l: "xs = us @ v # vs" "ident v = ident x" "ys = us @ y # vs" by blast
  have other: "name o' \<noteq> name x" if "o' \<in> set us \<union> set vs" for o'
  proof
    assume "name o' = name x"
    with save_name [OF save _ this] that l have "ident o' = ident v" by auto
    moreover from ok(1) l(1) have "ident v \<notin> ident ` set us" "ident v \<notin> ident ` set vs" by auto
    ultimately show False using that by (metis Un_iff image_eqI)
  qed
  then have "name x \<notin> name ` set us" "name x \<notin> name ` set vs" by force+
  with ok y l False show ?thesis by auto
qed

lemma save_found:
  assumes save: "save n x xs = Inr (y, ys)" and ok: "distinct (map ident xs)" and n: "n \<notin> ident ` set xs"
  shows "find (\<lambda>z. ident z = ident y) ys = Some y"
proof (cases "ident x = []")
  case True
  from save_new [OF save True] have y: "ident y = n" "ys = xs @ [y]" by auto
  from n have "find (\<lambda>z. ident z = n) xs = None" by (auto simp: find_None_iff_ball)
  with y show ?thesis by (simp add: find_append)
next
  case False
  from save_old [OF save False] obtain us v vs where "ident y = ident x" "xs = us @ v # vs" "ident v = ident x" "ys = us @ y # vs"
    by blast
  moreover from this ok have "ident v \<notin> ident ` set us" by simp
  moreover from calculation have "find (\<lambda>z. ident z = ident y) us = None"
    unfolding find_None_iff_ball by (metis image_eqI)
  ultimately show ?thesis by (simp add: find_append)
qed

lemma save_other:
  assumes save: "save n x xs = Inr (y, ys)" and k: "k \<noteq> ident y"
  shows "find (\<lambda>z. ident z = k) ys = find (\<lambda>z. ident z = k) xs"
proof (cases "ident x = []")
  case True
  from save_new [OF save True] k show ?thesis by (auto simp: find_append split: option.split)
next
  case False
  from save_old [OF save False] obtain us v vs where "ident y = ident x" "xs = us @ v # vs" "ident v = ident x" "ys = us @ y # vs"
    by blast
  with k show ?thesis by (auto simp: find_append split: option.split)
qed

end

definition replace_last :: "('a \<Rightarrow> bool) \<Rightarrow> ('a \<Rightarrow> 'a) \<Rightarrow> 'a list \<Rightarrow> 'a list option" where
  "replace_last P f xs = map_option rev (replace_first P f (rev xs))"

lemma replace_last_Some:
  assumes "replace_last P f xs = Some ys"
  shows "\<exists>us x vs. xs = us @ x # vs \<and> ys = us @ f x # vs \<and> P x"
proof -
  from assms obtain zs where "replace_first P f (rev xs) = Some zs" "ys = rev zs" by (auto simp: replace_last_def)
  with replace_first_Some obtain us x vs where "rev xs = us @ x # vs" "ys = rev (us @ f x # vs)" "P x" by metis
  then have "xs = rev vs @ x # rev us" "ys = rev vs @ f x # rev us" by (simp_all add: rev_swap)
  with \<open>P x\<close> show ?thesis by blast
qed

lemma replace_last_found: "find P (rev xs) = Some x \<Longrightarrow> \<exists>ys. replace_last P f xs = Some ys"
proof -
  have "\<exists>ys. replace_first P f zs = Some ys" if "find P zs = Some x" for zs
    using that by (induction zs) (auto split: if_splits)
  then show "find P (rev xs) = Some x \<Longrightarrow> \<exists>ys. replace_last P f xs = Some ys"
    by (auto simp: replace_last_def)
qed

end
