(* ===== verification/Devices.thy ===== *)
theory Devices
  imports Upsert CaTree
begin

text \<open>
  The device inventory, \<open>device_store.go\<close>: sealed credentials, the device key, and the store of
  devices. \<open>put_device\<close> is the list change of \<open>SaveDevice\<close>; it provides the contract \<open>upsert\<close>.
\<close>

section \<open>The device key and credentials\<close>

definition deviceKeySize :: nat where "deviceKeySize = 32"

text \<open>The content of \<open>auth/device.key\<close>; the result is the key in use and the file.\<close>

definition loadOrCreateDeviceKey :: "string \<Rightarrow> string option \<Rightarrow> (string \<times> string) result" where
  "loadOrCreateDeviceKey rnd key_file =
     (case key_file of
        Some b \<Rightarrow> if length b \<noteq> deviceKeySize then Inl (''device.key must contain exactly '' @ Itoa deviceKeySize @ '' bytes'')
                  else Inr (b, b)
      | None \<Rightarrow> Inr (rnd, rnd))"

definition deviceGCM :: "store \<Rightarrow> string result" where
  "deviceGCM s = (if length (deviceKey s) \<in> {16, 24, 32} then Inr (deviceKey s) else Inl ''crypto/aes: invalid key size'')"

definition errCredentialsMalformed :: error where
  "errCredentialsMalformed = ''stored credentials are malformed''"

definition sealCredentials :: "store \<Rightarrow> string \<Rightarrow> deviceCreds \<Rightarrow> (string, deviceCreds option) sealed result" where
  "sealCredentials s nonce c = bindR (deviceGCM s) (\<lambda>k. Inr (Sealed k nonce (Some c)))"

definition openCredentials :: "store \<Rightarrow> (string, deviceCreds option) sealed \<Rightarrow> deviceCreds result" where
  "openCredentials s blob =
     bindR (deviceGCM s) (\<lambda>k.
       case blob of
         TooShort \<Rightarrow> Inl errCredentialsMalformed
       | NotSealed \<Rightarrow> Inl ''stored credentials cannot be decrypted with the current device key''
       | Sealed k' nonce plain \<Rightarrow>
           if k' \<noteq> k then Inl ''stored credentials cannot be decrypted with the current device key''
           else (case plain of None \<Rightarrow> Inl errCredentialsMalformed | Some c \<Rightarrow> Inr c))"

section \<open>The store of devices\<close>

definition loadDevices :: "Device list sop" where
  "loadDevices = readE devices"

definition saveDevices :: "Device list \<Rightarrow> unit sop" where
  "saveDevices ds = io (\<lambda>s. s\<lparr>devices := ds\<rparr>)"

definition by_name :: "Device list \<Rightarrow> Device list" where
  "by_name ds = sort_key (\<lambda>d. ToLower (dName d)) ds"

definition ListDevices :: "Device list sop" where
  "ListDevices = bindE loadDevices (\<lambda>ds. ret (by_name ds))"

definition GetDevice :: "string \<Rightarrow> Device option sop" where
  "GetDevice k = bindE loadDevices (\<lambda>ds. ret (find (\<lambda>d. dID d = k) ds))"

text \<open>The change \<open>SaveDevice\<close> makes to the list; the new id is random.\<close>

definition put_device :: "time \<Rightarrow> string \<Rightarrow> Device \<Rightarrow> Device list \<Rightarrow> (Device \<times> Device list) result" where
  "put_device now newid d0 ds =
     (let d = d0\<lparr>dUpdated := now\<rparr> in
      if \<exists>e \<in> set ds. dName e = dName d \<and> dID e \<noteq> dID d then Inl ''a device with this name already exists''
      else if dID d = [] then
        (let d = d\<lparr>dID := newid, dCreated := now\<rparr> in Inr (d, ds @ [d]))
      else
        (case find (\<lambda>e. dID e = dID d) (rev ds) of
           None \<Rightarrow> Inl ''device not found''
         | Some old \<Rightarrow>
             let d = d\<lparr>dCreated := dCreated old\<rparr> in
             Inr (d, the (replace_last (\<lambda>e. dID e = dID d) (\<lambda>_. d) ds))))"

definition SaveDevice :: "time \<Rightarrow> string \<Rightarrow> Device \<Rightarrow> Device sop" where
  "SaveDevice now newid d =
     bindE loadDevices (\<lambda>ds. bindE (liftE (put_device now newid d ds)) (\<lambda>(d', ds').
       thenE (saveDevices ds') (ret d')))"

definition UpdateDevice :: "string \<Rightarrow> (Device \<Rightarrow> Device) \<Rightarrow> unit sop" where
  "UpdateDevice k f =
     bindE loadDevices (\<lambda>ds.
       case replace_first (\<lambda>d. dID d = k) f ds of
         Some ds' \<Rightarrow> saveDevices ds'
       | None \<Rightarrow> throw ''device not found'')"

definition DeleteDevice :: "string \<Rightarrow> unit sop" where
  "DeleteDevice k =
     bindE loadDevices (\<lambda>ds.
       if \<not> (\<exists>d \<in> set ds. dID d = k) then throw ''device not found''
       else saveDevices (filter (\<lambda>d. dID d \<noteq> k) ds))"

definition drop_credentials :: "store \<Rightarrow> Device \<Rightarrow> string list \<times> Device" where
  "drop_credentials s d =
     (case dCredentials d of
        None \<Rightarrow> ([], d)
      | Some blob \<Rightarrow> (case openCredentials s blob of
            Inr _ \<Rightarrow> ([], d)
          | Inl _ \<Rightarrow> ([dName d], d\<lparr>dCredentials := None\<rparr>)))"

text \<open>On a staged restore: \<open>s\<close> is the staged store with the live device key.\<close>

definition dropUndecryptableCredentials :: "string list sop" where
  "dropUndecryptableCredentials =
     bindE loadDevices (\<lambda>ds.
     bindE (gets (\<lambda>s. map (drop_credentials s) ds)) (\<lambda>rs.
       let dropped = concat (map fst rs) in
       if dropped = [] then ret []
       else thenE (saveDevices (map snd rs)) (ret dropped)))"

interpretation device_save: upsert dID dName "put_device now" for now
proof
  fix n x xs y ys
  assume s: "put_device now n x xs = Inr (y, ys)"
  show "dID y = n \<and> dName y = dName x \<and> ys = xs @ [y]" if "dID x = []"
    using s that by (auto simp: put_device_def Let_def split: if_splits)
  show "dID y = dID x \<and> dName y = dName x \<and> (\<exists>us v vs. xs = us @ v # vs \<and> dID v = dID x \<and> ys = us @ y # vs)" if ne: "dID x \<noteq> []"
  proof -
    from s ne obtain old where old: "find (\<lambda>e. dID e = dID x) (rev xs) = Some old"
      and y: "y = x\<lparr>dUpdated := now, dCreated := dCreated old\<rparr>"
      and ys: "ys = the (replace_last (\<lambda>e. dID e = dID x) (\<lambda>_. y) xs)"
      by (auto simp: put_device_def Let_def split: if_splits option.splits)
    from replace_last_found [OF old, of "\<lambda>_. y"] ys have "replace_last (\<lambda>e. dID e = dID x) (\<lambda>_. y) xs = Some ys" by auto
    from replace_last_Some [OF this] y show ?thesis by auto
  qed
  show "dID o' = dID x" if "o' \<in> set xs" "dName o' = dName x" for o'
    using s that by (auto simp: put_device_def Let_def split: if_splits)
qed

section \<open>Properties\<close>

text \<open>The operations that change the inventory, with the functions the handlers pass to \<open>UpdateDevice\<close>.\<close>

datatype device_op =
    Save time string Device
  | Snapshot string DeviceSnapshot
  | Describe string string string
  | RePin string string string
  | Remove string
  | DropCredentials

fun device_step :: "device_op \<Rightarrow> store \<Rightarrow> store" where
  "device_step (Save now newid d) s = snd (SaveDevice now newid d s)"
| "device_step (Snapshot k snap) s = snd (UpdateDevice k (\<lambda>d. d\<lparr>dSnapshot := Some snap\<rparr>) s)"
| "device_step (Describe k model serial) s = snd (UpdateDevice k (\<lambda>d. d\<lparr>dModel := model, dSerial := serial\<rparr>) s)"
| "device_step (RePin k pin addr) s = snd (UpdateDevice k (\<lambda>d. d\<lparr>dPin := pin, dPinAddress := addr\<rparr>) s)"
| "device_step (Remove k) s = snd (DeleteDevice k s)"
| "device_step DropCredentials s = snd (dropUndecryptableCredentials s)"

text \<open>A random identifier that no device has.\<close>

fun fresh_op :: "device_op \<Rightarrow> store \<Rightarrow> bool" where
  "fresh_op (Save now newid d) s \<longleftrightarrow> newid \<noteq> [] \<and> newid \<notin> dID ` set (devices s)"
| "fresh_op _ s \<longleftrightarrow> True"

inductive device_reach :: "store \<Rightarrow> bool" where
  start: "devices s = [] \<Longrightarrow> device_reach s"
| step: "device_reach s \<Longrightarrow> fresh_op op s \<Longrightarrow> device_reach (device_step op s)"

definition devices_ok :: "Device list \<Rightarrow> bool" where
  "devices_ok ds \<longleftrightarrow> distinct (map dID ds) \<and> distinct (map dName ds) \<and> [] \<notin> dID ` set ds"

definition keeps_devices :: "'a sop \<Rightarrow> bool" where
  "keeps_devices m \<longleftrightarrow> preserves (\<lambda>s. devices_ok (devices s)) m"

lemma ok_same_names:
  assumes "devices_ok ds" "map dID es = map dID ds" "map dName es = map dName ds"
  shows "devices_ok es"
proof -
  from assms(2) have "set (map dID es) = set (map dID ds)" by (rule arg_cong)
  then have "dID ` set es = dID ` set ds" by simp
  with assms show ?thesis unfolding devices_ok_def by metis
qed

lemma devices_ok_filter: "devices_ok ds \<Longrightarrow> devices_ok (filter P ds)"
  by (auto simp: devices_ok_def distinct_map_filter_iff)

lemma replace_first_same:
  assumes "replace_first P f xs = Some ys" "\<And>x. g (f x) = g x"
  shows "map g ys = map g xs"
proof -
  from replace_first_Some [OF assms(1)] obtain us x vs where "xs = us @ x # vs" "ys = us @ f x # vs" by blast
  with assms(2) show ?thesis by simp
qed

lemma UpdateDevice_keeps:
  assumes "\<And>d. dID (f d) = dID d" "\<And>d. dName (f d) = dName d"
  shows "keeps_devices (UpdateDevice k f)"
  unfolding keeps_devices_def UpdateDevice_def loadDevices_def saveDevices_def
  by (intro device_file.preserves_cycle)
    (auto split: option.splits intro!: keeps device_file.preserves_save
      intro: ok_same_names replace_first_same [where g = dID, OF _ assms(1)] replace_first_same [where g = dName, OF _ assms(2)])

lemma DeleteDevice_keeps: "keeps_devices (DeleteDevice k)"
  unfolding keeps_devices_def DeleteDevice_def loadDevices_def saveDevices_def
  by (intro device_file.preserves_cycle keeps device_file.preserves_save devices_ok_filter)

lemma drop_credentials_same [simp]:
  "dID (snd (drop_credentials s d)) = dID d" "dName (snd (drop_credentials s d)) = dName d"
  by (auto simp: drop_credentials_def split: option.splits sum.splits)

lemma drop_keeps: "keeps_devices dropUndecryptableCredentials"
proof -
  have "preserves (\<lambda>s. devices_ok (devices s)) (bindE (gets (\<lambda>s. map (drop_credentials s) ds)) (\<lambda>rs.
       let dropped = concat (map fst rs) in
       if dropped = [] then ret [] else thenE (saveDevices (map snd rs)) (ret dropped)))" if ok: "devices_ok ds" for ds
  proof (rule preservesI)
    fix s :: store assume s: "devices_ok (devices s)"
    let ?rs = "map (drop_credentials s) ds"
    have "devices_ok (map snd ?rs)" by (rule ok_same_names [OF ok]) (simp_all add: comp_def)
    then have "preserves (\<lambda>s. devices_ok (devices s)) (thenE (saveDevices (map snd ?rs)) (ret (concat (map fst ?rs))))"
      unfolding saveDevices_def by (intro keeps device_file.preserves_save)
    with s show "devices_ok (devices (snd (bindE (gets (\<lambda>s. map (drop_credentials s) ds)) (\<lambda>rs.
       let dropped = concat (map fst rs) in
       if dropped = [] then ret [] else thenE (saveDevices (map snd rs)) (ret dropped)) s)))"
      by (auto simp: bindE_def gets_def ret_def Let_def preserves_def)
  qed
  then show ?thesis
    unfolding keeps_devices_def dropUndecryptableCredentials_def loadDevices_def by (intro device_file.preserves_cycle) simp
qed

lemma SaveDevice_keeps:
  assumes s: "devices_ok (devices s)" and n: "newid \<noteq> []" "newid \<notin> dID ` set (devices s)"
  shows "devices_ok (devices (snd (SaveDevice now newid d s)))"
proof -
  obtain r t where l: "loadDevices s = (r, t)" by fastforce
  with device_file.load_keeps [of devices s] have t: "devices t = devices s" by (simp add: loadDevices_def)
  show ?thesis
  proof (cases r)
    case (Inl e)
    with l t s show ?thesis by (simp add: SaveDevice_def bindE_Inl)
  next
    case (Inr ds)
    with l t have ds: "ds = devices s" by (auto simp: loadDevices_def dest: device_file.load_Inr)
    show ?thesis
    proof (cases "put_device now newid d ds")
      case (Inl e)
      with l \<open>r = Inr ds\<close> t s show ?thesis by (simp add: SaveDevice_def bindE_def liftE_def)
    next
      case (Inr p)
      obtain d' ds' where p: "p = (d', ds')" by (cases p)
      from device_save.save_distinct [OF Inr [unfolded p ds]] s n have ok: "devices_ok ds'" by (simp add: devices_ok_def)
      have "snd (SaveDevice now newid d s) = snd (saveDevices ds' t)"
        using l \<open>r = Inr ds\<close> Inr p by (simp add: SaveDevice_def bindE_def thenE_def liftE_def ret_def split: prod.splits sum.splits)
      moreover have "preserves (\<lambda>s. devices_ok (devices s)) (saveDevices ds')"
        unfolding saveDevices_def by (rule device_file.preserves_save) (rule ok)
      ultimately show ?thesis using t s by (simp add: preserves_def)
    qed
  qed
qed

lemma device_step_keeps:
  assumes "devices_ok (devices s)" "fresh_op op s"
  shows "devices_ok (devices (device_step op s))"
  using assms UpdateDevice_keeps DeleteDevice_keeps drop_keeps SaveDevice_keeps
  by (cases op) (simp_all add: keeps_devices_def preserves_def)

text \<open>
  In every inventory that administrators and devices can bring about from an empty one, whatever disk
  accesses fail on the way, every device has an identifier and no two share it or their name.
\<close>

lemma device_reach_ok: "device_reach s \<Longrightarrow> devices_ok (devices s)"
proof (induction rule: device_reach.induct)
  case (start s)
  then show ?case by (simp add: devices_ok_def)
next
  case (step s op)
  then show ?case by (simp add: device_step_keeps)
qed

definition example_device :: Device where
  "example_device = \<lparr>dID = [], dName = ''leaf1'', dFQDN = ''leaf1.lab'', dManagementIP = ''10.0.0.1'', dPort = 9339,
     dPlatform = [], dSite = [], dTags = [], dNotes = [], dModel = [], dSerial = [], dPin = [], dPinAddress = [],
     dCredentials = None, dSnapshot = None, dCreated = 0, dUpdated = 0\<rparr>"

theorem device_reach_ok_witness:
  "map dName (devices (device_step (Save 5 ''a1'' example_device) empty_store)) = [''leaf1''] \<and>
   devices_ok (devices (device_step (Save 5 ''a1'' example_device) empty_store))"
proof
  show "map dName (devices (device_step (Save 5 ''a1'' example_device) empty_store)) = [''leaf1'']"
    by (simp add: SaveDevice_def loadDevices_def saveDevices_def put_device_def example_device_def empty_store_def
        readE_def io_def op_simps Let_def)
  have "device_reach empty_store" by (rule device_reach.start) (simp add: empty_store_def)
  then have "device_reach (device_step (Save 5 ''a1'' example_device) empty_store)"
    by (rule device_reach.step) (simp add: empty_store_def)
  then show "devices_ok (devices (device_step (Save 5 ''a1'' example_device) empty_store))"
    by (rule device_reach_ok)
qed

lemma load_success:
  assumes "loadDevices s = (Inr ds, u)"
  shows "ds = devices s \<and> devices u = devices s \<and> deviceKey u = deviceKey s"
  using assms by (auto simp: loadDevices_def readE_Inr_iff)

text \<open>
  A device that \<open>SaveDevice\<close> has stored is what \<open>GetDevice\<close> of its identifier then returns, its other fields
  are as given, and every other identifier gives what it gave before.
\<close>

lemma saved_device_is_found:
  assumes ok: "devices_ok (devices s)" and new: "newid \<notin> dID ` set (devices s)"
    and save: "SaveDevice now newid d s = (Inr d', t)" and healthy: "disk t = []"
  shows "GetDevice (dID d') t = (Inr (Some d'), t) \<and>
    d' = d\<lparr>dID := dID d', dUpdated := now, dCreated := dCreated d'\<rparr> \<and>
    (\<forall>k. k = dID d' \<or> find (\<lambda>e. dID e = k) (devices t) = find (\<lambda>e. dID e = k) (devices s))"
proof -
  from save obtain ds ds' u where l: "loadDevices s = (Inr ds, u)" and p: "put_device now newid d ds = Inr (d', ds')"
    and sv: "saveDevices ds' u = (Inr (), t)"
    by (auto simp: SaveDevice_def bindE_Inr_iff thenE_Inr_iff)
  from load_success [OF l] have ds: "ds = devices s" by simp
  from sv have t: "devices t = ds'" unfolding saveDevices_def by (rule device_file.save_Inr)
  have get: "GetDevice k t = (Inr (find (\<lambda>e. dID e = k) ds'), t)" for k
    using healthy t by (simp add: GetDevice_def loadDevices_def readE_def io_def op_simps)
  from ok have dist: "distinct (map dID ds)" by (simp add: devices_ok_def ds)
  have "GetDevice (dID d') t = (Inr (Some d'), t)"
    using device_save.save_found [OF p dist] new ds by (simp add: get)
  moreover have "d' = d\<lparr>dID := dID d', dUpdated := now, dCreated := dCreated d'\<rparr>"
    using p by (auto simp: put_device_def Let_def split: if_splits option.splits)
  moreover have "find (\<lambda>e. dID e = k) (devices t) = find (\<lambda>e. dID e = k) (devices s)" if "k \<noteq> dID d'" for k
    using device_save.save_other [OF p that] by (simp add: t ds)
  ultimately show ?thesis by blast
qed

definition opens :: "store \<Rightarrow> Device \<Rightarrow> bool" where
  "opens s d = (case dCredentials d of None \<Rightarrow> True | Some b \<Rightarrow> (case openCredentials s b of Inl _ \<Rightarrow> False | Inr _ \<Rightarrow> True))"

lemma openCredentials_key: "deviceKey s = deviceKey t \<Longrightarrow> openCredentials s b = openCredentials t b"
  by (simp add: openCredentials_def deviceGCM_def)

lemma drop_credentials_eq:
  "drop_credentials s d = (if opens s d then ([], d) else ([dName d], d\<lparr>dCredentials := None\<rparr>))"
  by (auto simp: drop_credentials_def opens_def split: option.splits sum.splits)

lemma dropped_names: "concat (map fst (map (drop_credentials s) ds)) = map dName (filter (\<lambda>d. \<not> opens s d) ds)"
  by (induction ds) (auto simp: drop_credentials_eq)

lemma opens_key: "deviceKey s = deviceKey t \<Longrightarrow> opens s d = opens t d"
  by (simp add: opens_def openCredentials_key [of s t] split: option.split)

text \<open>
  Clearing credentials on a staged restore keeps every device and everything else about it; it keeps a
  credential exactly when the live key opens it, and it names exactly the devices that lost theirs.
\<close>

lemma dropped_credentials:
  assumes "dropUndecryptableCredentials s = (Inr names, t)"
  shows "names = map dName (filter (\<lambda>d. \<not> opens s d) (devices s)) \<and>
    devices t = map (\<lambda>d. if opens s d then d else d\<lparr>dCredentials := None\<rparr>) (devices s) \<and>
    list_all (opens t) (devices t)"
proof -
  from assms obtain u where "loadDevices s = (Inr (devices s), u)" and key: "deviceKey u = deviceKey s" and u: "devices u = devices s"
    and rest: "bindE (gets (\<lambda>u. map (drop_credentials u) (devices s))) (\<lambda>rs.
       let dropped = concat (map fst rs) in
       if dropped = [] then ret [] else thenE (saveDevices (map snd rs)) (ret dropped)) u = (Inr names, t)"
    unfolding dropUndecryptableCredentials_def bindE_Inr_iff [of loadDevices] by (blast dest: load_success)
  let ?bad = "map dName (filter (\<lambda>d. \<not> opens s d) (devices s))"
  let ?new = "map (\<lambda>d. if opens s d then d else d\<lparr>dCredentials := None\<rparr>) (devices s)"
  have names: "concat (map fst (map (drop_credentials u) (devices s))) = ?bad"
    unfolding dropped_names opens_key [OF key] ..
  have new: "map snd (map (drop_credentials u) (devices s)) = ?new"
    by (simp add: drop_credentials_eq opens_key [OF key])
  from rest have "(if ?bad = [] then ret [] else thenE (saveDevices ?new) (ret ?bad)) u = (Inr names, t)"
    by (simp only: bindE_def gets_def Let_def names new prod.case sum.case)
  then consider "?bad = []" "names = []" "t = u" | "names = ?bad" "saveDevices ?new u = (Inr (), t)"
    by (auto simp: thenE_Inr_iff split: if_splits)
  then have res: "names = ?bad \<and> devices t = ?new \<and> deviceKey t = deviceKey s"
  proof cases
    case 1
    then have "\<forall>d\<in>set (devices s). opens s d" by (simp add: filter_empty_conv)
    then have "?new = devices s" by (simp add: map_idI)
    with 1 key u show ?thesis by simp
  next
    case 2
    have "deviceKey t = deviceKey u" using 2(2) unfolding saveDevices_def by (rule io_cases) auto
    with 2 key show ?thesis unfolding saveDevices_def by (auto dest: device_file.save_Inr)
  qed
  moreover have "opens s (d\<lparr>dCredentials := None\<rparr>)" for d by (simp add: opens_def)
  ultimately show ?thesis by (auto simp: list_all_iff opens_key [of t s])
qed

theorem saved_device_is_found_witness:
  "\<exists>d' t. SaveDevice 5 ''a1'' example_device empty_store = (Inr d', t) \<and> GetDevice (dID d') t = (Inr (Some d'), t)"
proof -
  let ?d = "example_device\<lparr>dID := ''a1'', dUpdated := 5, dCreated := 5\<rparr>"
  let ?t = "empty_store\<lparr>devices := [?d]\<rparr>"
  have save: "SaveDevice 5 ''a1'' example_device empty_store = (Inr ?d, ?t)"
    by (simp add: SaveDevice_def loadDevices_def saveDevices_def put_device_def example_device_def empty_store_def
        readE_def io_def op_simps Let_def)
  have "GetDevice (dID ?d) ?t = (Inr (Some ?d), ?t)"
    using saved_device_is_found [of empty_store "''a1''" 5 example_device ?d ?t] save
    by (simp add: devices_ok_def empty_store_def)
  with save show ?thesis by blast
qed

definition restored_store :: store where
  "restored_store = empty_store\<lparr>deviceKey := replicate 32 CHR ''k'',
     devices := [example_device\<lparr>dID := ''a1'', dCredentials := Some (Sealed (replicate 32 CHR ''x'') ''n'' None)\<rparr>]\<rparr>"

theorem dropped_credentials_witness:
  "list_all (opens (snd (dropUndecryptableCredentials restored_store)))
     (devices (snd (dropUndecryptableCredentials restored_store))) \<and>
   fst (dropUndecryptableCredentials restored_store) = Inr [''leaf1'']"
proof -
  have key: "replicate 32 CHR ''k'' \<noteq> replicate 32 CHR ''x''" by (simp add: list_eq_iff_nth_eq) (rule exI [of _ 0], simp)
  have "fst (dropUndecryptableCredentials restored_store) = Inr [''leaf1'']"
    using key by (simp add: dropUndecryptableCredentials_def restored_store_def loadDevices_def saveDevices_def readE_def io_def
        op_simps drop_credentials_def openCredentials_def deviceGCM_def empty_store_def example_device_def)
  moreover obtain r t where rt: "dropUndecryptableCredentials restored_store = (r, t)" by fastforce
  ultimately have run: "dropUndecryptableCredentials restored_store = (Inr [''leaf1''], t)" by simp
  then have "list_all (opens t) (devices t)" by (blast dest: dropped_credentials)
  with run show ?thesis by simp
qed

end
