(* ===== verification/ScepShared.thy ===== *)
theory ScepShared
  imports ScepJournal Devices
begin

text \<open>
  Shared challenges, \<open>scep_shared.go\<close>: a secret that many devices of fixed address ranges may use. The names a
  request may carry are computed from its source address, the inventory and the name service; \<open>resolve\<close>
  stands for the resolver, and an enrollment is committed to the journal before it is published.
\<close>

section \<open>Names, suffixes and ranges\<close>

definition sharedMaxNames :: nat where "sharedMaxNames = 4"
definition sharedRateWindow :: time where "sharedRateWindow = 10 * minute"
definition sharedMaxRanges :: nat where "sharedMaxRanges = 64"
definition sharedMaxSuffixes :: nat where "sharedMaxSuffixes = 16"

definition LastUsed :: "scepSharedChallenge \<Rightarrow> time" where
  "LastUsed c = foldl (\<lambda>last i. if iUsed (sIssuance i) > last then iUsed (sIssuance i) else last) 0 (hIssuances c)"

definition scepDNSName :: "string \<Rightarrow> bool" where
  "scepDNSName s \<longleftrightarrow> s \<noteq> [] \<and> length s \<le> 253 \<and> list_all dns_label (Split CHR ''.'' s)"

definition add_new :: "'a list \<Rightarrow> 'a \<Rightarrow> 'a list" where
  "add_new xs x = (if x \<in> set xs then xs else xs @ [x])"

text \<open>One entry of the form; the empty string stands for an entry that is skipped.\<close>

definition normalizeSuffix :: "string \<Rightarrow> string result" where
  "normalizeSuffix raw =
     (let s = ToLower (TrimSpace raw) in
      if s = [] then Inr []
      else if HasPrefix s ''.'' \<or> Contains s ''*'' then
        Inl (''DNS suffix '' @ quoted raw @ '' must not start with a dot or contain a wildcard'')
      else
        let s = TrimSuffix s ''.'' in
        if \<not> scepDNSName s \<or> \<not> Contains s ''.'' then
          Inl (''DNS suffix '' @ quoted raw @ '' must be a valid name with at least two labels'')
        else Inr s)"

definition normalizeSharedSuffixes :: "string list \<Rightarrow> string list result" where
  "normalizeSharedSuffixes raws =
     bindR (map_all normalizeSuffix raws) (\<lambda>ss.
       let out = foldl add_new [] (filter (\<lambda>s. s \<noteq> []) ss) in
       if length out > sharedMaxSuffixes then Inl (''at most '' @ Itoa sharedMaxSuffixes @ '' DNS suffixes'')
       else Inr out)"

definition normalizeSharedRanges :: "prefix list \<Rightarrow> prefix list result" where
  "normalizeSharedRanges ps =
     (if ps = [] then Inl ''supply at least one IPv4 or IPv6 CIDR range''
      else if length ps > sharedMaxRanges then Inl (''at most '' @ Itoa sharedMaxRanges @ '' CIDR ranges'')
      else map_all (\<lambda>p. if \<not> prefix_valid p \<or> Is4In6 (prefix_addr p) then Inl ''invalid CIDR range'' else Inr (Masked p)) ps)"

definition sharedChallenge :: "(string \<Rightarrow> string) \<Rightarrow> time \<Rightarrow> string \<Rightarrow> string \<Rightarrow> prefix list \<Rightarrow> string list \<Rightarrow> int \<Rightarrow> int \<Rightarrow> string sop" where
  "sharedChallenge H now secret profile ranges sfx days0 expiryDays =
     bindE scep_load (\<lambda>st.
     bindE (challenge_profile st profile days0) (\<lambda>(t, days).
       if expiryDays < 1 \<or> expiryDays > 365 then throw ''shared challenge expiry must be 1-365 days''
       else
       bindE (liftE (normalizeSharedRanges ranges)) (\<lambda>ranges.
       bindE (liftE (normalizeSharedSuffixes sfx)) (\<lambda>sfx.
       bindE (challenge_capacity now st) (\<lambda>st.
        thenE (scep_save (st\<lparr>stShared := stShared st @
             [\<lparr>hHash = H secret, hCA = stCA st, hProfile = t, hRanges = ranges, hSuffixes = sfx, hDays = days,
               hExpires = now + expiryDays * day, hCreated = now, hRevoked = False, hIssuances = []\<rparr>]\<rparr>))
          (ret secret))))))"

section \<open>Source addresses and candidate names\<close>

definition remoteHost :: "string \<Rightarrow> string" where
  "remoteHost remote = host_only remote"

definition scepSource :: "string \<Rightarrow> addr result" where
  "scepSource remote = (case ParseAddr (host_only remote) of
       None \<Rightarrow> Inl ''unable to parse IP''
     | Some a \<Rightarrow> Inr (Unmap a))"

definition oid_unstructuredName :: "nat list" where
  "oid_unstructuredName = [1, 2, 840, 113549, 1, 9, 2]"

definition csrUnstructuredNames :: "csr \<Rightarrow> string list" where
  "csrUnstructuredNames c = (case csrAttributes c of None \<Rightarrow> []
     | Some as \<Rightarrow> concat (map (\<lambda>a. List.map_filter id (atValues a)) (filter (\<lambda>a. atOID a = oid_unstructuredName) as)))"

definition norm_name :: "string \<Rightarrow> string" where
  "norm_name s = TrimSuffix (ToLower (TrimSpace s)) ''.''"

definition dotted :: "string \<Rightarrow> bool" where
  "dotted s \<longleftrightarrow> Contains s ''.'' \<and> scepDNSName s"

definition sharedCandidates :: "csr \<Rightarrow> string list result" where
  "sharedCandidates c =
     bindR (check_all (\<lambda>d. checkR (scepDNSName (norm_name d)) (''invalid DNS SAN '' @ quoted d)) (csrDNS c)) (\<lambda>_.
       let out = foldl add_new [] (map norm_name (csrDNS c));
           cn = norm_name (CommonName (csrSubject c));
           out = (if dotted cn then add_new out cn else out);
           others = map (\<lambda>v. norm_name (TrimPrefix (norm_name v) ''hostname='')) (csrUnstructuredNames c);
           out = foldl add_new out (filter dotted others) in
       if length out > sharedMaxNames
       then Inl (Itoa (length out) @ '' DNS names requested, at most '' @ Itoa sharedMaxNames @ '' allowed'')
       else Inr out)"

definition deviceAddr :: "Device \<Rightarrow> addr option" where
  "deviceAddr d = map_option Unmap (ParseAddr (host_only (dManagementIP d)))"

definition underSuffix :: "string \<Rightarrow> string list \<Rightarrow> bool" where
  "underSuffix name sfx \<longleftrightarrow> list_ex (\<lambda>s. name = s \<or> HasSuffix name (''.'' @ s)) sfx"

definition atSource :: "Device list \<Rightarrow> addr \<Rightarrow> string \<Rightarrow> bool" where
  "atSource ds src fqdn \<longleftrightarrow>
     list_ex (\<lambda>d. deviceAddr d = Some src \<and> EqualFold (TrimSuffix (dFQDN d) ''.'') fqdn) ds"

type_synonym resolver = "string \<Rightarrow> addr list result"

definition checkSharedName :: "resolver \<Rightarrow> Device list \<Rightarrow> string list \<Rightarrow> addr \<Rightarrow> string \<Rightarrow> unit result" where
  "checkSharedName resolve ds sfx src n =
     (if \<not> underSuffix n sfx then Inl (''name '' @ n @ '' is not under a challenge DNS suffix'')
      else if atSource ds src n then Inr ()
      else (case resolve n of
          Inl e \<Rightarrow> Inl (''name '' @ n @ '' did not resolve: '' @ e)
        | Inr addrs \<Rightarrow>
            if \<not> list_ex (\<lambda>a. Unmap a = src) addrs then
              Inl (''name '' @ n @ '' resolves to ['' @ Join (map addr_string addrs) '' '' @ ''], not source '' @ addr_string src)
            else Inr ()))"

definition inventoryNames :: "Device list \<Rightarrow> string list \<Rightarrow> addr \<Rightarrow> string list" where
  "inventoryNames ds sfx src =
     foldl add_new [] (filter (\<lambda>n. underSuffix n sfx)
       (map (\<lambda>d. ToLower (TrimSuffix (dFQDN d) ''.'')) (filter (\<lambda>d. deviceAddr d = Some src \<and> dFQDN d \<noteq> []) ds)))"

text \<open>An \<open>Inl\<close> of the inner result is a refusal with its reason; an error of the operation is a fault.\<close>

definition sharedNames :: "resolver \<Rightarrow> csr \<Rightarrow> string list \<Rightarrow> addr \<Rightarrow> string list result sop" where
  "sharedNames resolve c sfx src =
     (if sfx = [] then ret (Inr [])
      else (case sharedCandidates c of
          Inl e \<Rightarrow> ret (Inl e)
        | Inr cands \<Rightarrow>
            bindE ListDevices (\<lambda>ds.
              ret (bindR (check_all (checkSharedName resolve ds sfx src) cands) (\<lambda>_.
                let names = (if cands = [] then inventoryNames ds sfx src else cands) in
                if length names > sharedMaxNames
                then Inl (Itoa (length names) @ '' DNS names verified, at most '' @ Itoa sharedMaxNames @ '' allowed'')
                else Inr names)))))"

section \<open>Enrollment\<close>

text \<open>What an enrollment needs of a decrypted request, with the three digests.\<close>

record request =
  rqTransaction :: string
  rqCSR :: csr
  rqPasswordHash :: string
  rqRequestHash :: string
  rqSignerHash :: string

datatype enrollment = Denied string | Granted string "xcert option"

text \<open>\<open>RecordBySerial\<close> through the disk: an index that cannot be read holds no record.\<close>

definition findRecord :: "string \<Rightarrow> CertRecord option sop" where
  "findRecord serial = (\<lambda>s. case readE (\<lambda>s. RecordBySerial s serial) s of
       (Inl _, t) \<Rightarrow> (Inr None, t)
     | (Inr r, t) \<Rightarrow> (Inr r, t))"

definition scepIssue :: "time \<Rightarrow> nat \<Rightarrow> csr \<Rightarrow> string \<Rightarrow> int \<Rightarrow> CertTemplate \<Rightarrow> xcert \<Rightarrow> privkey \<Rightarrow> (CertRecord \<times> xcert) result" where
  "scepIssue now serial authorized issuer days t ca key =
     bindR (signCSRWithoutPersistence now serial authorized
         \<lparr>spCSR = Some authorized, spValidDays = days, spProfile = [], spIssuerID = issuer, spCAPassphrase = [], spTemplate = t,
          spTemplateName = tName t, spBackdate = 0\<rparr> ca key True)
       (\<lambda>(rec, der). Inr (rec\<lparr>rProvenance := ''scep''\<rparr>, der))"

definition new_issuance :: "time \<Rightarrow> request \<Rightarrow> CertRecord \<Rightarrow> xcert \<Rightarrow> scepIssuance" where
  "new_issuance now rq rec der = \<lparr>iUsed = now, iTransaction = rqTransaction rq, iRequestHash = rqRequestHash rq,
     iSignerHash = rqSignerHash rq, iDER = Some der, iRecord = rec, iPublished = False\<rparr>"

definition replays :: "time \<Rightarrow> request \<Rightarrow> addr \<Rightarrow> scepSharedIssuance \<Rightarrow> bool" where
  "replays now rq src i \<longleftrightarrow>
     iTransaction (sIssuance i) = rqTransaction rq \<and> iRequestHash (sIssuance i) = rqRequestHash rq \<and>
     iSignerHash (sIssuance i) = rqSignerHash rq \<and> sSource i = src \<and> now < iUsed (sIssuance i) + scepRetention"

definition sharedIdentity :: "addr \<Rightarrow> string list \<Rightarrow> string" where
  "sharedIdentity src names = addr_string src @ ''|'' @ Join (sort names) '',''"

definition sharedIndex :: "scepState \<Rightarrow> string \<Rightarrow> scepSharedChallenge option" where
  "sharedIndex st h = find (\<lambda>c. hHash c = h \<and> hCA c = stCA st) (stShared st)"

definition commit_shared :: "scepState \<Rightarrow> string \<Rightarrow> scepSharedIssuance \<Rightarrow> scepState" where
  "commit_shared st h i = st\<lparr>stShared := the (replace_first (\<lambda>c. hHash c = h \<and> hCA c = stCA st)
       (\<lambda>c. c\<lparr>hIssuances := hIssuances c @ [i]\<rparr>) (stShared st))\<rparr>"

definition authorizedShared :: "csr \<Rightarrow> addr \<Rightarrow> string list \<Rightarrow> csr" where
  "authorizedShared csr src names =
     (let cn = (if names \<noteq> [] then hd names else addr_string src) in
      csr\<lparr>csrSubject := (csrSubject csr)\<lparr>CommonName := cn\<rparr>, csrDNS := names, csrIPs := [src], csrEmails := [], csrURIs := []\<rparr>)"

definition sharedIssuance :: "time \<Rightarrow> request \<Rightarrow> addr \<Rightarrow> string list \<Rightarrow> CertRecord \<Rightarrow> xcert \<Rightarrow> scepSharedIssuance" where
  "sharedIssuance now rq src names rec der =
     \<lparr>sIssuance = new_issuance now rq rec der, sIdentity = sharedIdentity src names, sSource = src\<rparr>"

text \<open>The verified names are rate limited, signed and committed.\<close>

definition issueShared ::
  "time \<Rightarrow> nat \<Rightarrow> scepState \<Rightarrow> scepSharedChallenge \<Rightarrow> request \<Rightarrow> string \<Rightarrow> addr \<Rightarrow> string list \<Rightarrow> xcert \<Rightarrow> privkey \<Rightarrow> enrollment sop" where
  "issueShared now serial st c rq origin src names ca key =
     (let identity = sharedIdentity src names in
      if list_ex (\<lambda>i. sIdentity i = identity \<and> now < iUsed (sIssuance i) + sharedRateWindow) (hIssuances c)
      then ret (Denied ''rate limited: this identity was issued a certificate within the last 10 minutes'')
      else case scepIssue now serial (authorizedShared (rqCSR rq) src names) (stCA st) (hDays c) (hProfile c) ca key of
          Inl e \<Rightarrow> ret (Denied (''signing: '' @ e))
        | Inr (rec, der) \<Rightarrow>
            let st' = commit_shared st (hHash c) (sharedIssuance now rq src names rec der) in
            thenE (scep_save st')
            (thenE (scep_recover st')
              (ret (Granted origin (Some der)))))"

definition enrollShared ::
  "resolver \<Rightarrow> time \<Rightarrow> nat \<Rightarrow> scepState \<Rightarrow> scepSharedChallenge \<Rightarrow> request \<Rightarrow> string \<Rightarrow> xcert \<Rightarrow> privkey \<Rightarrow> enrollment sop" where
  "enrollShared resolve now serial st c rq remote ca key =
     (let origin = '' shared from '' @ remoteHost remote in
      if hRevoked c then ret (Denied ''shared challenge revoked'')
      else if now > hExpires c then ret (Denied ''shared challenge expired'')
      else case scepSource remote of
          Inl e \<Rightarrow> ret (Denied (''source address '' @ quoted remote @ '' unusable: '' @ e))
        | Inr src \<Rightarrow>
      if \<not> list_ex (\<lambda>p. prefix_contains p src) (hRanges c)
      then ret (Denied (''source '' @ addr_string src @ '' not in challenge ranges''))
      else case find (replays now rq src) (hIssuances c) of
          Some i \<Rightarrow>
            bindE (findRecord (rSerial (iRecord (sIssuance i)))) (\<lambda>found.
              if found = None then ret (Denied ''certificate of this shared challenge was deleted'')
              else ret (Granted origin (iDER (sIssuance i))))
        | None \<Rightarrow>
      if csrEmails (rqCSR rq) \<noteq> [] \<or> csrURIs (rqCSR rq) \<noteq> []
      then ret (Denied ''CSR email or URI SANs are not allowed with a shared challenge'')
      else
      bindE (sharedNames resolve (rqCSR rq) (hSuffixes c) src) (\<lambda>r. case r of
          Inl reason \<Rightarrow> ret (Denied reason)
        | Inr names \<Rightarrow> issueShared now serial st c rq origin src names ca key))"

end
