(* ===== verification/Asn1_Bound.thy ===== *)
theory Asn1_Bound
  imports Prelude
begin

text \<open>
  The ASN.1 preflight of \<open>scep_asn1.go\<close>: an iterative scan of a byte slice with an explicit
  array of end offsets, which must accept exactly the definite, minimally encoded TLV values
  within the depth, object-count and work limits before the recursive BER converter of the
  CMS library runs. The scan is modelled with its index reads: a read out of range is the
  verdict \<open>Panic\<close>. The specification is a datatype of TLV trees with its encoder.
\<close>

unbundle bit_operations_syntax

type_synonym byte = "8 word"

section \<open>The scan\<close>

definition scepMaxMessage :: nat where "scepMaxMessage = 2 ^ 20"
definition scepASN1Depth :: nat where "scepASN1Depth = 32"
definition scepASN1Nodes :: nat where "scepASN1Nodes = 8192"
definition scepASN1Work :: nat where "scepASN1Work = 8 * scepMaxMessage"

lemmas asn1_limits = scepMaxMessage_def scepASN1Depth_def scepASN1Nodes_def scepASN1Work_def

datatype verdict = Accepted | Refused | Panic

text \<open>The result of reading a length field: a value, a refusal, or a read out of range.\<close>

datatype 'a access = Value 'a | Bad | OutOfRange

text \<open>The inner loop \<open>for range n\<close>: \<open>length = length*256 + int(raw[pos]); pos++\<close>.\<close>

fun read_bytes :: "byte list \<Rightarrow> nat \<Rightarrow> nat \<Rightarrow> nat \<Rightarrow> (nat \<times> nat) option" where
  "read_bytes raw pos 0 acc = Some (acc, pos)"
| "read_bytes raw pos (Suc n) acc =
     (if pos < length raw then read_bytes raw (Suc pos) n (acc * 256 + unat (raw ! pos)) else None)"

text \<open>The length field at \<open>pos\<close>: the content length and the position behind the field.\<close>

definition read_length :: "byte list \<Rightarrow> nat \<Rightarrow> nat \<Rightarrow> (nat \<times> nat) access" where
  "read_length raw pos lim =
     (if pos \<ge> length raw then OutOfRange
      else let lengthByte = raw ! pos; pos = pos + 1 in
        if lengthByte AND 128 \<noteq> 0 then
          (let n = unat (lengthByte AND 127) in
           if n = 0 \<or> n > 3 \<or> int n > int lim - int pos then Bad
           else if pos \<ge> length raw then OutOfRange
           else if raw ! pos = 0 then Bad
           else (case read_bytes raw pos n 0 of
                   None \<Rightarrow> OutOfRange
                 | Some (len, pos) \<Rightarrow> if len < 128 then Bad else Value (len, pos)))
        else Value (unat lengthByte, pos))"

lemma read_bytes_pos: "read_bytes raw pos n acc = Some (len, p) \<Longrightarrow> p = pos + n"
  by (induction raw pos n acc rule: read_bytes.induct) (auto split: if_splits)

lemma read_length_pos: "read_length raw pos lim = Value (len, p) \<Longrightarrow> pos < length raw \<and> pos < p"
  by (auto simp: read_length_def Let_def dest: read_bytes_pos split: if_splits option.splits)

text \<open>
  The main loop. \<open>ends\<close> is the Go array of \<open>scepASN1Depth + 1\<close> offsets; an index outside it
  would panic. Every round either leaves the current object (the depth falls, the position
  stays) or moves the position forward.
\<close>

function scan :: "byte list \<Rightarrow> nat list \<Rightarrow> nat \<Rightarrow> nat \<Rightarrow> nat \<Rightarrow> nat \<Rightarrow> nat \<Rightarrow> verdict" where
  "scan raw ends pos depth nodes work roots =
     (if depth \<ge> length ends then Panic
      else if pos = ends ! depth then
        (if depth = 0 then Accepted else scan raw ends pos (depth - 1) nodes work roots)
      else
        (let roots = (if depth = 0 then roots + 1 else roots) in
         if depth = 0 \<and> roots \<noteq> 1 then Refused
         else if depth \<ge> scepASN1Depth \<or> int (ends ! depth) - int pos < 2 then Refused
         else if pos \<ge> length raw then Panic
         else
           (let tag = raw ! pos in
            if tag = 0 \<or> tag AND 31 = 31 then Refused
            else (case read_length raw (pos + 1) (ends ! depth) of
                OutOfRange \<Rightarrow> Panic
              | Bad \<Rightarrow> Refused
              | Value (len, pos') \<Rightarrow>
                  if int len > int (ends ! depth) - int pos' then Refused
                  else if nodes + 1 > scepASN1Nodes \<or> work + (pos' + len - pos) > scepASN1Work then Refused
                  else if tag AND 32 \<noteq> 0 \<and> len > 0 then
                    (if depth + 1 \<ge> length ends then Panic
                     else scan raw (ends[depth + 1 := pos' + len]) pos' (depth + 1)
                            (nodes + 1) (work + (pos' + len - pos)) roots)
                  else scan raw ends (pos' + len) depth (nodes + 1) (work + (pos' + len - pos)) roots))))"
  by pat_completeness auto
termination
  by (relation "measures [\<lambda>(raw, ends, pos, depth, _). length raw - pos,
                          \<lambda>(raw, ends, pos, depth, _). depth]")
     (auto dest!: read_length_pos)

declare scan.simps [simp del]

definition boundedSCEPASN1 :: "byte list \<Rightarrow> verdict" where
  "boundedSCEPASN1 raw =
     (if length raw = 0 \<or> length raw > scepMaxMessage then Refused
      else scan raw ((replicate (scepASN1Depth + 1) 0)[0 := length raw]) 0 0 0 0 0)"

section \<open>The specification: TLV trees\<close>

text \<open>
  A value is primitive (its contents are opaque bytes) or constructed and not empty.
  \<open>enc_len\<close> is the minimal definite length field.
\<close>

datatype tlv = Prim byte "byte list" | Node byte "tlv list"

definition enc_len :: "nat \<Rightarrow> byte list" where
  "enc_len n =
     (if n < 128 then [of_nat n]
      else if n < 256 then [129, of_nat n]
      else if n < 65536 then [130, of_nat (n div 256), of_nat n]
      else [131, of_nat (n div 65536), of_nat (n div 256), of_nat n])"

fun encode :: "tlv \<Rightarrow> byte list" where
  "encode (Prim tag bs) = tag # enc_len (length bs) @ bs"
| "encode (Node tag ts) = tag # enc_len (length (concat (map encode ts))) @ concat (map encode ts)"

abbreviation encodes :: "tlv list \<Rightarrow> byte list" where
  "encodes ts \<equiv> concat (map encode ts)"

text \<open>Low tags only, the constructed bit set exactly on the nodes, lengths below \<open>2 ^ 24\<close>.\<close>

definition low_tag :: "byte \<Rightarrow> bool" where
  "low_tag tag \<longleftrightarrow> tag \<noteq> 0 \<and> tag AND 31 \<noteq> 31"

fun wf_tlv :: "tlv \<Rightarrow> bool" where
  "wf_tlv (Prim tag bs) \<longleftrightarrow> low_tag tag \<and> (tag AND 32 = 0 \<or> bs = []) \<and> length bs < 2 ^ 24"
| "wf_tlv (Node tag ts) \<longleftrightarrow> low_tag tag \<and> tag AND 32 \<noteq> 0 \<and> ts \<noteq> [] \<and>
     length (encodes ts) < 2 ^ 24 \<and> (\<forall>t \<in> set ts. wf_tlv t)"

fun tlv_depth :: "tlv \<Rightarrow> nat" where
  "tlv_depth (Prim tag bs) = 1"
| "tlv_depth (Node tag ts) = Suc (foldr max (map tlv_depth ts) 0)"

fun tlv_nodes :: "tlv \<Rightarrow> nat" where
  "tlv_nodes (Prim tag bs) = 1"
| "tlv_nodes (Node tag ts) = Suc (sum_list (map tlv_nodes ts))"

text \<open>The sum of the encoded lengths of all objects, nested ones counted again.\<close>

fun tlv_work :: "tlv \<Rightarrow> nat" where
  "tlv_work (Prim tag bs) = length (encode (Prim tag bs))"
| "tlv_work (Node tag ts) = length (encode (Node tag ts)) + sum_list (map tlv_work ts)"

definition within_limits :: "tlv \<Rightarrow> bool" where
  "within_limits t \<longleftrightarrow> tlv_depth t \<le> scepASN1Depth \<and> tlv_nodes t \<le> scepASN1Nodes \<and>
     tlv_work t \<le> scepASN1Work"

lemma foldr_max_le: "foldr max xs 0 \<le> (k::nat) \<longleftrightarrow> (\<forall>x \<in> set xs. x \<le> k)"
  by (induction xs) auto

lemma enc_len_nonempty [simp]: "enc_len n \<noteq> []"
  by (simp add: enc_len_def)

lemma encode_nonempty [simp]: "encode t \<noteq> []"
  by (cases t) auto

section \<open>Slices\<close>

definition slice :: "'a list \<Rightarrow> nat \<Rightarrow> nat \<Rightarrow> 'a list" where
  "slice xs p q = take (q - p) (drop p xs)"

lemma slice_self [simp]: "slice xs p p = []"
  by (simp add: slice_def)

lemma slice_all [simp]: "slice xs 0 (length xs) = xs"
  by (simp add: slice_def)

lemma length_slice: "q \<le> length xs \<Longrightarrow> length (slice xs p q) = q - p"
  by (simp add: slice_def)

lemma slice_append:
  assumes "p \<le> q" and "q \<le> r"
  shows "slice xs p r = slice xs p q @ slice xs q r"
proof -
  from assms obtain a b where "q = p + a" and "r = q + b"
    by (auto simp: le_iff_add)
  then show ?thesis
    by (simp add: slice_def take_add add.commute)
qed

lemma slice_Cons: "p < q \<Longrightarrow> p < length xs \<Longrightarrow> slice xs p q = xs ! p # slice xs (Suc p) q"
  by (simp add: slice_def Cons_nth_drop_Suc [symmetric] take_Cons' Suc_diff_Suc)

lemma slice_length_eq: "slice xs p q = ys \<Longrightarrow> q \<le> length xs \<Longrightarrow> p \<le> q \<Longrightarrow> q = p + length ys"
  by (auto simp: slice_def)

section \<open>The length field\<close>

lemma unat_byte_less: "unat (b :: byte) < 256"
  using unsigned_less [of b, where 'a = nat] by simp
lemma byte_low7: "unat ((b :: byte) AND 127) = unat b mod 128"
proof -
  have "b AND 127 = take_bit 7 b" by (simp add: take_bit_eq_mask mask_eq_exp_minus_1)
  then have "unat (b AND 127) = take_bit 7 (unat b)" by (simp only: unsigned_take_bit_eq)
  then show ?thesis by (simp add: take_bit_eq_mod)
qed
lemma odd_div_128: "(n::nat) < 256 \<Longrightarrow> odd (n div 128) \<longleftrightarrow> 128 \<le> n"
proof -
  assume n: "n < 256"
  then have "n div 128 = 0 \<or> n div 128 = 1" by linarith
  then show ?thesis by (auto simp: div_eq_0_iff)
qed
lemma byte_high: "(b :: byte) AND 128 \<noteq> 0 \<longleftrightarrow> 128 \<le> unat b"
proof -
  have "b AND 128 \<noteq> 0 \<longleftrightarrow> bit b 7" by (simp add: bit_iff_and_push_bit_not_eq_0)
  also have "\<dots> \<longleftrightarrow> bit (unat b) 7" by (simp add: bit_unsigned_iff)
  also have "\<dots> \<longleftrightarrow> odd (unat b div 128)" by (simp add: bit_iff_odd)
  also have "\<dots> \<longleftrightarrow> 128 \<le> unat b" by (rule odd_div_128) (rule unat_byte_less)
  finally show ?thesis .
qed
lemma unat_of_nat_byte: "unat (of_nat n :: byte) = n mod 256"
  by (simp add: unat_of_nat)

lemma byte_eqI: "unat (a::byte) = unat b \<Longrightarrow> a = b"
  by (rule unsigned_word_eqI)

lemma of_nat_unat_byte: "n mod 256 = unat b \<Longrightarrow> (of_nat n :: byte) = b"
  by (rule byte_eqI) (simp add: unat_of_nat_byte)

lemma read_bytes_1:
  "read_bytes raw p 1 0 = (if p < length raw then Some (unat (raw ! p), Suc p) else None)"
  by (simp add: One_nat_def)

lemma read_bytes_2:
  "read_bytes raw p 2 0 = (if Suc p < length raw
     then Some (unat (raw ! p) * 256 + unat (raw ! Suc p), Suc (Suc p)) else None)"
  by (auto simp: numeral_2_eq_2)

lemma read_bytes_3:
  "read_bytes raw p 3 0 = (if Suc (Suc p) < length raw
     then Some ((unat (raw ! p) * 256 + unat (raw ! Suc p)) * 256 + unat (raw ! Suc (Suc p)), Suc (Suc (Suc p)))
     else None)"
  by (auto simp: numeral_3_eq_3)

lemmas read_bytes_123 = read_bytes_1 [unfolded One_nat_def] read_bytes_2 read_bytes_3

lemma enc_len_cases:
  "n < 128 \<Longrightarrow> enc_len n = [of_nat n]"
  "128 \<le> n \<Longrightarrow> n < 256 \<Longrightarrow> enc_len n = [129, of_nat n]"
  "256 \<le> n \<Longrightarrow> n < 65536 \<Longrightarrow> enc_len n = [130, of_nat (n div 256), of_nat n]"
  "65536 \<le> n \<Longrightarrow> enc_len n = [131, of_nat (n div 65536), of_nat (n div 256), of_nat n]"
  by (simp_all add: enc_len_def)

lemma enc_len_byte1: "unat b < 128 \<Longrightarrow> enc_len (unat b) = [b]"
  by (simp add: enc_len_cases)

lemma enc_len_byte2: "128 \<le> unat b \<Longrightarrow> enc_len (unat b) = [129, b]"
  using unat_byte_less [of b] by (simp add: enc_len_cases)

lemma enc_len_byte3:
  assumes "0 < unat b"
  shows "enc_len (unat b * 256 + unat c) = [130, b, c]"
proof -
  define n where "n = unat b * 256 + unat c"
  have "256 \<le> n" "n < 65536" "n div 256 = unat b" "n mod 256 = unat c"
    using assms unat_byte_less [of b] unat_byte_less [of c] by (auto simp: n_def)
  then have "enc_len n = [130, b, c]"
    by (simp add: enc_len_cases of_nat_unat_byte)
  then show ?thesis by (simp add: n_def)
qed

lemma enc_len_byte4:
  assumes "0 < unat b"
  shows "enc_len ((unat b * 256 + unat c) * 256 + unat d) = [131, b, c, d]"
proof -
  define m where "m = unat b * 256 + unat c"
  define n where "n = m * 256 + unat d"
  have 1: "n div 256 = m" "n mod 256 = unat d"
    using unat_byte_less [of d] by (simp_all add: n_def)
  then have "(n div 256) div 256 = unat b" "(n div 256) mod 256 = unat c"
    using unat_byte_less [of c] by (simp_all add: m_def)
  then have 2: "n div 65536 = unat b" "(n div 256) mod 256 = unat c"
    by (auto simp: div_mult2_eq)
  have "65536 \<le> n" using assms by (simp add: n_def m_def)
  then have "enc_len n = [131, b, c, d]"
    using 1(2) 2 by (simp add: enc_len_cases of_nat_unat_byte)
  then show ?thesis by (simp add: n_def m_def)
qed

text \<open>A length that is read is the minimal encoding of its value, inside the limit.\<close>

lemma mod_128: "128 \<le> x \<Longrightarrow> x < 256 \<Longrightarrow> x = 128 + x mod (128::nat)"
  by (simp add: le_mod_geq)

lemma read_length_sound:
  assumes r: "read_length raw pos lim = Value (len, p)" and "pos < lim" and "lim \<le> length raw"
  shows "pos < p \<and> p \<le> lim \<and> len < 2 ^ 24 \<and> slice raw pos p = enc_len len"
proof (cases "(raw ! pos) AND 128 = 0")
  case True
  then have "unat (raw ! pos) < 128" by (metis byte_high not_le)
  with r True assms(2,3) show ?thesis
    by (auto simp: read_length_def Let_def slice_Cons enc_len_byte1)
next
  case False
  define b where "b = raw ! pos"
  define n where "n = unat (b AND 127)"
  have b: "unat b = 128 + n"
    using False mod_128 [OF _ unat_byte_less [of b]] by (simp add: n_def byte_low7 byte_high b_def)
  from r False assms(2,3) have n: "n = 1 \<or> n = 2 \<or> n = 3" and "uint (b AND 127) \<le> int lim - (1 + int pos)"
    and nz: "raw ! (pos + 1) \<noteq> 0" and rb: "read_bytes raw (pos + 1) n 0 = Some (len, p)" and "128 \<le> len"
    by (auto simp: read_length_def Let_def b_def n_def split: if_splits option.splits)
  moreover have "int n = uint (b AND 127)" by (simp add: n_def)
  ultimately have le: "pos + 1 + n \<le> lim" by linarith
  have nz': "0 < unat (raw ! (pos + 1))" using nz by (simp add: unat_gt_0)
  consider (1) "n = 1" | (2) "n = 2" | (3) "n = 3" using n by blast
  then show ?thesis
  proof cases
    case 1
    with b have "b = 129" by (intro byte_eqI) simp
    moreover from 1 rb have "len = unat (raw ! Suc pos)" "p = Suc (Suc pos)"
      by (simp_all add: read_bytes_123 del: read_bytes.simps split: if_splits)
    ultimately show ?thesis
      using 1 le \<open>128 \<le> len\<close> assms(2,3) unat_byte_less [of "raw ! Suc pos"]
      by (simp add: slice_Cons enc_len_byte2 b_def)
  next
    case 2
    with b have "b = 130" by (intro byte_eqI) simp
    moreover from 2 rb have "len = unat (raw ! Suc pos) * 256 + unat (raw ! Suc (Suc pos))"
        "p = Suc (Suc (Suc pos))"
      by (simp_all add: read_bytes_123 del: read_bytes.simps split: if_splits)
    ultimately show ?thesis
      using 2 le assms(2,3) nz' unat_byte_less [of "raw ! Suc pos"] unat_byte_less [of "raw ! Suc (Suc pos)"]
      by (simp add: slice_Cons enc_len_byte3 b_def)
  next
    case 3
    with b have "b = 131" by (intro byte_eqI) simp
    moreover from 3 rb have "len = (unat (raw ! Suc pos) * 256 + unat (raw ! Suc (Suc pos))) * 256
          + unat (raw ! Suc (Suc (Suc pos)))"
        "p = Suc (Suc (Suc (Suc pos)))"
      by (simp_all add: read_bytes_123 del: read_bytes.simps split: if_splits)
    ultimately show ?thesis
      using 3 le assms(2,3) nz' unat_byte_less [of "raw ! Suc pos"]
        unat_byte_less [of "raw ! Suc (Suc pos)"] unat_byte_less [of "raw ! Suc (Suc (Suc pos))"]
        enc_len_byte4 [OF nz'[simplified], of "raw ! Suc (Suc pos)" "raw ! Suc (Suc (Suc pos))"]
      by (simp add: slice_Cons b_def)
  qed
qed

lemma read_length_complete:
  assumes sl: "slice raw pos (pos + length (enc_len len)) = enc_len len"
    and le: "pos + length (enc_len len) \<le> lim" "lim \<le> length raw" and len: "len < 2 ^ 24"
  shows "read_length raw pos lim = Value (len, pos + length (enc_len len))"
proof -
  consider (1) "len < 128" | (2) "128 \<le> len" "len < 256" | (3) "256 \<le> len" "len < 65536"
    | (4) "65536 \<le> len" by linarith
  then show ?thesis
  proof cases
    case 1
    with sl le have "raw ! pos = of_nat len"
      by (simp add: enc_len_cases slice_Cons)
    with 1 le byte_high [of "raw ! pos"] show ?thesis
      by (auto simp: enc_len_cases read_length_def Let_def unat_of_nat_byte)
  next
    case 2
    with sl le have b: "raw ! pos = 129" "raw ! Suc pos = of_nat len"
      by (simp_all add: enc_len_cases slice_Cons)
    with 2 have "unat (raw ! Suc pos) = len" by (simp add: unat_of_nat_byte)
    moreover from this 2 have "raw ! Suc pos \<noteq> 0" by auto
    ultimately show ?thesis
      using 2 le b(1) by (simp add: enc_len_cases read_length_def Let_def read_bytes_123 del: read_bytes.simps)
  next
    case 3
    with sl le have b: "raw ! pos = 130" "raw ! Suc pos = of_nat (len div 256)"
        "raw ! Suc (Suc pos) = of_nat len"
      by (simp_all add: enc_len_cases slice_Cons)
    with 3 have u: "unat (raw ! Suc pos) = len div 256" "unat (raw ! Suc (Suc pos)) = len mod 256"
      by (simp_all add: unat_of_nat_byte)
    from u(1) 3 have "raw ! Suc pos \<noteq> 0" by auto
    with 3 le b(1) u show ?thesis
      by (simp add: enc_len_cases read_length_def Let_def read_bytes_123 del: read_bytes.simps)
  next
    case 4
    with sl le have b: "raw ! pos = 131" "raw ! Suc pos = of_nat (len div 65536)"
        "raw ! Suc (Suc pos) = of_nat (len div 256)" "raw ! Suc (Suc (Suc pos)) = of_nat len"
      by (simp_all add: enc_len_cases slice_Cons)
    with 4 len have u: "unat (raw ! Suc pos) = len div 65536"
        "unat (raw ! Suc (Suc pos)) = len div 256 mod 256"
        "unat (raw ! Suc (Suc (Suc pos))) = len mod 256"
      by (simp_all add: unat_of_nat_byte)
    have d: "len div 65536 = len div 256 div 256" by (simp add: div_mult2_eq)
    from u(1) 4 have "raw ! Suc pos \<noteq> 0" by auto
    with 4 le b(1) u d show ?thesis
      by (simp add: enc_len_cases read_length_def Let_def read_bytes_123 del: read_bytes.simps)
  qed
qed

section \<open>What an accepting run has read\<close>

text \<open>
  \<open>layers raw ends pos d F\<close>: \<open>F\<close> lists, from depth \<open>d\<close> outwards, the values between the
  position and the end of each open object.
\<close>

fun layers :: "byte list \<Rightarrow> nat list \<Rightarrow> nat \<Rightarrow> nat \<Rightarrow> tlv list list \<Rightarrow> bool" where
  "layers raw ends pos 0 F \<longleftrightarrow>
     (\<exists>f. F = [f] \<and> slice raw pos (ends ! 0) = encodes f \<and>
          (\<forall>t \<in> set f. wf_tlv t \<and> tlv_depth t \<le> scepASN1Depth))"
| "layers raw ends pos (Suc d) F \<longleftrightarrow>
     (\<exists>f F'. F = f # F' \<and> slice raw pos (ends ! Suc d) = encodes f \<and>
          (\<forall>t \<in> set f. wf_tlv t \<and> tlv_depth t + Suc d \<le> scepASN1Depth) \<and>
          layers raw ends (ends ! Suc d) d F')"

definition stack_ok :: "byte list \<Rightarrow> nat list \<Rightarrow> nat \<Rightarrow> nat \<Rightarrow> bool" where
  "stack_ok raw ends pos d \<longleftrightarrow>
     length ends = scepASN1Depth + 1 \<and> d \<le> scepASN1Depth \<and> ends ! 0 = length raw \<and>
     (\<forall>i < d. ends ! Suc i \<le> ends ! i) \<and> pos \<le> ends ! d"

lemma stack_ok_le: "stack_ok raw ends pos d \<Longrightarrow> i \<le> d \<Longrightarrow> ends ! i \<le> length raw"
proof (induction i)
  case 0
  then show ?case by (simp add: stack_ok_def)
next
  case (Suc i)
  then show ?case
    by (metis Suc_le_lessD le_trans less_imp_le stack_ok_def)
qed

lemma stack_ok_pop: "stack_ok raw ends (ends ! Suc d) (Suc d) \<Longrightarrow> stack_ok raw ends (ends ! Suc d) d"
  by (simp add: stack_ok_def)

lemma stack_ok_move: "stack_ok raw ends pos d \<Longrightarrow> p \<le> ends ! d \<Longrightarrow> stack_ok raw ends p d"
  by (simp add: stack_ok_def)

lemma stack_ok_push:
  "stack_ok raw ends pos d \<Longrightarrow> d < scepASN1Depth \<Longrightarrow> p \<le> e \<Longrightarrow> e \<le> ends ! d \<Longrightarrow>
   stack_ok raw (ends[Suc d := e]) p (Suc d)"
  by (auto simp: stack_ok_def nth_list_update elim!: less_SucE)

lemma layers_cong: "(\<And>i. i \<le> d \<Longrightarrow> ends ! i = ends' ! i) \<Longrightarrow> layers raw ends pos d F = layers raw ends' pos d F"
proof (induction d arbitrary: pos F)
  case 0
  then show ?case by simp
next
  case (Suc d)
  then have "\<And>pos F. layers raw ends pos d F = layers raw ends' pos d F" by simp
  with Suc.prems show ?case by simp
qed

lemma layers_Cons:
  assumes "layers raw ends p d F" and "slice raw pos p = encode t"
    and "pos \<le> p" "p \<le> ends ! d" and "wf_tlv t" and "tlv_depth t + d \<le> scepASN1Depth"
  shows "\<exists>f F'. F = f # F' \<and> layers raw ends pos d ((t # f) # F')"
proof -
  have "slice raw pos (ends ! d) = encode t @ slice raw p (ends ! d)"
    using slice_append [OF assms(3,4), of raw] assms(2) by simp
  with assms(1,5,6) show ?thesis by (cases d) auto
qed

text \<open>One round that reads a header, as the conditions the code has checked.\<close>

lemma scan_header:
  assumes ok: "stack_ok raw ends pos d" and "pos \<noteq> ends ! d" "\<not> int (ends ! d) - int pos < 2"
    and r: "read_length raw (pos + 1) (ends ! d) = Value (len, p)" and "\<not> int len > int (ends ! d) - int p"
  shows "pos < length raw" and "pos < p" and "p + len \<le> ends ! d" and "len < 2 ^ 24"
    and "slice raw pos (p + len) = (raw ! pos) # enc_len len @ slice raw p (p + len)"
    and "length (slice raw p (p + len)) = len"
proof -
  have le: "ends ! d \<le> length raw" using ok by (simp add: stack_ok_le)
  from read_length_sound [OF r _ le] assms(3)
  have s: "pos + 1 < p" "p \<le> ends ! d" "len < 2 ^ 24" "slice raw (pos + 1) p = enc_len len" by auto
  show "pos < length raw" "pos < p" "p + len \<le> ends ! d" "len < 2 ^ 24"
    using s assms(3,5) le by auto
  then show "slice raw pos (p + len) = (raw ! pos) # enc_len len @ slice raw p (p + len)"
    using s by (simp add: slice_Cons slice_append [of "Suc pos" p "p + len"])
  show "length (slice raw p (p + len)) = len"
    using \<open>p + len \<le> ends ! d\<close> le by (simp add: length_slice)
qed

definition totals_ok :: "nat \<Rightarrow> nat \<Rightarrow> nat \<Rightarrow> tlv list list \<Rightarrow> bool" where
  "totals_ok nodes work roots F \<longleftrightarrow>
     nodes + sum_list (map tlv_nodes (concat F)) \<le> scepASN1Nodes \<and>
     work + sum_list (map tlv_work (concat F)) \<le> scepASN1Work \<and>
     roots + length (last F) \<le> 1"

lemma layers_length: "layers raw ends pos d F \<Longrightarrow> length F = Suc d"
  by (induction d arbitrary: pos F) auto

lemma totals_ok_Cons:
  assumes "layers raw ends pos d ((t # f) # F)"
    and "nodes + tlv_nodes t + sum_list (map tlv_nodes (f @ concat F)) \<le> scepASN1Nodes"
    and "work + tlv_work t + sum_list (map tlv_work (f @ concat F)) \<le> scepASN1Work"
    and "(if d = 0 then roots + 1 else roots) + length (last (f # F)) \<le> 1"
  shows "totals_ok nodes work roots ((t # f) # F)"
proof -
  have "length F = d" using layers_length [OF assms(1)] by simp
  with assms(4) have "roots + length (last ((t # f) # F)) \<le> 1"
    by (cases F) auto
  then show ?thesis using assms(2,3) by (simp add: totals_ok_def)
qed

lemma slice_encode_length:
  "slice raw pos q = encode t \<Longrightarrow> pos \<le> q \<Longrightarrow> q \<le> length raw \<Longrightarrow> length (encode t) = q - pos"
  using length_slice [of q raw pos] by simp

lemma scan_sound:
  "scan raw ends pos d nodes work roots = Accepted \<Longrightarrow> stack_ok raw ends pos d \<Longrightarrow>
   nodes \<le> scepASN1Nodes \<Longrightarrow> work \<le> scepASN1Work \<Longrightarrow> roots \<le> 1 \<Longrightarrow>
   \<exists>F. layers raw ends pos d F \<and> totals_ok nodes work roots F"
proof (induction raw ends pos d nodes work roots rule: scan.induct)
  case (1 raw ends pos d nodes work roots)
  note acc = "1.prems"(1) and ok = "1.prems"(2) and lims = "1.prems"(3-5)
  have dl: "\<not> length ends \<le> d" using ok by (simp add: stack_ok_def)
  show ?case
  proof (cases "pos = ends ! d")
    case True
    show ?thesis
    proof (cases d)
      case 0
      with True lims have "layers raw ends pos d [[]] \<and> totals_ok nodes work roots [[]]"
        by (simp add: totals_ok_def)
      then show ?thesis by blast
    next
      case (Suc k)
      have "\<exists>F. layers raw ends pos (d - 1) F \<and> totals_ok nodes work roots F"
      proof (rule "1.IH"(1))
        show "scan raw ends pos (d - 1) nodes work roots = Accepted"
          using acc dl True Suc by (subst (asm) scan.simps) simp
      qed (use dl True Suc ok lims in \<open>auto dest: stack_ok_pop\<close>)
      then obtain F where F: "layers raw ends pos k F" "totals_ok nodes work roots F"
        using Suc by auto
      then have "layers raw ends pos d ([] # F) \<and> totals_ok nodes work roots ([] # F)"
        using True Suc by (auto simp: totals_ok_def dest: layers_length)
      then show ?thesis by blast
    qed
  next
    case False
    let ?r = "if d = 0 then roots + 1 else roots"
    from acc dl False obtain len p where
      g: "\<not> (d = 0 \<and> ?r \<noteq> 1)" "\<not> (d \<ge> scepASN1Depth \<or> int (ends ! d) - int pos < 2)" "\<not> pos \<ge> length raw"
        "\<not> (raw ! pos = 0 \<or> raw ! pos AND 31 = 31)"
      and rl: "read_length raw (pos + 1) (ends ! d) = Value (len, p)"
      and fit: "\<not> int len > int (ends ! d) - int p"
      and lim: "\<not> (nodes + 1 > scepASN1Nodes \<or> work + (p + len - pos) > scepASN1Work)"
      by (simp add: scan.simps [of raw ends pos d] Let_def split: if_splits access.splits prod.splits)
    from scan_header [OF ok False _ rl fit] g
    have h: "pos < p" "p + len \<le> ends ! d" "len < 2 ^ 24" "length (slice raw p (p + len)) = len"
        "slice raw pos (p + len) = (raw ! pos) # enc_len len @ slice raw p (p + len)" by auto
    have eln: "ends ! d \<le> length raw" using ok by (simp add: stack_ok_le)
    have tag: "low_tag (raw ! pos)" using g(4) by (simp add: low_tag_def)
    have d: "d < scepASN1Depth" and r: "?r \<le> 1" using g lims by (auto split: if_splits)
    show ?thesis
    proof (cases "raw ! pos AND 32 \<noteq> 0 \<and> len > 0")
      case True
      let ?e = "ends[d + 1 := p + len]"
      have nx: "\<not> d + 1 \<ge> length ends" using ok d by (simp add: stack_ok_def)
      have ok': "stack_ok raw ?e p (d + 1)"
        using stack_ok_push [OF ok d _ h(2)] by simp
      have "scan raw ?e p (d + 1) (nodes + 1) (work + (p + len - pos)) ?r = Accepted"
        using acc dl False g rl fit lim True nx
        by (subst (asm) scan.simps) (simp add: Let_def split: if_splits)
      from "1.IH"(2) [OF dl False refl g(1) g(2) g(3) refl g(4) rl refl fit lim True nx this ok' _ _ r] lim
      obtain F where F: "layers raw ?e p (Suc d) F" "totals_ok (nodes + 1) (work + (p + len - pos)) ?r F"
        by auto
      then obtain f F' where f: "F = f # F'" "slice raw p (p + len) = encodes f"
          "\<forall>t \<in> set f. wf_tlv t \<and> tlv_depth t + Suc d \<le> scepASN1Depth" "layers raw ?e (p + len) d F'"
        using nx by auto
      let ?t = "Node (raw ! pos) f"
      have "f \<noteq> []" using f(2) h(4) True by auto
      moreover have "foldr max (map tlv_depth f) 0 \<le> scepASN1Depth - Suc d"
        using f(3) by (auto simp: foldr_max_le)
      ultimately have t: "wf_tlv ?t" "tlv_depth ?t + d \<le> scepASN1Depth" "slice raw pos (p + len) = encode ?t"
        using tag True f(2,3) h(3,4,5) d by auto
      have "layers raw ends (p + len) d F'"
        using f(4) by (subst layers_cong [where ends' = ?e]) auto
      from layers_Cons [OF this t(3) _ h(2) t(1,2)] h(1) obtain f2 F2
        where L: "F' = f2 # F2" "layers raw ends pos d ((?t # f2) # F2)" by auto
      moreover have "totals_ok nodes work roots ((?t # f2) # F2)"
      proof (rule totals_ok_Cons [OF L(2)])
        have "tlv_work ?t = (p + len - pos) + sum_list (map tlv_work f)"
          using slice_encode_length [OF t(3)] h(1,2) eln by simp
        then show "work + tlv_work ?t + sum_list (map tlv_work (f2 @ concat F2)) \<le> scepASN1Work"
          using F(2) f(1) L(1) by (auto simp: totals_ok_def)
      qed (use F(2) f(1) L(1) in \<open>simp_all add: totals_ok_def\<close>)
      ultimately show ?thesis by blast
    next
      case prim: False
      have "scan raw ends (p + len) d (nodes + 1) (work + (p + len - pos)) ?r = Accepted"
        using acc dl False g rl fit lim prim
        by (subst (asm) scan.simps) (simp add: Let_def split: if_splits)
      from "1.IH"(3) [OF dl False refl g(1) g(2) g(3) refl g(4) rl refl fit lim prim this
          stack_ok_move [OF ok h(2)] _ _ r] lim
      obtain F where F: "layers raw ends (p + len) d F"
          "totals_ok (nodes + 1) (work + (p + len - pos)) ?r F"
        by auto
      let ?t = "Prim (raw ! pos) (slice raw p (p + len))"
      have t: "wf_tlv ?t" "tlv_depth ?t + d \<le> scepASN1Depth" "slice raw pos (p + len) = encode ?t"
        using tag prim h(3,4,5) d by auto
      from layers_Cons [OF F(1) t(3) _ h(2) t(1,2)] h(1) obtain f F'
        where L: "F = f # F'" "layers raw ends pos d ((?t # f) # F')" by auto
      moreover have "totals_ok nodes work roots ((?t # f) # F')"
      proof (rule totals_ok_Cons [OF L(2)])
        have "tlv_work ?t = p + len - pos"
          using slice_encode_length [OF t(3)] h(1,2) eln by simp
        then show "work + tlv_work ?t + sum_list (map tlv_work (f @ concat F')) \<le> scepASN1Work"
          using F(2) L(1) by (simp add: totals_ok_def)
      qed (use F(2) L(1) in \<open>simp_all add: totals_ok_def\<close>)
      ultimately show ?thesis by blast
    qed
  qed
qed

section \<open>Every bounded value is accepted\<close>

lemma encode_header:
  "encode (Node tag ts) = tag # enc_len (length (encodes ts)) @ encodes ts"
  by simp

text \<open>
  The scan from the first byte of an encoded value, inside an open object, reaches the byte
  behind it with the same open objects and the value's totals added.
\<close>

definition consumes :: "byte list \<Rightarrow> nat list \<Rightarrow> nat \<Rightarrow> nat \<Rightarrow> nat \<Rightarrow> nat \<Rightarrow> nat \<Rightarrow>
    nat \<Rightarrow> nat \<Rightarrow> nat \<Rightarrow> nat \<Rightarrow> bool" where
  "consumes raw ends pos d n w r q n' w' r' \<longleftrightarrow>
     (\<exists>ends'. length ends' = length ends \<and> (\<forall>i \<le> d. ends' ! i = ends ! i) \<and>
              scan raw ends pos d n w r = scan raw ends' q d n' w' r')"

lemma slice_split:
  assumes "slice raw pos (pos + length (xs @ ys)) = xs @ ys" and "pos + length (xs @ ys) \<le> length raw"
  shows "slice raw pos (pos + length xs) = xs"
    and "slice raw (pos + length xs) (pos + length xs + length ys) = ys"
proof -
  from assms slice_append [of pos "pos + length xs" "pos + length (xs @ ys)" raw]
  have "slice raw pos (pos + length xs) @ slice raw (pos + length xs) (pos + length xs + length ys) = xs @ ys"
    by (simp add: add.assoc)
  moreover have "length (slice raw pos (pos + length xs)) = length xs"
    using assms(2) by (simp add: length_slice)
  ultimately show "slice raw pos (pos + length xs) = xs"
    "slice raw (pos + length xs) (pos + length xs + length ys) = ys" by auto
qed

lemma scan_one:
  assumes "d < length ends" "pos \<noteq> ends ! d" "d = 0 \<Longrightarrow> r = 0" "d < scepASN1Depth"
    and enc: "slice raw pos (pos + length (tag # enc_len len @ body)) = tag # enc_len len @ body"
    and fit: "pos + length (tag # enc_len len @ body) \<le> ends ! d" "ends ! d \<le> length raw"
    and "length body = len" "len < 2 ^ 24" "low_tag tag"
    and "n + 1 \<le> scepASN1Nodes" "w + length (tag # enc_len len @ body) \<le> scepASN1Work"
  shows "scan raw ends pos d n w r =
    (let p = pos + 1 + length (enc_len len); w' = w + length (tag # enc_len len @ body);
         r' = (if d = 0 then Suc r else r) in
     if tag AND 32 \<noteq> 0 \<and> len > 0
     then if d + 1 \<ge> length ends then Panic
          else scan raw (ends[d + 1 := p + len]) p (d + 1) (n + 1) w' r'
     else scan raw ends (p + len) d (n + 1) w' r')"
proof -
  have t: "raw ! pos = tag"
    using enc fit by (simp add: slice_Cons)
  have le: "pos + length (tag # enc_len len @ body) \<le> length raw" using fit by simp
  have "slice raw (pos + 1) (pos + 1 + length (enc_len len)) = enc_len len"
    using slice_split(1) [of raw "pos + 1" "enc_len len" body]
      slice_split(2) [of raw pos "[tag]" "enc_len len @ body"] enc le by simp
  then have "read_length raw (pos + 1) (ends ! d) = Value (len, pos + 1 + length (enc_len len))"
    using fit assms(9) by (intro read_length_complete) auto
  moreover define p where "p = pos + 1 + length (enc_len len)"
  ultimately have rl: "read_length raw (pos + 1) (ends ! d) = Value (len, p)" by simp
  have L: "length (tag # enc_len len @ body) = p + len - pos" "p + len \<le> ends ! d" "pos + 2 \<le> p"
    using fit assms(8) by (auto simp: p_def Suc_le_eq)
  have c: "\<not> length ends \<le> d" "\<not> (d = 0 \<and> (if d = 0 then r + 1 else r) \<noteq> 1)"
      "\<not> (scepASN1Depth \<le> d \<or> int (ends ! d) - int pos < 2)" "\<not> length raw \<le> pos"
      "\<not> (raw ! pos = 0 \<or> raw ! pos AND 31 = 31)" "\<not> int (ends ! d) - int p < int len"
      "\<not> (scepASN1Nodes < n + 1 \<or> scepASN1Work < w + (p + len - pos))"
    using assms(1,3,4,10-12) L t fit(2) by (auto simp: low_tag_def)
  have c': "\<not> (tag = 0 \<or> tag AND 31 = 31)" using assms(10) by (simp add: low_tag_def)
  show ?thesis
    by (subst scan.simps) (simp only: c c' rl access.case prod.case if_False Let_def assms(2) L(1) t p_def [symmetric] Suc_eq_plus1)
qed

text \<open>The hypothesis of the induction over a value, for every state the scan can be in.\<close>

definition scans :: "byte list \<Rightarrow> tlv \<Rightarrow> bool" where
  "scans raw t \<longleftrightarrow> (\<forall>ends pos d n w r.
     tlv_depth t + d \<le> scepASN1Depth \<longrightarrow> length ends = scepASN1Depth + 1 \<longrightarrow>
     slice raw pos (pos + length (encode t)) = encode t \<longrightarrow>
     pos + length (encode t) \<le> ends ! d \<longrightarrow> ends ! d \<le> length raw \<longrightarrow>
     n + tlv_nodes t \<le> scepASN1Nodes \<longrightarrow> w + tlv_work t \<le> scepASN1Work \<longrightarrow> (d = 0 \<longrightarrow> r = 0) \<longrightarrow>
     consumes raw ends pos d n w r (pos + length (encode t)) (n + tlv_nodes t) (w + tlv_work t)
       (if d = 0 then Suc r else r))"

lemma consumes_refl: "consumes raw ends pos d n w r pos n w r"
  by (auto simp: consumes_def)

lemma scan_forest:
  assumes "\<forall>t \<in> set ts. scans raw t \<and> tlv_depth t + Suc d \<le> scepASN1Depth"
    and "length ends = scepASN1Depth + 1"
    and "slice raw pos (pos + length (encodes ts)) = encodes ts"
    and "pos + length (encodes ts) \<le> ends ! Suc d" and "ends ! Suc d \<le> length raw"
    and "n + sum_list (map tlv_nodes ts) \<le> scepASN1Nodes" and "w + sum_list (map tlv_work ts) \<le> scepASN1Work"
  shows "consumes raw ends pos (Suc d) n w r (pos + length (encodes ts))
    (n + sum_list (map tlv_nodes ts)) (w + sum_list (map tlv_work ts)) r"
  using assms
proof (induction ts arbitrary: ends pos n w)
  case Nil
  then show ?case by (simp add: consumes_refl)
next
  case (Cons t ts)
  note sl = slice_split [of raw pos "encode t" "encodes ts"]
  have le: "pos + length (encode t @ encodes ts) \<le> length raw" using Cons.prems by simp
  have s: "slice raw pos (pos + length (encode t)) = encode t"
    "slice raw (pos + length (encode t)) (pos + length (encode t) + length (encodes ts)) = encodes ts"
    using sl le Cons.prems(3) by simp_all
  have "scans raw t" using Cons.prems(1) by simp
  from this [unfolded scans_def, rule_format, of "Suc d" ends pos n w r] Cons.prems s
  obtain ends' where e: "length ends' = length ends" "\<forall>i \<le> Suc d. ends' ! i = ends ! i"
    "scan raw ends pos (Suc d) n w r =
       scan raw ends' (pos + length (encode t)) (Suc d) (n + tlv_nodes t) (w + tlv_work t) r"
    by (auto simp: consumes_def)
  have "consumes raw ends' (pos + length (encode t)) (Suc d) (n + tlv_nodes t) (w + tlv_work t) r
      (pos + length (encode t) + length (encodes ts))
      (n + tlv_nodes t + sum_list (map tlv_nodes ts)) (w + tlv_work t + sum_list (map tlv_work ts)) r"
    using Cons.prems e(1,2) s(2) by (intro Cons.IH) auto
  with e show ?case by (auto simp: consumes_def add.assoc)
qed

lemma scan_tree: "wf_tlv t \<Longrightarrow> scans raw t"
proof (induction t)
  case (Prim tag bs)
  show ?case
    unfolding scans_def
  proof (intro allI impI)
    fix ends pos d n w r
    assume a: "tlv_depth (Prim tag bs) + d \<le> scepASN1Depth" "length ends = scepASN1Depth + 1"
      "slice raw pos (pos + length (encode (Prim tag bs))) = encode (Prim tag bs)"
      "pos + length (encode (Prim tag bs)) \<le> ends ! d" "ends ! d \<le> length raw"
      "n + tlv_nodes (Prim tag bs) \<le> scepASN1Nodes" "w + tlv_work (Prim tag bs) \<le> scepASN1Work"
      "d = 0 \<longrightarrow> r = (0::nat)"
    have "scan raw ends pos d n w r = scan raw ends (pos + length (encode (Prim tag bs))) d (n + 1)
        (w + length (encode (Prim tag bs))) (if d = 0 then Suc r else r)"
      by (subst scan_one [where tag = tag and len = "length bs" and body = bs])
        (use Prim a in \<open>auto simp: Let_def add.assoc\<close>)
    then show "consumes raw ends pos d n w r (pos + length (encode (Prim tag bs)))
        (n + tlv_nodes (Prim tag bs)) (w + tlv_work (Prim tag bs)) (if d = 0 then Suc r else r)"
      by (auto simp: consumes_def)
  qed
next
  case (Node tag ts)
  let ?t = "Node tag ts" and ?l = "length (encodes ts)"
  show ?case
    unfolding scans_def
  proof (intro allI impI)
    fix ends pos d n w r
    assume a: "tlv_depth ?t + d \<le> scepASN1Depth" "length ends = scepASN1Depth + 1"
      "slice raw pos (pos + length (encode ?t)) = encode ?t"
      "pos + length (encode ?t) \<le> ends ! d" "ends ! d \<le> length raw"
      "n + tlv_nodes ?t \<le> scepASN1Nodes" "w + tlv_work ?t \<le> scepASN1Work"
      "d = 0 \<longrightarrow> r = (0::nat)"
    let ?p = "pos + 1 + length (enc_len ?l)" and ?r = "if d = 0 then Suc r else r"
      and ?w = "w + length (encode ?t)"
    let ?e = "ends[d + 1 := ?p + ?l]"
    have q: "pos + length (encode ?t) = ?p + ?l" by simp
    have dl: "\<forall>t \<in> set ts. tlv_depth t + Suc d \<le> scepASN1Depth"
      using a(1) foldr_max_le [of "map tlv_depth ts" "scepASN1Depth - Suc d"] by fastforce
    have ne: "0 < ?l" using Node.prems by (cases ts) auto
    have "scan raw ends pos d n w r = scan raw ?e ?p (d + 1) (n + 1) ?w ?r"
      by (subst scan_one [where tag = tag and len = ?l and body = "encodes ts"])
        (use Node.prems a ne in \<open>auto simp: Let_def\<close>)
    moreover have "consumes raw ?e ?p (Suc d) (n + 1) ?w ?r (?p + ?l)
        (n + 1 + sum_list (map tlv_nodes ts)) (?w + sum_list (map tlv_work ts)) ?r"
    proof (rule scan_forest)
      show "\<forall>t \<in> set ts. scans raw t \<and> tlv_depth t + Suc d \<le> scepASN1Depth"
        using Node dl by auto
      have "pos + length ((tag # enc_len ?l) @ encodes ts) \<le> length raw" using a(4,5) by simp
      from slice_split(2) [OF _ this] a(3) show "slice raw ?p (?p + ?l) = encodes ts" by simp
      show "?p + ?l \<le> ?e ! Suc d" "?e ! Suc d \<le> length raw" using a by auto
    qed (use a in auto)
    then obtain ends' where e: "length ends' = length ends" "\<forall>i \<le> Suc d. ends' ! i = ?e ! i"
      "scan raw ?e ?p (Suc d) (n + 1) ?w ?r =
       scan raw ends' (?p + ?l) (Suc d) (n + 1 + sum_list (map tlv_nodes ts)) (?w + sum_list (map tlv_work ts)) ?r"
      by (auto simp: consumes_def)
    moreover have "scan raw ends' (?p + ?l) (Suc d) (n + 1 + sum_list (map tlv_nodes ts)) (?w + sum_list (map tlv_work ts)) ?r
       = scan raw ends' (?p + ?l) d (n + 1 + sum_list (map tlv_nodes ts)) (?w + sum_list (map tlv_work ts)) ?r"
      using a(1,2) e(1,2) by (subst scan.simps) auto
    ultimately show "consumes raw ends pos d n w r (pos + length (encode ?t))
        (n + tlv_nodes ?t) (w + tlv_work ?t) ?r"
      using e(1,2) by (auto simp: consumes_def add.assoc intro!: exI [of _ ends'])
  qed
qed

section \<open>No read out of range\<close>

lemma read_length_in_range:
  assumes "pos < lim" and "lim \<le> length raw"
  shows "read_length raw pos lim \<noteq> OutOfRange"
proof -
  let ?n = "unat (raw ! pos AND 127)"
  have "read_bytes raw (pos + 1) m acc \<noteq> None" if "pos + 1 + m \<le> length raw" for m acc
    using that
  proof (induction m arbitrary: acc pos)
    case (Suc m)
    then show ?case using Suc.IH [of "Suc pos"] by simp
  qed simp
  note rb = this
  have fits: "pos + 1 + ?n \<le> length raw" if "\<not> int ?n > int lim - int (pos + 1)"
    using that assms unfolding not_less by linarith
  show ?thesis
  proof
    assume oor: "read_length raw pos lim = OutOfRange"
    let ?g = "?n = 0 \<or> ?n > 3 \<or> int ?n > int lim - int (pos + 1)"
    have "\<not> ?g" using oor assms by (auto simp only: read_length_def Let_def split: if_splits)
    then have nz: "?n \<noteq> 0" by (simp only: de_Morgan_disj not_False_eq_True)
    from \<open>\<not> ?g\<close> have "\<not> int ?n > int lim - int (pos + 1)" by (simp only: de_Morgan_disj not_False_eq_True)
    from fits [OF this] have "pos + 1 + ?n \<le> length raw" .
    with nz rb [of ?n 0] oor assms show False
      by (auto simp: read_length_def Let_def split: option.splits if_splits)
  qed
qed

lemma scan_no_panic: "stack_ok raw ends pos d \<Longrightarrow> scan raw ends pos d nodes work roots \<noteq> Panic"
proof (induction raw ends pos d nodes work roots rule: scan.induct)
  case (1 raw ends pos d nodes work roots)
  note ok = "1.prems"
  have dl: "\<not> length ends \<le> d" and eln: "ends ! d \<le> length raw"
    using ok by (auto simp: stack_ok_def stack_ok_le)
  show ?case
  proof (cases "pos = ends ! d")
    case True
    show ?thesis
    proof (cases d)
      case (Suc k)
      then have "scan raw ends pos (d - 1) nodes work roots \<noteq> Panic"
        using True ok dl by (intro "1.IH"(1)) (auto dest: stack_ok_pop)
      then show ?thesis using dl True Suc by (subst scan.simps) simp
    qed (use True dl in \<open>subst scan.simps, simp\<close>)
  next
    case False
    let ?r = "if d = 0 then roots + 1 else roots"
    show ?thesis
    proof
      assume p: "scan raw ends pos d nodes work roots = Panic"
      from p dl False have g: "\<not> (d = 0 \<and> ?r \<noteq> 1)"
          "\<not> (d \<ge> scepASN1Depth \<or> int (ends ! d) - int pos < 2)"
        by (auto simp: scan.simps [of raw ends pos d] Let_def split: if_splits)
      then have g3: "\<not> pos \<ge> length raw" using eln by auto
      have nr: "read_length raw (pos + 1) (ends ! d) \<noteq> OutOfRange"
        using g eln by (intro read_length_in_range) auto
      from p dl False g g3 nr obtain len q where g4: "\<not> (raw ! pos = 0 \<or> raw ! pos AND 31 = 31)"
        and rl: "read_length raw (pos + 1) (ends ! d) = Value (len, q)"
        and fit: "\<not> int len > int (ends ! d) - int q"
        and lim: "\<not> (nodes + 1 > scepASN1Nodes \<or> work + (q + len - pos) > scepASN1Work)"
        by (auto simp: scan.simps [of raw ends pos d] Let_def split: if_splits access.splits prod.splits)
      from scan_header [OF ok False _ rl fit] g have h: "pos < q" "q + len \<le> ends ! d" by auto
      have d: "d < scepASN1Depth" using g by auto
      have nx: "\<not> d + 1 \<ge> length ends" using ok d by (simp add: stack_ok_def)
      show False
      proof (cases "raw ! pos AND 32 \<noteq> 0 \<and> len > 0")
        case True
        have "stack_ok raw (ends[d + 1 := q + len]) q (d + 1)"
          using stack_ok_push [OF ok d _ h(2)] by simp
        from "1.IH"(2) [OF dl False refl g g3 refl g4 rl refl fit lim True nx this] True p dl False g g3 g4 rl fit lim nx
        show False by (subst (asm) scan.simps) (simp add: Let_def split: if_splits)
      next
        case prim: False
        from "1.IH"(3) [OF dl False refl g g3 refl g4 rl refl fit lim prim stack_ok_move [OF ok h(2)]]
          prim p dl False g g3 g4 rl fit lim
        show False by (subst (asm) scan.simps) (simp add: Let_def split: if_splits)
      qed
    qed
  qed
qed

section \<open>The preflight\<close>

lemma initial_stack_ok: "stack_ok raw ((replicate (scepASN1Depth + 1) 0)[0 := length raw]) 0 0"
  by (simp add: stack_ok_def)

text \<open>
  C2. The preflight accepts a message exactly when it is, in full, one definite and minimally
  encoded low-tag TLV value within the depth, object-count, work and size limits: no such value
  is refused and nothing else is accepted.
\<close>

theorem boundedSCEPASN1_iff:
  "boundedSCEPASN1 raw = Accepted \<longleftrightarrow>
     length raw \<le> scepMaxMessage \<and> (\<exists>t. wf_tlv t \<and> within_limits t \<and> raw = encode t)"
proof
  assume acc: "boundedSCEPASN1 raw = Accepted"
  then have ne: "raw \<noteq> []" and le: "length raw \<le> scepMaxMessage"
    and s: "scan raw ((replicate (scepASN1Depth + 1) 0)[0 := length raw]) 0 0 0 0 0 = Accepted"
    by (auto simp: boundedSCEPASN1_def split: if_splits)
  from scan_sound [OF s initial_stack_ok] obtain f where f: "raw = encodes f"
      "\<forall>t \<in> set f. wf_tlv t \<and> tlv_depth t \<le> scepASN1Depth" "totals_ok 0 0 0 [f]"
    by auto
  with ne obtain t where "f = [t]"
    by (cases f) (auto simp: totals_ok_def)
  with f le show "length raw \<le> scepMaxMessage \<and> (\<exists>t. wf_tlv t \<and> within_limits t \<and> raw = encode t)"
    by (auto simp: totals_ok_def within_limits_def)
next
  assume "length raw \<le> scepMaxMessage \<and> (\<exists>t. wf_tlv t \<and> within_limits t \<and> raw = encode t)"
  then obtain t where t: "wf_tlv t" "within_limits t" "raw = encode t" and le: "length raw \<le> scepMaxMessage"
    by blast
  let ?e = "(replicate (scepASN1Depth + 1) 0)[0 := length raw]"
  have "consumes raw ?e 0 0 0 0 0 (length raw) (tlv_nodes t) (tlv_work t) 1"
    using scan_tree [OF t(1), of raw, unfolded scans_def, rule_format, of 0 ?e 0 0 0 0] t(2,3)
    by (simp add: within_limits_def)
  then obtain ends' where "length ends' = length ?e" "ends' ! 0 = length raw"
      "scan raw ?e 0 0 0 0 0 = scan raw ends' (length raw) 0 (tlv_nodes t) (tlv_work t) 1"
    by (auto simp: consumes_def)
  then have "scan raw ?e 0 0 0 0 0 = Accepted"
    by (simp add: scan.simps [of raw ends' "length raw" 0])
  with t(3) le show "boundedSCEPASN1 raw = Accepted"
    by (auto simp: boundedSCEPASN1_def)
qed

text \<open>
  The preflight never reads outside the message or its array of end offsets, whatever the
  message is: it returns a verdict without panicking.
\<close>

lemma boundedSCEPASN1_no_panic: "boundedSCEPASN1 raw \<noteq> Panic"
  using scan_no_panic [OF initial_stack_ok, of raw 0 0 0]
  by (simp add: boundedSCEPASN1_def)

end
