(* ===== verification/ScepMessage.thy ===== *)
theory ScepMessage
  imports ScepShared Asn1_Bound
begin

text \<open>
  The checks of a PKIOperation message before anything is authorized: \<open>parseSCEP\<close> and its helpers in
  \<open>scep_protocol.go\<close>. The CMS and SCEP libraries are arguments (a record of functions that return a value, fail or panic), and so are
  RSA and the block ciphers. A byte string that \<open>asn1.Unmarshal\<close> takes apart carries what it reads there.
\<close>

section \<open>What the libraries present\<close>

type_synonym oid = "nat list"
type_synonym bytes = "8 word list"

datatype 'a outcome = Panics | Fails error | Gives 'a

text \<open>\<open>asn1.RawValue\<close> and the views \<open>strictASN1\<close> gives of the envelope (\<open>None\<close>: it returns an error).\<close>

record rawvalue =
  rvTag :: nat
  rvCompound :: bool
  rvBytes :: bytes

record recipient =
  rcAlgorithm :: oid

record scepEnvelope =
  evRecipients :: "recipient option list"
  evType :: oid
  evAlgorithm :: oid
  evParameters :: rawvalue
  evCiphertext :: rawvalue

record p7content =
  ctBytes :: bytes
  ctInfo :: "(oid \<times> scepEnvelope option) option"

record p7signer =
  sgDigest :: oid
  sgSignature :: oid
  sgAttributes :: "(oid \<times> bool) list"

record p7message =
  p7Signers :: "p7signer list"
  p7Certificates :: "xcert list"
  p7Content :: p7content

record pkimessage =
  pkType :: string
  pkNonce :: bytes
  pkTransaction :: string

definition PKCSReq :: string where "PKCSReq = ''19''"

text \<open>
  The functions of \<open>github.com/smallstep/pkcs7\<close> and \<open>github.com/smallstep/scep\<close> the program calls, the
  primitives of \<open>crypto\<close>, the DER of a certificate, and the resolver.
\<close>

record libraries =
  p7_Parse :: "bytes \<Rightarrow> p7message outcome"
  ParsePKIMessage :: "bytes \<Rightarrow> pkimessage outcome"
  DecryptPKIEnvelope :: "pkimessage \<Rightarrow> xcert \<Rightarrow> (bytes \<Rightarrow> bytes option) \<Rightarrow> (string \<times> csr) outcome"
  pki_Fail :: "pkimessage \<Rightarrow> xcert \<Rightarrow> privkey \<Rightarrow> string result"
  pki_Success :: "pkimessage \<Rightarrow> xcert \<Rightarrow> privkey \<Rightarrow> xcert \<Rightarrow> oid \<Rightarrow> string result"
  DegenerateCertificates :: "xcert list \<Rightarrow> string result"
  rsa_Decrypt :: "privkey \<Rightarrow> bytes \<Rightarrow> bytes option"
  cbc_Decrypt :: "oid \<Rightarrow> bytes \<Rightarrow> bytes \<Rightarrow> bytes \<Rightarrow> bytes option"
  cert_Raw :: "xcert \<Rightarrow> string"
  sha256 :: "string \<Rightarrow> string"
  lookupHost :: resolver

section \<open>Algorithms\<close>

definition OIDData :: oid where "OIDData = [1, 2, 840, 113549, 1, 7, 1]"
definition OIDEnvelopedData :: oid where "OIDEnvelopedData = [1, 2, 840, 113549, 1, 7, 3]"
definition OIDDigestSHA256 :: oid where "OIDDigestSHA256 = [2, 16, 840, 1, 101, 3, 4, 2, 1]"
definition OIDDigestSHA384 :: oid where "OIDDigestSHA384 = [2, 16, 840, 1, 101, 3, 4, 2, 2]"
definition OIDDigestSHA512 :: oid where "OIDDigestSHA512 = [2, 16, 840, 1, 101, 3, 4, 2, 3]"
definition OIDEncryptionRSA :: oid where "OIDEncryptionRSA = [1, 2, 840, 113549, 1, 1, 1]"
definition OIDEncryptionRSASHA256 :: oid where "OIDEncryptionRSASHA256 = [1, 2, 840, 113549, 1, 1, 11]"
definition OIDEncryptionRSASHA384 :: oid where "OIDEncryptionRSASHA384 = [1, 2, 840, 113549, 1, 1, 12]"
definition OIDEncryptionRSASHA512 :: oid where "OIDEncryptionRSASHA512 = [1, 2, 840, 113549, 1, 1, 13]"
definition OIDEncryptionDESCBC :: oid where "OIDEncryptionDESCBC = [1, 3, 14, 3, 2, 7]"
definition OIDEncryptionDESEDE3CBC :: oid where "OIDEncryptionDESEDE3CBC = [1, 2, 840, 113549, 3, 7]"
definition OIDEncryptionAES128CBC :: oid where "OIDEncryptionAES128CBC = [2, 16, 840, 1, 101, 3, 4, 1, 2]"
definition OIDEncryptionAES256CBC :: oid where "OIDEncryptionAES256CBC = [2, 16, 840, 1, 101, 3, 4, 1, 42]"

lemmas oid_defs = OIDData_def OIDEnvelopedData_def OIDDigestSHA256_def OIDDigestSHA384_def OIDDigestSHA512_def
  OIDEncryptionRSA_def OIDEncryptionRSASHA256_def OIDEncryptionRSASHA384_def OIDEncryptionRSASHA512_def
  OIDEncryptionDESCBC_def OIDEncryptionDESEDE3CBC_def OIDEncryptionAES128CBC_def OIDEncryptionAES256CBC_def

definition scepDigestOK :: "oid \<Rightarrow> bool" where
  "scepDigestOK a \<longleftrightarrow> a = OIDDigestSHA256 \<or> a = OIDDigestSHA384 \<or> a = OIDDigestSHA512"

definition scepSignatureOK :: "oid \<Rightarrow> bool" where
  "scepSignatureOK a \<longleftrightarrow> list_ex (\<lambda>ok. a = ok) [OIDEncryptionRSA, OIDEncryptionRSASHA256, OIDEncryptionRSASHA384, OIDEncryptionRSASHA512]"

text \<open>Key and block size of an allowed cipher, or zeros.\<close>

definition scepCipherSizes :: "oid \<Rightarrow> nat \<times> nat" where
  "scepCipherSizes a =
     (if a = OIDEncryptionAES128CBC then (16, 16)
      else if a = OIDEncryptionAES256CBC then (32, 16)
      else if a = OIDEncryptionDESEDE3CBC then (24, 8)
      else if a = OIDEncryptionDESCBC then (8, 8)
      else (0, 0))"

section \<open>The envelope\<close>

definition errSCEPRequest :: error where "errSCEPRequest = ''invalid enrollment request''"

definition bad :: "string \<Rightarrow> error" where
  "bad reason = errSCEPRequest @ '': '' @ reason"

definition TagOctetString :: nat where "TagOctetString = 4"

definition inspectEnvelope :: "p7content \<Rightarrow> scepEnvelope result" where
  "inspectEnvelope ct =
     (if boundedSCEPASN1 (ctBytes ct) \<noteq> Accepted then Inl ''malformed ASN.1''
      else case ctInfo ct of
          None \<Rightarrow> Inl errSCEPRequest
        | Some (ctype, view) \<Rightarrow>
      if ctype \<noteq> OIDEnvelopedData then Inl errSCEPRequest
      else case view of
          None \<Rightarrow> Inl errSCEPRequest
        | Some env \<Rightarrow>
      if length (evRecipients env) \<noteq> 1 then Inl (bad ''envelope recipients, want 1'')
      else if evType env \<noteq> OIDData then Inl (bad ''envelope content type'')
      else if scepCipherSizes (evAlgorithm env) = (0, 0) then Inl (bad ''envelope cipher not allowed'')
      else if rvCompound (evCiphertext env) \<or> length (rvBytes (evCiphertext env)) = 0 \<or>
          length (rvBytes (evCiphertext env)) mod snd (scepCipherSizes (evAlgorithm env)) \<noteq> 0 \<or>
          rvTag (evParameters env) \<noteq> TagOctetString \<or>
          length (rvBytes (evParameters env)) \<noteq> snd (scepCipherSizes (evAlgorithm env))
      then Inl (bad ''envelope ciphertext or IV malformed'')
      else case hd (evRecipients env) of
          None \<Rightarrow> Inl (bad ''envelope recipient malformed'')
        | Some r \<Rightarrow>
            if rcAlgorithm r \<noteq> OIDEncryptionRSA then Inl (bad ''envelope key transport not allowed'')
            else Inr env)"

text \<open>The padding check of \<open>scepDecrypter.Decrypt\<close>; \<open>None\<close> where the code would index out of range.\<close>

definition padding_ok :: "nat \<Rightarrow> bytes \<Rightarrow> bool option" where
  "padding_ok block plain =
     (if plain = [] then None
      else let n = unat (last plain) in
        if n < 1 \<or> n > block \<or> n > length plain then Some False
        else Some (list_all (\<lambda>v. unat v = n) (drop (length plain - n) plain)))"

definition decrypter :: "libraries \<Rightarrow> privkey \<Rightarrow> scepEnvelope \<Rightarrow> bytes \<Rightarrow> bytes option" where
  "decrypter lib key env encrypted =
     (let sizes = scepCipherSizes (evAlgorithm env) in
      case rsa_Decrypt lib key encrypted of
        None \<Rightarrow> None
      | Some k \<Rightarrow>
          if length k \<noteq> fst sizes then None
          else case cbc_Decrypt lib (evAlgorithm env) k (rvBytes (evParameters env)) (rvBytes (evCiphertext env)) of
              None \<Rightarrow> None
            | Some plain \<Rightarrow> if padding_ok (snd sizes) plain = Some True then Some k else None)"

definition oid_challengePassword :: oid where
  "oid_challengePassword = [1, 2, 840, 113549, 1, 9, 7]"

definition uniqueChallenge :: "csr \<Rightarrow> unit result" where
  "uniqueChallenge c = (case csrAttributes c of
       None \<Rightarrow> Inl errSCEPRequest
     | Some as \<Rightarrow>
         let cs = filter (\<lambda>a. atOID a = oid_challengePassword) as in
         if \<not> list_all (\<lambda>a. length (atValues a) = 1) cs then Inl errSCEPRequest
         else if length cs \<noteq> 1 then Inl errSCEPRequest
         else Inr ())"

section \<open>The message\<close>

record scepmsg =
  smPKI :: pkimessage
  smPassword :: string
  smCSR :: csr
  smSigner :: xcert
  smSingleDES :: bool

text \<open>The loop over the signed attributes: none repeated, each value exactly one element.\<close>

fun attributes_ok :: "oid list \<Rightarrow> (oid \<times> bool) list \<Rightarrow> unit result" where
  "attributes_ok seen [] = Inr ()"
| "attributes_ok seen ((t, strict) # as) =
     (if t \<in> set seen then Inl (bad ''signed attribute repeated'')
      else if \<not> strict then Inl (bad ''signed attribute malformed'')
      else attributes_ok (t # seen) as)"

definition signer_ok :: "xcert \<Rightarrow> unit result" where
  "signer_ok c =
     (if \<not> is_rsa (PublicKey c) then Inl (bad ''only RSA keys are supported'')
      else if rsa_bits (PublicKey c) < 2048 then Inl (bad ''at least 2048 bits required'')
      else if IsCA c then Inl (bad ''signer certificate is a CA'')
      else if SignedBy c \<noteq> PublicKey c then Inl (bad ''signer certificate is not validly self-signed'')
      else Inr ())"

text \<open>A call of a library inside \<open>parseSCEP\<close>: a panic is recovered and every failure is a rejection.\<close>

definition call :: "string \<Rightarrow> 'a outcome \<Rightarrow> 'a result" where
  "call what r = (case r of Panics \<Rightarrow> Inl (bad ''parser panic'') | Fails e \<Rightarrow> Inl (bad (what @ '': '' @ e)) | Gives x \<Rightarrow> Inr x)"

definition parseSCEP :: "libraries \<Rightarrow> bytes \<Rightarrow> xcert \<Rightarrow> privkey \<Rightarrow> bool \<Rightarrow> scepmsg result" where
  "parseSCEP lib raw cert key allowDES =
     (if boundedSCEPASN1 raw \<noteq> Accepted then Inl (bad ''message too large or malformed ASN.1'')
      else bindR (call ''not CMS SignedData'' (p7_Parse lib raw)) (\<lambda>p.
      if length (p7Signers p) \<noteq> 1 \<or> length (p7Certificates p) \<noteq> 1 then Inl (bad ''need one signer and one certificate'')
      else
      let si = hd (p7Signers p); signer = hd (p7Certificates p) in
      if \<not> scepDigestOK (sgDigest si) \<or> \<not> scepSignatureOK (sgSignature si) then Inl (bad ''digest with signature not allowed'')
      else bindR (attributes_ok [] (sgAttributes si)) (\<lambda>_.
      bindR (signer_ok signer) (\<lambda>_.
      bindR (call ''SCEP message'' (ParsePKIMessage lib raw)) (\<lambda>msg.
      if pkType msg \<noteq> PKCSReq \<or> length (pkNonce msg) \<noteq> 16 \<or> length (pkTransaction msg) < 1 \<or> length (pkTransaction msg) > 256
      then Inl (bad ''need a PKCSReq with a 16-byte nonce and a transaction id'')
      else bindR (inspectEnvelope (p7Content p)) (\<lambda>env.
      let singleDES = (evAlgorithm env = OIDEncryptionDESCBC) in
      if singleDES \<and> \<not> allowDES then Inl (bad ''envelope cipher is single DES, which is switched off on the SCEP page'')
      else bindR (call ''decrypt envelope'' (DecryptPKIEnvelope lib msg cert (decrypter lib key env))) (\<lambda>(password, csr).
      if csrSignedBy csr \<noteq> csrPublicKey csr then Inl (bad ''CSR signature invalid'')
      else if uniqueChallenge csr \<noteq> Inr () then Inl (bad ''CSR must carry exactly one challenge password'')
      else if csrPublicKey csr \<noteq> PublicKey signer then Inl (bad ''CSR key differs from the signer certificate key'')
      else Inr \<lparr>smPKI = msg, smPassword = password, smCSR = csr, smSigner = signer, smSingleDES = singleDES\<rparr>)))))))"

section \<open>Padding\<close>

lemma padding_ok_iff:
  assumes "block < 256"
  shows "padding_ok block plain = Some True \<longleftrightarrow> (\<exists>p n. 1 \<le> n \<and> n \<le> block \<and> plain = p @ replicate n (of_nat n))"
proof
  assume ok: "padding_ok block plain = Some True"
  define n where "n = unat (last plain)"
  from ok have ne: "plain \<noteq> []" by (simp add: padding_ok_def split: if_splits)
  with ok have d: "\<not> (n < 1 \<or> n > block \<or> n > length plain)" "list_all (\<lambda>v. unat v = n) (drop (length plain - n) plain)"
    unfolding padding_ok_def Let_def n_def by (simp_all only: if_False if_True split: if_splits) simp_all
  then have n: "1 \<le> n" "n \<le> block" "n \<le> length plain" by linarith+
  from d(2) have all: "\<forall>v \<in> set (drop (length plain - n) plain). unat v = n" by (simp only: list_all_iff)
  have "v = of_nat n" if "v \<in> set (drop (length plain - n) plain)" for v
  proof -
    from all that have "unat v = n" by blast
    moreover have "of_nat (unat v) = v" by simp
    ultimately show ?thesis by simp
  qed
  then have "drop (length plain - n) plain = replicate n (of_nat n)"
    using n(3) by (intro replicate_eqI) simp_all
  then have "plain = take (length plain - n) plain @ replicate n (of_nat n)" by (metis append_take_drop_id)
  with n show "\<exists>p n. 1 \<le> n \<and> n \<le> block \<and> plain = p @ replicate n (of_nat n)" by blast
next
  assume "\<exists>p n. 1 \<le> n \<and> n \<le> block \<and> plain = p @ replicate n (of_nat n)"
  then obtain p n where n: "1 \<le> n" "n \<le> block" and p: "plain = p @ replicate n (of_nat n)" by blast
  have u: "unat (of_nat n :: 8 word) = n" using n assms by (simp add: unat_of_nat)
  from n have "last plain = of_nat n" "plain \<noteq> []" by (simp_all add: p)
  with u n show "padding_ok block plain = Some True" by (auto simp: padding_ok_def Let_def p list_all_iff)
qed

lemma cipher_sizes: "snd (scepCipherSizes a) < 256" "fst (scepCipherSizes a) = 0 \<longleftrightarrow> scepCipherSizes a = (0, 0)"
  by (simp_all add: scepCipherSizes_def)

text \<open>
  C15. The decrypter hands out a content key exactly when it has the length of the envelope's cipher and the plaintext ends in valid
  padding, at least one byte and no more than a block, every one of them its length: the library never removes padding that is not there.
\<close>

theorem decrypter_iff:
  "decrypter lib key env e = Some k \<longleftrightarrow>
     rsa_Decrypt lib key e = Some k \<and> length k = fst (scepCipherSizes (evAlgorithm env)) \<and>
     (\<exists>p n. 1 \<le> n \<and> n \<le> snd (scepCipherSizes (evAlgorithm env)) \<and>
        cbc_Decrypt lib (evAlgorithm env) k (rvBytes (evParameters env)) (rvBytes (evCiphertext env)) = Some (p @ replicate n (of_nat n)))"
proof -
  have "padding_ok (snd (scepCipherSizes (evAlgorithm env))) plain = Some True \<longleftrightarrow>
    (\<exists>p n. 1 \<le> n \<and> n \<le> snd (scepCipherSizes (evAlgorithm env)) \<and> plain = p @ replicate n (of_nat n))" for plain
    by (rule padding_ok_iff) (rule cipher_sizes)
  note pad = this
  show ?thesis
  proof (cases "cbc_Decrypt lib (evAlgorithm env) k (rvBytes (evParameters env)) (rvBytes (evCiphertext env))")
    case (Some plain)
    then show ?thesis using pad [of plain] by (auto simp: decrypter_def Let_def split: option.splits if_splits)
  qed (auto simp: decrypter_def Let_def split: option.splits if_splits)
qed

lemma inspectEnvelope_facts:
  assumes "inspectEnvelope ct = Inr env"
  shows "boundedSCEPASN1 (ctBytes ct) = Accepted \<and> length (evRecipients env) = 1 \<and>
    scepCipherSizes (evAlgorithm env) \<noteq> (0, 0) \<and> rvBytes (evCiphertext env) \<noteq> [] \<and>
    snd (scepCipherSizes (evAlgorithm env)) dvd length (rvBytes (evCiphertext env)) \<and>
    length (rvBytes (evParameters env)) = snd (scepCipherSizes (evAlgorithm env))"
  using assms by (auto simp: inspectEnvelope_def dvd_eq_mod_eq_0 split: if_splits option.splits prod.splits)

text \<open>
  An envelope that passes inspection is safe to decrypt: its cipher is an allowed one, the initialization vector is one block, the ciphertext
  is a positive number of blocks, and so the padding check reads its last byte in range whenever decryption keeps the length.
\<close>

lemma inspected_envelope_safe:
  assumes "inspectEnvelope ct = Inr env" and "length plain = length (rvBytes (evCiphertext env))"
  shows "evAlgorithm env \<in> {OIDEncryptionAES128CBC, OIDEncryptionAES256CBC, OIDEncryptionDESEDE3CBC, OIDEncryptionDESCBC} \<and>
    length (rvBytes (evParameters env)) = snd (scepCipherSizes (evAlgorithm env)) \<and>
    snd (scepCipherSizes (evAlgorithm env)) \<le> length plain \<and>
    padding_ok (snd (scepCipherSizes (evAlgorithm env))) plain \<noteq> None"
proof -
  note f = inspectEnvelope_facts [OF assms(1)]
  then have "evAlgorithm env \<in> {OIDEncryptionAES128CBC, OIDEncryptionAES256CBC, OIDEncryptionDESEDE3CBC, OIDEncryptionDESCBC}"
    by (auto simp: scepCipherSizes_def split: if_splits)
  moreover have "snd (scepCipherSizes (evAlgorithm env)) \<le> length plain"
    using f assms(2) by (intro dvd_imp_le) auto
  moreover have "plain \<noteq> []" using f assms(2) by auto
  ultimately show ?thesis using f by (auto simp: padding_ok_def Let_def)
qed

end
