(* ===== verification/ScepEnroll.thy ===== *)
theory ScepEnroll
  imports ScepMessage
begin

text \<open>
  Enrollment: \<open>enroll\<close> and the HTTP routes of \<open>scep_protocol.go\<close>. Within \<open>enroll\<close> a status is an error (503)
  or part of the outcome; the lock makes it one step. The clock is read once.
\<close>

section \<open>Enrollment\<close>

definition allowedSCEPIdentities :: "csr \<Rightarrow> scepChallenge \<Rightarrow> bool" where
  "allowedSCEPIdentities csr c \<longleftrightarrow>
     csrEmails csr = [] \<and> csrURIs csr = [] \<and>
     list_all (\<lambda>d. list_ex (\<lambda>a. d = a) (cDNS c)) (csrDNS csr) \<and>
     list_all (\<lambda>ip. list_ex (\<lambda>a. ip = a) (cIPs c)) (csrIPs csr)"

definition request_of :: "libraries \<Rightarrow> scepmsg \<Rightarrow> request" where
  "request_of lib m = \<lparr>rqTransaction = pkTransaction (smPKI m), rqCSR = smCSR m, rqPasswordHash = sha256 lib (smPassword m),
     rqRequestHash = sha256 lib (csrRaw (smCSR m)), rqSignerHash = sha256 lib (cert_Raw lib (smSigner m))\<rparr>"

definition chosen :: "scepState \<Rightarrow> string \<Rightarrow> scepChallenge \<Rightarrow> bool" where
  "chosen st h c \<longleftrightarrow> cHash c = h \<and> cCA c = stCA st"

definition commit_challenge :: "scepState \<Rightarrow> string \<Rightarrow> scepIssuance \<Rightarrow> scepState" where
  "commit_challenge st h iss =
     st\<lparr>stChallenges := the (replace_first (chosen st h) (\<lambda>c. c\<lparr>cIssuance := iss\<rparr>) (stChallenges st))\<rparr>"

text \<open>A challenge that was used: only a replay of the same request gets its certificate again.\<close>

definition enrollUsed :: "time \<Rightarrow> scepChallenge \<Rightarrow> request \<Rightarrow> enrollment sop" where
  "enrollUsed now c rq =
     (let iss = cIssuance c in
      if now > iUsed iss + scepRetention \<or> iTransaction iss \<noteq> rqTransaction rq \<or> iRequestHash iss \<noteq> rqRequestHash rq \<or>
         iSignerHash iss \<noteq> rqSignerHash rq
      then ret (Denied ''challenge already used by a different or expired request'')
      else bindE (findRecord (rSerial (iRecord iss))) (\<lambda>found.
        if found = None then ret (Denied ''certificate of this challenge was deleted'')
        else ret (Granted [] (iDER iss))))"

definition enrollNew :: "time \<Rightarrow> nat \<Rightarrow> scepState \<Rightarrow> scepChallenge \<Rightarrow> request \<Rightarrow> xcert \<Rightarrow> privkey \<Rightarrow> enrollment sop" where
  "enrollNew now serial st c rq ca key =
     (if cRevoked c then ret (Denied ''challenge revoked'')
      else if now > cExpires c then ret (Denied ''challenge expired'')
      else if \<not> allowedSCEPIdentities (rqCSR rq) c then ret (Denied ''CSR SANs not all authorized by the challenge'')
      else if tName (cProfile c) = [] \<or> \<not> serverAuth (tProfile (cProfile c))
      then ret (Denied ''challenge template does not have the TLS server purpose'')
      else
      let authorized = (rqCSR rq)\<lparr>csrDNS := cDNS c, csrIPs := cIPs c\<rparr> in
      case scepIssue now serial authorized (stCA st) (cDays c) (cProfile c) ca key of
        Inl e \<Rightarrow> ret (Denied (''signing: '' @ e))
      | Inr (rec, der) \<Rightarrow>
          let st' = commit_challenge st (cHash c) (new_issuance now rq rec der) in
          thenE (scep_save st')
          (thenE (scep_recover st')
            (ret (Granted [] (Some der)))))"

definition authorize :: "libraries \<Rightarrow> time \<Rightarrow> nat \<Rightarrow> scepState \<Rightarrow> request \<Rightarrow> string \<Rightarrow> xcert \<Rightarrow> privkey \<Rightarrow> enrollment sop" where
  "authorize lib now serial st rq remote ca key =
     (case find (chosen st (rqPasswordHash rq)) (stChallenges st) of
        Some c \<Rightarrow> if iUsed (cIssuance c) \<noteq> 0 then enrollUsed now c rq else enrollNew now serial st c rq ca key
      | None \<Rightarrow> (case sharedIndex st (rqPasswordHash rq) of
            Some c \<Rightarrow> enrollShared (lookupHost lib) now serial st c rq remote ca key
          | None \<Rightarrow> ret (Denied ''challenge password unknown or for another CA (create one on the SCEP page)'')))"

text \<open>What \<open>enroll\<close> decides before it encodes a reply; \<open>Rejected\<close> is the status 400 of a message that does not parse.\<close>

datatype decision = Rejected error | Decided xcert privkey scepmsg enrollment

definition decide :: "libraries \<Rightarrow> time \<Rightarrow> nat \<Rightarrow> bytes \<Rightarrow> string \<Rightarrow> decision sop" where
  "decide lib now serial raw remote =
     bindE scep_load (\<lambda>st.
     bindE (\<lambda>s. (ready now st s, s)) (\<lambda>(ca, key).
       case parseSCEP lib raw ca key (stAllowDES st) of
         Inl e \<Rightarrow> ret (Rejected e)
       | Inr m \<Rightarrow>
           bindE (scep_recover st) (\<lambda>st.
           bindE (authorize lib now serial st (request_of lib m) remote ca key) (\<lambda>v.
             ret (Decided ca key m v)))))"

definition BadRequest :: string where "BadRequest = ''2''"

definition reply_of :: "libraries \<Rightarrow> xcert \<Rightarrow> privkey \<Rightarrow> scepmsg \<Rightarrow> enrollment \<Rightarrow> string option \<times> nat" where
  "reply_of lib ca key m v =
     (case v of
        Denied reason \<Rightarrow> (case pki_Fail lib (smPKI m) ca key of Inl _ \<Rightarrow> (None, 503) | Inr b \<Rightarrow> (Some b, 200))
      | Granted origin None \<Rightarrow> (None, 503)
      | Granted origin (Some cert) \<Rightarrow>
          (case pki_Success lib (smPKI m) ca key cert (if smSingleDES m then OIDEncryptionDESCBC else OIDEncryptionAES128CBC) of
             Inl _ \<Rightarrow> (None, 503)
           | Inr b \<Rightarrow> (Some b, 200)))"

definition enroll :: "libraries \<Rightarrow> time \<Rightarrow> nat \<Rightarrow> bytes \<Rightarrow> string \<Rightarrow> store \<Rightarrow> (string option \<times> nat) \<times> store" where
  "enroll lib now serial raw remote s =
     (if boundedSCEPASN1 raw \<noteq> Accepted then ((None, 400), s)
      else case decide lib now serial raw remote s of
          (Inl e, t) \<Rightarrow> ((None, 503), t)
        | (Inr (Rejected e), t) \<Rightarrow> ((None, 400), t)
        | (Inr (Decided ca key m v), t) \<Rightarrow> (reply_of lib ca key m v, t))"

section \<open>HTTP\<close>

definition scepPaths :: "string list" where
  "scepPaths = [''/scep'', ''/scep/pkiclient.exe'', ''/scep/cgi-bin/pkiclient.exe'', ''/cgi-bin/pkiclient.exe'']"

definition scepPath :: "string \<Rightarrow> bool" where
  "scepPath p \<longleftrightarrow> list_ex (\<lambda>path. p = path) scepPaths"

text \<open>
  A request: the query as \<open>url.ParseQuery\<close> reads it (\<open>None\<close>: it fails) with the length of its text, and the body as
  \<open>io.ReadAll\<close> reads it through the limit (\<open>None\<close>: it fails).
\<close>

record http_request =
  hrMethod :: string
  hrPath :: string
  hrQueryLength :: nat
  hrQuery :: "(string \<times> string list) list option"
  hrBody :: "bytes option"
  hrRemote :: string

definition parseSCEPQuery :: "http_request \<Rightarrow> (string \<Rightarrow> string) result" where
  "parseSCEPQuery r =
     (if hrQueryLength r > 2 * scepMaxMessage then Inl errSCEPRequest
      else case hrQuery r of
          None \<Rightarrow> Inl ''invalid query''
        | Some q \<Rightarrow>
            if \<not> list_all (\<lambda>(k, vs). length vs = 1) q then Inl errSCEPRequest
            else Inr (\<lambda>k. case map_of q k of None \<Rightarrow> [] | Some vs \<Rightarrow> hd vs))"

text \<open>\<open>base64.StdEncoding.DecodeString\<close>: line ends are skipped, groups of four, padding at the end.\<close>

definition base64_value :: "char \<Rightarrow> nat option" where
  "base64_value c =
     (if is_upper c then Some (ascii c - 65)
      else if is_lower c then Some (ascii c - 71)
      else if is_digit c then Some (ascii c + 4)
      else if c = CHR ''+'' then Some 62
      else if c = CHR ''/'' then Some 63
      else None)"

fun base64_groups :: "string \<Rightarrow> bytes option" where
  "base64_groups [] = Some []"
| "base64_groups [a, b, c, d] =
     (case (base64_value a, base64_value b) of
        (Some x, Some y) \<Rightarrow>
          if c = CHR ''='' \<and> d = CHR ''='' then Some [of_nat (4 * x + y div 16)]
          else (case base64_value c of
              None \<Rightarrow> None
            | Some z \<Rightarrow>
                if d = CHR ''='' then Some [of_nat (4 * x + y div 16), of_nat (16 * (y mod 16) + z div 4)]
                else (case base64_value d of
                    None \<Rightarrow> None
                  | Some w \<Rightarrow> Some [of_nat (4 * x + y div 16), of_nat (16 * (y mod 16) + z div 4), of_nat (64 * (z mod 4) + w)]))
      | _ \<Rightarrow> None)"
| "base64_groups (a # b # c # d # cs) =
     (case (base64_value a, base64_value b, base64_value c, base64_value d) of
        (Some x, Some y, Some z, Some w) \<Rightarrow>
          map_option (\<lambda>r. of_nat (4 * x + y div 16) # of_nat (16 * (y mod 16) + z div 4) # of_nat (64 * (z mod 4) + w) # r)
            (base64_groups cs)
      | _ \<Rightarrow> None)"
| "base64_groups _ = None"

definition base64_decode :: "string \<Rightarrow> bytes option" where
  "base64_decode s = base64_groups (filter (\<lambda>c. c \<noteq> CR \<and> c \<noteq> LF) s)"

record http_response =
  rpStatus :: nat
  rpType :: string
  rpBody :: string

definition answer :: "nat \<Rightarrow> string \<Rightarrow> string \<Rightarrow> http_response" where
  "answer status ctype body = \<lparr>rpStatus = status, rpType = ctype, rpBody = body\<rparr>"

fun chain_certs :: "certpem \<Rightarrow> xcert list option" where
  "chain_certs [] = Some []"
| "chain_certs (Junk # is) = (if pem_Decode is = None then None else chain_certs is)"
| "chain_certs (Block None # is) = None"
| "chain_certs (Block (Some c) # is) = map_option ((#) c) (chain_certs is)"

definition GetCACert :: "libraries \<Rightarrow> http_response sop" where
  "GetCACert lib =
     bindE scep_load (\<lambda>st.
     bindE (\<lambda>s. (bindR (scep_ca s (stCA st)) (\<lambda>_. IssuerChainPEM s (stCA st)), s)) (\<lambda>chain.
     bindE (liftE (case chain_certs chain of None \<Rightarrow> Inl ''invalid chain'' | Some cs \<Rightarrow> DegenerateCertificates lib cs)) (\<lambda>der.
       ret (answer 200 ''application/x-x509-ca-ra-cert'' der))))"

definition or_unavailable :: "http_response sop \<Rightarrow> store \<Rightarrow> http_response \<times> store" where
  "or_unavailable m s = (case m s of (Inl e, t) \<Rightarrow> (answer 503 [] [], t) | (Inr r, t) \<Rightarrow> (r, t))"

definition read_message :: "http_request \<Rightarrow> (string \<Rightarrow> string) \<Rightarrow> bytes option" where
  "read_message r q =
     (case (if hrMethod r = ''GET''
            then base64_decode (map (\<lambda>c. if c = CHR '' '' then CHR ''+'' else c) (q ''message''))
            else hrBody r) of
        None \<Rightarrow> None
      | Some raw \<Rightarrow> if length raw = 0 \<or> length raw > scepMaxMessage then None else Some raw)"

definition StatusText :: "nat \<Rightarrow> string" where
  "StatusText status = (if status = 400 then ''Bad Request'' else ''Service Unavailable'')"

definition Routes :: "libraries \<Rightarrow> time \<Rightarrow> nat \<Rightarrow> http_request \<Rightarrow> store \<Rightarrow> http_response \<times> store" where
  "Routes lib now serial r s =
     (if \<not> scepPath (hrPath r) then (answer 404 ''text/plain'' ''404 page not found'', s)
      else if hrMethod r \<noteq> ''GET'' \<and> hrMethod r \<noteq> ''POST'' then (answer 405 [] [], s)
      else case parseSCEPQuery r of
          Inl e \<Rightarrow> (answer 400 ''text/plain'' ''invalid SCEP request'', s)
        | Inr q \<Rightarrow>
      let oper = q ''operation'' in
      if oper \<noteq> ''PKIOperation'' \<and> hrMethod r \<noteq> ''GET'' then (answer 405 [] [], s)
      else if oper = ''GetCACaps'' then
        (answer 200 ''text/plain'' (Join [''AES'', ''DES3'', ''SHA-256'', ''SHA-512'', ''POSTPKIOperation'', []] [LF]), s)
      else if oper = ''GetCACert'' then or_unavailable (GetCACert lib) s
      else if oper = ''PKIOperation'' then
        (case read_message r q of
           None \<Rightarrow> (answer 400 ''text/plain'' ''invalid SCEP request'', s)
         | Some raw \<Rightarrow>
             (case enroll lib now serial raw (hrRemote r) s of
                ((body, status), t) \<Rightarrow>
                  if status \<noteq> 200 then (answer status ''text/plain'' (StatusText status), t)
                  else (answer 200 ''application/x-pki-message'' (the body), t)))
      else (answer 400 ''text/plain'' ''unsupported SCEP operation'', s))"

section \<open>Rejected messages\<close>

lemma ready_pure: "decide lib now serial raw remote s = (Inr (Rejected e), t) \<Longrightarrow> \<exists>fs. t = s\<lparr>disk := fs\<rparr>"
proof -
  assume d: "decide lib now serial raw remote s = (Inr (Rejected e), t)"
  then obtain st s1 a b where l: "scep_load s = (Inr st, s1)"
    and p: "(case parseSCEP lib raw a b (stAllowDES st) of Inl e \<Rightarrow> ret (Rejected e)
       | Inr m \<Rightarrow> bindE (scep_recover st) (\<lambda>st.
           bindE (authorize lib now serial st (request_of lib m) remote a b) (\<lambda>v. ret (Decided a b m v)))) s1
       = (Inr (Rejected e), t)"
    by (fastforce simp: decide_def bindE_Inr_iff)
  from p have "t = s1" by (cases "parseSCEP lib raw a b (stAllowDES st)") (auto simp: bindE_Inr_iff)
  with l show ?thesis by (auto simp: scep_load_def dest: readE_success)
qed

text \<open>
  C16. A message that is rejected changes nothing: whenever the reply has status 400, no file, no journal entry and no
  unlocked key has changed.
\<close>

theorem rejected_changes_nothing:
  assumes "enroll lib now serial raw remote s = ((body, 400), t)"
  shows "body = None \<and> (\<exists>fs. t = s\<lparr>disk := fs\<rparr>)"
proof (cases "boundedSCEPASN1 raw = Accepted")
  case False
  with assms have "body = None \<and> t = s\<lparr>disk := disk s\<rparr>" by (simp add: enroll_def)
  then show ?thesis by blast
next
  case True
  with assms ready_pure [of lib now serial raw remote s] show ?thesis
    by (auto simp: enroll_def reply_of_def split: prod.splits sum.splits decision.splits enrollment.splits option.splits)
qed

end
