(* ===== verification/Auth.thy ===== *)
theory Auth
  imports Base64 ScepEnroll
begin

text \<open>
  Accounts, sessions and the access rules, \<open>auth.go\<close>. HMAC-SHA256 and PBKDF2 are arguments; the session key is a field of
  the site. An account's role is read from \<open>users.json\<close> at every request. The maintenance barrier \<open>operations\<close> of
  \<open>backup_http.go\<close> is its flag \<open>stopped\<close>.
\<close>

section \<open>Passwords\<close>

record crypto =
  hmac :: "string \<Rightarrow> string \<Rightarrow> string"
  kdf :: "string \<Rightarrow> string \<Rightarrow> nat \<Rightarrow> nat \<Rightarrow> string"

definition RoleAdmin :: string where "RoleAdmin = ''admin''"
definition RoleViewer :: string where "RoleViewer = ''viewer''"

definition pwIter :: nat where "pwIter = 600000"
definition sessionTTL :: time where "sessionTTL = 12 * hour"

definition hashPassword :: "crypto \<Rightarrow> string \<Rightarrow> string \<Rightarrow> string" where
  "hashPassword C salt pw =
     ''pbkdf2$'' @ Itoa pwIter @ ''$'' @ encode64 std_char salt @ ''$'' @ encode64 std_char (kdf C pw salt pwIter 32)"

definition verifyPassword :: "crypto \<Rightarrow> string \<Rightarrow> string \<Rightarrow> bool" where
  "verifyPassword C pw encoded =
     (case Split CHR ''$'' encoded of
        [p0, p1, p2, p3] \<Rightarrow>
          if p0 \<noteq> ''pbkdf2'' then False
          else (case ParseInt p1 of
              None \<Rightarrow> False
            | Some iter \<Rightarrow>
                if iter \<le> 0 then False
                else (case decode64 std_val p2 of
                    None \<Rightarrow> False
                  | Some salt \<Rightarrow> (case decode64 std_val p3 of
                        None \<Rightarrow> False
                      | Some want \<Rightarrow> kdf C pw salt (nat iter) (length want) = want)))
      | _ \<Rightarrow> False)"

section \<open>The user store\<close>

definition loadUsers :: "User list sop" where
  "loadUsers = readE users"

definition saveUsers :: "User list \<Rightarrow> unit sop" where
  "saveUsers us = io (\<lambda>s. s\<lparr>users := us\<rparr>)"

definition HasUsers :: "store \<Rightarrow> bool \<times> store" where
  "HasUsers s = (case loadUsers s of (Inl e, t) \<Rightarrow> (False, t) | (Inr us, t) \<Rightarrow> (length us > 0, t))"

definition findUser :: "string \<Rightarrow> store \<Rightarrow> User option \<times> store" where
  "findUser username s =
     (case loadUsers s of
        (Inl e, t) \<Rightarrow> (None, t)
      | (Inr us, t) \<Rightarrow> (find (\<lambda>u. EqualFold (uUsername u) username) us, t))"

definition AddUser :: "crypto \<Rightarrow> time \<Rightarrow> string \<Rightarrow> string \<Rightarrow> string \<Rightarrow> string \<Rightarrow> unit sop" where
  "AddUser C now salt username0 password role =
     (let username = TrimSpace username0 in
      if username = [] \<or> password = [] then throw ''username and password are required''
      else if role \<noteq> RoleAdmin \<and> role \<noteq> RoleViewer then throw ''invalid role''
      else
        let hash = hashPassword C salt password in
        bindE loadUsers (\<lambda>us.
          if \<exists>u \<in> set us. EqualFold (uUsername u) username then throw ''a user with that name already exists''
          else saveUsers (us @ [\<lparr>uUsername = username, uRole = role, uPasswordHash = hash, uCreatedAt = now\<rparr>])))"

text \<open>The loop of \<open>DeleteUser\<close> stops at the first account that must stay.\<close>

fun keep_users :: "nat \<Rightarrow> string \<Rightarrow> User list \<Rightarrow> User list result" where
  "keep_users admins username [] = Inr []"
| "keep_users admins username (u # us) =
     (if EqualFold (uUsername u) username then
        (if uRole u = RoleAdmin \<and> admins \<le> 1 then Inl ''cannot delete the last administrator''
         else keep_users admins username us)
      else bindR (keep_users admins username us) (\<lambda>left. Inr (u # left)))"

definition DeleteUser :: "string \<Rightarrow> unit sop" where
  "DeleteUser username =
     bindE loadUsers (\<lambda>us.
       let admins = length (filter (\<lambda>u. uRole u = RoleAdmin) us) in
       bindE (liftE (keep_users admins username us)) (\<lambda>left.
         if length left = length us then throw ''user not found''
         else saveUsers left))"

section \<open>Sessions\<close>

definition sign :: "crypto \<Rightarrow> string \<Rightarrow> string \<Rightarrow> string" where
  "sign C key payload = hexEncode (hmac C key payload)"

definition session_payload :: "string \<Rightarrow> time \<Rightarrow> string" where
  "session_payload username now = username @ ''|'' @ show_int ((now + sessionTTL) div second)"

text \<open>The value of the cookie.\<close>

definition issueSession :: "crypto \<Rightarrow> string \<Rightarrow> time \<Rightarrow> string \<Rightarrow> string" where
  "issueSession C key now username =
     (let payload = session_payload username now in
      encode64 url_char payload @ ''.'' @ sign C key payload)"

definition currentUser :: "crypto \<Rightarrow> string \<Rightarrow> time \<Rightarrow> string option \<Rightarrow> store \<Rightarrow> User option \<times> store" where
  "currentUser C key now cookie s =
     (case cookie of
        None \<Rightarrow> (None, s)
      | Some v \<Rightarrow> (case cut CHR ''.'' v of
            None \<Rightarrow> (None, s)
          | Some (enc, sig) \<Rightarrow> (case decode64 url_val enc of
                None \<Rightarrow> (None, s)
              | Some payload \<Rightarrow>
                  if sig \<noteq> sign C key payload then (None, s)
                  else (case cut CHR ''|'' payload of
                      None \<Rightarrow> (None, s)
                    | Some (username, expStr) \<Rightarrow> (case ParseInt expStr of
                          None \<Rightarrow> (None, s)
                        | Some e \<Rightarrow> if now div second > e then (None, s) else findUser username s)))))"

section \<open>Access\<close>

record site =
  siEnabled :: bool
  siKey :: string
  siStopped :: bool

definition isPublicPath :: "string \<Rightarrow> bool" where
  "isPublicPath path \<longleftrightarrow> scepPath path \<or> path \<in> {''/healthz'', ''/logo.svg'', ''/favicon.ico''}"

definition requiresAdmin :: "string \<Rightarrow> string \<Rightarrow> bool" where
  "requiresAdmin meth path =
     (if path = ''/admin/backup'' \<or> path = ''/admin/restore'' then True
      else if path = ''/admin/scep'' \<or> HasPrefix path ''/admin/scep/'' then True
      else if HasPrefix path ''/templates'' then True
      else if HasPrefix path ''/tools/'' \<and> \<not> HasSuffix path ''/download'' then False
      else if meth = ''GET'' \<and> HasPrefix path ''/download/'' \<and> HasSuffix path ''/key'' \<and> \<not> HasPrefix path ''/download/ca/'' then True
      else if HasPrefix path ''/download/'' \<and> HasSuffix path ''/p12'' then True
      else if HasPrefix path ''/ca/delete/'' then True
      else if HasPrefix path ''/cert/delete/'' then True
      else path \<in> {''/issue'', ''/sign'', ''/users'', ''/ca/root'', ''/ca/intermediate'', ''/users/delete'', ''/users/add''})"

text \<open>What the middleware does with a request: serve it for a user, redirect it, or refuse it.\<close>

datatype gate = Serve "User option" | SeeOther string | Refused nat

definition Middleware :: "crypto \<Rightarrow> site \<Rightarrow> time \<Rightarrow> string \<Rightarrow> string \<Rightarrow> string option \<Rightarrow> store \<Rightarrow> gate \<times> store" where
  "Middleware C w now meth path cookie s =
     (if siStopped w then (Refused 503, s)
      else if \<not> siEnabled w \<or> isPublicPath path then (Serve None, s)
      else case HasUsers s of
          (False, t) \<Rightarrow> (if path = ''/setup'' then Serve None else SeeOther ''/setup'', t)
        | (True, t) \<Rightarrow>
            if path = ''/login'' \<or> path = ''/setup'' then (Serve None, t)
            else (case currentUser C (siKey w) now cookie t of
                (None, t') \<Rightarrow> (if meth = ''GET'' then SeeOther ''/login'' else Refused 401, t')
              | (Some u, t') \<Rightarrow>
                  if requiresAdmin meth path \<and> uRole u \<noteq> RoleAdmin then (Refused 403, t')
                  else (Serve (Some u), t')))"

section \<open>Properties: passwords\<close>

lemma no_dollar: "CHR ''$'' \<notin> set (encode64 std_char s)" "CHR ''$'' \<notin> set (Itoa n)"
  using std.encode_safe [of "CHR ''$''" s] Itoa_digits [of n] by (auto simp: list_all_iff char_defs)

text \<open>
  A password is accepted against a stored hash exactly when PBKDF2 derives the same bytes from it as from the password
  that was stored, with the salt and the number of iterations read back from the hash.
\<close>

lemma verifyPassword_hashPassword:
  assumes "\<And>p s i n. length (kdf C p s i n) = n"
  shows "verifyPassword C pw' (hashPassword C salt pw) \<longleftrightarrow> kdf C pw' salt pwIter 32 = kdf C pw salt pwIter 32"
proof -
  let ?parts = "[''pbkdf2'', Itoa pwIter, encode64 std_char salt, encode64 std_char (kdf C pw salt pwIter 32)]"
  have "hashPassword C salt pw = Join ?parts ''$''" by (simp add: hashPassword_def)
  moreover have "Split CHR ''$'' (Join ?parts ''$'') = ?parts" by (rule Split_Join) (auto simp: no_dollar)
  ultimately have parts: "Split CHR ''$'' (hashPassword C salt pw) = ?parts" by (simp only:)
  have iter: "ParseInt (Itoa pwIter) = Some (int pwIter)" "pwIter \<noteq> 0"
    by (rule ParseInt_Itoa, simp_all add: pwIter_def)
  show ?thesis unfolding verifyPassword_def parts by (simp add: iter std.decode_encode assms)
qed

definition example_crypto :: crypto where
  "example_crypto = \<lparr>hmac = (\<lambda>k p. k @ p), kdf = (\<lambda>p s i n. take n (p @ s @ replicate n CHR ''x''))\<rparr>"

theorem verifyPassword_hashPassword_witness:
  "verifyPassword example_crypto ''secret'' (hashPassword example_crypto ''salt'' ''secret'') \<and>
   \<not> verifyPassword example_crypto ''Secret'' (hashPassword example_crypto ''salt'' ''secret'')"
  using verifyPassword_hashPassword [of example_crypto _ "''salt''" "''secret''"]
  by (simp add: example_crypto_def)

section \<open>Properties: accounts\<close>

definition users_ok :: "User list \<Rightarrow> bool" where
  "users_ok us \<longleftrightarrow> distinct (map (\<lambda>u. ToLower (uUsername u)) us) \<and>
     list_all (\<lambda>u. uUsername u \<noteq> [] \<and> TrimSpace (uUsername u) = uUsername u \<and> uRole u \<in> {RoleAdmin, RoleViewer}) us"

definition has_admin :: "User list \<Rightarrow> bool" where
  "has_admin us \<longleftrightarrow> list_ex (\<lambda>u. uRole u = RoleAdmin) us"

datatype account_op = Add time string string string string | Drop string

fun account_step :: "crypto \<Rightarrow> account_op \<Rightarrow> store \<Rightarrow> store" where
  "account_step C (Add now salt username password role) s = snd (AddUser C now salt username password role s)"
| "account_step C (Drop username) s = snd (DeleteUser username s)"

lemma keep_users_Inr:
  "keep_users admins username us = Inr left \<Longrightarrow> left = filter (\<lambda>u. \<not> EqualFold (uUsername u) username) us \<and>
     (admins \<le> 1 \<longrightarrow> (\<forall>u \<in> set us. EqualFold (uUsername u) username \<longrightarrow> uRole u \<noteq> RoleAdmin))"
  by (induction us arbitrary: left) (auto split: if_splits)

text \<open>Case is folded, so at most one account is removed and the count of administrators falls by at most one.\<close>

lemma kept_admin:
  assumes ok: "users_ok us" and left: "keep_users (length (filter (\<lambda>u. uRole u = RoleAdmin) us)) username us = Inr left"
    and admin: "has_admin us"
  shows "has_admin left"
proof (cases "length (filter (\<lambda>u. uRole u = RoleAdmin) us) \<le> 1")
  case True
  with keep_users_Inr [OF left] admin show ?thesis by (auto simp: has_admin_def list_ex_iff)
next
  case False
  let ?admins = "filter (\<lambda>u. uRole u = RoleAdmin) us"
  from False obtain u v vs where a: "?admins = u # v # vs" by (cases ?admins; cases "tl ?admins") auto
  have "distinct (map (\<lambda>u. ToLower (uUsername u)) ?admins)" using ok by (simp add: users_ok_def distinct_map_filter_iff)
  with a have "\<not> EqualFold (uUsername u) username \<or> \<not> EqualFold (uUsername v) username" by (auto simp: EqualFold_def)
  moreover have "u \<in> set ?admins" "v \<in> set ?admins" using a by simp_all
  then have "u \<in> set us" "uRole u = RoleAdmin" "v \<in> set us" "uRole v = RoleAdmin" by simp_all
  ultimately have "\<exists>w \<in> set us. uRole w = RoleAdmin \<and> \<not> EqualFold (uUsername w) username" by blast
  then show ?thesis unfolding keep_users_Inr [OF left, THEN conjunct1] by (auto simp: has_admin_def list_ex_iff)
qed

definition accounts_kept :: "User list \<Rightarrow> User list \<Rightarrow> bool" where
  "accounts_kept us vs \<longleftrightarrow> users_ok vs \<and> (has_admin us \<longrightarrow> has_admin vs)"

lemma users_ok_add:
  assumes "users_ok us" "\<not> (\<exists>u \<in> set us. EqualFold (uUsername u) name)" "name \<noteq> []" "TrimSpace name = name"
    and "role = RoleAdmin \<or> role = RoleViewer"
  shows "users_ok (us @ [\<lparr>uUsername = name, uRole = role, uPasswordHash = hash, uCreatedAt = now\<rparr>])"
proof -
  from assms(2) have "ToLower name \<notin> (\<lambda>u. ToLower (uUsername u)) ` set us" by (metis EqualFold_def imageE)
  with assms show ?thesis by (simp add: users_ok_def)
qed

lemma AddUser_keeps: "preserves (\<lambda>s. accounts_kept us (users s)) (AddUser C now salt username password role)"
  unfolding AddUser_def loadUsers_def saveUsers_def Let_def
proof (intro preserves_if preserves_throw user_file.preserves_cycle user_file.preserves_save)
  fix vs
  assume new: "\<not> (TrimSpace username = [] \<or> password = [])" "\<not> (role \<noteq> RoleAdmin \<and> role \<noteq> RoleViewer)"
    "\<not> (\<exists>u \<in> set vs. EqualFold (uUsername u) (TrimSpace username))" and vs: "accounts_kept us vs"
  let ?u = "\<lparr>uUsername = TrimSpace username, uRole = role, uPasswordHash = hashPassword C salt password, uCreatedAt = now\<rparr>"
  from new vs have "users_ok (vs @ [?u])" by (intro users_ok_add) (auto simp: accounts_kept_def)
  with vs show "accounts_kept us (vs @ [?u])" by (simp add: accounts_kept_def has_admin_def)
qed

lemma DeleteUser_keeps: "preserves (\<lambda>s. accounts_kept us (users s)) (DeleteUser username)"
  unfolding DeleteUser_def loadUsers_def saveUsers_def Let_def
proof (intro user_file.preserves_cycle preserves_bind_liftE keeps user_file.preserves_save)
  fix vs left
  assume vs: "accounts_kept us vs" and k: "keep_users (length (filter (\<lambda>u. uRole u = RoleAdmin) vs)) username vs = Inr left"
  from vs have "users_ok left"
    unfolding keep_users_Inr [OF k, THEN conjunct1] accounts_kept_def users_ok_def
    by (simp add: distinct_map_filter_iff list_all_iff)
  with kept_admin [OF _ k] vs show "accounts_kept us left" by (simp add: accounts_kept_def)
qed

text \<open>
  C18. Whatever accounts are added and removed, in whatever order and with whatever disk faults, the names of the accounts
  stay unique up to case, trimmed and not empty, their roles stay valid, and where there was an administrator there is one.
\<close>

theorem accounts_invariant:
  assumes "users_ok (users s)"
  shows "users_ok (users (fold (account_step C) ops s)) \<and>
    (has_admin (users s) \<longrightarrow> has_admin (users (fold (account_step C) ops s)))"
proof -
  have "accounts_kept (users s) (users t) \<Longrightarrow> accounts_kept (users s) (users (fold (account_step C) ops t))" for t
  proof (induction ops arbitrary: t)
    case (Cons op ops)
    have "accounts_kept (users s) (users (account_step C op t))"
      using Cons.prems AddUser_keeps [of "users s"] DeleteUser_keeps [of "users s"] by (cases op) (auto simp: preserves_def)
    then show ?case using Cons.IH by simp
  qed simp
  from this [of s] assms show ?thesis by (simp add: accounts_kept_def)
qed

definition example_user :: User where
  "example_user = \<lparr>uUsername = ''root'', uRole = RoleAdmin, uPasswordHash = [], uCreatedAt = 0\<rparr>"

theorem accounts_invariant_witness:
  "has_admin (users (fold (account_step example_crypto) [Add 5 ''salt'' ''eve'' ''pw'' RoleViewer, Drop ''ROOT'', Drop ''Eve'']
     (empty_store\<lparr>users := [example_user]\<rparr>)))"
proof -
  have "users_ok [example_user]"
    by (simp add: users_ok_def example_user_def TrimSpace_def TrimLeft_def TrimRight_def is_space_def ascii_def)
  then show ?thesis
    using accounts_invariant [of "empty_store\<lparr>users := [example_user]\<rparr>" example_crypto
        "[Add 5 ''salt'' ''eve'' ''pw'' RoleViewer, Drop ''ROOT'', Drop ''Eve'']"]
    by (simp add: has_admin_def example_user_def)
qed

section \<open>Properties: sessions\<close>

lemma Atoi_digits: "Atoi s = Some n \<Longrightarrow> list_all is_digit s"
  by (simp add: Atoi_def split: if_splits)

lemma ParseInt_chars: "ParseInt s = Some n \<Longrightarrow> c \<in> set s \<Longrightarrow> is_digit c \<or> c = CHR ''-'' \<or> c = CHR ''+''"
  by (cases s) (auto simp: ParseInt_def Let_def list_all_iff dest!: Atoi_digits split: if_splits option.splits)

lemma session_parts:
  "cut CHR ''.'' (issueSession C key now username) =
     Some (encode64 url_char (session_payload username now), sign C key (session_payload username now))"
  using url.encode_safe [of "CHR ''.''"] by (auto simp: issueSession_def Let_def intro!: cut_append)

lemma payload_parts:
  assumes "0 \<le> now" "now + sessionTTL < 2 ^ 63 * second"
  shows "CHR ''|'' \<notin> set u \<Longrightarrow> \<exists>e. cut CHR ''|'' (session_payload u now) = Some (u, e) \<and> ParseInt e = Some ((now + sessionTTL) div second)"
    and "CHR ''|'' \<in> set u \<Longrightarrow> \<exists>v e. cut CHR ''|'' (session_payload u now) = Some (v, e) \<and> ParseInt e = None"
proof -
  let ?e = "(now + sessionTTL) div second"
  have nonneg: "0 \<le> ?e" using assms(1) by (simp add: sessionTTL_def time_units pos_imp_zdiv_nonneg_iff)
  have "?e < 2 ^ 63" using assms(2) by (simp add: time_units div_less_iff_less_mult)
  with nonneg have parse: "ParseInt (show_int ?e) = Some ?e" using ParseInt_Itoa [of "nat ?e"] by (simp add: show_int_def)
  then show "CHR ''|'' \<notin> set u \<Longrightarrow> \<exists>e. cut CHR ''|'' (session_payload u now) = Some (u, e) \<and> ParseInt e = Some ?e"
    by (auto simp: session_payload_def cut_append)
  assume "CHR ''|'' \<in> set u"
  then obtain v w where u: "u = v @ CHR ''|'' # w" "CHR ''|'' \<notin> set v" using split_list_first by metis
  then have "cut CHR ''|'' (session_payload u now) = Some (v, w @ CHR ''|'' # show_int ?e)"
    by (simp add: session_payload_def cut_append)
  moreover have "ParseInt (w @ CHR ''|'' # show_int ?e) = None"
    using ParseInt_chars [of "w @ CHR ''|'' # show_int ?e" _ "CHR ''|''"] by (force simp: char_defs)
  ultimately show "\<exists>v e. cut CHR ''|'' (session_payload u now) = Some (v, e) \<and> ParseInt e = None" by blast
qed

lemma session_accepted:
  assumes "0 \<le> now" "now + sessionTTL < 2 ^ 63 * second"
  shows "currentUser C key later (Some (issueSession C key now username)) s =
    (if CHR ''|'' \<in> set username \<or> later div second > (now + sessionTTL) div second then (None, s) else findUser username s)"
  using payload_parts [OF assms, of username]
  by (cases "CHR ''|'' \<in> set username") (auto simp: currentUser_def session_parts url.decode_encode)

text \<open>
  A session that was issued to a user is that user's, read afresh from the store, for twelve hours and no longer; the
  session of a user whose name contains a vertical bar is never accepted.
\<close>

lemma session_lifetime:
  assumes "0 \<le> now" "now + sessionTTL < 2 ^ 63 * second"
  shows "currentUser C key later (Some (issueSession C key now username)) s =
    (if CHR ''|'' \<in> set username \<or> later div second > (now + sessionTTL) div second then (None, s) else findUser username s)"
  by (rule session_accepted [OF assms])

theorem session_lifetime_witness:
  "currentUser example_crypto ''k'' (11 * hour) (Some (issueSession example_crypto ''k'' 0 ''root'')) (empty_store\<lparr>users := [example_user]\<rparr>) =
     findUser ''root'' (empty_store\<lparr>users := [example_user]\<rparr>)"
  using session_lifetime [of 0 example_crypto "''k''" "11 * hour" "''root''"] by (simp add: sessionTTL_def time_units)

text \<open>
  What the site signs with the session key: sessions, at a login \<open>(name, time)\<close>, and the tokens of its forms, over a cookie
  (which has a dot) or a fixed word.
\<close>

definition csrf_payload :: "string \<Rightarrow> string" where
  "csrf_payload identity = ''backup-csrf-v1|'' @ identity"

inductive signed :: "(string \<times> time) set \<Rightarrow> string \<Rightarrow> bool" for logins where
  login: "(name, t) \<in> logins \<Longrightarrow> signed logins (session_payload name t)"
| form: "CHR ''.'' \<in> set identity \<or> identity = ''trusted-local'' \<Longrightarrow> signed logins (csrf_payload identity)"

text \<open>
  C19. A cookie whose signature the site made is accepted only as the session of somebody who logged in at most twelve hours
  before, under the name of the account it is accepted for; the form tokens, which are signed with the same key, are no sessions.
\<close>

theorem session_authentic:
  assumes accepted: "currentUser C key now (Some cookie) s = (Some u, t)"
    and made: "\<And>enc sig p. cut CHR ''.'' cookie = Some (enc, sig) \<Longrightarrow> sig = sign C key p \<Longrightarrow> signed logins p"
    and times: "\<And>name t. (name, t) \<in> logins \<Longrightarrow> 0 \<le> t \<and> t + sessionTTL < 2 ^ 63 * second"
  shows "\<exists>name t0. (name, t0) \<in> logins \<and> EqualFold (uUsername u) name \<and> now div second \<le> (t0 + sessionTTL) div second"
proof -
  from accepted obtain enc p name e n where cut: "cut CHR ''.'' cookie = Some (enc, sign C key p)"
    and p: "cut CHR ''|'' p = Some (name, e)" "ParseInt e = Some n" "now div second \<le> n" and f: "findUser name s = (Some u, t)"
    by (auto simp: currentUser_def split: option.splits if_splits)
  from made [OF cut refl] show ?thesis
  proof cases
    case (login who t0)
    note b = times [OF login(2)]
    from p payload_parts(2) [of t0 who] b login(1) have "CHR ''|'' \<notin> set who" by fastforce
    with payload_parts(1) [of t0 who] b p login(1) have "who = name" "n = (t0 + sessionTTL) div second" by auto
    moreover from f have "EqualFold (uUsername u) name"
      by (auto simp: findUser_def split: prod.splits sum.splits dest: find_Some_set)
    ultimately show ?thesis using login(2) p(3) by blast
  next
    case (form identity)
    have "cut CHR ''|'' p = Some (''backup-csrf-v1'', identity)"
      using cut_append [of "CHR ''|''" "''backup-csrf-v1''" identity] form(1) by (simp add: csrf_payload_def)
    with p have "ParseInt identity = Some n" by simp
    with form(2) ParseInt_chars [of identity n "CHR ''.''"] ParseInt_chars [of identity n "CHR ''t''"] have False
      by (auto simp: char_defs)
    then show ?thesis ..
  qed
qed

lemma digit_inj: "m < 16 \<Longrightarrow> n < 16 \<Longrightarrow> digit m = digit n \<Longrightarrow> m = n"
  by (simp add: digit_def split: if_splits)

lemma hexEncode_inj: "hexEncode s = hexEncode t \<Longrightarrow> s = t"
proof (induction s arbitrary: t)
  case (Cons c s)
  then obtain d t' where t: "t = d # t'" by (cases t) (auto simp: hexEncode_def)
  have b: "ascii x div 16 < 16" for x by (simp add: ascii_def less_mult_imp_div_less)
  from Cons.prems t have "digit (ascii c div 16) = digit (ascii d div 16)" "digit (ascii c mod 16) = digit (ascii d mod 16)"
    and rest: "hexEncode s = hexEncode t'" by (auto simp: hexEncode_def)
  with digit_inj b have "ascii c div 16 = ascii d div 16" "ascii c mod 16 = ascii d mod 16" by auto
  then have "c = d" by (metis ascii_eq_iff div_mult_mod_eq)
  with Cons.IH [OF rest] t show ?case by simp
qed (cases t, simp_all add: hexEncode_def)

theorem session_authentic_witness:
  "\<exists>u t. currentUser example_crypto ''k'' hour (Some (issueSession example_crypto ''k'' 0 ''root'')) (empty_store\<lparr>users := [example_user]\<rparr>) = (Some u, t) \<and>
     EqualFold (uUsername u) ''root''"
proof -
  let ?cookie = "issueSession example_crypto ''k'' 0 ''root''"
  let ?s = "empty_store\<lparr>users := [example_user]\<rparr>"
  have "findUser ''root'' ?s = (Some example_user, ?s)"
    by (simp add: findUser_def loadUsers_def readE_def io_def op_simps empty_store_def example_user_def)
  moreover have "currentUser example_crypto ''k'' hour (Some ?cookie) ?s = findUser ''root'' ?s"
    using session_accepted [of 0 example_crypto "''k''" hour "''root''"] by (simp add: sessionTTL_def time_units)
  ultimately have run: "currentUser example_crypto ''k'' hour (Some ?cookie) ?s = (Some example_user, ?s)" by simp
  have made: "signed {(''root'', 0)} p"
    if "cut CHR ''.'' ?cookie = Some (enc, sig)" "sig = sign example_crypto ''k'' p" for enc sig p
  proof -
    from that have "hexEncode (''k'' @ p) = hexEncode (''k'' @ session_payload ''root'' 0)"
      by (simp add: session_parts sign_def example_crypto_def)
    then have "p = session_payload ''root'' 0" using hexEncode_inj by blast
    then show ?thesis by (auto intro: signed.login)
  qed
  have times: "(name, t) \<in> {(''root'', 0)} \<Longrightarrow> 0 \<le> t \<and> t + sessionTTL < 2 ^ 63 * second" for name t
    by (simp add: sessionTTL_def time_units)
  from session_authentic [OF run made times] run show ?thesis by auto
qed

section \<open>Properties: access\<close>

lemma loadUsers_disk: "loadUsers s = (r, t) \<Longrightarrow> \<exists>fs. t = s\<lparr>disk := fs\<rparr>"
proof -
  have same: "s\<lparr>disk := disk s\<rparr> = s" by simp
  assume "loadUsers s = (r, t)"
  then show ?thesis
    by (auto simp: loadUsers_def readE_def op_simps io_def split: list.splits disk_fault.splits) (metis same)+
qed

lemma HasUsers_store: "HasUsers s = (b, t) \<Longrightarrow> \<exists>fs. t = s\<lparr>disk := fs\<rparr>"
  by (auto simp: HasUsers_def dest: loadUsers_disk split: prod.splits sum.splits)

lemma findUser_disk: "findUser u s = (r, t) \<Longrightarrow> \<exists>fs. t = s\<lparr>disk := fs\<rparr>"
  by (auto simp: findUser_def dest: loadUsers_disk split: prod.splits sum.splits)

lemma currentUser_disk: "currentUser C key now cookie s = (r, t) \<Longrightarrow> \<exists>fs. t = s\<lparr>disk := fs\<rparr>"
proof -
  have same: "s\<lparr>disk := disk s\<rparr> = s" by simp
  assume "currentUser C key now cookie s = (r, t)"
  then show ?thesis
    by (auto simp: currentUser_def dest: findUser_disk split: option.splits prod.splits if_splits) (metis same)+
qed

text \<open>
  The middleware lets a request past for nobody only where no account is needed; otherwise its session is accepted now,
  and for the paths of administrators the account is one.
\<close>

lemma Middleware_admits:
  assumes "Middleware C w now meth path cookie s = (Serve v, t)" and "siEnabled w" and "\<not> isPublicPath path"
    and "path \<notin> {''/login'', ''/setup''}"
  shows "\<exists>u r. v = Some u \<and> currentUser C (siKey w) now cookie r = (Some u, t) \<and> users r = users s \<and>
    (requiresAdmin meth path \<longrightarrow> uRole u = RoleAdmin)"
proof -
  from assms obtain r where h: "HasUsers s = (True, r)"
    and c: "(case currentUser C (siKey w) now cookie r of
        (None, t') \<Rightarrow> (if meth = ''GET'' then SeeOther ''/login'' else Refused 401, t')
      | (Some u, t') \<Rightarrow> if requiresAdmin meth path \<and> uRole u \<noteq> RoleAdmin then (Refused 403, t') else (Serve (Some u), t')) = (Serve v, t)"
    by (auto simp: Middleware_def split: if_splits prod.splits bool.splits)
  from c obtain u where "currentUser C (siKey w) now cookie r = (Some u, t)" "v = Some u" "requiresAdmin meth path \<longrightarrow> uRole u = RoleAdmin"
    by (auto split: prod.splits option.splits if_splits)
  with HasUsers_store [OF h] show ?thesis by auto
qed

end
