(* ===== verification/Web.thy ===== *)
theory Web
  imports Auth CaIssue
begin

text \<open>
  What the handlers of the web interface share, and those for accounts and templates (\<open>server.go\<close>, \<open>backup_http.go\<close>):
  the request as its forms are parsed, the check of origin and token, and the pages. A page is its name and its error
  line; its other content is not modelled. The user of a request is the one the middleware admitted.
\<close>

section \<open>Requests and pages\<close>

text \<open>The header \<open>Origin\<close> as \<open>url.Parse\<close> reads it.\<close>

record origin =
  ogScheme :: string
  ogHost :: string
  ogUser :: bool
  ogPath :: string
  ogQuery :: string
  ogFragment :: string

record web_request =
  wqMethod :: string
  wqPath :: string
  wqHost :: string
  wqOrigin :: "origin option"
  wqCookie :: "string option"
  wqParses :: bool
  wqPost :: "(string \<times> string list) list"
  wqQuery :: "(string \<times> string list) list"
  wqFile :: string

definition values_of :: "(string \<times> string list) list \<Rightarrow> string \<Rightarrow> string list" where
  "values_of vs k = (case map_of vs k of None \<Rightarrow> [] | Some l \<Rightarrow> l)"

definition first_value :: "string list \<Rightarrow> string" where
  "first_value vs = (case vs of [] \<Rightarrow> [] | v # _ \<Rightarrow> v)"

definition PostGet :: "web_request \<Rightarrow> string \<Rightarrow> string" where
  "PostGet r k = first_value (values_of (wqPost r) k)"

text \<open>\<open>r.Form\<close> holds the values of the body before those of the query.\<close>

definition FormAll :: "web_request \<Rightarrow> string \<Rightarrow> string list" where
  "FormAll r k = values_of (wqPost r) k @ values_of (wqQuery r) k"

definition FormValue :: "web_request \<Rightarrow> string \<Rightarrow> string" where
  "FormValue r k = first_value (FormAll r k)"

datatype page =
    Shown string error
  | To string
  | SignedIn string string
  | SignedOut string
  | Status nat
  | Sent string

type_synonym handler = "store \<Rightarrow> page \<times> store"

definition finish :: "page \<Rightarrow> handler" where
  "finish p = (\<lambda>s. (p, s))"

text \<open>Run an operation of the store; the page of its error or of its result.\<close>

definition perform :: "'a sop \<Rightarrow> (error \<Rightarrow> handler) \<Rightarrow> ('a \<Rightarrow> handler) \<Rightarrow> handler" where
  "perform m onerr onok = (\<lambda>s. case m s of (Inl e, t) \<Rightarrow> onerr e t | (Inr x, t) \<Rightarrow> onok x t)"

text \<open>The page of \<open>s.fail\<close>.\<close>

definition failed :: "error \<Rightarrow> handler" where
  "failed e = finish (Shown ''message'' e)"

text \<open>\<open>r.ParseForm\<close>, with the page of its error.\<close>

definition parse_form :: "web_request \<Rightarrow> page \<Rightarrow> handler \<Rightarrow> handler" where
  "parse_form r onerr h = (if wqParses r then h else finish onerr)"

section \<open>Who asks, and from where\<close>

definition isAdmin :: "site \<Rightarrow> User option \<Rightarrow> bool" where
  "isAdmin w v \<longleftrightarrow> (if \<not> siEnabled w then True else case v of None \<Rightarrow> False | Some u \<Rightarrow> uRole u = RoleAdmin)"

definition backupToken :: "crypto \<Rightarrow> site \<Rightarrow> web_request \<Rightarrow> string" where
  "backupToken C w r =
     (let identity = (case wqCookie r of Some c \<Rightarrow> if siEnabled w then c else ''trusted-local'' | None \<Rightarrow> ''trusted-local'') in
      sign C (siKey w) (csrf_payload identity))"

definition backupCSRF :: "crypto \<Rightarrow> site \<Rightarrow> web_request \<Rightarrow> bool" where
  "backupCSRF C w r \<longleftrightarrow>
     (case wqOrigin r of
        None \<Rightarrow> False
      | Some u \<Rightarrow>
          if (ogScheme u \<noteq> ''https'' \<and> ogScheme u \<noteq> ''http'') \<or> ogHost u \<noteq> wqHost r \<or> ogUser u \<or> ogQuery u \<noteq> [] \<or>
             ogFragment u \<noteq> [] \<or> (ogPath u \<noteq> [] \<and> ogPath u \<noteq> ''/'')
          then False
          else FormValue r ''csrf'' = backupToken C w r)"

text \<open>The guards that the forms of devices and definitions begin with.\<close>

definition admin_form :: "crypto \<Rightarrow> site \<Rightarrow> User option \<Rightarrow> web_request \<Rightarrow> handler \<Rightarrow> handler" where
  "admin_form C w v r h =
     (if \<not> isAdmin w v then finish (Status 403)
      else if \<not> wqParses r then finish (Status 400)
      else if \<not> backupCSRF C w r then finish (Status 403)
      else h)"

section \<open>Accounts\<close>

definition handleLogin :: "crypto \<Rightarrow> site \<Rightarrow> time \<Rightarrow> web_request \<Rightarrow> handler" where
  "handleLogin C w now r =
     parse_form r (Shown ''message'' ''malformed form'') (\<lambda>s.
       case findUser (TrimSpace (FormValue r ''username'')) s of
         (None, t) \<Rightarrow> (Shown ''login'' ''Invalid username or password.'', t)
       | (Some u, t) \<Rightarrow>
           if \<not> verifyPassword C (FormValue r ''password'') (uPasswordHash u)
           then (Shown ''login'' ''Invalid username or password.'', t)
           else (SignedIn (issueSession C (siKey w) now (uUsername u)) ''/'', t))"

definition handleSetup :: "crypto \<Rightarrow> site \<Rightarrow> time \<Rightarrow> string \<Rightarrow> web_request \<Rightarrow> handler" where
  "handleSetup C w now salt r = (\<lambda>s.
     case HasUsers s of
       (True, t) \<Rightarrow> (To ''/login'', t)
     | (False, t) \<Rightarrow>
         parse_form r (Shown ''message'' ''malformed form'')
           (let username = TrimSpace (FormValue r ''username''); pw = FormValue r ''password'' in
            if pw \<noteq> FormValue r ''password_confirm'' then finish (Shown ''setup'' ''Passwords do not match.'')
            else perform (AddUser C now salt username pw RoleAdmin)
              (\<lambda>e. finish (Shown ''setup'' e))
              (\<lambda>_. finish (SignedIn (issueSession C (siKey w) now username) ''/users''))) t)"

definition handleLogout :: handler where
  "handleLogout = finish (SignedOut ''/login'')"

definition usersPage :: "error \<Rightarrow> handler" where
  "usersPage e = perform loadUsers failed (\<lambda>_. finish (Shown ''users'' e))"

definition handleUserAdd :: "crypto \<Rightarrow> time \<Rightarrow> string \<Rightarrow> web_request \<Rightarrow> handler" where
  "handleUserAdd C now salt r =
     parse_form r (Shown ''message'' ''malformed form'')
       (let pw = FormValue r ''password'' in
        if pw \<noteq> FormValue r ''password_confirm'' then usersPage ''Passwords do not match.''
        else perform (AddUser C now salt (FormValue r ''username'') pw (FormValue r ''role''))
          usersPage (\<lambda>_. finish (To ''/users'')))"

definition handleUserDelete :: "web_request \<Rightarrow> handler" where
  "handleUserDelete r =
     parse_form r (Shown ''message'' ''malformed form'')
       (perform (DeleteUser (FormValue r ''username'')) usersPage (\<lambda>_. finish (To ''/users'')))"

section \<open>Templates\<close>

definition splitLines :: "string \<Rightarrow> string list" where
  "splitLines s = filter (\<lambda>w. w \<noteq> []) (Split CHR '','' (map (\<lambda>c. if c \<in> {LF, CR, CHR '','', CHR '' '', TAB} then CHR '','' else c) s))"

definition allowedAlgorithms :: "web_request \<Rightarrow> keyAlgo list" where
  "allowedAlgorithms r = filter (\<lambda>v. v \<in> {algoRSA2048, algoRSA4096, algoECP256, algoECP384}) (FormAll r ''allowed_algorithms'')"

definition formInt :: "web_request \<Rightarrow> string \<Rightarrow> int \<Rightarrow> int result" where
  "formInt r name def =
     (let raw = TrimSpace (FormValue r name) in
      if raw = [] then Inr def
      else case ParseInt raw of
          None \<Rightarrow> Inl (map (\<lambda>c. if c = CHR ''_'' then CHR '' '' else c) name @ '' must be a positive number'')
        | Some n \<Rightarrow> if n < 1 then Inl (map (\<lambda>c. if c = CHR ''_'' then CHR '' '' else c) name @ '' must be a positive number'') else Inr n)"

definition parseRequestedDays :: "web_request \<Rightarrow> (int \<times> bool) result" where
  "parseRequestedDays r =
     (let raw = TrimSpace (FormValue r ''valid_days'') in
      if raw = [] then Inr (0, False)
      else case ParseInt raw of
          None \<Rightarrow> Inl ''validity must be a positive number of days''
        | Some n \<Rightarrow> if n < 1 then Inl ''validity must be a positive number of days'' else Inr (n, True))"

definition atoiDefault :: "string \<Rightarrow> int \<Rightarrow> int" where
  "atoiDefault s def = (case ParseInt (TrimSpace s) of Some n \<Rightarrow> if n > 0 then n else def | None \<Rightarrow> def)"

definition templateFromForm :: "web_request \<Rightarrow> CertTemplate result" where
  "templateFromForm r =
     bindR (formInt r ''valid_days'' 365) (\<lambda>valid.
     bindR (formInt r ''max_days'' 365) (\<lambda>max.
       Inr (noTemplate\<lparr>tName := TrimSpace (FormValue r ''name''), tDescription := TrimSpace (FormValue r ''description''),
         tOrganization := TrimSpace (FormValue r ''organization''), tCountry := TrimSpace (FormValue r ''country''),
         tAlgo := FormValue r ''algo'', tValidDays := valid, tMaxDays := max, tProfile := FormValue r ''profile'',
         tAllowedAlgos := allowedAlgorithms r,
         tAllowedIssuers := splitLines (Join (FormAll r ''allowed_issuers'') '','')\<rparr>)))"

definition templatesPage :: "error \<Rightarrow> handler" where
  "templatesPage e = perform LoadTemplates failed (\<lambda>_. finish (Shown ''templates'' e))"

definition handleTemplateAdd :: "time \<Rightarrow> web_request \<Rightarrow> handler" where
  "handleTemplateAdd now r =
     parse_form r (Shown ''message'' ''malformed form'')
       (perform (bindE (liftE (templateFromForm r)) (AddTemplate now)) templatesPage (\<lambda>_. finish (To ''/templates'')))"

text \<open>The loop that looks for a free name, with the number of rounds it may take.\<close>

fun free_name :: "nat \<Rightarrow> string \<Rightarrow> nat \<Rightarrow> string \<Rightarrow> store \<Rightarrow> string option \<times> store" where
  "free_name 0 base n name s = (None, s)"
| "free_name (Suc rounds) base n name s =
     (case GetTemplate name s of
        (None, t) \<Rightarrow> (Some name, t)
      | (Some _, t) \<Rightarrow> free_name rounds base (n + 1) (base @ ''-'' @ Itoa n) t)"

definition duplicate_rounds :: "store \<Rightarrow> nat" where
  "duplicate_rounds s = length (templates s) + length builtinTemplates + 1"

definition handleTemplateDuplicate :: "time \<Rightarrow> web_request \<Rightarrow> handler" where
  "handleTemplateDuplicate now r =
     parse_form r (Shown ''message'' ''malformed form'')
       (case builtinByName (FormValue r ''source'') of
          None \<Rightarrow> templatesPage ''Unknown built-in template.''
        | Some source \<Rightarrow> (\<lambda>s.
            case free_name (duplicate_rounds s) (''Copy-'' @ tName source) 2 (''Copy-'' @ tName source) s of
              (None, t) \<Rightarrow> (Status 0, t)
            | (Some name, t) \<Rightarrow>
                perform (AddTemplate now (source\<lparr>tName := name, tBuiltin := False\<rparr>)) templatesPage (\<lambda>_. finish (To ''/templates'')) t))"

definition handleTemplateEdit :: "web_request \<Rightarrow> string \<Rightarrow> handler" where
  "handleTemplateEdit r name =
     parse_form r (Shown ''message'' ''malformed form'')
       (perform (bindE (liftE (templateFromForm r)) (UpdateTemplate name))
         (\<lambda>e. finish (Shown ''template_edit'' e)) (\<lambda>_. finish (To ''/templates'')))"

definition handleTemplateDelete :: "web_request \<Rightarrow> handler" where
  "handleTemplateDelete r =
     parse_form r (Shown ''message'' ''malformed form'')
       (perform (DeleteTemplate (FormValue r ''name'')) templatesPage (\<lambda>_. finish (To ''/templates'')))"

section \<open>The search for a free name ends\<close>

definition known_template_names :: "store \<Rightarrow> string set" where
  "known_template_names s = (\<lambda>t. ToLower (tName t)) ` (set (templates s) \<union> set builtinTemplates)"

lemma migrated_names: "map tName (migrateTemplates ts) = map tName ts"
  by (simp add: migrateTemplates_def migrateTemplate_def Let_def)

lemma LoadTemplates_names:
  assumes "LoadTemplates s = (r, t)"
  shows "map tName (templates t) = map tName (templates s) \<and> (\<forall>ts. r = Inr ts \<longrightarrow> map tName ts = map tName (templates s))"
  using assms migrated_names [of "templates s"]
  by (auto simp: LoadTemplates_def saveTemplates_def readE_def op_simps io_def Let_def split: list.splits disk_fault.splits if_splits)

lemma known_alt: "known_template_names s = ToLower ` (set (map tName (templates s)) \<union> set (map tName builtinTemplates))"
  by (simp add: known_template_names_def image_Un image_image)

lemma GetTemplate_known:
  assumes "GetTemplate name s = (r, t)" "\<not> HasPrefix name ''builtin:''"
  shows "known_template_names t = known_template_names s \<and> (r \<noteq> None \<longrightarrow> ToLower name \<in> known_template_names s)"
proof -
  obtain x u where l: "LoadTemplates s = (x, u)" by fastforce
  note names = LoadTemplates_names [OF l]
  from assms l have t: "t = u" by (auto simp: GetTemplate_def split: sum.splits option.splits)
  from names have known: "known_template_names u = known_template_names s"
    unfolding known_alt by (simp only:)
  have "ToLower name \<in> known_template_names s" if "r = Some v" for v
  proof -
    from assms l that consider ts where "x = Inr ts" "v \<in> set ts" "EqualFold (tName v) name" | "builtinByName name = Some v"
      by (auto simp: GetTemplate_def split: sum.splits option.splits dest: find_Some_set)
    then show ?thesis
    proof cases
      case 1
      with names have "tName v \<in> tName ` set (templates s)" by (metis imageI list.set_map)
      with 1(3) show ?thesis unfolding known_alt EqualFold_def by (metis UnI1 imageI list.set_map)
    next
      case 2
      then have "v \<in> set builtinTemplates \<and> EqualFold (tName v) name" unfolding builtinByName_def by (rule find_Some_set)
      then show ?thesis unfolding known_alt EqualFold_def by (metis UnI2 imageI list.set_map)
    qed
  qed
  with t known show ?thesis by auto
qed

definition tried :: "string \<Rightarrow> nat \<Rightarrow> string \<Rightarrow> nat \<Rightarrow> string" where
  "tried base n name i = (if i = 0 then name else base @ ''-'' @ Itoa (n + (i - 1)))"

lemma free_name_tried:
  assumes "\<not> HasPrefix name ''builtin:''" "\<And>m. \<not> HasPrefix (base @ ''-'' @ Itoa m) ''builtin:''"
  shows "free_name k base n name s = (None, t) \<Longrightarrow> i < k \<Longrightarrow> ToLower (tried base n name i) \<in> known_template_names s"
  using assms(1)
proof (induction k arbitrary: n name s i)
  case (Suc k)
  from Suc.prems(1) obtain v u where g: "GetTemplate name s = (Some v, u)"
    and r: "free_name k base (n + 1) (base @ ''-'' @ Itoa n) u = (None, t)"
    by (auto split: prod.splits option.splits)
  note known = GetTemplate_known [OF g Suc.prems(3)]
  show ?case
  proof (cases i)
    case 0
    with known show ?thesis by (simp add: tried_def)
  next
    case (Suc j)
    with Suc.prems(2) Suc.IH [OF r _ assms(2), of j] known show ?thesis by (cases j) (auto simp: tried_def)
  qed
qed simp

lemma ToLower_Itoa: "ToLower (Itoa n) = Itoa n"
proof -
  have "\<forall>c \<in> set (Itoa n). lower c = c"
    using Itoa_digits [of n] by (auto simp: list_all_iff lower_def char_defs)
  then show ?thesis by (simp add: ToLower_def map_idI)
qed

lemma tried_inj: "inj_on (\<lambda>i. ToLower (tried base n base i)) {..<k}"
proof (rule inj_onI)
  fix i j assume "ToLower (tried base n base i) = ToLower (tried base n base j)"
  moreover have "ToLower (a @ b) = ToLower a @ ToLower b" "ToLower (c # b) = lower c # ToLower b" for a b c
    by (simp_all add: ToLower_def)
  moreover have "ToLower (c # b) \<noteq> []" for b c by (simp add: ToLower_def)
  ultimately show "i = j" by (auto simp: tried_def ToLower_Itoa dest!: Itoa_inj split: if_splits)
qed

text \<open>
  Duplicating a built-in template always ends: among the names it tries, as many as there are templates and one more, is
  one that no template has, whatever templates are stored and whatever the disk does.
\<close>

lemma duplicate_terminates:
  "\<exists>name t. free_name (duplicate_rounds s) (''Copy-'' @ x) 2 (''Copy-'' @ x) s = (Some name, t)"
proof (rule ccontr)
  let ?base = "''Copy-'' @ x" and ?k = "duplicate_rounds s"
  assume "\<not> ?thesis"
  then obtain t where none: "free_name ?k ?base 2 ?base s = (None, t)" by (metis option.exhaust surj_pair)
  let ?f = "\<lambda>i. ToLower (tried ?base 2 ?base i)"
  have "?f ` {..<?k} \<subseteq> known_template_names s"
    using free_name_tried [OF _ _ none] by (auto simp: HasPrefix_def)
  moreover have "finite (known_template_names s)" by (simp add: known_template_names_def)
  ultimately have "card (?f ` {..<?k}) \<le> card (known_template_names s)" by (rule card_mono [rotated])
  then have "?k \<le> card (known_template_names s)" by (simp add: card_image [OF tried_inj])
  also have "\<dots> \<le> card (set (templates s) \<union> set builtinTemplates)" unfolding known_template_names_def by (rule card_image_le) simp
  also have "\<dots> \<le> card (set (templates s)) + card (set builtinTemplates)" by (rule card_Un_le)
  also have "\<dots> \<le> length (templates s) + length builtinTemplates" by (intro add_mono card_length)
  finally show False by (simp add: duplicate_rounds_def)
qed

section \<open>What reading templates changes\<close>

text \<open>Reading the templates may write them back migrated; nothing else changes.\<close>

definition migrated_only :: "store \<Rightarrow> store \<Rightarrow> bool" where
  "migrated_only s t \<longleftrightarrow> (\<exists>fs. t = s\<lparr>disk := fs\<rparr> \<or> t = s\<lparr>disk := fs, templates := migrateTemplates (templates s)\<rparr>)"

lemma migrated_only_refl [simp]: "migrated_only s s"
  unfolding migrated_only_def by (rule exI [of _ "disk s"]) simp

lemma migrated_only_disk: "migrated_only s (s\<lparr>disk := fs\<rparr>)"
  unfolding migrated_only_def by blast

lemma migrate_idem: "migrateTemplates (migrateTemplates ts) = migrateTemplates ts"
proof -
  have "migrateTemplate (migrateTemplate t) = migrateTemplate t" for t
    by (simp add: migrateTemplate_def Let_def all_algos_def)
  then show ?thesis by (simp add: migrateTemplates_def)
qed

lemma migrated_only_trans [trans]: "migrated_only s t \<Longrightarrow> migrated_only t u \<Longrightarrow> migrated_only s u"
proof -
  have commute: "s\<lparr>templates := ts, disk := fs\<rparr> = s\<lparr>disk := fs, templates := ts\<rparr>" for s :: store and ts fs by simp
  assume "migrated_only s t" "migrated_only t u"
  then show ?thesis unfolding migrated_only_def by (elim exE disjE) (auto simp: migrate_idem commute)
qed

lemma io_disk: "io f s = (r, t) \<Longrightarrow> \<exists>fs. t = s\<lparr>disk := fs\<rparr> \<or> t = f (s\<lparr>disk := fs\<rparr>)"
  by (rule io_cases) blast+

lemma readE_disk: "readE f s = (r, t) \<Longrightarrow> \<exists>fs. t = s\<lparr>disk := fs\<rparr>"
  by (auto simp: readE_def op_simps split: prod.splits sum.splits dest!: io_disk)

lemma LoadTemplates_effect: "LoadTemplates s = (r, t) \<Longrightarrow> migrated_only s t"
proof -
  assume l: "LoadTemplates s = (r, t)"
  obtain x u where x: "readE templates s = (x, u)" by fastforce
  from readE_disk [OF x] obtain fs where u: "u = s\<lparr>disk := fs\<rparr>" by blast
  show ?thesis
  proof (cases x)
    case (Inl e)
    with l x have "t = u" by (simp add: LoadTemplates_def bindE_Inl)
    with u show ?thesis by (simp add: migrated_only_disk)
  next
    case (Inr ts)
    with x have ts: "ts = templates s" by (auto dest: template_file.load_Inr)
    with l x Inr have "thenE (if migrateTemplates ts \<noteq> [] \<and> ts \<noteq> migrateTemplates ts then saveTemplates (migrateTemplates ts) else ret ())
        (ret (migrateTemplates ts)) u = (r, t)" by (simp only: LoadTemplates_def bindE_Inr Let_def)
    then have "t = u \<or> (\<exists>x. io (\<lambda>s. s\<lparr>templates := migrateTemplates ts\<rparr>) u = (x, t))"
      by (auto simp: thenE_def bindE_def saveTemplates_def split: if_splits prod.splits sum.splits)
    then show ?thesis
      using u ts unfolding migrated_only_def by (auto dest!: io_disk)
  qed
qed

lemma GetTemplate_effect: "GetTemplate name s = (r, t) \<Longrightarrow> migrated_only s t"
  by (auto simp: GetTemplate_def dest: LoadTemplates_effect split: if_splits prod.splits sum.splits option.splits)

lemma preserves_pure [keeps]: "preserves I (\<lambda>s. (f s, s))"
  by (simp add: preserves_def)

lemma preserves_GetTemplate:
  assumes "\<And>s t. migrated_only s t \<Longrightarrow> I s \<Longrightarrow> I t"
  shows "preserves I (\<lambda>s. case GetTemplate name s of (r, t) \<Rightarrow> (Inr r, t))"
proof (rule preservesI)
  fix s assume "I s"
  obtain r t where "GetTemplate name s = (r, t)" by fastforce
  then have "migrated_only s t" by (rule GetTemplate_effect)
  then have "I t" using \<open>I s\<close> by (rule assms)
  with \<open>GetTemplate name s = (r, t)\<close> show "I (snd (case GetTemplate name s of (r, t) \<Rightarrow> (Inr r, t)))" by simp
qed

end
