(* ===== verification/Definitions.thy ===== *)
theory Definitions
  imports Upsert ScepStore
begin

text \<open>
  Certificate definitions, \<open>definition_template.go\<close> and \<open>definition_store.go\<close>: how the certificate of a device
  looks. The common name and the SAN entries are templates with the placeholders \<open>{{ fqdn }}\<close>,
  \<open>{{ name }}\<close> and \<open>{{ ip }}\<close>. The expansion loop is shown equal to the substitution into the text that the
  template is parsed to, so a template that was accepted when it was saved never fails as such when it is used.
  \<open>put_definition\<close> provides the contract \<open>upsert\<close>. White space inside a placeholder is that of ASCII.
\<close>

section \<open>Templates\<close>

definition definitionVarLabels :: "string \<Rightarrow> string option" where
  "definitionVarLabels = [''fqdn'' \<mapsto> ''FQDN'', ''name'' \<mapsto> ''name'', ''ip'' \<mapsto> ''management IP'']"

text \<open>A Go map read at a missing key gives the empty string.\<close>

definition definitionSampleVals :: "string \<Rightarrow> string" where
  "definitionSampleVals k =
     (if k = ''fqdn'' then ''host.example.net'' else if k = ''name'' then ''host'' else if k = ''ip'' then ''192.0.2.1'' else [])"

definition lbraces :: string where "lbraces = ''{{''"
definition rbraces :: string where "rbraces = ''}}''"

text \<open>\<open>strings.Index\<close>.\<close>

fun Index :: "string \<Rightarrow> string \<Rightarrow> nat option" where
  "Index [] p = (if p = [] then Some 0 else None)"
| "Index (c # s) p = (if HasPrefix (c # s) p then Some 0 else map_option Suc (Index s p))"

lemma HasPrefix_length: "HasPrefix s p \<Longrightarrow> length p \<le> length s"
  by (auto simp: HasPrefix_iff)

lemma Index_bound: "Index s p = Some n \<Longrightarrow> n + length p \<le> length s"
  by (induction s arbitrary: n) (auto dest: HasPrefix_length split: if_splits)

text \<open>The loop of \<open>expandDefinitionTemplate\<close>: \<open>b\<close> is what it has written and \<open>emptyVar\<close> the first empty placeholder.\<close>

function expand :: "(string \<Rightarrow> string) \<Rightarrow> string \<Rightarrow> string \<Rightarrow> string \<Rightarrow> (string \<times> string) result" where
  "expand vals s b emptyVar =
     (case Index s lbraces of
        None \<Rightarrow>
          (if Index s rbraces = None then Inr (b @ s, emptyVar)
           else Inl (quoted s @ '' has a '' @ quoted rbraces @ '' without a matching '' @ quoted lbraces))
      | Some op \<Rightarrow>
          if (case Index s rbraces of None \<Rightarrow> False | Some shut \<Rightarrow> shut < op) then
            Inl (quoted s @ '' has a '' @ quoted rbraces @ '' without a matching '' @ quoted lbraces)
          else
            (case Index (drop (op + 2) s) rbraces of
               None \<Rightarrow> Inl (quoted s @ '' has a '' @ quoted lbraces @ '' without a closing '' @ quoted rbraces)
             | Some e \<Rightarrow>
                 let name = TrimSpace (take e (drop (op + 2) s)) in
                 if Contains name lbraces then
                   Inl (quoted s @ '' has a '' @ quoted lbraces @ '' without a closing '' @ quoted rbraces)
                 else if definitionVarLabels name = None then
                   Inl (''unknown placeholder {{ '' @ name @ '' }}: use {{ fqdn }}, {{ name }} or {{ ip }}'')
                 else
                   expand vals (drop (op + 2 + e + 2) s) (b @ take op s @ vals name)
                     (if vals name = [] \<and> emptyVar = [] then name else emptyVar)))"
  by pat_completeness auto
termination
  by (relation "measure (\<lambda>(_, s, _). length s)") (auto dest: Index_bound simp: lbraces_def rbraces_def)

declare expand.simps [simp del]

definition expandDefinitionTemplate :: "string \<Rightarrow> (string \<Rightarrow> string) \<Rightarrow> (string \<times> string) result" where
  "expandDefinitionTemplate s vals = expand vals s [] []"

text \<open>\<open>fmt.Errorf\<close> with the verb \<open>%w\<close>.\<close>

definition wrap :: "string \<Rightarrow> 'a result \<Rightarrow> 'a result" where
  "wrap msg r = (case r of Inl e \<Rightarrow> Inl (msg @ '': '' @ e) | Inr x \<Rightarrow> Inr x)"

lemma wrap_Inr_iff [simp]: "wrap msg r = Inr x \<longleftrightarrow> r = Inr x"
  by (auto simp: wrap_def split: sum.splits)

definition validDNSName :: "string \<Rightarrow> bool" where
  "validDNSName name \<longleftrightarrow> name \<noteq> [] \<and> length name \<le> 253 \<and>
     list_all (\<lambda>label. label \<noteq> [] \<and> length label \<le> 63 \<and> \<not> HasPrefix label ''-'' \<and> \<not> HasSuffix label ''-'' \<and>
        list_all (\<lambda>c. is_alnum c \<or> c = CHR ''-'') label) (Split CHR ''.'' name)"

definition check_san :: "string \<Rightarrow> string \<Rightarrow> (string \<Rightarrow> bool) \<Rightarrow> string \<Rightarrow> unit result" where
  "check_san what msg valid san =
     bindR (wrap what (expandDefinitionTemplate san definitionSampleVals)) (\<lambda>_.
       checkR (\<not> (\<not> Contains san lbraces \<and> \<not> valid san)) (what @ '' '' @ quoted san @ msg))"

definition checkDefinitionTemplates :: "string \<Rightarrow> string list \<Rightarrow> string list \<Rightarrow> unit result" where
  "checkDefinitionTemplates cn dnsSANs ipSANs =
     (if cn = [] then Inl ''common name is required''
      else
        bindR (wrap ''common name'' (expandDefinitionTemplate cn definitionSampleVals)) (\<lambda>_.
        bindR (check_all (check_san ''DNS SAN'' '' is not a valid DNS name or template'' validDNSName) dnsSANs) (\<lambda>_.
        check_all (check_san ''IP SAN'' '' is not an IP address or template'' (\<lambda>san. ParseIP san \<noteq> None)) ipSANs)))"

definition deviceVals :: "Device \<Rightarrow> string \<Rightarrow> string" where
  "deviceVals dev k =
     (if k = ''fqdn'' then dFQDN dev else if k = ''name'' then dName dev else if k = ''ip'' then dManagementIP dev else [])"

text \<open>The two loops over the SAN entries; \<open>seen\<close> holds the values that were taken.\<close>

fun subject_dns :: "(string \<Rightarrow> string) \<Rightarrow> string set \<Rightarrow> string list \<Rightarrow> string list result" where
  "subject_dns vals seen [] = Inr []"
| "subject_dns vals seen (t # ts) =
     bindR (wrap ''DNS SAN'' (expandDefinitionTemplate t vals)) (\<lambda>(v, unset).
       if unset \<noteq> [] \<or> v \<in> seen then subject_dns vals seen ts
       else bindR (subject_dns vals (insert v seen) ts) (\<lambda>vs. Inr (v # vs)))"

fun subject_ips :: "(string \<Rightarrow> string) \<Rightarrow> string set \<Rightarrow> string list \<Rightarrow> addr list result" where
  "subject_ips vals seen [] = Inr []"
| "subject_ips vals seen (t # ts) =
     bindR (wrap ''IP SAN'' (expandDefinitionTemplate t vals)) (\<lambda>(v, unset).
       if unset \<noteq> [] then subject_ips vals seen ts
       else (case ParseIP v of
           None \<Rightarrow> Inl (''IP SAN '' @ quoted v @ '' is not a valid IP address for this device'')
         | Some ip \<Rightarrow>
             if addr_string ip \<in> seen then subject_ips vals seen ts
             else bindR (subject_ips vals (insert (addr_string ip) seen) ts) (\<lambda>ips. Inr (ip # ips))))"

definition definitionSubject :: "CertDefinition \<Rightarrow> Device \<Rightarrow> (string \<times> string list \<times> addr list) result" where
  "definitionSubject def dev =
     (let vals = deviceVals dev in
      bindR (wrap ''common name'' (expandDefinitionTemplate (fCommonName def) vals)) (\<lambda>(cn, unset).
      if unset \<noteq> [] then
        Inl (''common name template needs the device '' @ the (definitionVarLabels unset) @ '', which is empty'')
      else if cn = [] then Inl ''common name is empty''
      else
        bindR (subject_dns vals {} (fDNSSANs def)) (\<lambda>dns.
        bindR (subject_ips vals {} (fIPSANs def)) (\<lambda>ips.
          Inr (cn, dns, ips)))))"

definition definitionCNName :: string where "definitionCNName = ''name''"

definition migrateLegacyDefinition :: "CertDefinition \<Rightarrow> CertDefinition" where
  "migrateLegacyDefinition d =
     (if fCommonName d \<noteq> [] then d
      else d\<lparr>fCommonName := (if fCNSource d = definitionCNName then ''{{ name }}'' else ''{{ fqdn }}''),
        fIPSANs := ''{{ ip }}'' # filter (\<lambda>san. ParseIP san \<noteq> None) (fExtraSANs d),
        fDNSSANs := ''{{ fqdn }}'' # filter (\<lambda>san. ParseIP san = None) (fExtraSANs d),
        fExtraSANs := [], fCNSource := []\<rparr>)"

section \<open>The store of definitions\<close>

definition errDefinitionNameTaken :: error where
  "errDefinitionNameTaken = ''a definition with this name already exists''"

definition errDefinitionNotFound :: error where
  "errDefinitionNotFound = ''definition not found''"

definition loadDefinitions :: "CertDefinition list sop" where
  "loadDefinitions = bindE (readE definitions) (\<lambda>defs. ret (map migrateLegacyDefinition defs))"

definition saveDefinitions :: "CertDefinition list \<Rightarrow> unit sop" where
  "saveDefinitions defs = io (\<lambda>s. s\<lparr>definitions := defs\<rparr>)"

definition ListDefinitions :: "CertDefinition list sop" where
  "ListDefinitions = bindE loadDefinitions (\<lambda>defs. ret (sort_key (\<lambda>d. ToLower (fName d)) defs))"

definition GetDefinition :: "string \<Rightarrow> CertDefinition option sop" where
  "GetDefinition k = bindE loadDefinitions (\<lambda>defs. ret (find (\<lambda>d. fID d = k) defs))"

text \<open>The change \<open>SaveDefinition\<close> makes to the list; the new id is random.\<close>

definition put_definition ::
  "time \<Rightarrow> string \<Rightarrow> CertDefinition \<Rightarrow> CertDefinition list \<Rightarrow> (CertDefinition \<times> CertDefinition list) result" where
  "put_definition now newid d0 defs =
     (let d = d0\<lparr>fUpdated := now\<rparr> in
      if \<exists>e \<in> set defs. EqualFold (fName e) (fName d) \<and> fID e \<noteq> fID d then Inl errDefinitionNameTaken
      else if fID d = [] then
        (let d = d\<lparr>fID := newid, fCreated := now\<rparr> in Inr (d, defs @ [d]))
      else
        (case find (\<lambda>e. fID e = fID d) (rev defs) of
           None \<Rightarrow> Inl errDefinitionNotFound
         | Some old \<Rightarrow>
             let d = d\<lparr>fCreated := fCreated old\<rparr> in
             Inr (d, the (replace_last (\<lambda>e. fID e = fID d) (\<lambda>_. d) defs))))"

definition SaveDefinition :: "time \<Rightarrow> string \<Rightarrow> CertDefinition \<Rightarrow> CertDefinition sop" where
  "SaveDefinition now newid d =
     bindE loadDefinitions (\<lambda>defs. bindE (liftE (put_definition now newid d defs)) (\<lambda>(d', defs').
       thenE (saveDefinitions defs') (ret d')))"

definition DeleteDefinition :: "string \<Rightarrow> unit sop" where
  "DeleteDefinition k =
     bindE loadDefinitions (\<lambda>defs.
       if \<not> (\<exists>d \<in> set defs. fID d = k) then throw errDefinitionNotFound
       else saveDefinitions (filter (\<lambda>d. fID d \<noteq> k) defs))"

interpretation definition_save: upsert fID "\<lambda>d. ToLower (fName d)" "put_definition now" for now
proof
  fix n x xs y ys
  assume s: "put_definition now n x xs = Inr (y, ys)"
  show "fID y = n \<and> ToLower (fName y) = ToLower (fName x) \<and> ys = xs @ [y]" if "fID x = []"
    using s that by (auto simp: put_definition_def Let_def split: if_splits)
  show "fID y = fID x \<and> ToLower (fName y) = ToLower (fName x) \<and>
      (\<exists>us v vs. xs = us @ v # vs \<and> fID v = fID x \<and> ys = us @ y # vs)" if ne: "fID x \<noteq> []"
  proof -
    from s ne obtain old where old: "find (\<lambda>e. fID e = fID x) (rev xs) = Some old"
      and y: "y = x\<lparr>fUpdated := now, fCreated := fCreated old\<rparr>"
      and ys: "ys = the (replace_last (\<lambda>e. fID e = fID x) (\<lambda>_. y) xs)"
      by (auto simp: put_definition_def Let_def split: if_splits option.splits)
    from replace_last_found [OF old, of "\<lambda>_. y"] ys have "replace_last (\<lambda>e. fID e = fID x) (\<lambda>_. y) xs = Some ys" by auto
    from replace_last_Some [OF this] y show ?thesis by auto
  qed
  show "fID o' = fID x" if "o' \<in> set xs" "ToLower (fName o') = ToLower (fName x)" for o'
    using s that by (auto simp: put_definition_def Let_def EqualFold_def split: if_splits)
qed

section \<open>What the expansion computes\<close>

text \<open>
  A template as text and placeholders. The text before a placeholder holds no pair of braces and does not end in a
  brace that would move the pair.
\<close>

datatype piece = Text string | Var string

definition plain :: "string \<Rightarrow> bool" where
  "plain t \<longleftrightarrow> Index t lbraces = None \<and> Index t rbraces = None"

inductive template :: "string \<Rightarrow> piece list \<Rightarrow> bool" where
  only_text: "plain t \<Longrightarrow> template t [Text t]"
| placeholder: "plain t \<Longrightarrow> t = [] \<or> last t \<noteq> CHR ''{'' \<Longrightarrow> TrimSpace inner = v \<Longrightarrow> definitionVarLabels v \<noteq> None \<Longrightarrow>
    template rest ps \<Longrightarrow> template (t @ lbraces @ inner @ rbraces @ rest) (Text t # Var v # ps)"

fun fill :: "(string \<Rightarrow> string) \<Rightarrow> piece \<Rightarrow> string" where
  "fill vals (Text t) = t"
| "fill vals (Var v) = vals v"

fun first_empty :: "(string \<Rightarrow> string) \<Rightarrow> piece list \<Rightarrow> string" where
  "first_empty vals [] = []"
| "first_empty vals (Text t # ps) = first_empty vals ps"
| "first_empty vals (Var v # ps) = (if vals v = [] then v else first_empty vals ps)"

lemma Index_take: "Index (take k s) p = Some n \<Longrightarrow> Index s p = Some n"
proof (induction s arbitrary: k n)
  case (Cons c s)
  show ?case
  proof (cases k)
    case 0
    with Cons.prems have "p = []" "n = 0" by (auto split: if_splits)
    then show ?thesis by (simp add: HasPrefix_def)
  next
    case (Suc j)
    have "HasPrefix (c # s) p" if "HasPrefix (c # take j s) p"
      using that append_take_drop_id [of j s] unfolding HasPrefix_iff by (metis append_Cons append_assoc)
    moreover have "\<not> HasPrefix (c # s) p" if "\<not> HasPrefix (c # take j s) p" "Index (take j s) p = Some m" for m
    proof -
      from Index_bound [OF that(2)] have "length p \<le> Suc j" by simp
      then have "take (length p) (c # take j s) = take (length p) (c # s)" by (cases p) simp_all
      with that(1) show ?thesis by (simp only: HasPrefix_def simp_thms)
    qed
    ultimately show ?thesis using Cons Suc by (auto split: if_splits)
  qed
qed simp

lemma Index_split: "Index s p = Some n \<Longrightarrow> s = take n s @ p @ drop (n + length p) s"
proof (induction s arbitrary: n)
  case (Cons c s)
  show ?case
  proof (cases "HasPrefix (c # s) p")
    case True
    with Cons.prems have "n = 0" by simp
    with True show ?thesis unfolding HasPrefix_iff by auto
  next
    case False
    with Cons.prems obtain m where "Index s p = Some m" "n = Suc m" by auto
    with Cons.IH [of m] show ?thesis by simp
  qed
qed (auto split: if_splits)

lemma HasPrefix_pair: "HasPrefix s [c, c] \<longleftrightarrow> (\<exists>t. s = c # c # t)"
  by (auto simp: HasPrefix_iff)

lemma Index_before: "Index s [c, c] = Some n \<Longrightarrow> n = 0 \<or> s ! (n - 1) \<noteq> c"
proof (induction s arbitrary: n)
  case (Cons x s)
  show ?case
  proof (cases n)
    case (Suc m)
    with Cons.prems have m: "\<not> HasPrefix (x # s) [c, c]" "Index s [c, c] = Some m" by (auto split: if_splits)
    show ?thesis
    proof (cases m)
      case 0
      with Index_split [OF m(2)] m(1) Suc show ?thesis by (auto simp: HasPrefix_pair)
    next
      case (Suc k)
      with Cons.IH [OF m(2)] \<open>n = Suc m\<close> show ?thesis by simp
    qed
  qed simp
qed simp

lemma Index_pair: "Index t [c, c] = None \<Longrightarrow> t = [] \<or> last t \<noteq> c \<Longrightarrow> Index (t @ c # c # r) [c, c] = Some (length t)"
proof (induction t)
  case (Cons x t)
  then have "\<not> HasPrefix (x # t) [c, c]" "Index t [c, c] = None" by (auto split: if_splits)
  moreover have "\<not> HasPrefix (x # t @ c # c # r) [c, c]"
    using calculation(1) Cons.prems(2) by (cases t) (auto simp: HasPrefix_pair)
  moreover have "t = [] \<or> last t \<noteq> c" using Cons.prems(2) by auto
  ultimately show ?case using Cons.IH by simp
qed (simp add: HasPrefix_pair)

lemma Index_other: "Index t [c, c] = None \<Longrightarrow> d \<noteq> c \<Longrightarrow> Index (t @ d # r) [c, c] = Some n \<Longrightarrow> length t \<le> n"
proof (induction t arbitrary: n)
  case (Cons x t)
  then have "\<not> HasPrefix (x # t) [c, c]" and t: "Index t [c, c] = None" by (auto split: if_splits)
  with Cons.prems(2) have "\<not> HasPrefix (x # t @ d # r) [c, c]" by (cases t) (auto simp: HasPrefix_pair)
  with Cons.prems(3) obtain m where "n = Suc m" "Index (t @ d # r) [c, c] = Some m" by auto
  with Cons.IH [OF t Cons.prems(2)] show ?case by simp
qed simp

lemma in_TrimSpace: "c \<in> set s \<Longrightarrow> is_space c \<or> c \<in> set (TrimSpace s)"
proof -
  have drop: "c \<in> set t \<Longrightarrow> is_space c \<or> c \<in> set (dropWhile is_space t)" for t
    by (induction t) auto
  assume "c \<in> set s"
  with drop [of s] drop [of "rev (dropWhile is_space s)"] show ?thesis
    by (auto simp: TrimSpace_def TrimLeft_def TrimRight_def)
qed

lemma known_names: "definitionVarLabels v \<noteq> None \<longleftrightarrow> v \<in> {''fqdn'', ''name'', ''ip''}"
  by (auto simp: definitionVarLabels_def)

lemma known_placeholder:
  assumes "definitionVarLabels (TrimSpace inner) \<noteq> None"
  shows "\<not> Contains (TrimSpace inner) lbraces" and "TrimSpace inner \<noteq> []" and "CHR ''}'' \<notin> set inner"
proof -
  from assms have v: "TrimSpace inner \<in> {''fqdn'', ''name'', ''ip''}" by (simp only: known_names)
  then show "\<not> Contains (TrimSpace inner) lbraces" by (auto simp: lbraces_def HasPrefix_def)
  from v show "TrimSpace inner \<noteq> []" by auto
  from v have "CHR ''}'' \<notin> set (TrimSpace inner)" by auto
  moreover have "\<not> is_space CHR ''}''" by (simp add: is_space_def ascii_def)
  ultimately show "CHR ''}'' \<notin> set inner" using in_TrimSpace by blast
qed

lemma Index_absent: "c \<notin> set t \<Longrightarrow> Index t [c, c] = None"
  by (induction t) (auto simp: HasPrefix_pair)

lemma plain_prefix:
  assumes "Index s lbraces = Some op" and "\<not> (case Index s rbraces of None \<Rightarrow> False | Some shut \<Rightarrow> shut < op)"
  shows "plain (take op s)" and "take op s = [] \<or> last (take op s) \<noteq> CHR ''{''"
    and "s = take op s @ lbraces @ drop (op + 2) s"
proof -
  from Index_bound [OF assms(1)] have op: "op + 2 \<le> length s" by (simp add: lbraces_def)
  have "Index (take op s) p = None" if "\<And>n. Index s p = Some n \<Longrightarrow> op \<le> n" "length p = 2" for p
  proof (rule ccontr)
    assume "Index (take op s) p \<noteq> None"
    then obtain n where n: "Index (take op s) p = Some n" by blast
    from Index_bound [OF n] that(1) [OF Index_take [OF n]] that(2) op show False by simp
  qed
  from this [of lbraces] this [of rbraces] assms show "plain (take op s)"
    by (auto simp: plain_def lbraces_def rbraces_def not_less split: option.splits)
  from Index_before [of s "CHR ''{''" op] assms(1) op show "take op s = [] \<or> last (take op s) \<noteq> CHR ''{''"
    by (cases op) (auto simp: lbraces_def last_conv_nth min_def)
  from Index_split [OF assms(1)] show "s = take op s @ lbraces @ drop (op + 2) s" by (simp add: lbraces_def)
qed

lemma expand_step:
  assumes "Index s lbraces = Some op" and "\<not> (case Index s rbraces of None \<Rightarrow> False | Some shut \<Rightarrow> shut < op)"
    and "Index (drop (op + 2) s) rbraces = Some e" and "definitionVarLabels (TrimSpace (take e (drop (op + 2) s))) \<noteq> None"
  shows "expand vals s b e0 = expand vals (drop (op + 2 + e + 2) s) (b @ take op s @ vals (TrimSpace (take e (drop (op + 2) s))))
    (if vals (TrimSpace (take e (drop (op + 2) s))) = [] \<and> e0 = [] then TrimSpace (take e (drop (op + 2) s)) else e0)"
  using assms known_placeholder(1) [OF assms(4)] by (subst expand.simps) (auto simp: Let_def)

lemma expand_complete:
  "template s ps \<Longrightarrow> expand vals s b e0 = Inr (b @ concat (map (fill vals) ps), if e0 = [] then first_empty vals ps else e0)"
proof (induction arbitrary: b e0 rule: template.induct)
  case (only_text t)
  then show ?case by (subst expand.simps) (simp add: plain_def)
next
  case (placeholder t inner v rest ps)
  note known = known_placeholder [of inner, unfolded placeholder.hyps(3), OF placeholder.hyps(4)]
  let ?s = "t @ lbraces @ inner @ rbraces @ rest"
  have op: "Index ?s lbraces = Some (length t)"
    using Index_pair [of t "CHR ''{''"] placeholder.hyps(1,2) by (simp add: plain_def lbraces_def)
  have shut: "\<not> (case Index ?s rbraces of None \<Rightarrow> False | Some shut \<Rightarrow> shut < length t)"
    using Index_other [of t "CHR ''}''" "CHR ''{''" "CHR ''{'' # inner @ rbraces @ rest"] placeholder.hyps(1)
    by (auto simp: plain_def lbraces_def rbraces_def split: option.split)
  have d: "drop (length t + 2) ?s = inner @ rbraces @ rest" by (simp add: lbraces_def)
  have e: "Index (drop (length t + 2) ?s) rbraces = Some (length inner)"
  proof -
    have "inner = [] \<or> last inner \<noteq> CHR ''}''" using known(3) last_in_set [of inner] by metis
    from Index_pair [OF Index_absent [OF known(3)] this] show ?thesis unfolding d by (simp add: rbraces_def)
  qed
  have "length t + 2 + length inner + 2 = length (t @ lbraces @ inner @ rbraces)" by (simp add: lbraces_def rbraces_def)
  then have rest: "drop (length t + 2 + length inner + 2) ?s = rest" by simp
  have inner: "take (length inner) (drop (length t + 2) ?s) = inner" unfolding d by simp
  from expand_step [OF op shut e] placeholder.hyps(3,4) placeholder.IH known(2) show ?case
    unfolding inner rest by simp
qed

lemma expand_sound:
  "expand vals s b e0 = Inr r \<Longrightarrow> \<exists>ps. template s ps"
proof (induction vals s b e0 rule: expand.induct)
  case (1 vals s b e0)
  show ?case
  proof (cases "Index s lbraces")
    case None
    with 1(2) have "Index s rbraces = None" by (subst (asm) expand.simps) (auto split: if_splits)
    with None have "template s [Text s]" by (intro template.only_text) (simp add: plain_def)
    then show ?thesis by blast
  next
    case (Some op)
    let ?rest = "drop (op + 2) s"
    from 1(2) Some have shut: "\<not> (case Index s rbraces of None \<Rightarrow> False | Some shut \<Rightarrow> shut < op)"
      by (subst (asm) expand.simps) (auto split: if_splits)
    from 1(2) Some shut obtain e where e: "Index ?rest rbraces = Some e"
      by (subst (asm) expand.simps) (auto split: if_splits option.splits)
    let ?v = "TrimSpace (take e ?rest)"
    from 1(2) Some shut e have v: "\<not> Contains ?v lbraces" "definitionVarLabels ?v \<noteq> None"
      by (subst (asm) expand.simps, simp add: Let_def split: if_splits)+
    from 1(2) [unfolded expand_step [OF Some shut e v(2)]] 1(1) [OF Some shut e refl v] obtain ps
      where ps: "template (drop (op + 2 + e + 2) s) ps" by auto
    have "s = take op s @ lbraces @ take e ?rest @ rbraces @ drop (op + 2 + e + 2) s"
      using plain_prefix(3) [OF Some shut] Index_split [OF e]
      by (metis (no_types, lifting) add.commute add.left_commute drop_drop length_Cons list.size(3) numeral_2_eq_2 One_nat_def plus_1_eq_Suc rbraces_def)
    moreover have "template (take op s @ lbraces @ take e ?rest @ rbraces @ drop (op + 2 + e + 2) s)
        (Text (take op s) # Var ?v # ps)"
      by (rule template.placeholder [OF plain_prefix(1,2) [OF Some shut] refl v(2) ps])
    ultimately show ?thesis by metis
  qed
qed

lemma expand_template:
  "template s ps \<Longrightarrow> expandDefinitionTemplate s vals = Inr (concat (map (fill vals) ps), first_empty vals ps)"
  using expand_complete [of s ps vals "[]" "[]"] by (simp add: expandDefinitionTemplate_def)

lemma expand_obtain:
  assumes "expandDefinitionTemplate s vals = Inr (out, unset)"
  obtains ps where "template s ps" "out = concat (map (fill vals) ps)" "unset = first_empty vals ps"
proof -
  from assms expand_sound obtain ps where ps: "template s ps" unfolding expandDefinitionTemplate_def by blast
  from expand_template [OF ps, of vals] assms that [OF ps] show ?thesis by simp
qed

text \<open>
  C17. The expansion of a template is the substitution of the device's values into the text and the placeholders
  that it consists of, and names the first placeholder whose value is empty; it fails exactly on the strings that
  are no template.
\<close>

theorem expandDefinitionTemplate_iff:
  "expandDefinitionTemplate s vals = Inr (out, unset) \<longleftrightarrow>
     (\<exists>ps. template s ps \<and> out = concat (map (fill vals) ps) \<and> unset = first_empty vals ps)"
  by (auto simp: expand_template elim: expand_obtain)

lemma expand_any_values:
  "expandDefinitionTemplate s vals = Inr r \<Longrightarrow> \<exists>r'. expandDefinitionTemplate s vals' = Inr r'"
  by (metis expand_obtain expand_template surj_pair)

lemma expand_text: "Index s lbraces = None \<Longrightarrow> expandDefinitionTemplate s vals = Inr r \<Longrightarrow> r = (s, [])"
  unfolding expandDefinitionTemplate_def by (subst (asm) expand.simps) (auto split: if_splits)

lemma Contains_Index: "Contains s p \<longleftrightarrow> Index s p \<noteq> None"
  by (induction s) auto

lemma expand_nonempty:
  assumes "expandDefinitionTemplate s vals = Inr (out, [])" and "s \<noteq> []"
  shows "out \<noteq> []"
proof -
  have known: "definitionVarLabels [] = None" by (simp add: definitionVarLabels_def)
  have "template s ps \<Longrightarrow> first_empty vals ps = [] \<Longrightarrow> s \<noteq> [] \<Longrightarrow> concat (map (fill vals) ps) \<noteq> []" for ps
    by (induction rule: template.induct) (use known in \<open>auto split: if_splits\<close>)
  with assms show ?thesis by (metis expand_obtain)
qed

section \<open>Checked definitions\<close>

lemma subject_dns_iff:
  "subject_dns vals seen ts = Inr dns \<Longrightarrow>
     distinct dns \<and> set dns \<inter> seen = {} \<and> set dns \<union> seen = {v. \<exists>t \<in> set ts. expandDefinitionTemplate t vals = Inr (v, [])} \<union> seen"
proof (induction vals seen ts arbitrary: dns rule: subject_dns.induct)
  case (2 vals seen t ts)
  then obtain v e where e: "expandDefinitionTemplate t vals = Inr (v, e)"
    and r: "(if e \<noteq> [] \<or> v \<in> seen then subject_dns vals seen ts
       else bindR (subject_dns vals (insert v seen) ts) (\<lambda>vs. Inr (v # vs))) = Inr dns" by auto
  show ?case
  proof (cases "e \<noteq> [] \<or> v \<in> seen")
    case True
    with 2(1) [of e v dns] e r show ?thesis by auto
  next
    case False
    with r obtain vs where vs: "subject_dns vals (insert v seen) ts = Inr vs" "dns = v # vs" by auto
    from 2(2) [OF False vs(1)] e have
      "distinct vs \<and> set vs \<inter> insert v seen = {} \<and>
       set vs \<union> insert v seen = {v. \<exists>t \<in> set ts. expandDefinitionTemplate t vals = Inr (v, [])} \<union> insert v seen" by auto
    with vs(2) e False show ?thesis by auto
  qed
qed simp

lemma subject_ips_iff:
  "subject_ips vals seen ts = Inr ips \<Longrightarrow>
     distinct (map addr_string ips) \<and> addr_string ` set ips \<inter> seen = {} \<and>
     addr_string ` set ips \<union> seen =
       {addr_string ip | t v ip. t \<in> set ts \<and> expandDefinitionTemplate t vals = Inr (v, []) \<and> ParseIP v = Some ip} \<union> seen"
proof (induction vals seen ts arbitrary: ips rule: subject_ips.induct)
  case (2 vals seen t ts)
  then obtain v e where e: "expandDefinitionTemplate t vals = Inr (v, e)" by (auto split: prod.splits)
  show ?case
  proof (cases "e \<noteq> []")
    case True
    with 2(1) [of e ips] 2(4) e show ?thesis by auto
  next
    case False
    with 2(4) e obtain ip where ip: "ParseIP v = Some ip" by (auto split: option.splits)
    show ?thesis
    proof (cases "addr_string ip \<in> seen")
      case True
      with 2(2) [of e v ip ips] 2(4) e ip False show ?thesis by auto
    next
      case new: False
      with 2(4) e ip False obtain rest where r: "subject_ips vals (insert (addr_string ip) seen) ts = Inr rest" "ips = ip # rest"
        by auto
      from 2(3) [OF False ip new r(1)] e have
        "distinct (map addr_string rest) \<and> addr_string ` set rest \<inter> insert (addr_string ip) seen = {} \<and>
         addr_string ` set rest \<union> insert (addr_string ip) seen =
           {addr_string ip | t v ip. t \<in> set ts \<and> expandDefinitionTemplate t vals = Inr (v, []) \<and> ParseIP v = Some ip}
           \<union> insert (addr_string ip) seen" by auto
      with r(2) e ip False new show ?thesis by auto
    qed
  qed
qed simp

text \<open>
  The certificate of a device: the subject that a definition gives has a common name that rest not empty, exactly the
  DNS entries and addresses that its templates yield with no placeholder left empty, and no entry twice.
\<close>

lemma definitionSubject_spec:
  assumes "definitionSubject def dev = Inr (cn, dns, ips)"
  shows "expandDefinitionTemplate (fCommonName def) (deviceVals dev) = Inr (cn, []) \<and> cn \<noteq> [] \<and>
    set dns = {v. \<exists>t \<in> set (fDNSSANs def). expandDefinitionTemplate t (deviceVals dev) = Inr (v, [])} \<and> distinct dns \<and>
    addr_string ` set ips =
      {addr_string ip | t v ip. t \<in> set (fIPSANs def) \<and> expandDefinitionTemplate t (deviceVals dev) = Inr (v, []) \<and>
         ParseIP v = Some ip} \<and> distinct ips"
proof -
  from assms have cn: "expandDefinitionTemplate (fCommonName def) (deviceVals dev) = Inr (cn, [])" "cn \<noteq> []"
    and dns: "subject_dns (deviceVals dev) {} (fDNSSANs def) = Inr dns"
    and ips: "subject_ips (deviceVals dev) {} (fIPSANs def) = Inr ips"
    by (auto simp: definitionSubject_def Let_def split: if_splits)
  from subject_ips_iff [OF ips] have "distinct ips" by (simp add: distinct_map)
  with cn subject_dns_iff [OF dns] subject_ips_iff [OF ips] show ?thesis by simp
qed

lemma subject_dns_total:
  "\<forall>t \<in> set ts. \<exists>r. expandDefinitionTemplate t vals = Inr r \<Longrightarrow> \<exists>dns. subject_dns vals seen ts = Inr dns"
proof (induction ts arbitrary: seen)
  case (Cons t ts)
  then obtain v e where "expandDefinitionTemplate t vals = Inr (v, e)" by fastforce
  moreover from Cons obtain d1 d2 where "subject_dns vals seen ts = Inr d1" "subject_dns vals (insert v seen) ts = Inr d2"
    by fastforce
  ultimately show ?case by (simp add: wrap_def)
qed simp

lemma subject_ips_failure:
  "\<forall>t \<in> set ts. \<exists>r. expandDefinitionTemplate t vals = Inr r \<Longrightarrow> subject_ips vals seen ts = Inl e \<Longrightarrow>
     \<exists>t \<in> set ts. \<exists>v. expandDefinitionTemplate t vals = Inr (v, []) \<and> ParseIP v = None"
proof (induction ts arbitrary: seen)
  case (Cons t ts)
  then obtain v x where v: "expandDefinitionTemplate t vals = Inr (v, x)" by fastforce
  show ?case
  proof (cases "x = [] \<and> ParseIP v = None")
    case True
    with v show ?thesis by auto
  next
    case False
    with Cons.prems(2) v obtain seen' where "subject_ips vals seen' ts = Inl e"
      by (auto simp: wrap_def bindR_def split: if_splits option.splits sum.splits)
    with Cons show ?thesis by auto
  qed
qed simp

lemma first_empty_value: "first_empty vals ps \<noteq> [] \<Longrightarrow> vals (first_empty vals ps) = []"
proof (induction ps)
  case (Cons p ps)
  then show ?case by (cases p) (auto split: if_splits)
qed simp

lemma check_san_Inr: "check_san what msg valid san = Inr u \<Longrightarrow>
    (\<exists>ps. template san ps) \<and> (Contains san lbraces \<or> valid san)"
  by (auto simp: check_san_def elim: expand_obtain)

text \<open>
  A definition that passed the checks of its form never fails as a template when it is pushed to a device: the
  only errors are a placeholder of the common name that the device leaves empty, and a templated address entry that is no
  address for the device. In particular the common name that is filled in is never empty.
\<close>

lemma checked_definition_fails_only_on_values:
  assumes "checkDefinitionTemplates (fCommonName def) (fDNSSANs def) (fIPSANs def) = Inr ()"
    and "definitionSubject def dev = Inl e"
  shows "(\<exists>cn k. k \<noteq> [] \<and> deviceVals dev k = [] \<and> expandDefinitionTemplate (fCommonName def) (deviceVals dev) = Inr (cn, k)) \<or>
    (\<exists>t \<in> set (fIPSANs def). Contains t lbraces \<and>
       (\<exists>v. expandDefinitionTemplate t (deviceVals dev) = Inr (v, []) \<and> ParseIP v = None))"
proof -
  let ?vals = "deviceVals dev"
  from assms(1) have cn: "fCommonName def \<noteq> []" "\<exists>ps. template (fCommonName def) ps"
    and sans: "\<forall>t \<in> set (fDNSSANs def). \<exists>ps. template t ps"
      "\<forall>t \<in> set (fIPSANs def). (\<exists>ps. template t ps) \<and> (Contains t lbraces \<or> ParseIP t \<noteq> None)"
    by (auto simp: checkDefinitionTemplates_def elim!: expand_obtain dest!: check_san_Inr split: if_splits)
  obtain name unset where x: "expandDefinitionTemplate (fCommonName def) ?vals = Inr (name, unset)"
    using cn(2) expand_template by blast
  show ?thesis
  proof (cases "unset = []")
    case False
    obtain ps where "unset = first_empty ?vals ps" using expand_obtain [OF x] by blast
    with first_empty_value False have "?vals unset = []" by metis
    with x False show ?thesis by blast
  next
    case True
    with x cn(1) expand_nonempty have "name \<noteq> []" by blast
    obtain dns where "subject_dns ?vals {} (fDNSSANs def) = Inr dns"
      using subject_dns_total [of "fDNSSANs def" ?vals] sans(1) expand_template by metis
    with assms(2) x True \<open>name \<noteq> []\<close> have "subject_ips ?vals {} (fIPSANs def) = Inl e"
      by (auto simp: definitionSubject_def wrap_def bindR_def Let_def split: sum.splits)
    with subject_ips_failure [of "fIPSANs def" ?vals] sans(2) expand_template
    obtain t v where t: "t \<in> set (fIPSANs def)" "expandDefinitionTemplate t ?vals = Inr (v, [])" "ParseIP v = None" by metis
    have "Contains t lbraces"
    proof (rule ccontr)
      assume "\<not> Contains t lbraces"
      with t sans(2) expand_text [of t ?vals] show False by (auto simp: Contains_Index)
    qed
    with t show ?thesis by blast
  qed
qed

definition example_definition :: CertDefinition where
  "example_definition = \<lparr>fID = [], fName = ''web'', fCAID = ''root'', fProfile = ''TLS-Server'', fCountry = ''NL'', fState = ''Utrecht'',
     fOrganization = ''Lab'', fCity = [], fOU = [], fValidDays = 90, fCertID = ''netanchor-web'',
     fCommonName = ''{{ name }}.lab'', fDNSSANs = [''{{fqdn}}'', ''{{ name }}.lab'', ''sw1.lab''], fIPSANs = [''{{ fqdn }}''],
     fExtraSANs = [], fCNSource = [], fCreated = 0, fUpdated = 0\<rparr>"

definition example_target :: Device where
  "example_target = \<lparr>dID = ''d1'', dName = ''sw1'', dFQDN = [], dManagementIP = ''10.0.0.1'', dPort = 9339,
     dPlatform = [], dSite = [], dTags = [], dNotes = [], dModel = [], dSerial = [], dPin = [], dPinAddress = [],
     dCredentials = None, dSnapshot = None, dCreated = 0, dUpdated = 0\<rparr>"

lemma example_subject: "definitionSubject example_definition example_target = Inr (''sw1.lab'', [''sw1.lab''], [])"
  by code_simp

theorem definitionSubject_spec_witness:
  "set [''sw1.lab''] = {v. \<exists>t \<in> set (fDNSSANs example_definition).
     expandDefinitionTemplate t (deviceVals example_target) = Inr (v, [])}"
  using definitionSubject_spec [OF example_subject] by blast

theorem checked_definition_fails_only_on_values_witness:
  "\<exists>cn k. k \<noteq> [] \<and> deviceVals example_target k = [] \<and> expandDefinitionTemplate ''{{ fqdn }}'' (deviceVals example_target) = Inr (cn, k)"
proof -
  let ?def = "example_definition\<lparr>fCommonName := ''{{ fqdn }}'', fDNSSANs := [], fIPSANs := []\<rparr>"
  have "checkDefinitionTemplates (fCommonName ?def) (fDNSSANs ?def) (fIPSANs ?def) = Inr ()" by code_simp
  moreover have "definitionSubject ?def example_target = Inl ''common name template needs the device FQDN, which is empty''"
    by code_simp
  ultimately show ?thesis using checked_definition_fails_only_on_values [of ?def example_target] by simp
qed

end
