(* ===== verification/DefinitionHttp.thy ===== *)
theory DefinitionHttp
  imports Web Definitions
begin

text \<open>
  The forms of certificate definitions, \<open>definition_http.go\<close>, with the identifiers that a device stores certificates under
  (\<open>validCertID\<close> of \<open>gnoi_push.go\<close>, \<open>sanitizeCertID\<close> of \<open>gnoi_admin.go\<close>). \<open>well_formed\<close> is what the form promises of
  a definition; it holds of every definition that was ever saved through it.
\<close>

section \<open>Identifiers on the device\<close>

definition cert_id_char :: "char \<Rightarrow> bool" where
  "cert_id_char c \<longleftrightarrow> is_alnum c \<or> c = CHR ''.'' \<or> c = CHR ''-'' \<or> c = CHR ''_''"

definition validCertID :: "string \<Rightarrow> bool" where
  "validCertID i \<longleftrightarrow> i \<noteq> [] \<and> length i \<le> 64 \<and> list_all cert_id_char i"

text \<open>The loop runs over runes: the bytes that continue one are skipped.\<close>

definition rune_start :: "char \<Rightarrow> bool" where
  "rune_start c \<longleftrightarrow> \<not> (128 \<le> ascii c \<and> ascii c < 192)"

definition sanitizeCertID :: "string \<Rightarrow> string" where
  "sanitizeCertID cn =
     (let b = map (\<lambda>c. if cert_id_char c then c else CHR ''-'') (filter rune_start cn);
          trim = (\<lambda>c. c = CHR ''-'' \<or> c = CHR ''.'') in
      take 64 (TrimRight trim (TrimLeft trim b)))"

section \<open>The form\<close>

record definitionForm =
  dfID :: string
  dfName :: string
  dfCAID :: string
  dfProfile :: string
  dfCountry :: string
  dfState :: string
  dfOrganization :: string
  dfCity :: string
  dfOU :: string
  dfValidDays :: string
  dfCertID :: string
  dfCommonName :: string
  dfDNSSANs :: string
  dfIPSANs :: string

definition definition_form :: "web_request \<Rightarrow> definitionForm" where
  "definition_form r =
     \<lparr>dfID = TrimSpace (PostGet r ''id''), dfName = TrimSpace (PostGet r ''name''), dfCAID = PostGet r ''ca'',
       dfProfile = TrimSpace (PostGet r ''profile''), dfCountry = TrimSpace (PostGet r ''country''),
       dfState = TrimSpace (PostGet r ''state''), dfOrganization = TrimSpace (PostGet r ''organization''),
       dfCity = TrimSpace (PostGet r ''city''), dfOU = TrimSpace (PostGet r ''ou''),
       dfValidDays = TrimSpace (PostGet r ''valid_days''), dfCertID = TrimSpace (PostGet r ''cert_id''),
       dfCommonName = TrimSpace (PostGet r ''common_name''), dfDNSSANs = PostGet r ''dns_sans'', dfIPSANs = PostGet r ''ip_sans''\<rparr>"

definition splitSANList :: "string \<Rightarrow> string list" where
  "splitSANList s = filter (\<lambda>v. v \<noteq> []) (map TrimSpace (Split CHR '','' s))"

definition definitionProfiles :: "store \<Rightarrow> string list \<times> store" where
  "definitionProfiles s =
     (let (r, t) = LoadTemplates s;
          custom = (case r of Inl _ \<Rightarrow> [] | Inr ts \<Rightarrow> ts) in
      (map tName (filter (\<lambda>t. tProfile t = profileServer \<and> allowedAlgo t algoRSA2048) (builtinTemplates @ custom)), t))"

definition definitionFromForm :: "time \<Rightarrow> definitionForm \<Rightarrow> CertDefinition sop" where
  "definitionFromForm now f =
     (if \<not> validTemplateName (dfName f) then throw (''name must be 1-64 chars: letters, digits, '-' or '_'' @ [CHR 0x27])
      else
      thenE (\<lambda>s. (checkR (ValidCAID s (dfCAID f)) ''select a valid issuing CA'', s))
      (bindE (\<lambda>s. case GetTemplate (dfProfile f) s of (r, t) \<Rightarrow> (Inr r, t)) (\<lambda>found.
        case found of
          None \<Rightarrow> throw ''choose a server template that allows RSA 2048 keys''
        | Some t \<Rightarrow>
        if tProfile t \<noteq> profileServer \<or> \<not> allowedAlgo t algoRSA2048
        then throw ''choose a server template that allows RSA 2048 keys''
        else if dfCountry f = [] \<or> dfState f = [] \<or> dfOrganization f = []
        then throw ''country, state and organization are required by the device''
        else (case ParseInt (dfValidDays f) of
          None \<Rightarrow> throw (''validity must be between 1 and '' @ show_int (tMaxDays t) @ '' days'')
        | Some days \<Rightarrow>
        if days < 1 \<or> days > tMaxDays t
        then throw (''validity must be between 1 and '' @ show_int (tMaxDays t) @ '' days'')
        else
        thenE (\<lambda>s. (checkR (\<not> (\<exists>ca \<in> set (CAs s). caiID ca = dfCAID f \<and> AddDays now days > rNotAfter (caiRecord ca)))
                     ''validity runs past the issuing CA's expiry'', s))
        (let certID = (if dfCertID f = [] then sanitizeCertID (''netanchor-'' @ dfName f) else dfCertID f);
             dns = splitSANList (dfDNSSANs f); ips = splitSANList (dfIPSANs f) in
         if \<not> validCertID certID then throw (''certificate id must be 1-64 letters, digits, '.', '-' or '_'' @ [CHR 0x27])
         else if length dns > 64 \<or> length ips > 64 then throw ''at most 64 DNS SANs and 64 IP SANs''
         else
         thenE (liftE (checkDefinitionTemplates (dfCommonName f) dns ips))
           (ret \<lparr>fID = dfID f, fName = dfName f, fCAID = dfCAID f, fProfile = tName t, fCountry = dfCountry f,
             fState = dfState f, fOrganization = dfOrganization f, fCity = dfCity f, fOU = dfOU f, fValidDays = days,
             fCertID = certID, fCommonName = dfCommonName f, fDNSSANs = dns, fIPSANs = ips, fExtraSANs = [],
             fCNSource = [], fCreated = 0, fUpdated = 0\<rparr>))))))"

definition renderDefinitionForm :: "error \<Rightarrow> handler" where
  "renderDefinitionForm e = (\<lambda>s. (Shown ''definition'' e, snd (definitionProfiles s)))"

definition handleDefinitionSave :: "crypto \<Rightarrow> site \<Rightarrow> User option \<Rightarrow> time \<Rightarrow> string \<Rightarrow> web_request \<Rightarrow> handler" where
  "handleDefinitionSave C w v now newid r =
     admin_form C w v r
       (perform (bindE (definitionFromForm now (definition_form r)) (SaveDefinition now newid))
         renderDefinitionForm (\<lambda>_. finish (To ''/definitions'')))"

definition handleDefinitionDelete :: "crypto \<Rightarrow> site \<Rightarrow> User option \<Rightarrow> web_request \<Rightarrow> string \<Rightarrow> handler" where
  "handleDefinitionDelete C w v r k =
     admin_form C w v r
       (perform (DeleteDefinition k) (\<lambda>e. if e = errDefinitionNotFound then finish (Status 404) else failed e)
         (\<lambda>_. finish (To ''/definitions'')))"

section \<open>Every stored definition is well formed\<close>

definition well_formed :: "CertDefinition \<Rightarrow> bool" where
  "well_formed d \<longleftrightarrow> validTemplateName (fName d) \<and> fCountry d \<noteq> [] \<and> fState d \<noteq> [] \<and> fOrganization d \<noteq> [] \<and>
     1 \<le> fValidDays d \<and> validCertID (fCertID d) \<and> length (fDNSSANs d) \<le> 64 \<and> length (fIPSANs d) \<le> 64 \<and>
     checkDefinitionTemplates (fCommonName d) (fDNSSANs d) (fIPSANs d) = Inr () \<and> fExtraSANs d = [] \<and> fCNSource d = []"

definition definitions_ok :: "CertDefinition list \<Rightarrow> bool" where
  "definitions_ok ds \<longleftrightarrow> distinct (map fID ds) \<and> distinct (map (\<lambda>d. ToLower (fName d)) ds) \<and> [] \<notin> fID ` set ds \<and>
     list_all well_formed ds"

lemma yields_option: "(v = None \<Longrightarrow> yields Q m) \<Longrightarrow> (\<And>x. v = Some x \<Longrightarrow> yields Q (f x)) \<Longrightarrow> yields Q (case v of None \<Rightarrow> m | Some x \<Rightarrow> f x)"
  by (cases v) simp_all

lemma yields_then_lift: "(r = Inr () \<Longrightarrow> yields Q n) \<Longrightarrow> yields Q (thenE (liftE r) n)"
  by (auto simp: yields_def thenE_Inr_iff)

lemma definitionFromForm_wf: "yields well_formed (definitionFromForm now f)"
  unfolding definitionFromForm_def Let_def
  by (intro yields_if yields_throw yields_then_lift yields_then yields_bind yields_option yields_ret)
    (auto simp: well_formed_def)

lemma well_formed_migrated: "well_formed d \<Longrightarrow> migrateLegacyDefinition d = d"
  by (auto simp: well_formed_def checkDefinitionTemplates_def migrateLegacyDefinition_def)

lemma put_definition_wf:
  assumes "put_definition now newid d ds = Inr (d', ds')" and "well_formed d" and "list_all well_formed ds"
  shows "list_all well_formed ds'"
proof -
  have same: "well_formed (d\<lparr>fUpdated := now, fCreated := t\<rparr>)" "well_formed (d\<lparr>fUpdated := now, fID := newid, fCreated := t\<rparr>)" for t
    using assms(2) by (simp_all add: well_formed_def)
  from assms(1) have y: "well_formed d'"
    using same by (auto simp: put_definition_def Let_def split: if_splits option.splits)
  show ?thesis
  proof (cases "fID d = []")
    case True
    with definition_save.save_new [OF assms(1)] assms(3) y show ?thesis by simp
  next
    case False
    with definition_save.save_old [OF assms(1)] assms(3) y show ?thesis by auto
  qed
qed

definition keeps_definitions :: "'a sop \<Rightarrow> bool" where
  "keeps_definitions m \<longleftrightarrow> preserves (\<lambda>s. definitions_ok (definitions s)) m"

lemma DeleteDefinition_keeps: "keeps_definitions (DeleteDefinition k)"
  unfolding keeps_definitions_def DeleteDefinition_def loadDefinitions_def saveDefinitions_def bindE_assoc bindE_ret
proof (intro definition_file.preserves_cycle preserves_if preserves_throw definition_file.preserves_save)
  fix ds assume ok: "definitions_ok ds"
  then have "map migrateLegacyDefinition ds = ds"
    by (intro map_idI) (auto simp: definitions_ok_def list_all_iff well_formed_migrated)
  with ok show "definitions_ok (filter (\<lambda>d. fID d \<noteq> k) (map migrateLegacyDefinition ds))"
    by (auto simp: definitions_ok_def distinct_map_filter_iff list_all_iff)
qed

lemma SaveDefinition_keeps:
  assumes s: "definitions_ok (definitions s)" and n: "newid \<noteq> []" "newid \<notin> fID ` set (definitions s)" and d: "well_formed d"
  shows "definitions_ok (definitions (snd (SaveDefinition now newid d s)))"
proof -
  let ?I = "\<lambda>u. definitions_ok (definitions u) \<and> newid \<notin> fID ` set (definitions u)"
  have "preserves (\<lambda>s. definitions_ok (definitions s)) (bindE (liftE (put_definition now newid d ds)) (\<lambda>(d', ds').
       thenE (saveDefinitions ds') (ret d')))"
    if ds: "definitions_ok ds" "newid \<notin> fID ` set ds" for ds
  proof (rule preserves_bind_liftE)
    fix p assume p: "put_definition now newid d ds = Inr p"
    obtain d' ds' where dp: "p = (d', ds')" by fastforce
    from ds have wf: "list_all well_formed ds" by (simp add: definitions_ok_def)
    from definition_save.save_distinct [OF p [unfolded dp]] put_definition_wf [OF p [unfolded dp] d wf] ds n(1)
    have "definitions_ok ds'" by (simp add: definitions_ok_def)
    then show "preserves (\<lambda>s. definitions_ok (definitions s)) (case p of (d', ds') \<Rightarrow> thenE (saveDefinitions ds') (ret d'))"
      unfolding dp prod.case saveDefinitions_def by (intro keeps definition_file.preserves_save)
  qed
  note step = this
  obtain r t where l: "readE definitions s = (r, t)" by fastforce
  with definition_file.load_keeps [of definitions s] have t: "definitions t = definitions s" by simp
  show ?thesis
  proof (cases r)
    case (Inl e)
    with l t s show ?thesis by (simp add: SaveDefinition_def loadDefinitions_def bindE_assoc bindE_Inl)
  next
    case (Inr ds)
    with l have ds: "ds = definitions s" by (auto dest: definition_file.load_Inr)
    have "map migrateLegacyDefinition ds = ds"
      using s ds by (intro map_idI) (auto simp: definitions_ok_def list_all_iff well_formed_migrated)
    with l Inr have "SaveDefinition now newid d s =
        bindE (liftE (put_definition now newid d ds)) (\<lambda>(d', ds'). thenE (saveDefinitions ds') (ret d')) t"
      by (simp add: SaveDefinition_def loadDefinitions_def bindE_assoc bindE_Inr)
    with step [of ds] s n ds t show ?thesis by (simp add: preserves_def)
  qed
qed

lemma definitionFromForm_same: "preserves (\<lambda>s. definitions s = D) (definitionFromForm now f)"
  unfolding definitionFromForm_def Let_def
  by (intro keeps preserves_GetTemplate) (auto simp: migrated_only_def)

lemma admin_form_cases: "admin_form C w v r h s = (p, t) \<Longrightarrow> t = s \<or> isAdmin w v \<and> backupCSRF C w r \<and> h s = (p, t)"
  by (auto simp: admin_form_def finish_def split: if_splits)

lemma definitionProfiles_effect: "migrated_only s (snd (definitionProfiles s))"
  using LoadTemplates_effect [of s] by (cases "LoadTemplates s") (simp add: definitionProfiles_def)

lemma handleDefinitionSave_keeps:
  assumes s: "definitions_ok (definitions s)" and n: "newid \<noteq> []" "newid \<notin> fID ` set (definitions s)"
  shows "definitions_ok (definitions (snd (handleDefinitionSave C w v now newid r s)))"
proof -
  let ?m = "bindE (definitionFromForm now (definition_form r)) (SaveDefinition now newid)"
  obtain x u where m: "?m s = (x, u)" by fastforce
  have u: "definitions_ok (definitions u)"
  proof -
    obtain d s1 where f: "definitionFromForm now (definition_form r) s = (d, s1)" by fastforce
    from preservesD [OF definitionFromForm_same [of "definitions s"] _ f] have s1: "definitions s1 = definitions s" by simp
    show ?thesis
    proof (cases d)
      case (Inl e)
      with m f s s1 show ?thesis by (simp add: bindE_Inl)
    next
      case (Inr def)
      with definitionFromForm_wf [of now "definition_form r"] f have "well_formed def" by (auto simp: yields_def)
      with m f Inr SaveDefinition_keeps [of s1 newid def now] s n s1 show ?thesis by (simp add: bindE_Inr)
    qed
  qed
  have "definitions (snd (renderDefinitionForm e u)) = definitions u" for e
    using definitionProfiles_effect [of u] by (auto simp: renderDefinitionForm_def migrated_only_def)
  with m u have "definitions_ok (definitions (snd (perform ?m renderDefinitionForm (\<lambda>_. finish (To ''/definitions'')) s)))"
    by (cases x) (simp_all add: perform_def finish_def)
  with s show ?thesis by (auto simp: handleDefinitionSave_def admin_form_def finish_def)
qed

lemma handleDefinitionDelete_keeps:
  assumes "definitions_ok (definitions s)"
  shows "definitions_ok (definitions (snd (handleDefinitionDelete C w v r k s)))"
  using assms DeleteDefinition_keeps [of k]
  by (auto simp: handleDefinitionDelete_def admin_form_def finish_def failed_def perform_def keeps_definitions_def preserves_def
      split: prod.splits sum.splits)

text \<open>The definitions that the forms can bring about, while anything else happens to the rest of the store.\<close>

inductive definition_reach :: "store \<Rightarrow> bool" where
  start: "definitions s = [] \<Longrightarrow> definition_reach s"
| save: "definition_reach s \<Longrightarrow> newid \<noteq> [] \<Longrightarrow> newid \<notin> fID ` set (definitions s) \<Longrightarrow>
    definition_reach (snd (handleDefinitionSave C w v now newid r s))"
| delete: "definition_reach s \<Longrightarrow> definition_reach (snd (handleDefinitionDelete C w v r k s))"
| other: "definition_reach s \<Longrightarrow> definitions t = definitions s \<Longrightarrow> definition_reach t"

text \<open>
  C20. Every stored definition is well formed: a valid name that no other has up to case, an identifier of its own, the fields
  that a device requires, a certificate id a device takes, and templates that were checked. Its templates therefore fail only on
  the values of a device.
\<close>

theorem definitions_well_formed: "definition_reach s \<Longrightarrow> definitions_ok (definitions s)"
proof (induction rule: definition_reach.induct)
  case (start s)
  then show ?case by (simp add: definitions_ok_def)
next
  case (save s newid C w v now r)
  then show ?case by (intro handleDefinitionSave_keeps)
next
  case (delete s C w v r k)
  then show ?case by (intro handleDefinitionDelete_keeps)
next
  case (other s t)
  then show ?case by simp
qed

definition unsigned :: crypto where
  "unsigned = example_crypto\<lparr>hmac := (\<lambda>k p. [])\<rparr>"

definition example_site :: site where
  "example_site = \<lparr>siEnabled = False, siKey = ''k'', siStopped = False\<rparr>"

definition example_post :: "(string \<times> string list) list \<Rightarrow> web_request" where
  "example_post vs = \<lparr>wqMethod = ''POST'', wqPath = ''/definitions/save'', wqHost = ''ca'',
     wqOrigin = Some \<lparr>ogScheme = ''https'', ogHost = ''ca'', ogUser = False, ogPath = [], ogQuery = [], ogFragment = []\<rparr>,
     wqCookie = None, wqParses = True,
     wqPost = vs, wqQuery = [], wqFile = []\<rparr>"

definition example_definition_post :: web_request where
  "example_definition_post = example_post
     [(''name'', [''web'']), (''ca'', [''root'']), (''profile'', [''TLS-Server'']), (''country'', [''NL'']), (''state'', [''UT'']),
      (''organization'', [''Lab'']), (''valid_days'', [''90'']), (''common_name'', [''{{ fqdn }}'']), (''dns_sans'', [''{{ fqdn }}, www.lab''])]"

definition example_ca_store :: store where
  "example_ca_store = empty_store\<lparr>cas := [''root'' \<mapsto> \<lparr>caCert = Some [], caKey = None\<rparr>]\<rparr>"

theorem definitions_well_formed_witness:
  "map fName (definitions (snd (handleDefinitionSave unsigned example_site None 0 ''d1'' example_definition_post example_ca_store))) = [''web''] \<and>
   definitions_ok (definitions (snd (handleDefinitionSave unsigned example_site None 0 ''d1'' example_definition_post example_ca_store)))"
proof
  show "map fName (definitions (snd (handleDefinitionSave unsigned example_site None 0 ''d1'' example_definition_post example_ca_store))) = [''web'']"
    by code_simp
  have "definition_reach example_ca_store" by (rule definition_reach.start) (simp add: example_ca_store_def empty_store_def)
  then have "definition_reach (snd (handleDefinitionSave unsigned example_site None 0 ''d1'' example_definition_post example_ca_store))"
    by (rule definition_reach.save) (simp_all add: example_ca_store_def empty_store_def)
  then show "definitions_ok (definitions (snd (handleDefinitionSave unsigned example_site None 0 ''d1'' example_definition_post example_ca_store)))"
    by (rule definitions_well_formed)
qed

end
