(* ===== verification/Gnoi.thy ===== *)
theory Gnoi
  imports DefinitionHttp Devices
begin

text \<open>
  The gNOI client, \<open>gnoi_push.go\<close>: one push of a certificate to a device, step by step, and what its connections may do.
  The device and the network are a state of any type with the operations of the record \<open>wire\<close>; the calls that matter are
  noted as events. An error of the network ends a call; the verify loop runs on a clock that every attempt advances. The
  name a TLS connection asks for, log lines and the texts of device errors are left out.
\<close>

section \<open>The world of a push\<close>

record gnoiStep =
  gsName :: string
  gsStatus :: string
  gsDetail :: string

record csrparams =
  cpmCertID :: string
  cpmCommonName :: string
  cpmCountry :: string
  cpmState :: string
  cpmCity :: string
  cpmOrganization :: string
  cpmOU :: string

datatype load_answer = LoadAccepted | LoadReset | LoadFailed error

text \<open>
  The device and the way to it: name resolution, a TLS connection (the certificates the peer presents, before they are
  verified), and the calls of the certificate service. A listed certificate is its id and the DER that its PEM holds.
\<close>

record 'd wire =
  wrLookup :: "string \<Rightarrow> 'd \<Rightarrow> addr list result \<times> 'd"
  wrConnect :: "addr \<Rightarrow> string \<Rightarrow> 'd \<Rightarrow> string list result \<times> 'd"
  wrReady :: "'d \<Rightarrow> unit result \<times> 'd"
  wrList :: "deviceCreds \<Rightarrow> 'd \<Rightarrow> (string \<times> string option) list result \<times> 'd"
  wrCanGenerate :: "deviceCreds \<Rightarrow> 'd \<Rightarrow> bool result \<times> 'd"
  wrGenerate :: "deviceCreds \<Rightarrow> csrparams \<Rightarrow> 'd \<Rightarrow> string result \<times> 'd"
  wrLoad :: "string \<Rightarrow> xcert option list \<Rightarrow> 'd \<Rightarrow> load_answer \<times> 'd"
  wrRevoke :: "deviceCreds \<Rightarrow> string \<Rightarrow> 'd \<Rightarrow> (string list \<times> string list) result \<times> 'd"

datatype event = Dialed addr string | Authenticated deviceCreds string | Loaded string | RevokeSent string

record 'd world =
  wdStore :: store
  wdDevice :: 'd
  wdEvents :: "event list"
  wdSteps :: "gnoiStep list"

type_synonym ('d, 'a) push_op = "('d world, 'a) op"

definition on_store :: "'a sop \<Rightarrow> ('d, 'a) push_op" where
  "on_store m = (\<lambda>w. case m (wdStore w) of (r, s) \<Rightarrow> (r, w\<lparr>wdStore := s\<rparr>))"

definition on_device :: "('d \<Rightarrow> 'a result \<times> 'd) \<Rightarrow> ('d, 'a) push_op" where
  "on_device f = (\<lambda>w. case f (wdDevice w) of (r, d) \<Rightarrow> (r, w\<lparr>wdDevice := d\<rparr>))"

definition emit :: "event \<Rightarrow> ('d, unit) push_op" where
  "emit e = modifyE (\<lambda>w. w\<lparr>wdEvents := wdEvents w @ [e]\<rparr>)"

text \<open>The steps of \<open>gnoiRun\<close>.\<close>

definition run_record :: "string \<Rightarrow> string \<Rightarrow> string \<Rightarrow> ('d, unit) push_op" where
  "run_record name status detail =
     modifyE (\<lambda>w. w\<lparr>wdSteps := wdSteps w @ [\<lparr>gsName = name, gsStatus = status, gsDetail = detail\<rparr>]\<rparr>)"

definition run_ok :: "string \<Rightarrow> string \<Rightarrow> ('d, unit) push_op" where
  "run_ok name detail = run_record name ''ok'' detail"

definition run_failed :: "string \<Rightarrow> error \<Rightarrow> ('d, 'a) push_op" where
  "run_failed name e = thenE (run_record name ''failed'' e) (throw e)"

definition run_last :: "'d world \<Rightarrow> string" where
  "run_last w = (if wdSteps w = [] then ''start'' else gsName (last (wdSteps w)))"

text \<open>An error of \<open>m\<close> fails the step \<open>name\<close>.\<close>

definition step :: "string \<Rightarrow> ('d, 'a) push_op \<Rightarrow> ('d, 'a) push_op" where
  "step name m = (\<lambda>w. case m w of (Inl e, v) \<Rightarrow> run_failed name e v | (Inr x, v) \<Rightarrow> (Inr x, v))"

section \<open>Addresses and fingerprints\<close>

text \<open>\<open>net.IPNet.Contains\<close> on the networks \<open>net.ParseCIDR\<close> gives.\<close>

definition gnoiAllowed :: "prefix list \<Rightarrow> addr \<Rightarrow> bool" where
  "gnoiAllowed allow ip \<longleftrightarrow> list_ex (\<lambda>n. prefix_contains n (Unmap ip)) allow"

definition gnoiCheckAllowed :: "prefix list \<Rightarrow> string \<Rightarrow> addr list \<Rightarrow> addr result" where
  "gnoiCheckAllowed allow host ips =
     (if ips = [] then Inl (host @ '' did not resolve'')
      else case find (\<lambda>a. \<not> gnoiAllowed allow a) ips of
          Some a \<Rightarrow> Inl (host @ '' resolves to '' @ addr_string a @ '', which is outside NETANCHOR_GNOI_ALLOW'')
        | None \<Rightarrow> Inr (hd ips))"

definition gnoiResolveIPs :: "'d wire \<Rightarrow> string \<Rightarrow> ('d, addr list) push_op" where
  "gnoiResolveIPs net host =
     (case ParseIP host of
        Some lit \<Rightarrow> ret [lit]
      | None \<Rightarrow> bindE (on_device (wrLookup net host)) (\<lambda>ips.
          if ips = [] then throw (host @ '' did not resolve'') else ret ips))"

definition gnoiResolve :: "'d wire \<Rightarrow> prefix list \<Rightarrow> string \<Rightarrow> ('d, string \<times> string \<times> addr) push_op" where
  "gnoiResolve net allow target =
     (case SplitHostPort target of
        None \<Rightarrow> throw ''target must be host:port''
      | Some (host, port) \<Rightarrow>
          if host = [] then throw ''target must be host:port''
          else if \<not> (case ParseInt port of None \<Rightarrow> False | Some n \<Rightarrow> 1 \<le> n \<and> n \<le> 65535)
          then throw ''target port must be 1-65535''
          else if allow = [] then throw ''no device targets are allowed: set NETANCHOR_GNOI_ALLOW''
          else bindE (gnoiResolveIPs net host) (\<lambda>ips.
               bindE (liftE (gnoiCheckAllowed allow host ips)) (\<lambda>ip. ret (host, port, ip))))"

definition normalizeFingerprint :: "string \<Rightarrow> string" where
  "normalizeFingerprint s = ToLower (filter (\<lambda>c. c \<noteq> CHR '':'' \<and> c \<noteq> CHR '' '') (TrimSpace s))"

definition upper_digit :: "nat \<Rightarrow> char" where
  "upper_digit n = (if n < 10 then char_of (48 + n) else char_of (55 + n))"

definition hexColons :: "string \<Rightarrow> string" where
  "hexColons b = Join (map (\<lambda>c. [upper_digit (ascii c div 16), upper_digit (ascii c mod 16)]) b) '':''"

text \<open>The check of the peer that \<open>gnoiTLSConfig\<close> builds.\<close>

definition verify_peer :: "libraries \<Rightarrow> string \<Rightarrow> string option \<Rightarrow> string list \<Rightarrow> unit result" where
  "verify_peer lib fingerprint newDER raw =
     (case raw of
        [] \<Rightarrow> Inl ''device sent no certificate''
      | c # _ \<Rightarrow>
          if hexEncode (sha256 lib c) = normalizeFingerprint fingerprint \<or> newDER = Some c then Inr ()
          else Inl ''device certificate does not match the confirmed fingerprint'')"

text \<open>\<open>gnoiDial\<close> and \<open>gnoiWaitReady\<close>: the result is the verified certificate of the peer.\<close>

definition gnoiDial :: "libraries \<Rightarrow> 'd wire \<Rightarrow> prefix list \<Rightarrow> string \<Rightarrow> string \<Rightarrow> string option \<Rightarrow> ('d, string) push_op" where
  "gnoiDial lib net allow target fingerprint newDER =
     bindE (gnoiResolve net allow target) (\<lambda>(host, port, ip).
     thenE (emit (Dialed ip port))
     (bindE (on_device (wrConnect net ip port)) (\<lambda>raw.
      thenE (liftE (verify_peer lib fingerprint newDER raw))
      (thenE (on_device (wrReady net))
        (ret (hd raw))))))"

text \<open>A TLS handshake that verifies nothing and sends no credentials.\<close>

definition gnoiServedCert :: "'d wire \<Rightarrow> prefix list \<Rightarrow> string \<Rightarrow> ('d, string) push_op" where
  "gnoiServedCert net allow target =
     bindE (gnoiResolve net allow target) (\<lambda>(host, port, ip).
     thenE (emit (Dialed ip port))
     (bindE (on_device (wrConnect net ip port)) (\<lambda>raw.
       if raw = [] then throw ''device sent no certificate'' else ret (hd raw))))"

definition gnoiProbe :: "libraries \<Rightarrow> 'd wire \<Rightarrow> prefix list \<Rightarrow> string \<Rightarrow> ('d, string) push_op" where
  "gnoiProbe lib net allow target = bindE (gnoiServedCert net allow target) (\<lambda>der. ret (hexColons (sha256 lib der)))"

text \<open>The calls that carry the credentials, on the connection to \<open>peer\<close>.\<close>

definition authenticated :: "deviceCreds \<Rightarrow> string \<Rightarrow> ('d \<Rightarrow> 'a result \<times> 'd) \<Rightarrow> ('d, 'a) push_op" where
  "authenticated creds peer rpc = thenE (emit (Authenticated creds peer)) (on_device rpc)"

section \<open>Requests\<close>

record gnoiPushRequest =
  gpTarget :: string
  gpCreds :: deviceCreds
  gpCAID :: string
  gpFingerprint :: string
  gpCAPassphrase :: string
  gpTemplate :: CertTemplate
  gpCommonName :: string
  gpCountry :: string
  gpState :: string
  gpCity :: string
  gpOrganization :: string
  gpOU :: string
  gpDNSNames :: "string list"
  gpIPs :: "addr list"
  gpCertID :: string
  gpValidDays :: int
  gpAdmin :: string

definition errNoPin :: error where
  "errNoPin = ''no fingerprint pinned: open Edit device, fetch the fingerprint and save''"

definition errGNOIUnverified :: error where
  "errGNOIUnverified = ''installed, could not verify, check the device (it may have rebound its gRPC server)''"

definition errGNOIExists :: error where
  "errGNOIExists = ''already installed; renewal comes with Rotate''"

definition validateGNOIRequest :: "gnoiPushRequest \<Rightarrow> unit result" where
  "validateGNOIRequest req =
     (if dcUsername (gpCreds req) = [] \<or> dcPassword (gpCreds req) = [] then Inl ''device username and password are required''
      else if TrimSpace (gpCommonName req) = [] then Inl ''common name is required''
      else if gpCountry req = [] \<or> gpState req = [] \<or> gpOrganization req = []
      then Inl ''country, state and organization are required by the device''
      else if \<not> validCertID (gpCertID req) then Inl (''certificate id must be 1-64 letters, digits, '.', '-' or '_'' @ [CHR 0x27])
      else if \<not> allowedAlgo (gpTemplate req) algoRSA2048
      then Inl ''the selected template does not allow RSA 2048 keys, which the device requires''
      else bindR (validateIssuePolicy (gpTemplate req) (gpCAID req) (gpValidDays req) algoRSA2048 (gpCommonName req)
                    (gpDNSNames req) (gpIPs req) [] []) (\<lambda>_.
        if normalizeFingerprint (gpFingerprint req) = [] then Inl errNoPin else Inr ()))"

definition gnoiBackdate :: time where "gnoiBackdate = 24 * hour"

text \<open>The request of the device, with the names of the form and no extensions, is signed, stored and recorded.\<close>

definition gnoiSignCSR ::
  "(string \<Rightarrow> csr option) \<Rightarrow> time \<Rightarrow> nat \<Rightarrow> gnoiPushRequest \<Rightarrow> string \<Rightarrow> xcert \<Rightarrow> privkey \<Rightarrow> (CertRecord \<times> xcert) sop" where
  "gnoiSignCSR decode_csr now serial req csrPEM issuer issuerKey =
     (case decode_csr csrPEM of
        None \<Rightarrow> throw ''device did not return a PEM CSR''
      | Some csr \<Rightarrow>
          if CommonName (csrSubject csr) \<noteq> gpCommonName req
          then throw (''device CSR common name '' @ quoted (CommonName (csrSubject csr)) @ '' does not match the request'')
          else
          let signed = csr\<lparr>csrDNS := gpDNSNames req, csrIPs := gpIPs req, csrEmails := [], csrURIs := [], csrExtensions := []\<rparr> in
          bindE (liftE (signCSRWithoutPersistence now serial signed
              \<lparr>spCSR = None, spValidDays = gpValidDays req, spProfile = tProfile (gpTemplate req), spIssuerID = gpCAID req,
                spCAPassphrase = [], spTemplate = gpTemplate req, spTemplateName = tName (gpTemplate req), spBackdate = gnoiBackdate\<rparr>
              issuer issuerKey False)) (\<lambda>(rec, der).
          thenE (SaveCert (rSerial rec) (encodeCertPEM der) None)
          (thenE (AddRecord rec) (ret (rec, der)))))"

fun blocks_of :: "certpem \<Rightarrow> xcert option list" where
  "blocks_of [] = []"
| "blocks_of (Junk # rest) = blocks_of rest"
| "blocks_of (Block c # rest) = c # blocks_of rest"

definition gnoiChainCerts :: "certpem \<Rightarrow> xcert option list result" where
  "gnoiChainCerts chainPEM = (let out = blocks_of chainPEM in if out = [] then Inl ''issuer chain is empty'' else Inr out)"

section \<open>One push\<close>

definition csr_params :: "gnoiPushRequest \<Rightarrow> csrparams" where
  "csr_params req = \<lparr>cpmCertID = gpCertID req, cpmCommonName = gpCommonName req, cpmCountry = gpCountry req, cpmState = gpState req,
     cpmCity = gpCity req, cpmOrganization = gpOrganization req, cpmOU = gpOU req\<rparr>"

text \<open>The steps auth, capabilities and generate on the connection to \<open>peer\<close>: the result is the request of the device.\<close>

definition push_generate :: "'d wire \<Rightarrow> gnoiPushRequest \<Rightarrow> string \<Rightarrow> ('d, string) push_op" where
  "push_generate net req peer =
     bindE (step ''auth'' (authenticated (gpCreds req) peer (wrList net (gpCreds req)))) (\<lambda>listed.
     if \<exists>c \<in> set listed. fst c = gpCertID req
     then thenE (run_record ''auth'' ''skipped'' (''certificate id '' @ quoted (gpCertID req) @ '': '' @ errGNOIExists)) (throw errGNOIExists)
     else
     thenE (run_ok ''auth'' (Itoa (length listed) @ '' certificates listed''))
     (bindE (step ''capabilities'' (authenticated (gpCreds req) peer (wrCanGenerate net (gpCreds req)))) (\<lambda>can.
      if \<not> can then run_failed ''capabilities'' ''device cannot generate an RSA 2048 CSR''
      else
      thenE (run_ok ''capabilities'' ''RSA 2048 CSR supported'')
      (bindE (step ''generate'' (authenticated (gpCreds req) peer (wrGenerate net (gpCreds req) (csr_params req)))) (\<lambda>csrPEM.
       if csrPEM = [] then run_failed ''generate'' ''device returned no CSR''
       else thenE (run_ok ''generate'' ''device generated the key and CSR'') (ret csrPEM))))))"

text \<open>From the checks to the signed certificate.\<close>

definition push_sign ::
  "libraries \<Rightarrow> 'd wire \<Rightarrow> prefix list \<Rightarrow> (string \<Rightarrow> csr option) \<Rightarrow> time \<Rightarrow> nat \<Rightarrow> gnoiPushRequest \<Rightarrow>
     ('d, CertRecord \<times> xcert \<times> xcert option list) push_op" where
  "push_sign lib net allow decode_csr now serial req =
     thenE (liftE (validateGNOIRequest req))
     (bindE (on_store (\<lambda>s. (loadCA s (gpCAID req) (gpCAPassphrase req), s))) (\<lambda>(issuer, issuerKey).
      bindE (on_store (\<lambda>s. (bindR (IssuerChainPEM s (gpCAID req)) gnoiChainCerts, s))) (\<lambda>chain.
      bindE (step ''connect'' (gnoiDial lib net allow (gpTarget req) (gpFingerprint req) None)) (\<lambda>peer.
      thenE (run_ok ''connect'' (''TLS connected to '' @ gpTarget req))
      (bindE (push_generate net req peer) (\<lambda>csrPEM.
       bindE (step ''sign'' (on_store (gnoiSignCSR decode_csr now serial req csrPEM issuer issuerKey))) (\<lambda>(rec, der).
       thenE (run_ok ''sign'' (''signed as serial '' @ rSerial rec))
       (ret (rec, der, chain)))))))))"

text \<open>\<open>gnoiSeenOnDevice\<close>: a fresh connection, which the new certificate may also present.\<close>

definition gnoiSeenOnDevice :: "libraries \<Rightarrow> 'd wire \<Rightarrow> prefix list \<Rightarrow> gnoiPushRequest \<Rightarrow> string \<Rightarrow> ('d, bool) push_op" where
  "gnoiSeenOnDevice lib net allow req der =
     bindE (gnoiDial lib net allow (gpTarget req) (gpFingerprint req) (Some der)) (\<lambda>peer.
     bindE (authenticated (gpCreds req) peer (wrList net (gpCreds req))) (\<lambda>listed.
       ret (list_ex (\<lambda>c. c = (gpCertID req, Some der)) listed)))"

definition gnoiVerifyWindow :: time where "gnoiVerifyWindow = 30 * second"
definition gnoiVerifyInterval :: time where "gnoiVerifyInterval = 2 * second"

text \<open>How long the attempts take, and after which of them the context of the request is over.\<close>

record timing =
  tmTook :: "nat \<Rightarrow> nat"
  tmOver :: "nat \<Rightarrow> bool"

text \<open>The verify loop: the attempts it made and whether the certificate was seen; \<open>now\<close> and \<open>deadline\<close> are the clock.\<close>

function verify_loop ::
  "('d, bool) push_op \<Rightarrow> timing \<Rightarrow> time \<Rightarrow> nat \<Rightarrow> time \<Rightarrow> 'd world \<Rightarrow> (nat \<times> bool) \<times> 'd world" where
  "verify_loop seen tm deadline attempts now w =
     (let attempts = attempts + 1; (r, v) = seen w; now = now + int (tmTook tm attempts) in
      if r = Inr True then ((attempts, True), v)
      else if tmOver tm attempts \<or> \<not> now + gnoiVerifyInterval < deadline then ((attempts, False), v)
      else verify_loop seen tm deadline attempts (now + gnoiVerifyInterval) v)"
  by pat_completeness auto
termination
  by (relation "measure (\<lambda>(_, _, deadline, _, now, _). nat (deadline - now))")
    (auto simp: gnoiVerifyInterval_def second_def)

declare verify_loop.simps [simp del]

definition gnoiVerify ::
  "libraries \<Rightarrow> 'd wire \<Rightarrow> prefix list \<Rightarrow> timing \<Rightarrow> time \<Rightarrow> gnoiPushRequest \<Rightarrow> xcert \<Rightarrow> ('d, xcert) push_op" where
  "gnoiVerify lib net allow tm now req der =
     (\<lambda>w. case verify_loop (gnoiSeenOnDevice lib net allow req (cert_Raw lib der)) tm (now + gnoiVerifyWindow) 0 now w of
         ((attempts, True), v) \<Rightarrow> thenE (run_ok ''verify'' (''certificate '' @ quoted (gpCertID req) @ '' present on device (attempt '' @ Itoa attempts @ '')'')) (ret der) v
       | ((attempts, False), v) \<Rightarrow>
           thenE (run_record ''verify'' ''unconfirmed'' (''no answer with the certificate after '' @ Itoa attempts @ '' attempts''))
             (throw errGNOIUnverified) v)"

definition push_install ::
  "libraries \<Rightarrow> 'd wire \<Rightarrow> prefix list \<Rightarrow> timing \<Rightarrow> time \<Rightarrow> gnoiPushRequest \<Rightarrow> xcert \<Rightarrow> xcert option list \<Rightarrow> ('d, xcert) push_op" where
  "push_install lib net allow tm now req der chain =
     thenE (emit (Loaded (cert_Raw lib der)))
     (bindE (on_device (\<lambda>d. case wrLoad net (cert_Raw lib der) chain d of (a, d') \<Rightarrow> (Inr a, d'))) (\<lambda>answer.
      thenE (case answer of
               LoadAccepted \<Rightarrow> run_ok ''install'' ''device accepted the certificate''
             | LoadReset \<Rightarrow> run_ok ''install'' ''device reset the install stream; verifying on a new connection''
             | LoadFailed e \<Rightarrow> run_failed ''install'' e)
        (gnoiVerify lib net allow tm now req der)))"

definition push_outcome :: "'d world \<Rightarrow> xcert result \<Rightarrow> string" where
  "push_outcome w r =
     (case r of
        Inr _ \<Rightarrow> ''installed and verified''
      | Inl e \<Rightarrow> if e = errGNOIUnverified then errGNOIUnverified else ''failed at '' @ run_last w @ '': '' @ e)"

text \<open>The outcome is recorded on the certificate; an error of recording it is only logged.\<close>

definition gnoiPush ::
  "libraries \<Rightarrow> 'd wire \<Rightarrow> prefix list \<Rightarrow> (string \<Rightarrow> csr option) \<Rightarrow> timing \<Rightarrow> time \<Rightarrow> nat \<Rightarrow> gnoiPushRequest \<Rightarrow> ('d, xcert) push_op" where
  "gnoiPush lib net allow decode_csr tm now serial req =
     bindE (push_sign lib net allow decode_csr now serial req) (\<lambda>(rec, der, chain) w.
       case push_install lib net allow tm now req der chain w of
         (r, v) \<Rightarrow>
           let entry = \<lparr>pTarget = gpTarget req, pCertID = gpCertID req, pAdmin = gpAdmin req, pTime = now, pOutcome = push_outcome v r\<rparr> in
           (r, snd (on_store (AddPush (rSerial rec) entry) v)))"

section \<open>Properties\<close>

text \<open>
  What an event of a push may be after the events \<open>past\<close>: a dial of an allowed address, the given credentials
  on a connection to the pinned certificate or to the one the push has sent, one certificate sent, no identity of the
  manufacturer revoked.
\<close>

fun event_ok :: "libraries \<Rightarrow> prefix list \<Rightarrow> deviceCreds \<Rightarrow> string \<Rightarrow> event list \<Rightarrow> event \<Rightarrow> bool" where
  "event_ok lib allow creds fp past (Dialed ip port) = gnoiAllowed allow ip"
| "event_ok lib allow creds fp past (Authenticated sent peer) =
     (sent = creds \<and> (hexEncode (sha256 lib peer) = normalizeFingerprint fp \<or> Loaded peer \<in> set past))"
| "event_ok lib allow creds fp past (Loaded der) = (\<forall>e \<in> set past. case e of Loaded _ \<Rightarrow> False | _ \<Rightarrow> True)"
| "event_ok lib allow creds fp past (RevokeSent k) = (\<not> HasPrefix k ''CISCO_IDEVID'')"

definition events_ok :: "libraries \<Rightarrow> prefix list \<Rightarrow> deviceCreds \<Rightarrow> string \<Rightarrow> event list \<Rightarrow> bool" where
  "events_ok lib allow creds fp es \<longleftrightarrow> (\<forall>i < length es. event_ok lib allow creds fp (take i es) (es ! i))"

lemma events_ok_snoc: "events_ok lib allow creds fp (es @ [e]) \<longleftrightarrow> events_ok lib allow creds fp es \<and> event_ok lib allow creds fp es e"
  by (auto simp: events_ok_def nth_append less_Suc_eq)

lemma thenE_emit: "thenE (emit e) m w = m (w\<lparr>wdEvents := wdEvents w @ [e]\<rparr>)"
  by (simp add: thenE_def bindE_def emit_def modifyE_def)

text \<open>The invariant of a push, with the certificate that it has sent, if any.\<close>

definition session_ok :: "libraries \<Rightarrow> prefix list \<Rightarrow> deviceCreds \<Rightarrow> string \<Rightarrow> string option \<Rightarrow> 'd world \<Rightarrow> bool" where
  "session_ok lib allow creds fp newDER w \<longleftrightarrow> events_ok lib allow creds fp (wdEvents w) \<and>
     (\<forall>der. Loaded der \<in> set (wdEvents w) \<longleftrightarrow> newDER = Some der)"

definition trusted :: "libraries \<Rightarrow> string \<Rightarrow> string option \<Rightarrow> string \<Rightarrow> bool" where
  "trusted lib fp newDER peer \<longleftrightarrow>
     hexEncode (sha256 lib peer) = normalizeFingerprint fp \<or> newDER = Some peer"

lemma session_ok_eq: "wdEvents v = wdEvents w \<Longrightarrow> session_ok lib allow creds fp n v = session_ok lib allow creds fp n w"
  by (simp add: session_ok_def)

lemma preserves_events:
  assumes "\<And>w. wdEvents (snd (m w)) = wdEvents w"
  shows "preserves (session_ok lib allow creds fp n) m"
  using assms by (auto simp: preserves_def session_ok_def)

lemma session_on_device [keeps]: "preserves (session_ok lib allow creds fp n) (on_device f)"
  by (rule preserves_events) (simp add: on_device_def split: prod.splits)

lemma session_on_store [keeps]: "preserves (session_ok lib allow creds fp n) (on_store m)"
  by (rule preserves_events) (simp add: on_store_def split: prod.splits)

lemma session_run_record [keeps]: "preserves (session_ok lib allow creds fp n) (run_record a b c)"
  by (rule preserves_events) (simp add: run_record_def modifyE_def)

lemma session_run_ok [keeps]: "preserves (session_ok lib allow creds fp n) (run_ok a b)"
  unfolding run_ok_def by (rule session_run_record)

lemma session_run_failed [keeps]: "preserves (session_ok lib allow creds fp n) (run_failed a e)"
  unfolding run_failed_def by (intro keeps)

lemma triple_step:
  assumes "triple P m Q (session_ok lib allow creds fp n)"
  shows "triple P (step a m) Q (session_ok lib allow creds fp n)"
  unfolding triple_def
proof (intro allI impI)
  fix w assume "P w"
  with assms have "case m w of (Inl e, t) \<Rightarrow> session_ok lib allow creds fp n t | (Inr x, t) \<Rightarrow> Q x t" by (simp add: triple_def)
  then show "case step a m w of (Inl e, t) \<Rightarrow> session_ok lib allow creds fp n t | (Inr x, t) \<Rightarrow> Q x t"
    by (auto simp: step_def run_failed_def run_record_def op_simps session_ok_def split: prod.splits sum.splits)
qed

lemma resolved_allowed:
  assumes "gnoiResolve net allow target w = (Inr (host, port, ip), v)"
  shows "gnoiAllowed allow ip"
proof -
  from assms obtain ips where "gnoiCheckAllowed allow host ips = Inr ip"
    by (auto simp: gnoiResolve_def bindE_Inr_iff split: option.splits if_splits prod.splits)
  then show ?thesis
    by (auto simp: gnoiCheckAllowed_def find_None_iff_ball split: if_splits option.splits)
qed

lemma session_resolve [keeps]: "preserves (session_ok lib allow creds fp n) (gnoiResolve net allow target)"
  unfolding gnoiResolve_def gnoiResolveIPs_def by (auto split: option.split prod.split intro!: keeps)

lemma triple_dialed:
  "triple (\<lambda>w. session_ok lib allow creds fp n w \<and> gnoiAllowed allow ip) (emit (Dialed ip port))
     (\<lambda>_. session_ok lib allow creds fp n) (session_ok lib allow creds fp n)"
  by (auto simp: triple_def emit_def modifyE_def session_ok_def events_ok_snoc)

lemma triple_resolve:
  "triple (session_ok lib allow creds fp n) (gnoiResolve net allow target)
     (\<lambda>(host, port, ip) w. session_ok lib allow creds fp n w \<and> gnoiAllowed allow ip) (session_ok lib allow creds fp n)"
  unfolding triple_def
proof (intro allI impI)
  fix w :: "'a world" assume I: "session_ok lib allow creds fp n w"
  obtain r v where eq: "gnoiResolve net allow target w = (r, v)" by fastforce
  have v: "session_ok lib allow creds fp n v" by (rule preservesD [OF session_resolve I eq])
  show "case gnoiResolve net allow target w of (Inl e, t) \<Rightarrow> session_ok lib allow creds fp n t
      | (Inr x, t) \<Rightarrow> (case x of (host, port, ip) \<Rightarrow> \<lambda>w. session_ok lib allow creds fp n w \<and> gnoiAllowed allow ip) t"
  proof (cases r)
    case (Inr x)
    obtain host port ip where x: "x = (host, port, ip)" by (cases x)
    with Inr eq have "gnoiResolve net allow target w = (Inr (host, port, ip), v)" by simp
    then have "gnoiAllowed allow ip" by (rule resolved_allowed)
    with Inr x v eq show ?thesis by simp
  qed (use eq v in simp)
qed

lemma preserves_bind_pure:
  "triple I m (\<lambda>x w. I w \<and> A x) I \<Longrightarrow> (\<And>x. A x \<Longrightarrow> preserves I (f x)) \<Longrightarrow> preserves I (bindE m f)"
  unfolding preserves_def triple_def bindE_def by (fastforce split: prod.splits sum.splits)

lemma session_authenticated:
  "trusted lib fp n peer \<Longrightarrow> preserves (session_ok lib allow creds fp n) (authenticated creds peer rpc)"
  unfolding authenticated_def
  by (rule preserves_thenE [OF _ session_on_device])
    (auto simp: preserves_def emit_def modifyE_def session_ok_def events_ok_snoc trusted_def)

lemma verify_peer_trusted:
  assumes "verify_peer lib fp n raw = Inr u"
  shows "trusted lib fp n (hd raw)"
  using assms by (auto simp: verify_peer_def trusted_def split: list.splits if_splits)

lemma triple_peer:
  "triple (session_ok lib allow creds fp n)
     (thenE (liftE (verify_peer lib fp n raw)) (thenE (on_device (wrReady net)) (ret (hd raw))))
     (\<lambda>peer w. session_ok lib allow creds fp n w \<and> trusted lib fp n peer) (session_ok lib allow creds fp n)"
proof (cases "verify_peer lib fp n raw")
  case (Inl e)
  then show ?thesis by (simp add: triple_def liftE_def thenE_def bindE_def)
next
  case (Inr u)
  then have "trusted lib fp n (hd raw)" by (rule verify_peer_trusted)
  then show ?thesis
    by (intro triple_thenE [OF triple_preserves [OF preserves_liftE]] triple_thenE [OF triple_preserves [OF session_on_device]]
        triple_ret) simp
qed

lemma triple_dial:
  "triple (session_ok lib allow creds fp n) (gnoiDial lib net allow target fp n)
     (\<lambda>peer w. session_ok lib allow creds fp n w \<and> trusted lib fp n peer) (session_ok lib allow creds fp n)"
  unfolding gnoiDial_def
proof (rule triple_bindE [OF triple_resolve])
  fix x :: "string \<times> string \<times> addr"
  obtain host port ip where x: "x = (host, port, ip)" by (cases x)
  let ?I = "session_ok lib allow creds fp n"
  let ?T = "\<lambda>peer w. ?I w \<and> trusted lib fp n peer"
  show "triple (case x of (host, port, ip) \<Rightarrow> \<lambda>w. ?I w \<and> gnoiAllowed allow ip)
      (case x of (host, port, ip) \<Rightarrow> thenE (emit (Dialed ip port)) (bindE (on_device (wrConnect net ip port)) (\<lambda>raw.
        thenE (liftE (verify_peer lib fp n raw)) (thenE (on_device (wrReady net)) (ret (hd raw)))))) ?T ?I"
    unfolding x prod.case
    by (rule triple_thenE [OF triple_dialed]) (rule triple_bindE [OF triple_preserves [OF session_on_device] triple_peer])
qed

lemma session_step: "preserves (session_ok lib allow creds fp n) m \<Longrightarrow> preserves (session_ok lib allow creds fp n) (step a m)"
  by (auto simp: preserves_def step_def run_failed_def run_record_def op_simps session_ok_def split: prod.splits sum.splits)

lemma session_push_generate:
  "trusted lib (gpFingerprint req) n peer \<Longrightarrow> preserves (session_ok lib allow (gpCreds req) (gpFingerprint req) n) (push_generate net req peer)"
  unfolding push_generate_def by (intro keeps session_step session_authenticated)

lemma session_push_sign:
  "preserves (session_ok lib allow (gpCreds req) (gpFingerprint req) None) (push_sign lib net allow decode_csr now serial req)"
proof -
  let ?I = "session_ok lib allow (gpCreds req) (gpFingerprint req) None"
  have signing: "preserves ?I (case x of (rec, der) \<Rightarrow> thenE (run_ok ''sign'' (''signed as serial '' @ rSerial rec)) (ret (rec, der, chain)))" for x chain
    by (cases x) (simp add: keeps)
  have dialed: "preserves ?I (bindE (step ''connect'' (gnoiDial lib net allow (gpTarget req) (gpFingerprint req) None)) (\<lambda>peer.
      thenE (run_ok ''connect'' (''TLS connected to '' @ gpTarget req))
      (bindE (push_generate net req peer) (\<lambda>csrPEM.
       bindE (step ''sign'' (on_store (gnoiSignCSR decode_csr now serial req csrPEM issuer issuerKey))) (\<lambda>(rec, der).
       thenE (run_ok ''sign'' (''signed as serial '' @ rSerial rec)) (ret (rec, der, chain)))))))" for issuer issuerKey chain
    by (rule preserves_bind_pure [OF triple_step [OF triple_dial]])
      (intro keeps session_step session_push_generate signing)
  show ?thesis
    unfolding push_sign_def
  proof (rule preserves_thenE [OF preserves_liftE], rule preserves_bindE [OF session_on_store])
    fix x :: "xcert \<times> privkey"
    show "preserves ?I (case x of (issuer, issuerKey) \<Rightarrow>
        bindE (on_store (\<lambda>s. (bindR (IssuerChainPEM s (gpCAID req)) gnoiChainCerts, s))) (\<lambda>chain.
        bindE (step ''connect'' (gnoiDial lib net allow (gpTarget req) (gpFingerprint req) None)) (\<lambda>peer.
        thenE (run_ok ''connect'' (''TLS connected to '' @ gpTarget req))
        (bindE (push_generate net req peer) (\<lambda>csrPEM.
         bindE (step ''sign'' (on_store (gnoiSignCSR decode_csr now serial req csrPEM issuer issuerKey))) (\<lambda>(rec, der).
         thenE (run_ok ''sign'' (''signed as serial '' @ rSerial rec)) (ret (rec, der, chain))))))))"
      by (cases x) (simp only: prod.case, rule preserves_bindE [OF session_on_store dialed])
  qed
qed

lemma session_seen:
  "preserves (session_ok lib allow (gpCreds req) (gpFingerprint req) (Some der)) (gnoiSeenOnDevice lib net allow req der)"
  unfolding gnoiSeenOnDevice_def
  by (rule preserves_bind_pure [OF triple_dial]) (intro keeps session_authenticated)

lemma preserves_verify_loop:
  assumes "preserves I seen" "I w"
  shows "I (snd (verify_loop seen tm deadline attempts now w))"
  using assms
proof (induction seen tm deadline attempts now w rule: verify_loop.induct)
  case (1 seen tm deadline attempts now w)
  obtain r v where eq: "seen w = (r, v)" by fastforce
  from preservesD [OF "1.prems" eq] have "I v" .
  with "1.IH" [OF refl eq [symmetric] refl refl] "1.prems"(1) eq show ?case
    by (subst verify_loop.simps) (auto simp: Let_def)
qed

lemma session_verify:
  "preserves (session_ok lib allow (gpCreds req) (gpFingerprint req) (Some (cert_Raw lib der))) (gnoiVerify lib net allow tm now req der)"
proof (rule preservesI)
  fix w :: "'a world" assume w: "session_ok lib allow (gpCreds req) (gpFingerprint req) (Some (cert_Raw lib der)) w"
  obtain attempts found v where eq: "verify_loop (gnoiSeenOnDevice lib net allow req (cert_Raw lib der)) tm
      (now + gnoiVerifyWindow) 0 now w = ((attempts, found), v)"
    by (metis prod.exhaust)
  with preserves_verify_loop [OF session_seen w] have "session_ok lib allow (gpCreds req) (gpFingerprint req) (Some (cert_Raw lib der)) v"
    by (metis snd_conv)
  with eq show "session_ok lib allow (gpCreds req) (gpFingerprint req) (Some (cert_Raw lib der)) (snd (gnoiVerify lib net allow tm now req der w))"
    by (cases found) (simp_all add: gnoiVerify_def run_ok_def run_record_def op_simps session_ok_def)
qed

lemma session_push_install:
  assumes "session_ok lib allow (gpCreds req) (gpFingerprint req) None w"
  shows "session_ok lib allow (gpCreds req) (gpFingerprint req) (Some (cert_Raw lib der)) (snd (push_install lib net allow tm now req der chain w))"
proof -
  let ?I = "session_ok lib allow (gpCreds req) (gpFingerprint req) (Some (cert_Raw lib der))"
  let ?w = "w\<lparr>wdEvents := wdEvents w @ [Loaded (cert_Raw lib der)]\<rparr>"
  have "preserves ?I (bindE (on_device (\<lambda>d. case wrLoad net (cert_Raw lib der) chain d of (a, d') \<Rightarrow> (Inr a, d'))) (\<lambda>answer.
      thenE (case answer of LoadAccepted \<Rightarrow> run_ok ''install'' ''device accepted the certificate''
        | LoadReset \<Rightarrow> run_ok ''install'' ''device reset the install stream; verifying on a new connection''
        | LoadFailed e \<Rightarrow> run_failed ''install'' e)
      (gnoiVerify lib net allow tm now req der)))"
    by (intro preserves_bindE preserves_thenE session_on_device session_verify)
      (simp add: session_run_ok session_run_failed split: load_answer.split)
  moreover have "?I ?w" using assms by (auto simp: session_ok_def events_ok_snoc split: event.split)
  ultimately show ?thesis
    by (simp add: push_install_def thenE_emit preserves_def)
qed

text \<open>
  C21. A push, whatever the network and the device answer and wherever it fails, dials only allowed addresses, and sends the
  credentials of its request only over connections whose peer presents the pinned certificate or the one certificate
  that the push has sent to the pinned device before.
\<close>

theorem push_talks_only_to_the_pinned_device:
  "events_ok lib allow (gpCreds req) (gpFingerprint req)
     (wdEvents (snd (gnoiPush lib net allow decode_csr tm now serial req (w\<lparr>wdEvents := []\<rparr>))))"
proof -
  let ?w = "w\<lparr>wdEvents := []\<rparr>"
  obtain r v where sign: "push_sign lib net allow decode_csr now serial req ?w = (r, v)" by fastforce
  have "session_ok lib allow (gpCreds req) (gpFingerprint req) None ?w" by (simp add: session_ok_def events_ok_def)
  from preservesD [OF session_push_sign this sign] have v: "session_ok lib allow (gpCreds req) (gpFingerprint req) None v" .
  show ?thesis
  proof (cases r)
    case (Inl e)
    with sign v show ?thesis by (simp add: gnoiPush_def bindE_def session_ok_def)
  next
    case (Inr x)
    obtain rec der chain where x: "x = (rec, der, chain)" by (cases x)
    from session_push_install [OF v] sign Inr x show ?thesis
      by (simp add: gnoiPush_def bindE_def Let_def on_store_def session_ok_def split: prod.split)
        (metis snd_conv)
  qed
qed

text \<open>No run of the loop makes more attempts than fit into the window, whatever an attempt takes.\<close>

lemma verify_loop_attempts:
  assumes "verify_loop seen tm deadline attempts now w = ((n, found), v)" "now < deadline"
  shows "attempts < n \<and> gnoiVerifyInterval * (int n - int attempts) < deadline - now + gnoiVerifyInterval"
  using assms
proof (induction seen tm deadline attempts now w rule: verify_loop.induct)
  case (1 seen tm deadline attempts now w)
  obtain r u where eq: "seen w = (r, u)" by fastforce
  let ?now = "now + int (tmTook tm (attempts + 1))"
  have pos: "0 < gnoiVerifyInterval" by (simp add: gnoiVerifyInterval_def second_def)
  show ?case
  proof (cases "r = Inr True \<or> tmOver tm (attempts + 1) \<or> \<not> ?now + gnoiVerifyInterval < deadline")
    case True
    with "1.prems" eq have "n = attempts + 1" by (subst (asm) verify_loop.simps) (auto simp: Let_def split: if_splits)
    with "1.prems"(2) show ?thesis by simp
  next
    case False
    with "1.prems" eq have "verify_loop seen tm deadline (attempts + 1) (?now + gnoiVerifyInterval) u = ((n, found), v)"
      by (subst (asm) verify_loop.simps) (auto simp: Let_def)
    with False "1.IH" [OF refl eq [symmetric] refl] have "attempts + 1 < n \<and>
        gnoiVerifyInterval * (int n - int (attempts + 1)) < deadline - (?now + gnoiVerifyInterval) + gnoiVerifyInterval"
      by simp
    then show ?thesis using pos by (simp add: algebra_simps)
  qed
qed

text \<open>
  The verification after an install tries at least once and at most fifteen times, however long the attempts take and
  whatever the connections answer.
\<close>

lemma verification_is_bounded:
  assumes "verify_loop seen tm (now + gnoiVerifyWindow) 0 now w = ((n, found), v)"
  shows "1 \<le> n \<and> n \<le> 15"
proof -
  have "now < now + gnoiVerifyWindow" by (simp add: gnoiVerifyWindow_def second_def)
  from verify_loop_attempts [OF assms this] have "0 < n" "gnoiVerifyInterval * int n < gnoiVerifyWindow + gnoiVerifyInterval"
    by simp_all
  then show ?thesis by (simp add: gnoiVerifyInterval_def gnoiVerifyWindow_def second_def)
qed

subsection \<open>What a successful push leaves behind\<close>

text \<open>Only signing and the record of the outcome touch the store.\<close>

lemma store_on_device [keeps]: "preserves (\<lambda>w. P (wdStore w)) (on_device f)"
  by (simp add: preserves_def on_device_def split: prod.split)

lemma store_emit [keeps]: "preserves (\<lambda>w. P (wdStore w)) (emit e)"
  by (simp add: preserves_def emit_def modifyE_def)

lemma store_run_record [keeps]: "preserves (\<lambda>w. P (wdStore w)) (run_record a b c)"
  by (simp add: preserves_def run_record_def modifyE_def)

lemma store_run_ok [keeps]: "preserves (\<lambda>w. P (wdStore w)) (run_ok a b)"
  unfolding run_ok_def by (rule store_run_record)

lemma store_run_failed [keeps]: "preserves (\<lambda>w. P (wdStore w)) (run_failed a e)"
  unfolding run_failed_def by (intro keeps)

lemma store_step: "preserves (\<lambda>w. P (wdStore w)) m \<Longrightarrow> preserves (\<lambda>w. P (wdStore w)) (step a m)"
  by (auto simp: preserves_def step_def run_failed_def run_record_def op_simps split: prod.splits sum.splits)

lemma store_authenticated [keeps]: "preserves (\<lambda>w. P (wdStore w)) (authenticated c peer rpc)"
  unfolding authenticated_def by (intro keeps)

lemma store_dial [keeps]: "preserves (\<lambda>w. P (wdStore w)) (gnoiDial lib net allow target fp n)"
proof -
  have "preserves (\<lambda>w. P (wdStore w)) (gnoiResolve net allow target)"
    unfolding gnoiResolve_def gnoiResolveIPs_def by (auto split: option.split prod.split intro!: keeps)
  moreover have "preserves (\<lambda>w. P (wdStore w)) (case x of (host, port, ip) \<Rightarrow>
     thenE (emit (Dialed ip port)) (bindE (on_device (wrConnect net ip port)) (\<lambda>raw.
      thenE (liftE (verify_peer lib fp n raw)) (thenE (on_device (wrReady net)) (ret (hd raw))))))" for x
    by (cases x) (simp add: keeps)
  ultimately show ?thesis unfolding gnoiDial_def by (rule preserves_bindE)
qed

lemma store_push_generate [keeps]: "preserves (\<lambda>w. P (wdStore w)) (push_generate net req peer)"
  unfolding push_generate_def by (intro keeps store_step)

lemma store_seen [keeps]: "preserves (\<lambda>w. P (wdStore w)) (gnoiSeenOnDevice lib net allow req der)"
  unfolding gnoiSeenOnDevice_def by (intro keeps)

lemma store_verify [keeps]: "preserves (\<lambda>w. P (wdStore w)) (gnoiVerify lib net allow tm now req der)"
proof (rule preservesI)
  fix w :: "'a world" assume w: "P (wdStore w)"
  obtain attempts found v where eq: "verify_loop (gnoiSeenOnDevice lib net allow req (cert_Raw lib der)) tm
      (now + gnoiVerifyWindow) 0 now w = ((attempts, found), v)"
    by (metis prod.exhaust)
  with preserves_verify_loop [where I = "\<lambda>w. P (wdStore w)", OF store_seen w] have "P (wdStore v)" by (metis snd_conv)
  with eq show "P (wdStore (snd (gnoiVerify lib net allow tm now req der w)))"
    by (cases found) (simp_all add: gnoiVerify_def run_ok_def run_record_def op_simps)
qed

lemma store_push_install: "preserves (\<lambda>w. P (wdStore w)) (push_install lib net allow tm now req der chain)"
  unfolding push_install_def by (intro keeps) (auto intro!: keeps split: load_answer.split)

lemma kept_store:
  assumes "\<And>P. preserves (\<lambda>w. P (wdStore w)) m" "m w = (r, v)"
  shows "wdStore v = wdStore w"
  using preservesD [OF assms(1) [of "\<lambda>s. s = wdStore w"] refl assms(2)] .

lemma on_store_Inr: "on_store m w = (Inr x, v) \<longleftrightarrow> (\<exists>s. m (wdStore w) = (Inr x, s) \<and> v = w\<lparr>wdStore := s\<rparr>)"
  by (auto simp: on_store_def split: prod.splits)

lemma step_Inr: "step a m w = (Inr x, v) \<longleftrightarrow> m w = (Inr x, v)"
  by (auto simp: step_def run_failed_def run_record_def op_simps split: prod.splits sum.splits)

lemma run_ok_Inr: "run_ok a b w = (Inr u, v) \<Longrightarrow> wdStore v = wdStore w"
  by (auto simp: run_ok_def run_record_def)

lemma push_sign_success:
  assumes "push_sign lib net allow decode_csr now serial req w = (Inr (rec, der, chain), v)"
  obtains issuer key csrPEM where
    "validateGNOIRequest req = Inr ()"
    "loadCA (wdStore w) (gpCAID req) (gpCAPassphrase req) = Inr (issuer, key)"
    "bindR (IssuerChainPEM (wdStore w) (gpCAID req)) gnoiChainCerts = Inr chain"
    "gnoiSignCSR decode_csr now serial req csrPEM issuer key (wdStore w) = (Inr (rec, der), wdStore v)"
proof -
  from assms obtain issuer key w1 peer w2 w3 csrPEM w4 w5 where ok: "validateGNOIRequest req = Inr ()"
    and ca: "loadCA (wdStore w) (gpCAID req) (gpCAPassphrase req) = Inr (issuer, key)"
    and chain: "bindR (IssuerChainPEM (wdStore w) (gpCAID req)) gnoiChainCerts = Inr chain"
    and w1: "wdStore w1 = wdStore w"
    and dial: "gnoiDial lib net allow (gpTarget req) (gpFingerprint req) None w1 = (Inr peer, w2)"
    and w3: "run_ok ''connect'' (''TLS connected to '' @ gpTarget req) w2 = (Inr (), w3)"
    and gen: "push_generate net req peer w3 = (Inr csrPEM, w4)"
    and sign: "on_store (gnoiSignCSR decode_csr now serial req csrPEM issuer key) w4 = (Inr (rec, der), w5)"
    and v: "wdStore v = wdStore w5"
    unfolding push_sign_def bindE_Inr_iff thenE_Inr_iff
    by (auto simp: on_store_Inr step_Inr bindE_Inr_iff thenE_Inr_iff dest: run_ok_Inr)
  from kept_store [OF store_dial dial] run_ok_Inr [OF w3] kept_store [OF store_push_generate gen] w1
  have "wdStore w4 = wdStore w" by simp
  with sign v have "gnoiSignCSR decode_csr now serial req csrPEM issuer key (wdStore w) = (Inr (rec, der), wdStore v)"
    by (auto simp: on_store_Inr)
  from that [OF ok ca chain this] show thesis .
qed

lemma AddPush_frame:
  assumes "AddPush k p s = (r, t)"
  shows "certs t = certs s \<and> (\<forall>x \<in> set (index s). \<exists>y \<in> set (index t). rSerial y = rSerial x \<and> rIssuerID y = rIssuerID x)"
proof -
  obtain r1 s1 where read: "loadIndex s = (r1, s1)" by fastforce
  then have s1: "index s1 = index s" "certs s1 = certs s" and r1: "\<And>recs. r1 = Inr recs \<Longrightarrow> recs = index s"
    by (auto simp: loadIndex_def readE_def thenE_def bindE_def gets_def io_def split: list.splits disk_fault.splits)
  show ?thesis
  proof (cases r1)
    case (Inl e)
    with assms read s1 show ?thesis by (auto simp: AddPush_def bindE_def)
  next
    case (Inr recs)
    show ?thesis
    proof (cases "replace_first (\<lambda>r. rSerial r = k) (\<lambda>r. r\<lparr>rPushes := rPushes r @ [p]\<rparr>) (index s)")
      case None
      with assms read s1 r1 Inr show ?thesis by (auto simp: AddPush_def bindE_def throw_def)
    next
      case (Some recs')
      then obtain us x vs where "index s = us @ x # vs" "recs' = us @ x\<lparr>rPushes := rPushes x @ [p]\<rparr> # vs"
        using replace_first_Some by fastforce
      then have kept: "\<forall>x \<in> set (index s). \<exists>y \<in> set recs'. rSerial y = rSerial x \<and> rIssuerID y = rIssuerID x" by auto
      from assms read r1 Inr Some have "saveIndex recs' s1 = (r, t)" by (simp add: AddPush_def bindE_def)
      with s1 have "certs t = certs s \<and> (index t = index s \<or> index t = recs')"
        by (auto simp: saveIndex_def io_def split: list.splits disk_fault.splits)
      with kept show ?thesis by auto
    qed
  qed
qed

lemma gnoiSignCSR_success:
  assumes sign: "gnoiSignCSR decode_csr now serial req csrPEM issuer key s = (Inr (rec, der), t)" and t: "tName (gpTemplate req) \<noteq> []"
  shows "(\<exists>csr. decode_csr csrPEM = Some csr \<and> CommonName (csrSubject csr) = gpCommonName req \<and>
      csrSignedBy csr = PublicKey der \<and> csrPublicKey csr = PublicKey der) \<and>
    \<not> IsCA der \<and> ExtKeyUsage der = extKeyUsage (tProfile (gpTemplate req)) \<and>
    DNSNames der = gpDNSNames req \<and> IPAddresses der = gpIPs req \<and> EmailAddresses der = [] \<and> URIs der = [] \<and>
    SignedBy der = PublicKey issuer \<and> NotAfter der \<le> NotAfter issuer \<and> NotAfter der \<le> AddDays now (tMaxDays (gpTemplate req)) \<and>
    rSerial rec = serialString (SerialNumber der) \<and> rIssuerID rec = gpCAID req \<and>
    certs t (rSerial rec) = Some (encodeCertPEM der) \<and> rec \<in> set (index t)"
proof -
  let ?csr = "\<lambda>csr. csr\<lparr>csrDNS := gpDNSNames req, csrIPs := gpIPs req, csrEmails := [], csrURIs := [], csrExtensions := []\<rparr>"
  let ?p = "\<lparr>spCSR = None, spValidDays = gpValidDays req, spProfile = tProfile (gpTemplate req), spIssuerID = gpCAID req,
    spCAPassphrase = [], spTemplate = gpTemplate req, spTemplateName = tName (gpTemplate req), spBackdate = gnoiBackdate\<rparr>"
  from sign obtain csr s1 s2 where csr: "decode_csr csrPEM = Some csr" "CommonName (csrSubject csr) = gpCommonName req"
    and signed: "signCSRWithoutPersistence now serial (?csr csr) ?p issuer key False = Inr (rec, der)"
    and saved: "SaveCert (rSerial rec) (encodeCertPEM der) None s = (Inr (), s1)" "AddRecord rec s1 = (Inr (), t)"
    by (auto simp: gnoiSignCSR_def bindE_Inr_iff thenE_Inr_iff Let_def split: option.splits if_splits)
  from t have "tName (spTemplate ?p) \<noteq> []" by simp
  note facts = signed_request_facts [OF signed this]
  from SaveCert_success [OF saved(1)] AddRecord_success [OF saved(2)]
  have "certs t (rSerial rec) = Some (encodeCertPEM der)" "rec \<in> set (index t)" by auto
  with facts csr show ?thesis by auto
qed

lemma seen_listed:
  assumes "gnoiSeenOnDevice lib net allow req der w = (Inr True, v)"
  shows "\<exists>d listed. fst (wrList net (gpCreds req) d) = Inr listed \<and> (gpCertID req, Some der) \<in> set listed"
proof -
  from assms obtain peer w1 listed where "authenticated (gpCreds req) peer (wrList net (gpCreds req)) w1 = (Inr listed, v)"
    and listed: "(gpCertID req, Some der) \<in> set listed"
    by (auto simp: gnoiSeenOnDevice_def bindE_Inr_iff list_ex_iff)
  then have "\<exists>d. fst (wrList net (gpCreds req) d) = Inr listed"
    by (auto simp: authenticated_def thenE_emit on_device_def intro!: exI [of _ "wdDevice w1"] split: prod.splits)
  with listed show ?thesis by blast
qed

lemma verify_loop_found:
  assumes "verify_loop seen tm deadline attempts now w = ((n, True), v)"
  shows "\<exists>u. seen u = (Inr True, v)"
  using assms
proof (induction seen tm deadline attempts now w rule: verify_loop.induct)
  case (1 seen tm deadline attempts now w)
  obtain r u where eq: "seen w = (r, u)" by fastforce
  with "1.IH" [OF refl eq [symmetric] refl refl] "1.prems" show ?case
    by (subst (asm) verify_loop.simps) (auto simp: Let_def split: if_splits)
qed

lemma push_install_success:
  assumes "push_install lib net allow tm now req der chain w = (Inr x, v)"
  shows "x = der \<and> wdStore v = wdStore w \<and>
    (\<exists>d listed. fst (wrList net (gpCreds req) d) = Inr listed \<and> (gpCertID req, Some (cert_Raw lib der)) \<in> set listed)"
proof -
  from assms obtain w1 where "gnoiVerify lib net allow tm now req der w1 = (Inr x, v)"
    by (auto simp: push_install_def bindE_Inr_iff thenE_Inr_iff)
  then obtain n u where "verify_loop (gnoiSeenOnDevice lib net allow req (cert_Raw lib der)) tm (now + gnoiVerifyWindow) 0 now w1
        = ((n, True), u)" and "x = der"
    by (auto simp: gnoiVerify_def thenE_Inr_iff split: prod.splits bool.splits)
  then show ?thesis
    using verify_loop_found seen_listed kept_store [OF store_push_install assms] by metis
qed

lemma gnoiPush_Inr:
  assumes "gnoiPush lib net allow decode_csr tm now serial req w = (Inr der, v)"
  obtains rec der' chain w1 w2 p where
    "push_sign lib net allow decode_csr now serial req w = (Inr (rec, der', chain), w1)"
    "push_install lib net allow tm now req der' chain w1 = (Inr der, w2)"
    "v = snd (on_store (AddPush (rSerial rec) p) w2)"
proof -
  from assms obtain rec der' chain w1 where sign: "push_sign lib net allow decode_csr now serial req w = (Inr (rec, der', chain), w1)"
    by (auto simp: gnoiPush_def bindE_Inr_iff)
  obtain r w2 where install: "push_install lib net allow tm now req der' chain w1 = (r, w2)" by fastforce
  from assms sign install have "r = Inr der" and "\<exists>p. v = snd (on_store (AddPush (rSerial rec) p) w2)"
    by (auto simp: gnoiPush_def bindE_def Let_def)
  with that sign install show thesis by blast
qed

text \<open>
  C22. A push that succeeds has installed exactly the certificate it returns: the device proved possession of its key and lists
  it under the requested id; it was signed by the chosen CA, is no CA certificate, has the usages of the
  template and exactly the names and addresses of the form, and outlives neither the CA nor the template's maximum; and the
  store keeps it with a record that names the CA, whether or not recording the outcome succeeds.
\<close>

theorem successful_push:
  assumes push: "gnoiPush lib net allow decode_csr tm now serial req w = (Inr der, v)" and t: "tName (gpTemplate req) \<noteq> []"
  shows "\<exists>issuer key csrPEM csr d listed. loadCA (wdStore w) (gpCAID req) (gpCAPassphrase req) = Inr (issuer, key) \<and>
    decode_csr csrPEM = Some csr \<and> CommonName (csrSubject csr) = gpCommonName req \<and> csrSignedBy csr = PublicKey der \<and>
    fst (wrList net (gpCreds req) d) = Inr listed \<and> (gpCertID req, Some (cert_Raw lib der)) \<in> set listed \<and>
    \<not> IsCA der \<and> ExtKeyUsage der = extKeyUsage (tProfile (gpTemplate req)) \<and>
    DNSNames der = gpDNSNames req \<and> IPAddresses der = gpIPs req \<and> EmailAddresses der = [] \<and> URIs der = [] \<and>
    SignedBy der = PublicKey issuer \<and> NotAfter der \<le> NotAfter issuer \<and> NotAfter der \<le> AddDays now (tMaxDays (gpTemplate req)) \<and>
    certs (wdStore v) (serialString (SerialNumber der)) = Some (encodeCertPEM der) \<and>
    (\<exists>r \<in> set (index (wdStore v)). rSerial r = serialString (SerialNumber der) \<and> rIssuerID r = gpCAID req)"
proof -
  obtain rec der' chain w1 w2 p where sign: "push_sign lib net allow decode_csr now serial req w = (Inr (rec, der', chain), w1)"
    and install: "push_install lib net allow tm now req der' chain w1 = (Inr der, w2)"
    and v: "v = snd (on_store (AddPush (rSerial rec) p) w2)"
    using push by (rule gnoiPush_Inr)
  from push_install_success [OF install] obtain d listed where der: "der' = der" and w2: "wdStore w2 = wdStore w1"
    and listed: "fst (wrList net (gpCreds req) d) = Inr listed" "(gpCertID req, Some (cert_Raw lib der)) \<in> set listed"
    by blast
  obtain issuer key csrPEM where ca: "loadCA (wdStore w) (gpCAID req) (gpCAPassphrase req) = Inr (issuer, key)"
    and csr: "gnoiSignCSR decode_csr now serial req csrPEM issuer key (wdStore w) = (Inr (rec, der), wdStore w1)"
    using push_sign_success [OF sign] der by metis
  note facts = gnoiSignCSR_success [OF csr t]
  obtain s r where add: "AddPush (rSerial rec) p (wdStore w1) = (r, s)" by fastforce
  have frame: "certs s = certs (wdStore w1) \<and> (\<forall>x \<in> set (index (wdStore w1)). \<exists>y \<in> set (index s). rSerial y = rSerial x \<and> rIssuerID y = rIssuerID x)"
    using AddPush_frame [OF add] .
  have "wdStore v = s" using v w2 add by (simp add: on_store_def)
  with frame facts ca listed show ?thesis by (metis (no_types, lifting))
qed

lemma replace_first_exists: "\<exists>x \<in> set xs. P x \<Longrightarrow> \<exists>ys. replace_first P f xs = Some ys"
  by (induction xs) auto

lemma AddPush_recorded:
  assumes "disk s = []" "\<exists>x \<in> set (index s). rSerial x = k"
  shows "\<exists>x \<in> set (index (snd (AddPush k p s))). rSerial x = k \<and> rPushes x \<noteq> [] \<and> last (rPushes x) = p"
proof -
  from replace_first_exists [OF assms(2)] obtain recs' where
    new: "replace_first (\<lambda>r. rSerial r = k) (\<lambda>r. r\<lparr>rPushes := rPushes r @ [p]\<rparr>) (index s) = Some recs'" by blast
  from replace_first_Some [OF new] obtain us x vs where
    "recs' = us @ x\<lparr>rPushes := rPushes x @ [p]\<rparr> # vs" "rSerial x = k" by blast
  then have "\<exists>y \<in> set recs'. rSerial y = k \<and> rPushes y \<noteq> [] \<and> last (rPushes y) = p" by auto
  moreover have "AddPush k p s = (Inr (), s\<lparr>index := recs'\<rparr>)"
    using assms(1) new by (simp add: AddPush_def loadIndex_def saveIndex_def readE_def io_def op_simps)
  ultimately show ?thesis by simp
qed

lemma push_outcome_iff:
  "push_outcome w r = ''installed and verified'' \<longleftrightarrow> (\<exists>c. r = Inr c)"
  "push_outcome w r = errGNOIUnverified \<longleftrightarrow> r = Inl errGNOIUnverified"
  by (auto simp: push_outcome_def errGNOIUnverified_def split: sum.split)

text \<open>
  Once a push has signed a certificate, its record carries how the push ended, whatever the device does afterwards: the
  target, the id and the administrator, and an outcome that tells a verified installation, one that could not be verified, and
  a failure apart. The one premise on faults is that the disk takes the record.
\<close>

lemma push_outcome_is_recorded:
  assumes sign: "push_sign lib net allow decode_csr now serial req w = (Inr (rec, der, chain), w1)" and disk: "disk (wdStore w1) = []"
    and push: "gnoiPush lib net allow decode_csr tm now serial req w = (r, v)"
  shows "\<exists>x \<in> set (index (wdStore v)). rSerial x = rSerial rec \<and> rPushes x \<noteq> [] \<and>
    (let p = last (rPushes x) in pTarget p = gpTarget req \<and> pCertID p = gpCertID req \<and> pAdmin p = gpAdmin req \<and>
      (pOutcome p = ''installed and verified'' \<longleftrightarrow> (\<exists>c. r = Inr c)) \<and>
      (pOutcome p = errGNOIUnverified \<longleftrightarrow> r = Inl errGNOIUnverified))"
proof -
  obtain r' w2 where install: "push_install lib net allow tm now req der chain w1 = (r', w2)" by fastforce
  let ?p = "\<lparr>pTarget = gpTarget req, pCertID = gpCertID req, pAdmin = gpAdmin req, pTime = now, pOutcome = push_outcome w2 r'\<rparr>"
  from push sign install have r: "r' = r" and v: "wdStore v = snd (AddPush (rSerial rec) ?p (wdStore w2))"
    by (auto simp: gnoiPush_def bindE_def Let_def on_store_def split: prod.split)
  have w2: "wdStore w2 = wdStore w1" by (rule kept_store [OF store_push_install install])
  obtain csrPEM issuer key where "gnoiSignCSR decode_csr now serial req csrPEM issuer key (wdStore w) = (Inr (rec, der), wdStore w1)"
    using push_sign_success [OF sign] by metis
  then have "rec \<in> set (index (wdStore w1))"
    by (auto simp: gnoiSignCSR_def bindE_Inr_iff thenE_Inr_iff Let_def dest!: AddRecord_success split: option.splits if_splits)
  then have "\<exists>x \<in> set (index (wdStore w2)). rSerial x = rSerial rec" using w2 by auto
  from AddPush_recorded [OF _ this] disk w2 obtain x where "x \<in> set (index (wdStore v))" "rSerial x = rSerial rec"
      "rPushes x \<noteq> []" "last (rPushes x) = ?p"
    unfolding v by auto
  then show ?thesis by (auto simp: Let_def push_outcome_iff r)
qed

end
