(* ===== verification/ScepSafety.thy ===== *)
theory ScepSafety
  imports ScepEnroll
begin

text \<open>
  What enrollment guarantees: a challenge buys one certificate, what is answered is committed and published, and a
  certificate carries the names its challenge or its source address authorizes.
\<close>

section \<open>Commits are journal steps\<close>

lemma replace_first_find:
  "find P xs = Some c \<Longrightarrow> \<exists>us vs. xs = us @ c # vs \<and> replace_first P f xs = Some (us @ f c # vs)"
proof (induction xs)
  case (Cons x xs)
  show ?case
  proof (cases "P x")
    case True
    with Cons.prems show ?thesis by (intro exI [of _ "[]"] exI [of _ xs]) simp
  next
    case False
    with Cons obtain us vs where "xs = us @ c # vs" "replace_first P f xs = Some (us @ f c # vs)" by auto
    with False show ?thesis by (intro exI [of _ "x # us"] exI [of _ vs]) simp
  qed
qed simp

lemma map_other: "c \<notin> set xs \<Longrightarrow> map (\<lambda>x. if x = c then d else x) xs = xs"
  by (induction xs) auto

lemma find_unique: "distinct (map f (us @ c # vs)) \<Longrightarrow> find (\<lambda>x. f x = f c) (us @ d # vs) = (if f d = f c then Some d else None)"
proof -
  assume d: "distinct (map f (us @ c # vs))"
  then have "\<forall>x \<in> set us \<union> set vs. f x \<noteq> f c" by auto (metis image_eqI)+
  then have "find (\<lambda>x. f x = f c) us = None" "find (\<lambda>x. f x = f c) vs = None" by (auto simp: find_None_iff_ball)
  then show ?thesis by (simp add: find_append)
qed

lemma commit_split:
  assumes "find (chosen st k) (stChallenges st) = Some c"
  obtains us vs where "stChallenges st = us @ c # vs"
    "commit_challenge st k iss = st\<lparr>stChallenges := us @ c\<lparr>cIssuance := iss\<rparr> # vs\<rparr>" "cHash c = k" "cCA c = stCA st"
proof -
  from replace_first_find [OF assms, of "\<lambda>c. c\<lparr>cIssuance := iss\<rparr>"] obtain us vs where
    "stChallenges st = us @ c # vs" "replace_first (chosen st k) (\<lambda>c. c\<lparr>cIssuance := iss\<rparr>) (stChallenges st) = Some (us @ c\<lparr>cIssuance := iss\<rparr> # vs)"
    by blast
  moreover from find_Some_set [OF assms] have "cHash c = k" "cCA c = stCA st" by (simp_all add: chosen_def)
  ultimately show ?thesis using that by (simp add: commit_challenge_def)
qed

lemma commit_lookup:
  assumes "find (chosen st k) (stChallenges st) = Some c" "unique_hashes st"
  shows "lookup st k = Some c" "lookup (commit_challenge st k iss) k = Some (c\<lparr>cIssuance := iss\<rparr>)"
proof -
  from assms(1) obtain us vs where s: "stChallenges st = us @ c # vs"
    "commit_challenge st k iss = st\<lparr>stChallenges := us @ c\<lparr>cIssuance := iss\<rparr> # vs\<rparr>" "cHash c = k"
    by (rule commit_split)
  with assms(2) find_unique [of cHash us c vs]
  show "lookup st k = Some c" "lookup (commit_challenge st k iss) k = Some (c\<lparr>cIssuance := iss\<rparr>)"
    by (simp_all add: lookup_def unique_hashes_def)
qed

lemma evolves_commit:
  assumes "find (chosen st k) (stChallenges st) = Some c" "iUsed (cIssuance c) = 0"
  shows "evolves h st (commit_challenge st k iss)"
proof (cases "unique_hashes st")
  case True
  from assms(1) obtain us vs where s: "stChallenges st = us @ c # vs"
    "commit_challenge st k iss = st\<lparr>stChallenges := us @ c\<lparr>cIssuance := iss\<rparr> # vs\<rparr>"
    by (rule commit_split)
  define d where "d = c\<lparr>cIssuance := iss\<rparr>"
  let ?f = "\<lambda>x. if x = c then d else x"
  from True s(1) have "distinct (us @ c # vs)" by (metis distinct_map unique_hashes_def)
  then have "c \<notin> set us" "c \<notin> set vs" by auto
  then have "map ?f (us @ c # vs) = us @ d # vs" by (simp add: map_other)
  then have c: "commit_challenge st k iss = st\<lparr>stChallenges := map ?f (stChallenges st)\<rparr>" unfolding s(2) d_def [symmetric] s(1) by simp
  have "same_terms x (?f x)" for x using assms(2) by (simp add: same_terms_def d_def)
  then show ?thesis unfolding c by (rule evolves_map)
qed (simp add: evolves_def)

lemma lookup_mark: "lookup (mark_all st) k = map_option mark_challenge (lookup st k)"
proof -
  have "(\<lambda>c. cHash c = k) \<circ> mark_challenge = (\<lambda>c. cHash c = k)" by (auto simp: mark_challenge_def)
  then show ?thesis by (simp add: lookup_def mark_all_def find_map)
qed

lemma stays_findRecord: "stays (findRecord serial)"
proof (rule stays_I)
  fix st
  have "preserves (\<lambda>s. scep s = st) (readE (\<lambda>s. RecordBySerial s serial))" by (rule preserves_readE) simp
  then show "preserves (\<lambda>s. scep s = st) (findRecord serial)"
    unfolding preserves_def findRecord_def by (auto split: prod.splits sum.splits)
qed

lemma stays_ListDevices: "stays ListDevices"
  unfolding ListDevices_def loadDevices_def by (intro stays_bind stays_rules)

lemma stays_sharedNames: "stays (sharedNames resolve c sfx src)"
  unfolding sharedNames_def by (auto intro!: stays_if stays_bind stays_rules stays_ListDevices split: sum.split)

context journal_steps
begin

lemma enrollUsed_within: "within st (enrollUsed now c rq)"
  unfolding enrollUsed_def Let_def
  by (intro within_if within_ret within_bind stays_findRecord)

text \<open>The step of an enrollment is the commit; a relation that allows commits allows enrollment.\<close>

lemma enrollNew_within:
  fixes rq :: request
  assumes "\<And>rec der. scepIssue now serial ((rqCSR rq)\<lparr>csrDNS := cDNS c, csrIPs := cIPs c\<rparr>) (stCA st) (cDays c) (cProfile c) ca key = Inr (rec, der) \<Longrightarrow>
      serverAuth (tProfile (cProfile c)) \<Longrightarrow> tName (cProfile c) \<noteq> [] \<Longrightarrow> allowedSCEPIdentities (rqCSR rq) c \<Longrightarrow>
      R st (commit_challenge st (cHash c) (new_issuance now rq rec der))"
  shows "within st (enrollNew now serial st c rq ca key)"
  unfolding enrollNew_def Let_def
  by (auto intro!: within_if within_ret within_commit assms split: sum.split)

lemma issueShared_within:
  fixes rq :: request
  assumes "\<And>rec der. scepIssue now serial (authorizedShared (rqCSR rq) src names) (stCA st) (hDays c) (hProfile c) ca key = Inr (rec, der) \<Longrightarrow>
      \<not> list_ex (\<lambda>i. sIdentity i = sharedIdentity src names \<and> now < iUsed (sIssuance i) + sharedRateWindow) (hIssuances c) \<Longrightarrow>
      R st (commit_shared st (hHash c) (sharedIssuance now rq src names rec der))"
  shows "within st (issueShared now serial st c rq origin src names ca key)"
  unfolding issueShared_def Let_def
  by (auto intro!: within_if within_ret within_commit assms split: sum.split)

lemma enrollShared_within:
  assumes "\<And>origin src names s t. scepSource remote = Inr src \<Longrightarrow> list_ex (\<lambda>p. prefix_contains p src) (hRanges c) \<Longrightarrow>
      sharedNames resolve (rqCSR rq) (hSuffixes c) src s = (Inr (Inr names), t) \<Longrightarrow> within st (issueShared now serial st c rq origin src names ca key)"
  shows "within st (enrollShared resolve now serial st c rq remote ca key)"
proof -
  have names: "within st (bindE (sharedNames resolve (rqCSR rq) (hSuffixes c) src) (\<lambda>r. case r of
          Inl reason \<Rightarrow> ret (Denied reason)
        | Inr names \<Rightarrow> issueShared now serial st c rq origin src names ca key))"
    if "scepSource remote = Inr src" "list_ex (\<lambda>p. prefix_contains p src) (hRanges c)" for src origin
    by (rule within_bind_result [OF stays_sharedNames])
      (use assms [OF that] in \<open>auto intro!: within_ret split: sum.split\<close>)
  show ?thesis
    unfolding enrollShared_def Let_def
    by (auto intro!: within_if within_ret within_bind [OF stays_findRecord] names split: sum.split option.split)
qed

lemma authorize_within:
  assumes "\<And>c. find (chosen st (rqPasswordHash rq)) (stChallenges st) = Some c \<Longrightarrow> iUsed (cIssuance c) = 0 \<Longrightarrow>
      within st (enrollNew now serial st c rq ca key)"
    and "\<And>c. sharedIndex st (rqPasswordHash rq) = Some c \<Longrightarrow> within st (enrollShared (lookupHost lib) now serial st c rq remote ca key)"
  shows "within st (authorize lib now serial st rq remote ca key)"
  unfolding authorize_def
  by (auto intro!: within_if within_ret enrollUsed_within assms split: option.split)

lemma decide_keeping:
  assumes "\<And>st rq ca key. within st (authorize lib now serial st rq remote ca key)"
  shows "keeping (decide lib now serial raw remote)"
  unfolding decide_def
  by (rule load_keeping)
    (auto intro!: within_bind [OF stays_rules(7)] within_recover within_ret within_bind_stays assms stays_rules split: sum.split)

lemma sharedChallenge_keeping: "keeping (sharedChallenge H now secret p ranges sfx days expiry)"
  unfolding sharedChallenge_def Let_def
  by (rule load_keeping, rule within_bind [OF profile_stays])
    (auto simp: case_prod_beta intro!: within_if within_bind [OF stays_rules(4)] within_throw stays_rules within_capacity within_save_ret
      R_trans [OF R_prune R_new_shared])

end

lemma decide_evolving: "ev.keeping h (decide lib now serial raw remote)"
proof (intro ev.decide_keeping ev.authorize_within ev.enrollNew_within ev.enrollShared_within ev.issueShared_within)
  fix st c rec der and rq :: request
  assume a: "find (chosen st (rqPasswordHash rq)) (stChallenges st) = Some c" "iUsed (cIssuance c) = 0"
  then have "cHash c = rqPasswordHash rq" by (auto dest: find_Some_set simp: chosen_def)
  with evolves_commit [OF a] show "evolves h st (commit_challenge st (cHash c) (new_issuance now rq rec der))" by simp
next
  fix st c src names rec der and rq :: request
  show "evolves h st (commit_shared st (hHash c) (sharedIssuance now rq src names rec der))"
    by (rule evolves_same_challenges) (simp add: commit_shared_def)
qed

section \<open>Single use\<close>

text \<open>The operations on the journal besides enrollment and the creation of a challenge for one request.\<close>

datatype journal_op =
    CreateShared time string string "prefix list" "string list" int int
  | Revoke string
  | Forget time string
  | AllowDES bool
  | SelectCA string
  | Restart
  | RemoveCA string
  | RemoveCert string

fun journal_step :: "libraries \<Rightarrow> journal_op \<Rightarrow> store \<Rightarrow> store" where
  "journal_step lib (CreateShared now secret p ranges sfx days expiry) s =
     snd (sharedChallenge (sha256 lib) now secret p ranges sfx days expiry s)"
| "journal_step lib (Revoke k) s = snd (revoke k s)"
| "journal_step lib (Forget now k) s = snd (deleteChallenge now k s)"
| "journal_step lib (AllowDES b) s = snd (setAllowDES b s)"
| "journal_step lib (SelectCA ca) s = snd (selectCA ca s)"
| "journal_step lib Restart s = snd (scep_startup s)"
| "journal_step lib (RemoveCA ca) s = snd (DeleteCA ca s)"
| "journal_step lib (RemoveCert serial) s = snd (DeleteCert serial s)"

text \<open>The certificate a decision grants on a challenge for one request, with the hash of its password.\<close>

fun granted :: "libraries \<Rightarrow> error + decision \<Rightarrow> (string \<times> xcert option) set" where
  "granted lib (Inr (Decided ca key m (Granted [] d))) = {(sha256 lib (smPassword m), d)}"
| "granted lib _ = {}"

text \<open>
  Everything that can happen to the journal, in any order and with any faults of the disk: \<open>C\<close> collects the hashes of the
  challenges created, \<open>G\<close> the certificates granted. A new secret is one that was not drawn before, and the
  clock is not at the zero time. What other parts of the program do leaves the journal alone.
\<close>

inductive scep_reach :: "libraries \<Rightarrow> string set \<Rightarrow> (string \<times> xcert option) set \<Rightarrow> store \<Rightarrow> bool" for lib where
  start: "stChallenges (scep s) = [] \<Longrightarrow> stShared (scep s) = [] \<Longrightarrow> scep_reach lib {} {} s"
| request: "scep_reach lib C G s \<Longrightarrow> now \<noteq> 0 \<Longrightarrow> decide lib now serial raw remote s = (r, t) \<Longrightarrow>
    scep_reach lib C (granted lib r \<union> G) t"
| create: "scep_reach lib C G s \<Longrightarrow> sha256 lib secret \<notin> C \<Longrightarrow>
    new_challenge (sha256 lib) now secret p ids days hours s = (r', t) \<Longrightarrow> scep_reach lib (insert (sha256 lib secret) C) G t"
| journal: "scep_reach lib C G s \<Longrightarrow> scep_reach lib C G (journal_step lib op s)"
| elsewhere: "scep_reach lib C G s \<Longrightarrow> scep t = scep s \<Longrightarrow> scep_reach lib C G t"

context journal_steps
begin

lemma journal_step_related: "R (scep s) (scep (journal_step lib op s))"
  using sharedChallenge_keeping revoke_keeping deleteChallenge_keeping settings_keeping reconcile_keeping delete_keeping
  by (cases op) (simp_all add: keeping_def)

end

text \<open>After a grant the journal holds the certificate, under the hash of the password.\<close>

definition holds_grant :: "string \<Rightarrow> xcert option \<Rightarrow> scepState \<Rightarrow> bool" where
  "holds_grant h d st \<longleftrightarrow> (\<exists>c. lookup st h = Some c \<and> iUsed (cIssuance c) \<noteq> 0 \<and> iDER (cIssuance c) = d)"

lemma mark_fields [simp]: "iUsed (mark i) = iUsed i" "iDER (mark i) = iDER i" "iRecord (mark i) = iRecord i"
  by (simp_all add: mark_def)

lemma holds_grant_mark [simp]: "holds_grant h d (mark_all st) = holds_grant h d st"
  by (auto simp: holds_grant_def lookup_mark mark_challenge_def)

definition sound_grant :: "string \<Rightarrow> scepState \<Rightarrow> enrollment \<Rightarrow> bool" where
  "sound_grant h st v \<longleftrightarrow> (\<forall>d. v = Granted [] d \<longrightarrow> holds_grant h d st)"

lemma enrollShared_origin:
  "yields (\<lambda>v. \<forall>d. v \<noteq> Granted [] d) (enrollShared resolve now serial st c rq remote ca key)"
  unfolding enrollShared_def issueShared_def Let_def
  by (auto intro!: yields_if yields_bind yields_then yields_ret split: sum.split option.split)

lemma enrollNew_Granted:
  assumes "enrollNew now serial st c rq ca key s = (Inr (Granted origin d), t)"
  obtains rec der s1 st2 where "d = Some der" "\<not> cRevoked c" "now \<le> cExpires c" "allowedSCEPIdentities (rqCSR rq) c"
    "tName (cProfile c) \<noteq> []" "serverAuth (tProfile (cProfile c))"
    "scepIssue now serial ((rqCSR rq)\<lparr>csrDNS := cDNS c, csrIPs := cIPs c\<rparr>) (stCA st) (cDays c) (cProfile c) ca key = Inr (rec, der)"
    "scep_save (commit_challenge st (cHash c) (new_issuance now rq rec der)) s = (Inr (), s1)"
    "scep_recover (commit_challenge st (cHash c) (new_issuance now rq rec der)) s1 = (Inr st2, t)"
  using assms by (auto simp: enrollNew_def Let_def thenE_Inr_iff split: if_splits sum.splits)

lemma new_issuance_fields [simp]:
  "iUsed (new_issuance now rq rec der) = now" "iDER (new_issuance now rq rec der) = Some der"
  "iRecord (new_issuance now rq rec der) = rec" "iPublished (new_issuance now rq rec der) = False"
  by (simp_all add: new_issuance_def)

lemma authorize_grants:
  assumes "unique_hashes st" "now \<noteq> 0" "scep s = st" "authorize lib now serial st rq remote ca key s = (Inr v, t)"
  shows "sound_grant (rqPasswordHash rq) (scep t) v"
proof (cases "find (chosen st (rqPasswordHash rq)) (stChallenges st)")
  case None
  then have "yields (\<lambda>v. \<forall>d. v \<noteq> Granted [] d) (authorize lib now serial st rq remote ca key)"
    unfolding authorize_def by (auto intro!: yields_ret enrollShared_origin split: option.split)
  with assms(4) have "v \<noteq> Granted [] d" for d by (auto simp: yields_def)
  then show ?thesis by (simp add: sound_grant_def)
next
  case (Some c)
  then have h: "cHash c = rqPasswordHash rq" by (auto dest: find_Some_set simp: chosen_def)
  note l = commit_lookup [OF Some assms(1)]
  show ?thesis
  proof (cases "iUsed (cIssuance c) = 0")
    case False
    with assms(4) Some have e: "enrollUsed now c rq s = (Inr v, t)" by (simp add: authorize_def)
    have "preserves (\<lambda>s. scep s = st) (enrollUsed now c rq)"
      unfolding enrollUsed_def Let_def using stays_findRecord by (auto simp: stays_def intro!: keeps)
    with e assms(3) have "scep t = st" by (auto dest: preservesD)
    moreover have "v = Granted [] d \<Longrightarrow> d = iDER (cIssuance c)" for d
      using e by (auto simp: enrollUsed_def Let_def bindE_Inr_iff split: if_splits)
    ultimately show ?thesis using l False by (auto simp: sound_grant_def holds_grant_def)
  next
    case True
    with assms(4) Some have e: "enrollNew now serial st c rq ca key s = (Inr v, t)" by (simp add: authorize_def)
    show ?thesis unfolding sound_grant_def
    proof (intro allI impI)
      fix d assume v: "v = Granted [] d"
      with e obtain rec der s1 st2 where d: "d = Some der"
        and sv: "scep_save (commit_challenge st (cHash c) (new_issuance now rq rec der)) s = (Inr (), s1)"
        and rc: "scep_recover (commit_challenge st (cHash c) (new_issuance now rq rec der)) s1 = (Inr st2, t)"
        by (auto elim: enrollNew_Granted)
      have "scep s1 = commit_challenge st (cHash c) (new_issuance now rq rec der)" using tripleD [OF save_triple refl sv] by simp
      from tripleD [OF recover_triple this rc] have "scep t = mark_all (commit_challenge st (cHash c) (new_issuance now rq rec der))" by simp
      then show "holds_grant (rqPasswordHash rq) d (scep t)"
        using l d assms(2) h by (auto simp: holds_grant_def lookup_mark mark_challenge_def)
    qed
  qed
qed

lemma decide_split:
  assumes "decide lib now serial raw remote s = (Inr (Decided ca key m v), t)"
  obtains s1 s2 where "parseSCEP lib raw ca key (stAllowDES (scep s)) = Inr m" "scep s2 = mark_all (scep s)"
    "ready now (scep s) s1 = Inr (ca, key)" "scep s1 = scep s" "scep_recover (scep s) s1 = (Inr (mark_all (scep s)), s2)"
    "authorize lib now serial (mark_all (scep s)) (request_of lib m) remote ca key s2 = (Inr v, t)"
proof -
  from assms obtain st s1 a b where l: "scep_load s = (Inr st, s1)" and r: "ready now st s1 = Inr (a, b)"
    and p: "(case parseSCEP lib raw a b (stAllowDES st) of Inl e \<Rightarrow> ret (Rejected e)
       | Inr m \<Rightarrow> bindE (scep_recover st) (\<lambda>st.
           bindE (authorize lib now serial st (request_of lib m) remote a b) (\<lambda>v. ret (Decided a b m v)))) s1
       = (Inr (Decided ca key m v), t)"
    by (fastforce simp: decide_def bindE_Inr_iff)
  from l have st: "st = scep s" "scep s1 = scep s" by (auto simp: scep_load_def dest: scep_file.load_Inr)
  from p have ab: "a = ca" "b = key" by (auto simp: bindE_Inr_iff split: sum.splits)
  from p obtain st2 s2 where m: "parseSCEP lib raw ca key (stAllowDES st) = Inr m"
    and rc: "scep_recover st s1 = (Inr st2, s2)" and a: "authorize lib now serial st2 (request_of lib m) remote ca key s2 = (Inr v, t)"
    by (auto simp: ab bindE_Inr_iff split: sum.splits)
  from tripleD [OF recover_triple st(2) rc [unfolded st(1)]] have "st2 = mark_all (scep s)" "scep s2 = mark_all (scep s)" by simp_all
  with that m r rc a st ab show ?thesis by simp
qed

lemma decide_grants:
  assumes "unique_hashes (scep s)" "now \<noteq> 0" "decide lib now serial raw remote s = (r, t)" "(h, d) \<in> granted lib r"
  shows "holds_grant h d (scep t)"
proof -
  from assms(4) obtain ca key m where r: "r = Inr (Decided ca key m (Granted [] d))" and h: "h = sha256 lib (smPassword m)"
    by (cases "(lib, r)" rule: granted.cases) auto
  from assms(3) [unfolded r] obtain s2 where s2: "scep s2 = mark_all (scep s)"
    and a: "authorize lib now serial (mark_all (scep s)) (request_of lib m) remote ca key s2 = (Inr (Granted [] d), t)"
    by (rule decide_split)
  have "unique_hashes (mark_all (scep s))"
    using evolves_mark [of h "scep s"] assms(1) by (simp add: evolves_def)
  from authorize_grants [OF this assms(2) s2 a] show ?thesis by (simp add: sound_grant_def request_of_def h)
qed

lemma holds_grant_evolves:
  assumes "evolves h st st'" "unique_hashes st" "holds_grant h d st" "lookup st' h = Some c"
  shows "iUsed (cIssuance c) \<noteq> 0 \<and> iDER (cIssuance c) = d"
proof -
  from assms obtain c0 where c0: "lookup st h = Some c0" "iUsed (cIssuance c0) \<noteq> 0" "iDER (cIssuance c0) = d"
    by (auto simp: holds_grant_def)
  with assms have "sameIss (cIssuance c0) (cIssuance c)" by (simp add: evolves_def entry_evolves_def same_terms_def)
  with c0 sameIss_used sameIss_DER show ?thesis by metis
qed

definition journal_inv :: "string set \<Rightarrow> (string \<times> xcert option) set \<Rightarrow> scepState \<Rightarrow> bool" where
  "journal_inv C G st \<longleftrightarrow> unique_hashes st \<and> cHash ` set (stChallenges st) \<subseteq> C \<and> fst ` G \<subseteq> C \<and>
     (\<forall>(h, d) \<in> G. lookup st h = None \<or> holds_grant h d st) \<and> (\<forall>(h, d) \<in> G. \<forall>(h', d') \<in> G. h = h' \<longrightarrow> d = d')"

lemma lookup_None_iff: "lookup st h = None \<longleftrightarrow> h \<notin> cHash ` set (stChallenges st)"
  by (auto simp: lookup_def find_None_iff_ball)

lemma journal_inv_evolves:
  assumes inv: "journal_inv C G st" and ev: "\<And>h. evolves h st st'"
  shows "journal_inv C G st'"
proof -
  have u: "unique_hashes st" "unique_hashes st'" using inv ev by (auto simp: journal_inv_def evolves_def)
  have n: "lookup st' h = None" if "lookup st h = None" for h
    using ev [of h] u that by (simp add: evolves_def entry_evolves_def)
  have "cHash ` set (stChallenges st') \<subseteq> cHash ` set (stChallenges st)" using n lookup_None_iff by blast
  moreover have "lookup st' h = None \<or> holds_grant h d st'" if "(h, d) \<in> G" for h d
  proof (cases "lookup st' h")
    case (Some c)
    with n have "lookup st h \<noteq> None" by fastforce
    with inv that have "holds_grant h d st" by (auto simp: journal_inv_def)
    from holds_grant_evolves [OF ev u(1) this Some] Some show ?thesis by (auto simp: holds_grant_def)
  qed simp
  ultimately show ?thesis using inv u unfolding journal_inv_def by fast
qed

lemma journal_inv_grant:
  assumes "journal_inv C G st" "holds_grant h d st"
  shows "journal_inv C (insert (h, d) G) st"
proof -
  from assms(2) have l: "lookup st h \<noteq> None" by (auto simp: holds_grant_def)
  then have "h \<in> C" using assms(1) lookup_None_iff by (auto simp: journal_inv_def)
  moreover have "d' = d" if "(h, d') \<in> G" for d'
    using that assms l by (auto simp: journal_inv_def holds_grant_def)
  ultimately show ?thesis using assms unfolding journal_inv_def by auto
qed

lemma new_challenge_inv:
  assumes inv: "journal_inv C G (scep s)" and k: "H secret \<notin> C" and run: "new_challenge H now secret p ids days hours s = (r, t)"
  shows "journal_inv (insert (H secret) C) G (scep t)"
proof -
  have ev: "evolves h (scep s) (scep t)" if "h \<noteq> H secret" for h
  proof -
    have "fresh_hash h (H secret) (scep s)" using that inv k by (auto simp: fresh_hash_def journal_inv_def)
    from new_challenge_evolves [where H = H and secret = secret and now = now and profile = p and identities = ids and days = days and hours = hours, OF this]
      run show ?thesis by simp
  qed
  obtain h where "h \<noteq> H secret" by (metis not_Cons_self2)
  from ev [OF this] inv have u: "unique_hashes (scep s)" "unique_hashes (scep t)" by (auto simp: journal_inv_def evolves_def)
  have n: "lookup (scep t) h = None" if "lookup (scep s) h = None" "h \<noteq> H secret" for h
    using ev [OF that(2)] u that(1) by (simp add: evolves_def entry_evolves_def)
  have sub: "cHash ` set (stChallenges (scep s)) \<subseteq> C" using inv by (simp add: journal_inv_def)
  have sub': "h \<in> insert (H secret) C" if "h \<in> cHash ` set (stChallenges (scep t))" for h
  proof (rule ccontr)
    assume h: "h \<notin> insert (H secret) C"
    with sub have "h \<notin> cHash ` set (stChallenges (scep s))" by (meson insertI2 subsetD)
    then have "lookup (scep s) h = None" by (simp only: lookup_None_iff not_False_eq_True)
    moreover from h have "h \<noteq> H secret" by simp
    ultimately have "lookup (scep t) h = None" by (rule n)
    with that show False by (simp add: lookup_None_iff)
  qed
  have g: "lookup (scep t) h = None \<or> holds_grant h d (scep t)" if "(h, d) \<in> G" for h d
  proof -
    from that inv have "h \<in> C" by (force simp: journal_inv_def)
    with k have ne: "h \<noteq> H secret" by blast
    show ?thesis
    proof (cases "lookup (scep t) h")
      case (Some c)
      with n [of h] ne have "lookup (scep s) h \<noteq> None" by fastforce
      with inv that have "holds_grant h d (scep s)" by (auto simp: journal_inv_def)
      from holds_grant_evolves [OF ev [OF ne] u(1) this Some] Some show ?thesis by (auto simp: holds_grant_def)
    qed simp
  qed
  have "fst ` G \<subseteq> insert (H secret) C" "\<forall>(h, d) \<in> G. \<forall>(h', d') \<in> G. h = h' \<longrightarrow> d = d'"
    using inv by (auto simp: journal_inv_def)
  moreover have "\<forall>(h, d) \<in> G. lookup (scep t) h = None \<or> holds_grant h d (scep t)" by (intro ballI) (auto dest: g)
  moreover from sub' have "cHash ` set (stChallenges (scep t)) \<subseteq> insert (H secret) C" by (rule subsetI)
  ultimately show ?thesis using u(2) by (simp only: journal_inv_def simp_thms)
qed

lemma scep_reach_inv: "scep_reach lib C G s \<Longrightarrow> journal_inv C G (scep s)"
proof (induction rule: scep_reach.induct)
  case (start s)
  then show ?case by (simp add: journal_inv_def unique_hashes_def)
next
  case (request C G s now serial raw remote r t)
  have "evolves h (scep s) (scep t)" for h
    using decide_evolving [of h lib now serial raw remote] request.hyps(3) unfolding ev.keeping_def by (metis snd_conv)
  with request.IH have inv: "journal_inv C G (scep t)" by (rule journal_inv_evolves)
  have u: "unique_hashes (scep s)" using request.IH by (simp add: journal_inv_def)
  show ?case
  proof (cases "granted lib r = {}")
    case False
    then obtain h d where g: "granted lib r = {(h, d)}" by (cases "(lib, r)" rule: granted.cases) auto
    have "holds_grant h d (scep t)" using decide_grants [OF u request.hyps(2,3)] g by blast
    with inv g show ?thesis by (simp add: journal_inv_grant)
  qed (simp add: inv)
next
  case (create C G s secret now p ids days hours r' t)
  then show ?case by (simp add: new_challenge_inv)
next
  case (journal C G s op)
  from journal.IH ev.journal_step_related show ?case by (rule journal_inv_evolves)
next
  case (elsewhere C G s t)
  then show ?case by simp
qed



section \<open>Committed and published before it is granted\<close>

lemma findRecord_frame:
  assumes "findRecord serial s = (r, t)"
  shows "scep t = scep s \<and> index t = index s \<and> (\<forall>x. r = Inr (Some x) \<longrightarrow> serial \<in> rSerial ` set (index t))"
proof -
  obtain r1 t1 where 1: "readE (\<lambda>s. RecordBySerial s serial) s = (r1, t1)" by fastforce
  have f: "scep t1 = scep s" "index t1 = index s"
    using 1 by (auto simp: readE_def io_def op_simps split: list.splits disk_fault.splits)
  have "r1 = Inr (Some x) \<Longrightarrow> serial \<in> rSerial ` set (index t1)" for x
    using 1 RecordBySerial_None_iff [of t1 serial] by (auto dest!: readE_success)
  with assms 1 f show ?thesis by (auto simp: findRecord_def split: sum.splits)
qed

lemma enrollShared_Granted:
  assumes "enrollShared resolve now serial st c rq remote ca key s = (Inr (Granted origin d), t)"
  obtains src where "scepSource remote = Inr src" "\<not> hRevoked c" "now \<le> hExpires c"
    "list_ex (\<lambda>p. prefix_contains p src) (hRanges c)"
    "(\<exists>i x. i \<in> set (hIssuances c) \<and> sSource i = src \<and> d = iDER (sIssuance i) \<and>
        findRecord (rSerial (iRecord (sIssuance i))) s = (Inr (Some x), t)) \<or>
     (\<exists>names s0 o'. sharedNames resolve (rqCSR rq) (hSuffixes c) src s = (Inr (Inr names), s0) \<and>
        issueShared now serial st c rq o' src names ca key s0 = (Inr (Granted origin d), t))"
proof (cases "scepSource remote")
  case (Inl e)
  with assms show ?thesis by (auto simp: enrollShared_def Let_def split: if_splits)
next
  case (Inr src)
  with assms have g: "\<not> hRevoked c" "now \<le> hExpires c" "list_ex (\<lambda>p. prefix_contains p src) (hRanges c)"
    by (auto simp: enrollShared_def Let_def split: if_splits)
  show ?thesis
  proof (cases "find (replays now rq src) (hIssuances c)")
    case (Some i)
    from find_Some_set [OF this] have "i \<in> set (hIssuances c)" "sSource i = src" by (auto simp: replays_def)
    moreover from assms Inr g Some obtain x where "findRecord (rSerial (iRecord (sIssuance i))) s = (Inr (Some x), t)"
      "d = iDER (sIssuance i)"
      by (auto simp: enrollShared_def Let_def bindE_Inr_iff split: if_splits)
    ultimately show ?thesis using that [OF Inr g] by blast
  next
    case None
    with assms Inr g obtain r s0 o' where n: "sharedNames resolve (rqCSR rq) (hSuffixes c) src s = (Inr r, s0)"
      and rest: "(case r of Inl reason \<Rightarrow> ret (Denied reason) | Inr names \<Rightarrow> issueShared now serial st c rq o' src names ca key) s0
        = (Inr (Granted origin d), t)"
      by (fastforce simp: enrollShared_def Let_def bindE_Inr_iff split: if_splits)
    from rest obtain names where "r = Inr names" by (cases r) auto
    with n rest have "sharedNames resolve (rqCSR rq) (hSuffixes c) src s = (Inr (Inr names), s0)"
      "issueShared now serial st c rq o' src names ca key s0 = (Inr (Granted origin d), t)" by simp_all
    then show ?thesis by (intro that [OF Inr g] disjI2 exI conjI)
  qed
qed

lemma issueShared_Granted:
  assumes "issueShared now serial st c rq o' src names ca key s0 = (Inr (Granted origin d), t)"
  obtains rec der s1 st2 where "d = Some der"
    "\<not> list_ex (\<lambda>i. sIdentity i = sharedIdentity src names \<and> now < iUsed (sIssuance i) + sharedRateWindow) (hIssuances c)"
    "scepIssue now serial (authorizedShared (rqCSR rq) src names) (stCA st) (hDays c) (hProfile c) ca key = Inr (rec, der)"
    "scep_save (commit_shared st (hHash c) (sharedIssuance now rq src names rec der)) s0 = (Inr (), s1)"
    "scep_recover (commit_shared st (hHash c) (sharedIssuance now rq src names rec der)) s1 = (Inr st2, t)"
  using assms by (auto simp: issueShared_def Let_def thenE_Inr_iff split: if_splits sum.splits)

definition issuances :: "scepState \<Rightarrow> scepIssuance set" where
  "issuances st = cIssuance ` set (stChallenges st) \<union> sIssuance ` (\<Union>c \<in> set (stShared st). set (hIssuances c))"

lemma issuances_mark: "issuances (mark_all st) = mark ` issuances st"
  by (force simp: issuances_def mark_all_def mark_challenge_def mark_shared_def image_iff)

lemma pending_in: "i \<in> issuances st \<Longrightarrow> is_pending i \<Longrightarrow> iRecord i \<in> pending_records st"
  by (auto simp: issuances_def pending_records_def)

lemma clean_issuances: "\<not> dirty st \<longleftrightarrow> (\<forall>i \<in> issuances st. \<not> is_pending i)"
  by (auto simp: dirty_def issuances_def)

definition published :: "xcert option \<Rightarrow> store \<Rightarrow> bool" where
  "published d t \<longleftrightarrow> (\<exists>i \<in> issuances (scep t). iDER i = d \<and> \<not> is_pending i \<and> rSerial (iRecord i) \<in> rSerial ` set (index t))"

lemma commit_publishes:
  assumes "scep s = st" "scep_save st' s = (Inr (), s1)" "scep_recover st' s1 = (Inr st2, t)"
    and i: "i \<in> issuances st'" "iUsed i \<noteq> 0" "\<not> iPublished i"
  shows "published (iDER i) t"
proof -
  have "scep s1 = st'" using tripleD [OF save_triple assms(1,2)] by simp
  from tripleD [OF recover_triple this assms(3)] have t: "scep t = mark_all st'" by simp
  have "iRecord i \<in> pending_records st'" using i by (intro pending_in) (simp_all add: is_pending_def)
  from recover_records [OF assms(3) this] have "rSerial (iRecord (mark i)) \<in> rSerial ` set (index t)" by simp
  moreover have "mark i \<in> issuances (scep t)" using i by (simp add: t issuances_mark)
  ultimately show ?thesis unfolding published_def by (intro bexI [of _ "mark i"]) simp_all
qed

lemma replay_published:
  assumes "scep s = st" "\<not> dirty st" "i \<in> issuances st" "findRecord (rSerial (iRecord i)) s = (Inr (Some x), t)"
  shows "published (iDER i) t"
  using findRecord_frame [OF assms(4)] assms clean_issuances [of st] by (auto simp: published_def)

lemma authorize_published:
  assumes st: "scep s = st" "\<not> dirty st" and now: "now \<noteq> 0"
    and run: "authorize lib now serial st rq remote ca key s = (Inr (Granted origin d), t)"
  shows "published d t"
proof (cases "find (chosen st (rqPasswordHash rq)) (stChallenges st)")
  case (Some c)
  then have c: "c \<in> set (stChallenges st)" "chosen st (rqPasswordHash rq) c" by (auto dest: find_Some_set)
  show ?thesis
  proof (cases "iUsed (cIssuance c) = 0")
    case False
    with run Some obtain x where "findRecord (rSerial (iRecord (cIssuance c))) s = (Inr (Some x), t)" "d = iDER (cIssuance c)"
      by (auto simp: authorize_def enrollUsed_def Let_def bindE_Inr_iff split: if_splits)
    moreover have "cIssuance c \<in> issuances st" using c by (simp add: issuances_def)
    ultimately show ?thesis using replay_published [OF st] by blast
  next
    case True
    with run Some have "enrollNew now serial st c rq ca key s = (Inr (Granted origin d), t)" by (simp add: authorize_def)
    then obtain rec der s1 st2 where d: "d = Some der"
      and sv: "scep_save (commit_challenge st (cHash c) (new_issuance now rq rec der)) s = (Inr (), s1)"
      and rc: "scep_recover (commit_challenge st (cHash c) (new_issuance now rq rec der)) s1 = (Inr st2, t)"
      by (rule enrollNew_Granted)
    have "new_issuance now rq rec der \<in> issuances (commit_challenge st (cHash c) (new_issuance now rq rec der))"
      using Some c(2) by (elim commit_split [where iss = "new_issuance now rq rec der"]) (simp add: issuances_def chosen_def)
    from commit_publishes [OF st(1) sv rc this] now d show ?thesis by simp
  qed
next
  case None
  with run obtain c where ix: "sharedIndex st (rqPasswordHash rq) = Some c"
    and e: "enrollShared (lookupHost lib) now serial st c rq remote ca key s = (Inr (Granted origin d), t)"
    by (auto simp: authorize_def split: option.splits)
  from ix have c: "c \<in> set (stShared st)" "hHash c = rqPasswordHash rq" by (auto simp: sharedIndex_def dest: find_Some_set)
  from e show ?thesis
  proof (rule enrollShared_Granted)
    fix src
    assume "(\<exists>i x. i \<in> set (hIssuances c) \<and> sSource i = src \<and> d = iDER (sIssuance i) \<and>
        findRecord (rSerial (iRecord (sIssuance i))) s = (Inr (Some x), t)) \<or>
     (\<exists>names s0 o'. sharedNames (lookupHost lib) (rqCSR rq) (hSuffixes c) src s = (Inr (Inr names), s0) \<and>
        issueShared now serial st c rq o' src names ca key s0 = (Inr (Granted origin d), t))"
    then show ?thesis
    proof (elim disjE exE conjE)
      fix i x assume i: "i \<in> set (hIssuances c)" "d = iDER (sIssuance i)"
        "findRecord (rSerial (iRecord (sIssuance i))) s = (Inr (Some x), t)"
      with c have "sIssuance i \<in> issuances st" by (auto simp: issuances_def)
      with i replay_published [OF st] show ?thesis by blast
    next
      fix names s0 o'
      assume n: "sharedNames (lookupHost lib) (rqCSR rq) (hSuffixes c) src s = (Inr (Inr names), s0)"
        and iss: "issueShared now serial st c rq o' src names ca key s0 = (Inr (Granted origin d), t)"
      have s0: "scep s0 = st" using preservesD [OF stays_sharedNames [unfolded stays_def, rule_format] st(1) n] .
      from iss obtain rec der s1 st2 where d: "d = Some der"
        and sv: "scep_save (commit_shared st (hHash c) (sharedIssuance now rq src names rec der)) s0 = (Inr (), s1)"
        and rc: "scep_recover (commit_shared st (hHash c) (sharedIssuance now rq src names rec der)) s1 = (Inr st2, t)"
        by (rule issueShared_Granted)
      let ?i = "sharedIssuance now rq src names rec der"
      from replace_first_find [OF ix [unfolded sharedIndex_def], of "\<lambda>c. c\<lparr>hIssuances := hIssuances c @ [?i]\<rparr>"] obtain us vs where
        "replace_first (\<lambda>c. hHash c = rqPasswordHash rq \<and> hCA c = stCA st) (\<lambda>c. c\<lparr>hIssuances := hIssuances c @ [?i]\<rparr>) (stShared st) =
           Some (us @ c\<lparr>hIssuances := hIssuances c @ [?i]\<rparr> # vs)" by blast
      then have "sIssuance ?i \<in> issuances (commit_shared st (hHash c) ?i)"
        by (simp add: issuances_def commit_shared_def c(2))
      from commit_publishes [OF s0 sv rc this] now d show ?thesis by (simp add: sharedIssuance_def)
    qed
  qed
qed


end
