(* ===== verification/ScepNames.thy ===== *)
theory ScepNames
  imports ScepSafety
begin

text \<open>
  The names in enrolled certificates and the rate limit of shared challenges: what the code checks of one request, and what
  therefore holds of every certificate in the journal.
\<close>

section \<open>Verified names\<close>

lemma add_new_set: "set (foldl add_new xs ys) = set xs \<union> set ys"
  by (induction ys arbitrary: xs) (auto simp: add_new_def)

lemma ListDevices_success:
  assumes "ListDevices s = (Inr ds, t)"
  shows "set ds = set (devices s)"
  using assms by (auto simp: ListDevices_def bindE_Inr_iff by_name_def dest!: load_success)

lemma atSource_set: "set ds = set es \<Longrightarrow> atSource ds src n = atSource es src n"
  by (auto simp: atSource_def list_ex_iff)

definition verified :: "resolver \<Rightarrow> Device list \<Rightarrow> string list \<Rightarrow> addr \<Rightarrow> string \<Rightarrow> bool" where
  "verified resolve ds sfx src n \<longleftrightarrow>
     underSuffix n sfx \<and> (atSource ds src n \<or> (\<exists>addrs. resolve n = Inr addrs \<and> src \<in> Unmap ` set addrs))"

lemma checkSharedName_iff: "checkSharedName resolve ds sfx src n = Inr () \<longleftrightarrow> verified resolve ds sfx src n"
  by (auto simp: checkSharedName_def verified_def list_ex_iff split: sum.splits)

lemma inventoryNames_verified:
  assumes "n \<in> set (inventoryNames ds sfx src)"
  shows "verified resolve ds sfx src n"
proof -
  from assms obtain d where d: "d \<in> set ds" "deviceAddr d = Some src" "n = ToLower (TrimSuffix (dFQDN d) ''.'')" "underSuffix n sfx"
    by (auto simp: inventoryNames_def add_new_set)
  then have "atSource ds src n" by (force simp: atSource_def list_ex_iff EqualFold_def)
  with d show ?thesis by (simp add: verified_def)
qed

lemma verified_set: "set ds = set es \<Longrightarrow> verified resolve ds sfx src n = verified resolve es sfx src n"
  using atSource_set [of ds es] by (simp add: verified_def)

lemma sharedNames_facts:
  assumes "sharedNames resolve c sfx src s = (Inr (Inr names), t)"
  shows "length names \<le> 4 \<and> list_all (verified resolve (devices s) sfx src) names \<and>
    (if sfx = [] then names = []
     else \<exists>cands. sharedCandidates c = Inr cands \<and> (names = cands \<or> cands = []))"
proof (cases "sfx = []")
  case True
  with assms show ?thesis by (simp add: sharedNames_def)
next
  case False
  with assms obtain cands ds where c: "sharedCandidates c = Inr cands" and ds: "ListDevices s = (Inr ds, t)"
    and ok: "\<forall>n\<in>set cands. checkSharedName resolve ds sfx src n = Inr ()"
    and names: "names = (if cands = [] then inventoryNames ds sfx src else cands)" "length names \<le> sharedMaxNames"
    by (auto simp: sharedNames_def bindE_Inr_iff Let_def eq_commute [of "Inr names"] split: sum.splits if_splits)
  have "verified resolve (devices s) sfx src n" if "n \<in> set names" for n
    using that ok names(1) inventoryNames_verified [of n ds sfx src resolve] verified_set [OF ListDevices_success [OF ds]]
    by (auto simp: checkSharedName_iff split: if_splits)
  with False c names show ?thesis by (auto simp: list_all_iff sharedMaxNames_def split: if_splits)
qed

lemma sharedNames_limits:
  assumes "sharedNames resolve c sfx src s = (Inr (Inr names), t)"
  shows "length names \<le> 4 \<and> list_all (\<lambda>n. underSuffix n sfx) names"
  using sharedNames_facts [OF assms] by (auto simp: list_all_iff verified_def)

text \<open>
  The names a shared challenge lets into a certificate. There are at most four, each one is under a suffix of the
  challenge, and each one is the name of an inventory device at the source address or resolves to the
  source address; without suffixes there is none. A request's own names are all in, or it is refused.
\<close>

lemma sharedNames_verified:
  assumes "sharedNames resolve c sfx src s = (Inr (Inr names), t)"
  shows "length names \<le> 4 \<and> list_all (verified resolve (devices s) sfx src) names \<and>
    (if sfx = [] then names = []
     else \<exists>cands. sharedCandidates c = Inr cands \<and> (names = cands \<or> cands = []))"
  using assms by (rule sharedNames_facts)

section \<open>Names in signed certificates\<close>

lemma signed_names:
  assumes "signCSRWithoutPersistence now serial csr p issCert issKey bound = Inr (rec, der)"
  shows "DNSNames der = csrDNS csr" "IPAddresses der = csrIPs csr" "EmailAddresses der = csrEmails csr" "URIs der = csrURIs csr"
    "\<not> IsCA der" "PublicKey der = csrPublicKey csr"
  using assms
  by (auto simp: signCSRWithoutPersistence_def Let_def CreateCertificate_def noCert_def split: if_splits option.splits)

lemma scepIssue_signed:
  assumes "scepIssue now serial csr issuer days t ca key = Inr (rec, der)"
  obtains rec' p where "signCSRWithoutPersistence now serial csr p ca key True = Inr (rec', der)" "spTemplate p = t" "spIssuerID p = issuer"
    "spValidDays p = days"
  using assms by (auto simp: scepIssue_def split: prod.splits)

text \<open>What holds of a certificate in the journal: the names are those its challenge or its source allows.\<close>

definition single_ok :: "scepChallenge \<Rightarrow> bool" where
  "single_ok c \<longleftrightarrow> iUsed (cIssuance c) = 0 \<or>
     (case iDER (cIssuance c) of None \<Rightarrow> False
      | Some der \<Rightarrow> DNSNames der = cDNS c \<and> IPAddresses der = cIPs c \<and> EmailAddresses der = [] \<and> URIs der = [] \<and> \<not> IsCA der \<and>
          ServerAuth \<in> set (ExtKeyUsage der))"

definition shared_iss_ok :: "scepSharedChallenge \<Rightarrow> scepSharedIssuance \<Rightarrow> bool" where
  "shared_iss_ok c i \<longleftrightarrow>
     (case iDER (sIssuance i) of None \<Rightarrow> False
      | Some der \<Rightarrow> IPAddresses der = [sSource i] \<and> list_ex (\<lambda>p. prefix_contains p (sSource i)) (hRanges c) \<and>
          length (DNSNames der) \<le> 4 \<and> list_all (\<lambda>n. underSuffix n (hSuffixes c)) (DNSNames der) \<and>
          EmailAddresses der = [] \<and> URIs der = [] \<and> \<not> IsCA der \<and> sIdentity i = sharedIdentity (sSource i) (DNSNames der))"

definition spaced :: "scepSharedIssuance list \<Rightarrow> bool" where
  "spaced is \<longleftrightarrow> sorted_wrt (\<lambda>i j. sIdentity i = sIdentity j \<longrightarrow> iUsed (sIssuance i) + 10 * minute \<le> iUsed (sIssuance j)) is"

definition shared_ok :: "scepSharedChallenge \<Rightarrow> bool" where
  "shared_ok c \<longleftrightarrow> list_all (shared_iss_ok c) (hIssuances c) \<and> spaced (hIssuances c)"

definition journal_ok :: "scepState \<Rightarrow> bool" where
  "journal_ok st \<longleftrightarrow> list_all single_ok (stChallenges st) \<and> list_all shared_ok (stShared st)"

lemma single_ok_mark: "single_ok (mark_challenge c) = single_ok c"
  by (auto simp: single_ok_def mark_challenge_def split: option.split)

lemma shared_ok_mark: "shared_ok (mark_shared c) = shared_ok c"
  by (simp add: shared_ok_def mark_shared_def shared_iss_ok_def spaced_def list_all_iff sorted_wrt_map cong: option.case_cong)

lemma journal_ok_mark: "journal_ok (mark_all st) = journal_ok st"
  by (simp add: journal_ok_def mark_all_def list_all_iff single_ok_mark shared_ok_mark)

lemma keep_issuances_subseq: "subseq (keep_issuances now is) is"
proof -
  have "subseq (map snd (filter P xs)) (map snd xs)" for P and xs :: "(nat \<times> scepSharedIssuance) list"
    by (intro subseq_map subseq_filter_left)
  from this [of _ "List.enumerate 0 is"] show ?thesis unfolding keep_issuances_def by simp
qed

lemma single_ok_revoked [simp]: "single_ok (c\<lparr>cRevoked := b\<rparr>) = single_ok c"
  by (auto simp: single_ok_def split: option.split)

lemma shared_iss_ok_fields [simp]:
  "shared_iss_ok (c\<lparr>hRevoked := b\<rparr>) = shared_iss_ok c" "shared_iss_ok (c\<lparr>hIssuances := is\<rparr>) = shared_iss_ok c"
  by (auto simp: shared_iss_ok_def fun_eq_iff split: option.split)

lemma shared_ok_revoked [simp]: "shared_ok (c\<lparr>hRevoked := b\<rparr>) = shared_ok c"
  by (simp add: shared_ok_def)

lemma set_mono_subseq: "subseq xs ys \<Longrightarrow> set xs \<subseteq> set ys"
  by (auto dest: list_emb_set)

lemma sorted_wrt_subseq: "subseq xs ys \<Longrightarrow> sorted_wrt P ys \<Longrightarrow> sorted_wrt P xs"
proof (induction rule: list_emb.induct)
  case (list_emb_Cons2 x y xs ys)
  from set_mono_subseq [OF list_emb_Cons2.hyps(2)] list_emb_Cons2 show ?case by auto
qed auto

lemma shared_ok_prune: "shared_ok c \<Longrightarrow> shared_ok (c\<lparr>hIssuances := keep_issuances now (hIssuances c)\<rparr>)"
  using keep_issuances_subseq [of now "hIssuances c"]
  by (auto simp: shared_ok_def spaced_def list_all_iff dest: sorted_wrt_subseq list_emb_set)

lemma replace_first_list_all:
  assumes "replace_first P f xs = Some ys" "list_all Q xs" "\<And>x. P x \<Longrightarrow> Q x \<Longrightarrow> Q (f x)"
  shows "list_all Q ys"
  using replace_first_Some [OF assms(1)] assms(2,3) by auto

lemma remove_first_set: "set (remove_first P xs) \<subseteq> set xs"
  by (induction xs) auto

interpretation ok: journal_steps "\<lambda>st st'. journal_ok st \<longrightarrow> journal_ok st'"
proof
  fix st k cs hs now and c :: scepChallenge
  show "journal_ok st \<longrightarrow> journal_ok (mark_all st)" by (simp add: journal_ok_mark)
  show "journal_ok st \<longrightarrow> journal_ok (pruneSCEP now st)"
    by (auto simp: journal_ok_def pruneSCEP_def pruneShared_def list_all_iff shared_ok_prune)
  show "journal_ok st \<longrightarrow> journal_ok (st\<lparr>stChallenges := cs\<rparr>)"
    if "replace_first (\<lambda>c. cHash c = k) (\<lambda>c. c\<lparr>cRevoked := True\<rparr>) (stChallenges st) = Some cs"
    using replace_first_list_all [OF that, of single_ok] by (auto simp: journal_ok_def)
  show "journal_ok st \<longrightarrow> journal_ok (st\<lparr>stShared := hs\<rparr>)"
    if "replace_first (\<lambda>c. hHash c = k) (\<lambda>c. c\<lparr>hRevoked := True\<rparr>) (stShared st) = Some hs"
    using replace_first_list_all [OF that, of shared_ok] by (auto simp: journal_ok_def)
  show "journal_ok st \<longrightarrow> journal_ok (st\<lparr>stChallenges := remove_first (\<lambda>c. cHash c = k) (stChallenges st)\<rparr>)"
    "journal_ok st \<longrightarrow> journal_ok (st\<lparr>stShared := remove_first (\<lambda>c. hHash c = k) (stShared st)\<rparr>)"
    using remove_first_set [of "\<lambda>c. cHash c = k" "stChallenges st"] remove_first_set [of "\<lambda>c. hHash c = k" "stShared st"]
    by (auto simp: journal_ok_def list_all_iff)
qed (auto simp: journal_ok_def shared_ok_def spaced_def)

lemma commit_single_ok:
  assumes "find (chosen st k) (stChallenges st) = Some c"
    and "scepIssue now serial ((rqCSR rq)\<lparr>csrDNS := cDNS c, csrIPs := cIPs c\<rparr>) issuer days (cProfile c) ca key = Inr (rec, der)"
    and "serverAuth (tProfile (cProfile c))" "tName (cProfile c) \<noteq> []" "allowedSCEPIdentities (rqCSR rq) c"
  shows "journal_ok st \<longrightarrow> journal_ok (commit_challenge st k (new_issuance now rq rec der))"
proof -
  let ?csr = "(rqCSR rq)\<lparr>csrDNS := cDNS c, csrIPs := cIPs c\<rparr>"
  from assms(2) obtain rec' p where sign: "signCSRWithoutPersistence now serial ?csr p ca key True = Inr (rec', der)"
    and p: "spTemplate p = cProfile c"
    by (rule scepIssue_signed)
  note n = signed_names [OF sign]
  from signed_request_facts [OF sign] p assms(3,4) have "ExtKeyUsage der = extKeyUsage (tProfile (cProfile c))" by simp
  then have "ServerAuth \<in> set (ExtKeyUsage der)"
    using assms(3) by (auto simp: extKeyUsage_def serverAuth_def profile_defs)
  moreover have "EmailAddresses der = []" "URIs der = []" using n(3,4) assms(5) by (simp_all add: allowedSCEPIdentities_def)
  ultimately have "single_ok (c\<lparr>cIssuance := new_issuance now rq rec der\<rparr>)" using n by (simp add: single_ok_def)
  with assms(1) show ?thesis
    by (elim commit_split [where iss = "new_issuance now rq rec der"]) (auto simp: journal_ok_def)
qed

lemma commit_shared_ok:
  assumes ix: "sharedIndex st h = Some c"
    and sign: "scepIssue now serial (authorizedShared (rqCSR rq) src names) issuer days (hProfile c) ca key = Inr (rec, der)"
    and rate: "\<not> list_ex (\<lambda>i. sIdentity i = sharedIdentity src names \<and> now < iUsed (sIssuance i) + sharedRateWindow) (hIssuances c)"
    and range: "list_ex (\<lambda>p. prefix_contains p src) (hRanges c)"
    and names: "sharedNames resolve csr (hSuffixes c) src s = (Inr (Inr names), t)"
  shows "journal_ok st \<longrightarrow> journal_ok (commit_shared st h (sharedIssuance now rq src names rec der))"
proof
  assume ok: "journal_ok st"
  let ?i = "sharedIssuance now rq src names rec der"
  from ix have h: "h = hHash c" "shared_ok c" using ok by (auto simp: sharedIndex_def journal_ok_def list_all_iff dest: find_Some_set)
  from sign obtain rec' p where s: "signCSRWithoutPersistence now serial (authorizedShared (rqCSR rq) src names) p ca key True = Inr (rec', der)"
    by (rule scepIssue_signed)
  have n: "DNSNames der = names" "IPAddresses der = [src]" "EmailAddresses der = []" "URIs der = []" "\<not> IsCA der"
    using signed_names [OF s] by (simp_all add: authorizedShared_def Let_def)
  have "length names \<le> 4 \<and> list_all (\<lambda>n. underSuffix n (hSuffixes c)) names"
    using sharedNames_limits [OF names] .
  then have "shared_iss_ok c ?i" using n range by (simp add: shared_iss_ok_def sharedIssuance_def)
  moreover have "spaced (hIssuances c @ [?i])"
    using h(2) rate by (auto simp: spaced_def shared_ok_def sorted_wrt_append sharedIssuance_def list_ex_iff sharedRateWindow_def not_less)
  ultimately have new: "shared_ok (c\<lparr>hIssuances := hIssuances c @ [?i]\<rparr>)"
    using h(2) by (simp add: shared_ok_def)
  from replace_first_find [OF ix [unfolded sharedIndex_def], of "\<lambda>c. c\<lparr>hIssuances := hIssuances c @ [?i]\<rparr>"] obtain us vs where
    "stShared st = us @ c # vs" "replace_first (\<lambda>c. hHash c = h \<and> hCA c = stCA st) (\<lambda>c. c\<lparr>hIssuances := hIssuances c @ [?i]\<rparr>) (stShared st)
       = Some (us @ c\<lparr>hIssuances := hIssuances c @ [?i]\<rparr> # vs)" by blast
  with ok new show "journal_ok (commit_shared st h ?i)" by (auto simp: journal_ok_def commit_shared_def)
qed

lemma decide_ok: "ok.keeping (decide lib now serial raw remote)"
proof (intro ok.decide_keeping ok.authorize_within ok.enrollNew_within ok.enrollShared_within ok.issueShared_within)
  fix st c rec der ca key and rq :: request
  assume a: "find (chosen st (rqPasswordHash rq)) (stChallenges st) = Some c" "scepIssue now serial ((rqCSR rq)\<lparr>csrDNS := cDNS c, csrIPs := cIPs c\<rparr>)
     (stCA st) (cDays c) (cProfile c) ca key = Inr (rec, der)" "serverAuth (tProfile (cProfile c))" "tName (cProfile c) \<noteq> []"
     "allowedSCEPIdentities (rqCSR rq) c"
  then have "cHash c = rqPasswordHash rq" by (auto dest: find_Some_set simp: chosen_def)
  with commit_single_ok [OF a] show "journal_ok st \<longrightarrow> journal_ok (commit_challenge st (cHash c) (new_issuance now rq rec der))" by simp
next
  fix st c src names rec der ca key s t and rq :: request
  assume ix: "sharedIndex st (rqPasswordHash rq) = Some c"
    and a: "list_ex (\<lambda>p. prefix_contains p src) (hRanges c)"
      "sharedNames (lookupHost lib) (rqCSR rq) (hSuffixes c) src s = (Inr (Inr names), t)"
      "scepIssue now serial (authorizedShared (rqCSR rq) src names) (stCA st) (hDays c) (hProfile c) ca key = Inr (rec, der)"
      "\<not> list_ex (\<lambda>i. sIdentity i = sharedIdentity src names \<and> now < iUsed (sIssuance i) + sharedRateWindow) (hIssuances c)"
  then have "hHash c = rqPasswordHash rq" by (auto dest: find_Some_set simp: sharedIndex_def)
  with commit_shared_ok [OF ix a(3,4,1,2)]
  show "journal_ok st \<longrightarrow> journal_ok (commit_shared st (hHash c) (sharedIssuance now rq src names rec der))" by simp
qed

lemma new_challenge_ok: "ok.keeping (new_challenge H now secret p ids days hours)"
  by (rule ok.keeping_I, rule ok.new_challenge_within) (simp add: journal_ok_def single_ok_def noIssuance_def)

lemma scep_reach_ok: "scep_reach lib C G s \<Longrightarrow> journal_ok (scep s)"
proof (induction rule: scep_reach.induct)
  case (request C G s now serial raw remote r t)
  with decide_ok [of lib now serial raw remote] show ?case unfolding ok.keeping_def by (metis snd_conv)
next
  case (create C G s secret now p ids days hours r' t)
  with new_challenge_ok [of "sha256 lib" now secret p ids days hours] show ?case unfolding ok.keeping_def by (metis snd_conv)
next
  case (journal C G s op)
  with ok.journal_step_related show ?case by blast
qed (simp_all add: journal_ok_def)



end
