(* ===== verification/ScepExample.thy ===== *)
theory ScepExample
  imports ScepNames
begin

text \<open>
  A run of the enrollment model on concrete data: a SCEP intermediate below a root, a challenge for one host, and a request
  that is granted. It shows that the hypotheses of the enrollment theorems can hold.
\<close>

section \<open>The data\<close>

definition ex_root :: xcert where
  "ex_root = noCert\<lparr>SerialNumber := 1, NotAfter := 4000 * day, IsCA := True, KeyUsage := 97,
     PublicKey := ECKey ''P-384'' 1, SignedBy := ECKey ''P-384'' 1\<rparr>"

definition ex_ca :: xcert where
  "ex_ca = noCert\<lparr>SerialNumber := 10, NotAfter := 3000 * day, IsCA := True, MaxPathLenZero := True, KeyUsage := 101,
     PublicKey := RSAKey 2 2048, SignedBy := ECKey ''P-384'' 1\<rparr>"

definition ex_template :: CertTemplate where
  "ex_template = builtin ''TLS-Server'' ''TLS server'' profileServer 90 365"

definition ex_challenge :: scepChallenge where
  "ex_challenge = \<lparr>cHash = ''pw'', cCA = ''a'', cProfile = ex_template, cDNS = [''r1.lab''], cIPs = [], cDays = 90,
     cExpires = 1000 * day + 24 * hour, cRevoked = False, cIssuance = noIssuance\<rparr>"

definition ex_store :: store where
  "ex_store = empty_store\<lparr>
     cas := [caRoot \<mapsto> \<lparr>caCert = Some (encodeCertPEM ex_root), caKey = Some None\<rparr>,
             ''a'' \<mapsto> \<lparr>caCert = Some (encodeCertPEM ex_ca), caKey = Some None\<rparr>],
     index := [noRecord\<lparr>rSerial := ''1'', rKind := caRoot\<rparr>,
               noRecord\<lparr>rSerial := ''a'', rKind := caIntermediate, rCAID := ''a'', rIssuerID := caRoot\<rparr>],
     unlocked := [''a'' \<mapsto> \<lparr>ucert = ex_ca, ukey = Private (RSAKey 2 2048), passFile = False, saveErr = None\<rparr>],
     scep := noSCEP\<lparr>stCA := ''a'', stChallenges := [ex_challenge]\<rparr>\<rparr>"

definition ex_csr :: csr where
  "ex_csr = \<lparr>csrSubject = subject ''r1.lab'' [] [], csrDNS = [''r1.lab''], csrIPs = [], csrEmails = [], csrURIs = [],
     csrPublicKey = RSAKey 7 2048, csrExtensions = [], csrSignedBy = RSAKey 7 2048,
     csrAttributes = Some [\<lparr>atOID = oid_challengePassword, atValues = [Some ''pw'']\<rparr>], csrRaw = ''csr''\<rparr>"

definition ex_signer :: xcert where
  "ex_signer = noCert\<lparr>PublicKey := RSAKey 7 2048, SignedBy := RSAKey 7 2048\<rparr>"

definition ex_env :: scepEnvelope where
  "ex_env = \<lparr>evRecipients = [Some \<lparr>rcAlgorithm = OIDEncryptionRSA\<rparr>], evType = OIDData, evAlgorithm = OIDEncryptionAES128CBC,
     evParameters = \<lparr>rvTag = 4, rvCompound = False, rvBytes = replicate 16 0\<rparr>,
     evCiphertext = \<lparr>rvTag = 0, rvCompound = False, rvBytes = replicate 16 0\<rparr>\<rparr>"

definition ex_lib :: libraries where
  "ex_lib = \<lparr>p7_Parse = (\<lambda>_. Gives \<lparr>p7Signers = [\<lparr>sgDigest = OIDDigestSHA256, sgSignature = OIDEncryptionRSA, sgAttributes = []\<rparr>],
        p7Certificates = [ex_signer], p7Content = \<lparr>ctBytes = [4, 1, 0], ctInfo = Some (OIDEnvelopedData, Some ex_env)\<rparr>\<rparr>),
     ParsePKIMessage = (\<lambda>_. Gives \<lparr>pkType = PKCSReq, pkNonce = replicate 16 0, pkTransaction = ''tx''\<rparr>),
     DecryptPKIEnvelope = (\<lambda>_ _ _. Gives (''pw'', ex_csr)),
     pki_Fail = (\<lambda>_ _ _. Inr ''failure''), pki_Success = (\<lambda>_ _ _ _ _. Inr ''success''), DegenerateCertificates = (\<lambda>_. Inr ''chain''),
     rsa_Decrypt = (\<lambda>_ _. None), cbc_Decrypt = (\<lambda>_ _ _ _. None), cert_Raw = (\<lambda>_. ''cert''), sha256 = (\<lambda>s. s),
     lookupHost = (\<lambda>_. Inl ''no such host'')\<rparr>"

lemma ex_bounded: "boundedSCEPASN1 [4, 1, 0] = Accepted"
  by (simp add: boundedSCEPASN1_def asn1_limits scan.simps read_length_def)

lemma ex_ready: "ready (1000 * day) (scep ex_store) ex_store = Inr (ex_ca, Private (RSAKey 2 2048))"
  by code_simp


definition ex_msg :: scepmsg where
  "ex_msg = \<lparr>smPKI = \<lparr>pkType = PKCSReq, pkNonce = replicate 16 0, pkTransaction = ''tx''\<rparr>, smPassword = ''pw'', smCSR = ex_csr,
     smSigner = ex_signer, smSingleDES = False\<rparr>"

lemma ex_envelope: "inspectEnvelope \<lparr>ctBytes = [4, 1, 0], ctInfo = Some (OIDEnvelopedData, Some ex_env)\<rparr> = Inr ex_env"
  by (simp add: inspectEnvelope_def ex_bounded ex_env_def scepCipherSizes_def TagOctetString_def)

lemma ex_parse: "parseSCEP ex_lib [4, 1, 0] ex_ca (Private (RSAKey 2 2048)) False = Inr ex_msg"
  by (simp add: parseSCEP_def ex_bounded ex_lib_def call_def scepDigestOK_def scepSignatureOK_def signer_ok_def ex_envelope Let_def ex_signer_def noCert_def
    uniqueChallenge_def ex_csr_def ex_msg_def) (simp add: ex_env_def oid_defs)


lemma ex_clean: "\<not> dirty (scep ex_store)"
  by (simp add: dirty_def ex_store_def noSCEP_def is_pending_def ex_challenge_def noIssuance_def)

lemma ex_policy: "validateCSRPolicy (ex_csr\<lparr>csrDNS := [''r1.lab''], csrIPs := []\<rparr>) ex_template ''a'' 90 = Inr ()"
  unfolding validateCSRPolicy_permitted
  by (simp add: csr_permitted_def ex_csr_def ex_template_def builtin_def noTemplate_def all_profiles_def profile_defs
      names_permitted_def)

lemma ex_issue: "\<exists>rec der. scepIssue (1000 * day) 11 (ex_csr\<lparr>csrDNS := [''r1.lab''], csrIPs := []\<rparr>) ''a'' 90 ex_template ex_ca (Private (RSAKey 2 2048)) = Inr (rec, der)"
  by (simp add: scepIssue_def signCSRWithoutPersistence_def Let_def ex_policy CreateCertificate_def)
    (simp add: ex_csr_def ex_ca_def ex_template_def builtin_def noTemplate_def allowedAlgo_def all_algos_def algo_defs noCert_def AddDays_def time_units)

lemma ex_found: "find (chosen (scep ex_store) ''pw'') (stChallenges (scep ex_store)) = Some ex_challenge"
  by (simp add: ex_store_def noSCEP_def chosen_def ex_challenge_def)

lemma ex_terms: "cRevoked ex_challenge = False" "cExpires ex_challenge = 1000 * day + 24 * hour" "cDNS ex_challenge = [''r1.lab'']" "cIPs ex_challenge = []"
  "cProfile ex_challenge = ex_template" "cDays ex_challenge = 90" "cIssuance ex_challenge = noIssuance" "cHash ex_challenge = ''pw''"
  by (simp_all add: ex_challenge_def)

lemma ex_allowed: "allowedSCEPIdentities ex_csr ex_challenge"
  by (simp add: allowedSCEPIdentities_def ex_csr_def ex_challenge_def)

lemma ex_fields: "tName ex_template \<noteq> []" "serverAuth (tProfile ex_template)" "stCA (scep ex_store) = ''a''" "disk ex_store = []" "stAllowDES (scep ex_store) = False"
  by (simp_all add: ex_template_def builtin_def serverAuth_def profile_defs ex_store_def noSCEP_def empty_store_def)

lemma ex_serial: "ValidSerial ''a''" by code_simp

lemma ex_times: "1000 * day \<noteq> 0" "\<not> 1000 * day + 24 * hour < 1000 * day" "\<not> day < 0" "0 < day" "0 < hour" "\<not> hour < 0"
  unfolding time_units by simp_all

lemma ex_scep_ca: "scep_ca (ex_store\<lparr>scep := st\<rparr>) ''a'' = Inr ex_ca"
  by (simp add: scep_ca_def ex_store_def caRoot_def ValidCAID_def HasCA_def LoadCACertPEM_def encodeCertPEM_def ex_ca_def noCert_def
    scep_key_usage_def ca_key_usage_def ku_defs ex_serial)

lemma ex_issuer: "cCA ex_challenge = ''a''" by (simp add: ex_challenge_def)

lemma ex_request: "rqPasswordHash (request_of ex_lib ex_msg) = ''pw''" "rqCSR (request_of ex_lib ex_msg) = ex_csr"
  by (simp_all add: request_of_def ex_lib_def ex_msg_def)

lemma ex_commit: "\<exists>t. thenE (scep_save (commit_challenge (scep ex_store) ''pw'' (new_issuance (1000 * day) rq rec der)))
     (thenE (scep_recover (commit_challenge (scep ex_store) ''pw'' (new_issuance (1000 * day) rq rec der))) (ret v)) ex_store = (Inr v, t)"
proof -
  have c: "commit_challenge (scep ex_store) ''pw'' (new_issuance (1000 * day) rq rec der) =
     (scep ex_store)\<lparr>stChallenges := [ex_challenge\<lparr>cIssuance := new_issuance (1000 * day) rq rec der\<rparr>]\<rparr>"
    by (simp add: commit_challenge_def ex_store_def noSCEP_def chosen_def ex_challenge_def)
  have sh: "stShared (scep ex_store) = []" by (simp add: ex_store_def noSCEP_def)
  show ?thesis
    unfolding c by (simp add: ex_times sh thenE_def bindE_def scep_save_def io_def ex_fields scep_recover_def pending_challenge_def pending_def is_pending_def ex_issuer ex_scep_ca
      publish_def loadIndex_def saveIndex_def readE_def gets_def ret_def Let_def dirty_def split: prod.splits)
qed

definition ex_store0 :: store where
  "ex_store0 = ex_store\<lparr>scep := (scep ex_store)\<lparr>stChallenges := []\<rparr>\<rparr>"

lemma ex_template_facts: "builtinByName ''TLS-Server'' = Some ex_template" "splitSANs [''r1.lab''] = ([''r1.lab''], [])" "policyBasics ex_template ''a'' 90 = Inr ()"
  "challenge_dns ''r1.lab'' = Inr ()" "HasPrefix ''TLS-Server'' ''builtin:'' = False" "tMaxDays ex_template = 365"
  by code_simp+

lemma ex_lists: "templates ex_store = []" "stShared (scep ex_store) = []" "stChallenges (scep ex_store) = [ex_challenge]"
  by (simp_all add: ex_store_def empty_store_def noSCEP_def)

lemma ex_store0_journal: "ex_store0\<lparr>scep := scep ex_store\<rparr> = ex_store" by (simp add: ex_store0_def)

lemma ex_create: "new_challenge (\<lambda>s. s) (1000 * day) ''pw'' ''TLS-Server'' [''r1.lab''] 90 24 ex_store0 = (Inr ''pw'', ex_store)"
proof -
  have st: "scep ex_store0 = (scep ex_store)\<lparr>stChallenges := []\<rparr>" "disk ex_store0 = []" "templates ex_store0 = []" by (simp_all add: ex_store0_def ex_fields ex_lists)
  have l: "scep_load ex_store0 = (Inr ((scep ex_store)\<lparr>stChallenges := []\<rparr>), ex_store0)" by (simp add: scep_load_def readE_def io_def op_simps st)
  have g: "getTemplateE ''TLS-Server'' ex_store0 = (Inr (Some ex_template), ex_store0)"
    by (simp add: getTemplateE_def GetTemplate_def ex_template_facts LoadTemplates_def readE_def io_def op_simps st migrateTemplates_def saveTemplates_def)
  have sc0: "scep_ca ex_store0 ''a'' = Inr ex_ca" by (simp add: ex_store0_def ex_scep_ca)
  have p: "challenge_profile ((scep ex_store)\<lparr>stChallenges := []\<rparr>) ''TLS-Server'' 90 ex_store0 = (Inr (ex_template, 90), ex_store0)"
    by (simp add: challenge_profile_def thenE_def bindE_def g ex_fields ex_template_facts Let_def op_simps sc0)
  have c: "challenge_capacity (1000 * day) ((scep ex_store)\<lparr>stChallenges := []\<rparr>) s = (Inr ((scep ex_store)\<lparr>stChallenges := []\<rparr>), s)" for s
  proof -
    have "\<not> dirty ((scep ex_store)\<lparr>stChallenges := []\<rparr>)" by (simp add: dirty_def ex_lists)
    moreover have "pruneSCEP (1000 * day) ((scep ex_store)\<lparr>stChallenges := []\<rparr>) = (scep ex_store)\<lparr>stChallenges := []\<rparr>"
      by (simp add: pruneSCEP_def pruneShared_def ex_lists ex_store_def noSCEP_def)
    ultimately show ?thesis by (simp add: challenge_capacity_def bindE_def recover_clean ret_def ex_lists)
  qed
  have ch: "(scep ex_store)\<lparr>stChallenges := [ex_challenge]\<rparr> = scep ex_store" by (simp add: ex_lists [symmetric])
  show ?thesis
    by (simp add: new_challenge_def bindE_def l p ex_template_facts Let_def c thenE_def liftE_def ret_def scep_save_def io_def st ex_fields)
      (simp add: ex_challenge_def [symmetric] ch ex_store0_journal)
qed

lemma ex_granted: "\<exists>der t. decide ex_lib (1000 * day) 11 [4, 1, 0] ''10.0.0.1:5'' ex_store = (Inr (Decided ex_ca (Private (RSAKey 2 2048)) ex_msg (Granted [] (Some der))), t)"
proof -
  from ex_issue obtain rec der where i: "scepIssue (1000 * day) 11 (ex_csr\<lparr>csrDNS := [''r1.lab''], csrIPs := []\<rparr>) ''a'' 90 ex_template ex_ca (Private (RSAKey 2 2048)) = Inr (rec, der)"
    by blast
  have au: "authorize ex_lib (1000 * day) 11 (scep ex_store) (request_of ex_lib ex_msg) ''10.0.0.1:5'' ex_ca (Private (RSAKey 2 2048)) =
     thenE (scep_save (commit_challenge (scep ex_store) ''pw'' (new_issuance (1000 * day) (request_of ex_lib ex_msg) rec der)))
     (thenE (scep_recover (commit_challenge (scep ex_store) ''pw'' (new_issuance (1000 * day) (request_of ex_lib ex_msg) rec der))) (ret (Granted [] (Some der))))"
    by (simp add: authorize_def ex_request ex_found ex_terms noIssuance_def enrollNew_def ex_allowed ex_fields i Let_def ex_times)
  from ex_commit [of "request_of ex_lib ex_msg" rec der "Granted [] (Some der)"] au obtain t where
    "authorize ex_lib (1000 * day) 11 (scep ex_store) (request_of ex_lib ex_msg) ''10.0.0.1:5'' ex_ca (Private (RSAKey 2 2048)) ex_store = (Inr (Granted [] (Some der)), t)"
    by auto
  moreover have "scep_load ex_store = (Inr (scep ex_store), ex_store)" by (simp add: scep_load_def readE_def io_def op_simps ex_fields)
  ultimately have "decide ex_lib (1000 * day) 11 [4, 1, 0] ''10.0.0.1:5'' ex_store = (Inr (Decided ex_ca (Private (RSAKey 2 2048)) ex_msg (Granted [] (Some der))), t)"
    by (simp add: decide_def bindE_def ex_ready ex_parse ex_fields recover_clean [OF ex_clean] ret_def)
  then show ?thesis by blast
qed

section \<open>Witnesses\<close>

lemma ex_sha: "sha256 ex_lib = (\<lambda>s. s)"
  by (simp add: ex_lib_def)

lemma ex_created: "scep_reach ex_lib {''pw''} {} ex_store"
proof -
  have "scep_reach ex_lib {} {} ex_store0"
    by (rule scep_reach.start) (simp_all add: ex_store0_def ex_lists)
  then have "scep_reach ex_lib (insert (sha256 ex_lib ''pw'') {}) {} ex_store"
    by (rule scep_reach.create [where now = "1000 * day" and p = "''TLS-Server''" and ids = "[''r1.lab'']" and days = 90 and hours = 24])
      (simp_all add: ex_sha ex_create)
  then show ?thesis by (simp add: ex_sha)
qed

lemma ex_reached:
  obtains der t where "decide ex_lib (1000 * day) 11 [4, 1, 0] ''10.0.0.1:5'' ex_store =
      (Inr (Decided ex_ca (Private (RSAKey 2 2048)) ex_msg (Granted [] (Some der))), t)"
    "scep_reach ex_lib {''pw''} {(''pw'', Some der)} t" "holds_grant ''pw'' (Some der) (scep t)"
proof -
  from ex_granted obtain der t where d: "decide ex_lib (1000 * day) 11 [4, 1, 0] ''10.0.0.1:5'' ex_store =
      (Inr (Decided ex_ca (Private (RSAKey 2 2048)) ex_msg (Granted [] (Some der))), t)" by blast
  have g: "granted ex_lib (Inr (Decided ex_ca (Private (RSAKey 2 2048)) ex_msg (Granted [] (Some der)))) = {(''pw'', Some der)}"
    by (simp add: ex_sha ex_msg_def)
  have "unique_hashes (scep ex_store)" by (simp add: unique_hashes_def ex_lists)
  from decide_grants [OF this ex_times(1) d, of "''pw''" "Some der"] have h: "holds_grant ''pw'' (Some der) (scep t)" by (simp only: g singleton_iff)
  from scep_reach.request [OF ex_created ex_times(1) d] have "scep_reach ex_lib {''pw''} {(''pw'', Some der)} t" by (simp only: g Un_empty_right)
  with d h that show ?thesis by blast
qed





theorem inspected_envelope_safe_witness:
  "padding_ok 16 (replicate 16 (3 :: 8 word)) \<noteq> None"
proof -
  have "length (replicate 16 (3 :: 8 word)) = length (rvBytes (evCiphertext ex_env))" by (simp add: ex_env_def)
  from inspected_envelope_safe [OF ex_envelope this] show ?thesis by (simp add: ex_env_def scepCipherSizes_def)
qed

theorem rejected_changes_nothing_witness:
  "\<exists>fs. snd (enroll ex_lib 5 7 [] ''10.0.0.1:5'' ex_store) = ex_store\<lparr>disk := fs\<rparr>"
proof -
  have "enroll ex_lib 5 7 [] ''10.0.0.1:5'' ex_store = ((None, 400), ex_store)"
    by (simp add: enroll_def boundedSCEPASN1_def)
  with rejected_changes_nothing [OF this] show ?thesis by simp
qed

theorem sharedNames_verified_witness:
  "length [''r1.lab''] \<le> 4 \<and> verified (\<lambda>_. Inr [V4 5]) [] [''lab''] (V4 5) ''r1.lab''"
proof -
  have f: "norm_name ''r1.lab'' = ''r1.lab''" "scepDNSName ''r1.lab''" "dotted ''r1.lab''" by code_simp+
  have c: "sharedCandidates ex_csr = Inr [''r1.lab'']"
    by (simp add: sharedCandidates_def csrUnstructuredNames_def ex_csr_def oid_challengePassword_def oid_unstructuredName_def
        f subject_def add_new_def sharedMaxNames_def)
  have u: "underSuffix ''r1.lab'' [''lab'']" by code_simp
  have "sharedNames (\<lambda>_. Inr [V4 5]) ex_csr [''lab''] (V4 5) empty_store = (Inr (Inr [''r1.lab'']), empty_store)"
    by (simp add: sharedNames_def c ListDevices_def loadDevices_def readE_def io_def op_simps empty_store_def by_name_def checkSharedName_def u
        atSource_def sharedMaxNames_def)
  from sharedNames_verified [OF this] show ?thesis by (simp add: empty_store_def)
qed

end
