(* ===== verification/GnoiExample.thy ===== *)
theory GnoiExample
  imports Gnoi ScepExample
begin

text \<open>
  A push on concrete data, from the form to the verified installation: it shows that the hypotheses of the theorems on
  pushes can hold. The state of the device is whether it has the certificate.
\<close>

definition push_csr :: csr where
  "push_csr = \<lparr>csrSubject = subject ''sw1'' [] [], csrDNS = [], csrIPs = [], csrEmails = [], csrURIs = [],
     csrPublicKey = RSAKey 7 2048, csrExtensions = [], csrSignedBy = RSAKey 7 2048, csrAttributes = Some [], csrRaw = ''csr''\<rparr>"

definition push_wire :: "bool wire" where
  "push_wire = \<lparr>wrLookup = (\<lambda>h d. (Inr [V4 1], d)), wrConnect = (\<lambda>ip port d. (Inr [''c''], d)), wrReady = (\<lambda>d. (Inr (), d)),
     wrList = (\<lambda>c d. (Inr (if d then [(''tls'', Some ''cert'')] else []), d)), wrCanGenerate = (\<lambda>c d. (Inr True, d)),
     wrGenerate = (\<lambda>c p d. (Inr ''csr'', d)), wrLoad = (\<lambda>der chain d. (LoadAccepted, True)),
     wrRevoke = (\<lambda>c k d. (Inr ([k], []), d))\<rparr>"

definition push_request :: gnoiPushRequest where
  "push_request = \<lparr>gpTarget = ''sw1:9339'', gpCreds = \<lparr>dcUsername = ''u'', dcPassword = ''p''\<rparr>, gpCAID = caRoot, gpFingerprint = ''63'',
     gpCAPassphrase = [], gpTemplate = builtin ''TLS-Server'' [] profileServer 90 365, gpCommonName = ''sw1'', gpCountry = ''CH'',
     gpState = ''ZH'', gpCity = [], gpOrganization = ''Lab'', gpOU = [], gpDNSNames = [''sw1.lab''], gpIPs = [], gpCertID = ''tls'',
     gpValidDays = 90, gpAdmin = ''admin''\<rparr>"

lemma push_target: "SplitHostPort ''sw1:9339'' = Some (''sw1'', ''9339'')" "ParseIP ''sw1'' = None" "ParseInt ''9339'' = Some 9339"
  by code_simp+

lemma push_pin: "hexEncode ''c'' = ''63''" "normalizeFingerprint ''63'' = ''63''"
  by code_simp+

lemma push_certid: "validCertID ''tls''" "TrimSpace ''sw1'' = ''sw1''"
  by code_simp+

lemma push_valid: "validateGNOIRequest push_request = Inr ()"
  by (simp add: validateGNOIRequest_def push_request_def push_certid push_pin allowedAlgo_def all_algos_def algo_defs builtin_def
      noTemplate_def validateIssuePolicy_def policyBasics_def all_profiles_def profile_defs serverAuth_def)

definition push_net :: "prefix list" where "push_net = [Prefix (V4 0) 0]"

lemma push_allowed: "gnoiAllowed push_net (V4 1)"
  by (simp add: gnoiAllowed_def push_net_def)

lemma push_dial:
  "gnoiDial ex_lib push_wire push_net (gpTarget push_request) (gpFingerprint push_request) n w =
     (Inr ''c'', w\<lparr>wdEvents := wdEvents w @ [Dialed (V4 1) ''9339'']\<rparr>)"
  by (simp add: gnoiDial_def gnoiResolve_def gnoiResolveIPs_def gnoiCheckAllowed_def push_request_def push_target push_allowed
      push_net_def [symmetric] op_simps on_device_def push_wire_def emit_def verify_peer_def ex_lib_def push_pin)
    (simp add: push_net_def)

definition push_start :: "bool world" where
  "push_start = \<lparr>wdStore = example_store, wdDevice = False, wdEvents = [], wdSteps = []\<rparr>"

definition push_decode :: "string \<Rightarrow> csr option" where "push_decode x = Some push_csr"

lemma push_signing:
  "succeeds (fst (gnoiSignCSR push_decode (1000 * day) 11 push_request ''csr'' example_cert (Private (ECKey ''P-384'' 1)) example_store)) \<and>
   disk (snd (gnoiSignCSR push_decode (1000 * day) 11 push_request ''csr'' example_cert (Private (ECKey ''P-384'' 1)) example_store)) = []"
proof -
  have pol: "validateCSRPolicy (push_csr\<lparr>csrDNS := gpDNSNames push_request, csrIPs := gpIPs push_request, csrEmails := [], csrURIs := [],
      csrExtensions := []\<rparr>) (gpTemplate push_request) caRoot 90 = Inr ()"
    unfolding validateCSRPolicy_permitted
    by (simp add: csr_permitted_def push_csr_def push_request_def builtin_def noTemplate_def all_profiles_def profile_defs names_permitted_def)
  have algo: "publicKeyAlgo (RSAKey 7 2048) = Some algoRSA2048" "allowedAlgo (gpTemplate push_request) algoRSA2048"
    by (simp_all add: push_request_def builtin_def allowedAlgo_def all_algos_def algo_defs)
  show ?thesis
    using pol algo
    by (simp add: succeeds_def gnoiSignCSR_def push_decode_def Let_def push_csr_def push_request_def signCSRWithoutPersistence_def
        example_cert_times CreateCertificate_def AddDays_def time_units noCert_def op_simps SaveCert_def io_def AddRecord_def
        loadIndex_def saveIndex_def readE_def example_store_def empty_store_def example_cert_def builtin_def subject_def gnoiBackdate_def)
qed

lemma push_wire_answers:
  "wrList push_wire c d = (Inr (if d then [(''tls'', Some ''cert'')] else []), d)" "wrCanGenerate push_wire c d = (Inr True, d)"
  "wrGenerate push_wire c p d = (Inr ''csr'', d)" "wrLoad push_wire der chain d = (LoadAccepted, True)" "gpCertID push_request = ''tls''"
  by (simp_all add: push_wire_def push_request_def)

lemma authenticated_eq:
  "authenticated c peer rpc w = (case rpc (wdDevice w) of (r, d) \<Rightarrow> (r, w\<lparr>wdEvents := wdEvents w @ [Authenticated c peer], wdDevice := d\<rparr>))"
  by (simp add: authenticated_def thenE_emit on_device_def)

lemma step_eq: "m w = (Inr x, v) \<Longrightarrow> step a m w = (Inr x, v)"
  by (simp add: step_Inr)

lemma push_generated:
  fixes w :: "bool world"
  assumes "\<not> wdDevice w"
  shows "\<exists>v. push_generate push_wire push_request peer w = (Inr ''csr'', v) \<and> wdDevice v = wdDevice w"
  using assms
  by (simp add: push_generate_def bindE_def [of "step _ _"] step_def authenticated_eq push_wire_answers run_ok_def run_record_def op_simps)

lemma push_ca: "loadCA example_store caRoot [] = Inr (example_cert, Private (ECKey ''P-384'' 1))"
  by (simp add: loadCA_def keyring_get_def example_store_def)

lemma push_chain: "bindR (IssuerChainPEM example_store caRoot) gnoiChainCerts = Inr [Some example_cert]"
  by (simp add: IssuerChainPEM_def issuer_chain.simps example_store_def empty_store_def LoadCACertPEM_def HasCA_def ca_kinds
      findCARecord_filter is_ca_record_def noRecord_def encodeCertPEM_def gnoiChainCerts_def example_cert_def)

lemma push_fields: "gpCAID push_request = caRoot" "gpCAPassphrase push_request = []" "tName (gpTemplate push_request) \<noteq> []"
    "gpDNSNames push_request = [''sw1.lab'']" "gpIPs push_request = []"
  by (simp_all add: push_request_def builtin_def)

lemma bindI: "m s = (Inr x, u) \<Longrightarrow> f x u = r \<Longrightarrow> bindE m f s = r"
  by (simp add: bindE_def)

lemma thenI: "m s = (Inr x, u) \<Longrightarrow> n u = r \<Longrightarrow> thenE m n s = r"
  by (simp add: thenE_def bindE_def)

lemma run_ok_total: "\<exists>v. run_ok a b w = (Inr (), v) \<and> wdStore v = wdStore w \<and> wdDevice v = wdDevice w"
  by (simp add: run_ok_def run_record_def modifyE_def)

lemma push_signed:
  "\<exists>rec der v. push_sign ex_lib push_wire push_net push_decode (1000 * day) 11 push_request push_start =
     (Inr (rec, der, [Some example_cert]), v) \<and> disk (wdStore v) = []"
proof -
  let ?w = "push_start\<lparr>wdEvents := [Dialed (V4 1) ''9339'']\<rparr>"
  let ?dial = "gnoiDial ex_lib push_wire push_net (gpTarget push_request) (gpFingerprint push_request) None"
  have start: "wdStore push_start = example_store" "wdEvents push_start = []" "\<not> wdDevice push_start"
    by (simp_all add: push_start_def)
  have dial: "step ''connect'' ?dial push_start = (Inr ''c'', ?w)"
    by (rule step_eq) (simp add: push_dial start)
  obtain w1 where w1: "run_ok ''connect'' (''TLS connected to '' @ gpTarget push_request) ?w = (Inr (), w1)" "wdDevice w1 = wdDevice ?w"
      "wdStore w1 = example_store"
    using run_ok_total [of "''connect''" "''TLS connected to '' @ gpTarget push_request" ?w] start by auto
  with start have "\<not> wdDevice w1" by simp
  from push_generated [OF this] obtain w2 where gen: "push_generate push_wire push_request ''c'' w1 = (Inr ''csr'', w2)" by blast
  from kept_store [OF store_push_generate gen] w1 have w2: "wdStore w2 = example_store" by simp
  obtain rec der t where "gnoiSignCSR push_decode (1000 * day) 11 push_request ''csr'' example_cert (Private (ECKey ''P-384'' 1)) example_store
      = (Inr (rec, der), t)" and disk: "disk t = []"
    using push_signing
    by (cases "gnoiSignCSR push_decode (1000 * day) 11 push_request ''csr'' example_cert (Private (ECKey ''P-384'' 1)) example_store")
      (auto simp: succeeds_def split: sum.splits)
  from this(1) have sign: "step ''sign'' (on_store (gnoiSignCSR push_decode (1000 * day) 11 push_request ''csr'' example_cert
      (Private (ECKey ''P-384'' 1)))) w2 = (Inr (rec, der), w2\<lparr>wdStore := t\<rparr>)"
    by (intro step_eq) (simp add: on_store_Inr w2)
  have loads: "on_store (\<lambda>s. (loadCA s caRoot [], s)) push_start = (Inr (example_cert, Private (ECKey ''P-384'' 1)), push_start)"
    "on_store (\<lambda>s. (bindR (IssuerChainPEM s caRoot) gnoiChainCerts, s)) push_start = (Inr [Some example_cert], push_start)"
    by (simp_all add: on_store_Inr start push_ca push_chain push_start_def)
  have valid: "liftE (validateGNOIRequest push_request) push_start = (Inr (), push_start)" by (simp add: push_valid)
  obtain w3 where w3: "run_ok ''sign'' (''signed as serial '' @ rSerial rec) (w2\<lparr>wdStore := t\<rparr>) = (Inr (), w3)" "wdStore w3 = t"
    using run_ok_total [of "''sign''" "''signed as serial '' @ rSerial rec" "w2\<lparr>wdStore := t\<rparr>"] by auto
  have "push_sign ex_lib push_wire push_net push_decode (1000 * day) 11 push_request push_start = (Inr (rec, der, [Some example_cert]), w3)"
    unfolding push_sign_def push_fields(1,2)
    by (rule thenI, rule valid, rule bindI, rule loads(1), simp only: prod.case, rule bindI, rule loads(2), rule bindI, rule dial,
        rule thenI, rule w1(1), rule bindI, rule gen, rule bindI, rule sign, simp only: prod.case, rule thenI, rule w3(1)) simp
  with w3(2) disk show ?thesis by blast
qed

lemma push_installed:
  fixes w :: "bool world"
  shows "\<exists>v. push_install ex_lib push_wire push_net tm now push_request der chain w = (Inr der, v)"
proof -
  let ?seen = "gnoiSeenOnDevice ex_lib push_wire push_net push_request (cert_Raw ex_lib der)"
  have raw: "cert_Raw ex_lib c = ''cert''" for c by (simp add: ex_lib_def)
  have seen: "\<exists>v. ?seen u = (Inr True, v)" if "wdDevice u" for u
    using that by (simp add: gnoiSeenOnDevice_def bindE_def push_dial authenticated_eq push_wire_answers raw ret_def)
  have loop: "\<exists>v. verify_loop ?seen tm deadline n t u = ((n + 1, True), v)" if "wdDevice u" for deadline n t u
    using seen [OF that] by (subst verify_loop.simps) (auto simp: Let_def)
  have verify: "\<exists>v. gnoiVerify ex_lib push_wire push_net tm now push_request der u = (Inr der, v)" if dev: "wdDevice u" for u
  proof -
    obtain v where v: "verify_loop ?seen tm (now + gnoiVerifyWindow) 0 now u = ((1, True), v)"
      using dev loop [of u "now + gnoiVerifyWindow" 0 now] by auto
    obtain v' where "run_ok ''verify'' (''certificate '' @ quoted (gpCertID push_request) @ '' present on device (attempt '' @ Itoa 1 @ '')'') v
        = (Inr (), v')"
      using run_ok_total by blast
    then have "thenE (run_ok ''verify'' (''certificate '' @ quoted (gpCertID push_request) @ '' present on device (attempt '' @ Itoa 1 @ '')''))
        (ret der) v = (Inr der, v')"
      by (simp only: thenE_def bindE_def) (simp add: ret_def)
    with v show ?thesis by (simp add: gnoiVerify_def)
  qed
  let ?w = "w\<lparr>wdEvents := wdEvents w @ [Loaded (cert_Raw ex_lib der)], wdDevice := True\<rparr>"
  obtain w1 where w1: "run_ok ''install'' ''device accepted the certificate'' ?w = (Inr (), w1)" "wdDevice w1"
    using run_ok_total [of "''install''" "''device accepted the certificate''" ?w] by auto
  from verify [OF w1(2)] obtain v where v: "gnoiVerify ex_lib push_wire push_net tm now push_request der w1 = (Inr der, v)" by blast
  have load: "on_device (\<lambda>d. case wrLoad push_wire (cert_Raw ex_lib der) chain d of (a, d') \<Rightarrow> (Inr a, d'))
      (w\<lparr>wdEvents := wdEvents w @ [Loaded (cert_Raw ex_lib der)]\<rparr>) = (Inr LoadAccepted, ?w)"
    by (simp add: on_device_def push_wire_answers)
  have "push_install ex_lib push_wire push_net tm now push_request der chain w = (Inr der, v)"
    unfolding push_install_def thenE_emit
    by (rule bindI, rule load, simp only: load_answer.case, rule thenI, rule w1(1), rule v)
  then show ?thesis by blast
qed

theorem successful_push_witness:
  "\<exists>der v. gnoiPush ex_lib push_wire push_net push_decode \<lparr>tmTook = (\<lambda>_. 1), tmOver = (\<lambda>_. False)\<rparr> (1000 * day) 11 push_request push_start
     = (Inr der, v) \<and> DNSNames der = [''sw1.lab''] \<and> SignedBy der = ECKey ''P-384'' 1 \<and>
     certs (wdStore v) (serialString (SerialNumber der)) = Some (encodeCertPEM der)"
proof -
  let ?tm = "\<lparr>tmTook = (\<lambda>_. 1), tmOver = (\<lambda>_. False)\<rparr>"
  obtain rec der w where sign: "push_sign ex_lib push_wire push_net push_decode (1000 * day) 11 push_request push_start =
     (Inr (rec, der, [Some example_cert]), w)"
    using push_signed by blast
  obtain u where "push_install ex_lib push_wire push_net ?tm (1000 * day) push_request der [Some example_cert] w = (Inr der, u)"
    using push_installed by blast
  with sign obtain v where push: "gnoiPush ex_lib push_wire push_net push_decode ?tm (1000 * day) 11 push_request push_start = (Inr der, v)"
    by (simp add: gnoiPush_def bindE_def Let_def)
  have start: "wdStore push_start = example_store" by (simp add: push_start_def)
  have "DNSNames der = [''sw1.lab''] \<and> SignedBy der = PublicKey example_cert \<and>
     certs (wdStore v) (serialString (SerialNumber der)) = Some (encodeCertPEM der)"
    using successful_push [OF push push_fields(3)] unfolding start push_fields push_ca by auto
  with push show ?thesis by (auto simp: example_params)
qed

theorem verification_is_bounded_witness:
  "fst (fst (verify_loop (throw ''unreachable'') \<lparr>tmTook = (\<lambda>_. 5 * 10 ^ 9), tmOver = (\<lambda>_. False)\<rparr>
      (0 + gnoiVerifyWindow) 0 0 push_start)) \<le> 15"
proof -
  obtain n b v where "verify_loop (throw ''unreachable'') \<lparr>tmTook = (\<lambda>_. 5 * 10 ^ 9), tmOver = (\<lambda>_. False)\<rparr>
      (0 + gnoiVerifyWindow) 0 0 push_start = ((n, b), v)"
    by (metis prod.exhaust)
  with verification_is_bounded [OF this] show ?thesis by simp
qed

theorem push_outcome_is_recorded_witness:
  "\<exists>x r v. gnoiPush ex_lib push_wire push_net push_decode \<lparr>tmTook = (\<lambda>_. 1), tmOver = (\<lambda>_. False)\<rparr> (1000 * day) 11 push_request push_start
     = (r, v) \<and> x \<in> set (index (wdStore v)) \<and> rPushes x \<noteq> [] \<and> pTarget (last (rPushes x)) = ''sw1:9339''"
proof -
  obtain rec der w1 where sign: "push_sign ex_lib push_wire push_net push_decode (1000 * day) 11 push_request push_start =
     (Inr (rec, der, [Some example_cert]), w1)" "disk (wdStore w1) = []"
    using push_signed by blast
  obtain r v where push: "gnoiPush ex_lib push_wire push_net push_decode \<lparr>tmTook = (\<lambda>_. 1), tmOver = (\<lambda>_. False)\<rparr> (1000 * day) 11
      push_request push_start = (r, v)" by fastforce
  have "gpTarget push_request = ''sw1:9339''" by (simp add: push_request_def)
  with push_outcome_is_recorded [OF sign push] push show ?thesis by (auto simp: Let_def)
qed

end
