(* ===== verification/DeviceCheck.thy ===== *)
theory DeviceCheck
  imports Gnoi Web
begin

text \<open>
  The live checks of a device, \<open>device_check.go\<close>: reading its certificates, the rows of the device page, the inspection of a
  device and the revocation of one of its certificates, and the handlers that run them. \<open>x509.ParseCertificate\<close> is an argument
  (what the program reads of a certificate), as is \<open>asn1.Unmarshal\<close> into a string. The remaining time of a row is left out.
\<close>

section \<open>Reading certificates\<close>

record certview =
  cvSubject :: string
  cvIssuer :: string
  cvIssuerCN :: string
  cvNotBefore :: time
  cvNotAfter :: time

text \<open>What the checks get from outside: the libraries, the way to the device, the allowed networks, the readers of DER.\<close>

record 'd gear =
  grLib :: libraries
  grNet :: "'d wire"
  grAllow :: "prefix list"
  grParse :: "string \<Rightarrow> certview option"
  grString :: "string \<Rightarrow> string option"

definition deviceExpiryWarn :: time where "deviceExpiryWarn = 30 * 24 * hour"

record deviceReport =
  drModel :: string
  drSerial :: string
  drCerts :: "DeviceCert list"
  drServed :: "DeviceCert option"

text \<open>The characters of \<open>\s\<close> and of \<open>[^\s,]\<close>.\<close>

definition re_space :: "char \<Rightarrow> bool" where
  "re_space c \<longleftrightarrow> c \<in> {CHR '' '', TAB, LF, CR, CHR 0x0C}"

definition re_word :: "char \<Rightarrow> bool" where
  "re_word c \<longleftrightarrow> \<not> re_space c \<and> c \<noteq> CHR '',''"

text \<open>A match of \<open>sudiSubject\<close> at the start of the string, and the first match in it.\<close>

definition sudi_at :: "string \<Rightarrow> (string \<times> string) option" where
  "sudi_at s =
     (let pid = takeWhile re_word (drop 4 s); after = dropWhile re_word (drop 4 s); next = dropWhile re_space after;
          sn = takeWhile re_word (drop 3 next) in
      if HasPrefix s ''PID:'' \<and> pid \<noteq> [] \<and> next \<noteq> after \<and> HasPrefix next ''SN:'' \<and> sn \<noteq> [] then Some (pid, sn) else None)"

fun sudiSubject :: "string \<Rightarrow> (string \<times> string) option" where
  "sudiSubject [] = None"
| "sudiSubject (c # s) = (case sudi_at (c # s) of Some m \<Rightarrow> Some m | None \<Rightarrow> sudiSubject s)"

definition isCiscoSUDI :: "string \<Rightarrow> bool" where
  "isCiscoSUDI k \<longleftrightarrow> HasPrefix k ''CISCO_IDEVID''"

definition catalystCenterIssuer :: string where
  "catalystCenterIssuer = ''sdn-network-infra-ca''"

definition isCatalystCenterDN :: "string \<Rightarrow> bool" where
  "isCatalystCenterDN dn \<longleftrightarrow> list_ex (\<lambda>part. TrimSpace part = ''CN='' @ catalystCenterIssuer) (Split CHR '','' dn)"

text \<open>A match of \<open>hexAttr\<close> at the start of the string: the OID, the digits and what follows.\<close>

function dotted :: "string \<Rightarrow> string \<times> string" where
  "dotted s =
     (let ds = takeWhile is_digit (tl s) in
      if HasPrefix s ''.'' \<and> ds \<noteq> []
      then (case dotted (dropWhile is_digit (tl s)) of (parts, rest) \<Rightarrow> (CHR ''.'' # ds @ parts, rest))
      else ([], s))"
  by pat_completeness auto
termination
proof (relation "measure length")
  fix s :: string and ds
  assume "ds = takeWhile is_digit (tl s)" "HasPrefix s ''.'' \<and> ds \<noteq> []"
  then have "s \<noteq> []" by (auto simp: HasPrefix_def)
  then have "length (tl s) < length s" by simp
  with length_dropWhile_le [of is_digit "tl s"] show "(dropWhile is_digit (tl s), s) \<in> measure length"
    unfolding in_measure by (rule le_less_trans)
qed simp

declare dotted.simps [simp del]

definition hex_digit :: "char \<Rightarrow> bool" where
  "hex_digit c \<longleftrightarrow> is_digit c \<or> between CHR ''a'' CHR ''f'' c"

definition hex_attr_at :: "string \<Rightarrow> (string \<times> string \<times> string) option" where
  "hex_attr_at s =
     (let ds = takeWhile is_digit s in
      case dotted (dropWhile is_digit s) of (parts, r) \<Rightarrow>
        let digits = takeWhile hex_digit (drop 2 r) in
        if ds \<noteq> [] \<and> parts \<noteq> [] \<and> HasPrefix r ''=#'' \<and> digits \<noteq> [] then Some (ds @ parts, digits, dropWhile hex_digit (drop 2 r)) else None)"

fun hex_decode :: "string \<Rightarrow> string option" where
  "hex_decode [] = Some []"
| "hex_decode [c] = None"
| "hex_decode (a # b # s) = map_option ((#) (char_of (16 * hex_value a + hex_value b))) (hex_decode s)"

definition attrNames :: "string \<Rightarrow> string" where
  "attrNames oid = (if oid = ''1.2.840.113549.1.9.2'' then ''unstructuredName''
     else if oid = ''1.2.840.113549.1.9.1'' then ''emailAddress'' else oid)"

text \<open>\<open>as_string\<close> reads DER that is one string and nothing after it.\<close>

definition readable_attr :: "(string \<Rightarrow> string option) \<Rightarrow> string \<Rightarrow> string \<Rightarrow> string" where
  "readable_attr as_string oid digits =
     (case hex_decode digits of
        None \<Rightarrow> oid @ ''=#'' @ digits
      | Some der \<Rightarrow> (case as_string der of
          None \<Rightarrow> oid @ ''=#'' @ digits
        | Some v \<Rightarrow> attrNames oid @ ''='' @ v))"

lemma dotted_length: "dotted s = (parts, rest) \<Longrightarrow> length rest \<le> length s"
proof (induction s arbitrary: parts rest rule: dotted.induct)
  case (1 s)
  show ?case
  proof (cases "HasPrefix s ''.'' \<and> takeWhile is_digit (tl s) \<noteq> []")
    case True
    obtain m r where d: "dotted (dropWhile is_digit (tl s)) = (m, r)" by fastforce
    from "1.IH" [OF refl True d] have "length r \<le> length (dropWhile is_digit (tl s))" .
    also have "\<dots> \<le> length (tl s)" by (rule length_dropWhile_le)
    finally have "length r \<le> length s" by simp
    with "1.prems" True d show ?thesis by (subst (asm) dotted.simps) (auto simp: Let_def)
  next
    case False
    with "1.prems" show ?thesis by (subst (asm) dotted.simps) (auto simp: Let_def split: if_splits)
  qed
qed

lemma hex_attr_at_length:
  assumes "hex_attr_at s = Some (oid, digits, rest)"
  shows "length rest < length s"
proof -
  obtain parts r where d: "dotted (dropWhile is_digit s) = (parts, r)" by fastforce
  with assms have digits: "digits = takeWhile hex_digit (drop 2 r)" "digits \<noteq> []" and rest: "rest = dropWhile hex_digit (drop 2 r)"
    by (auto simp: hex_attr_at_def Let_def split: if_splits)
  have "drop 2 r = digits @ rest" using digits(1) rest by simp
  then have "length rest < length (drop 2 r)" using digits(2) by (metis length_append length_greater_0_conv less_add_same_cancel2)
  also have "\<dots> \<le> length r" by simp
  also have "\<dots> \<le> length (dropWhile is_digit s)" using dotted_length [OF d] .
  also have "\<dots> \<le> length s" by (rule length_dropWhile_le)
  finally show ?thesis .
qed

function readableDN :: "(string \<Rightarrow> string option) \<Rightarrow> string \<Rightarrow> string" where
  "readableDN as_string [] = []"
| "readableDN as_string (c # s) =
     (case hex_attr_at (c # s) of
        Some (oid, digits, rest) \<Rightarrow> readable_attr as_string oid digits @ readableDN as_string rest
      | None \<Rightarrow> c # readableDN as_string s)"
  by pat_completeness auto
termination
  by (relation "measure (\<lambda>(_, s). length s)") (auto dest: hex_attr_at_length)

definition noDeviceCert :: DeviceCert where
  "noDeviceCert = \<lparr>dcCertID = [], dcSubject = [], dcIssuer = [], dcNotBefore = 0, dcNotAfter = 0, dcFingerprint = []\<rparr>"

definition parseDCert :: "'d gear \<Rightarrow> string \<Rightarrow> DeviceCert" where
  "parseDCert G der =
     (let dc = noDeviceCert\<lparr>dcFingerprint := hexColons (sha256 (grLib G) der)\<rparr> in
      case grParse G der of
        None \<Rightarrow> dc
      | Some c \<Rightarrow> dc\<lparr>dcSubject := readableDN (grString G) (cvSubject c), dcIssuer := readableDN (grString G) (cvIssuer c),
          dcNotBefore := cvNotBefore c, dcNotAfter := cvNotAfter c\<rparr>)"

definition parseDeviceCert :: "'d gear \<Rightarrow> string \<Rightarrow> string option \<Rightarrow> DeviceCert" where
  "parseDeviceCert G k pem =
     (case pem of None \<Rightarrow> noDeviceCert\<lparr>dcCertID := k\<rparr> | Some der \<Rightarrow> (parseDCert G der)\<lparr>dcCertID := k\<rparr>)"

definition issuedByCatalystCenter :: "'d gear \<Rightarrow> string \<Rightarrow> bool" where
  "issuedByCatalystCenter G der = (case grParse G der of None \<Rightarrow> False | Some c \<Rightarrow> cvIssuerCN c = catalystCenterIssuer)"

section \<open>The rows of the device page\<close>

definition deviceExpiryClass :: "time \<Rightarrow> time \<Rightarrow> string" where
  "deviceExpiryClass notAfter now =
     (if notAfter = 0 then [] else if \<not> notAfter > now then ''bad''
      else if notAfter - now < deviceExpiryWarn then ''warn'' else ''lock'')"

record deviceCertRow =
  rwCert :: DeviceCert
  rwClass :: string
  rwGRPC :: bool
  rwSUDI :: bool
  rwDNAC :: bool

definition newDeviceCertRow :: "'d gear \<Rightarrow> DeviceCert \<Rightarrow> time \<Rightarrow> deviceCertRow" where
  "newDeviceCertRow G c now =
     \<lparr>rwCert = c\<lparr>dcSubject := readableDN (grString G) (dcSubject c), dcIssuer := readableDN (grString G) (dcIssuer c)\<rparr>,
      rwClass = deviceExpiryClass (dcNotAfter c) now, rwGRPC = False, rwSUDI = False, rwDNAC = False\<rparr>"

definition protected :: "deviceCertRow \<Rightarrow> bool" where
  "protected r \<longleftrightarrow> rwGRPC r \<or> rwSUDI r \<or> rwDNAC r"

definition is_served :: "DeviceSnapshot \<Rightarrow> DeviceCert \<Rightarrow> bool" where
  "is_served snap c \<longleftrightarrow> (case snServed snap of None \<Rightarrow> False
     | Some v \<Rightarrow> dcFingerprint c \<noteq> [] \<and> dcFingerprint c = dcFingerprint v)"

definition snapshot_row :: "'d gear \<Rightarrow> DeviceSnapshot \<Rightarrow> time \<Rightarrow> DeviceCert \<Rightarrow> deviceCertRow" where
  "snapshot_row G snap now c =
     (let row = newDeviceCertRow G c now in
      row\<lparr>rwSUDI := isCiscoSUDI (dcCertID c), rwDNAC := isCatalystCenterDN (dcIssuer (rwCert row)), rwGRPC := is_served snap c\<rparr>)"

definition deviceSnapshotView :: "'d gear \<Rightarrow> DeviceSnapshot option \<Rightarrow> time \<Rightarrow> deviceCertRow list \<times> deviceCertRow option" where
  "deviceSnapshotView G snap now =
     (case snap of
        None \<Rightarrow> ([], None)
      | Some sn \<Rightarrow>
          (sort_key (\<lambda>r. if protected r then 1 else 0 :: nat) (map (snapshot_row G sn now) (snCerts sn)),
           if list_ex (is_served sn) (snCerts sn) then None else map_option (\<lambda>c. newDeviceCertRow G c now) (snServed sn)))"

section \<open>Checks\<close>

definition check_target :: "Device \<Rightarrow> string" where
  "check_target dev = JoinHostPort (dManagementIP dev) (show_int (dPort dev))"

definition dial_device :: "'d gear \<Rightarrow> Device \<Rightarrow> ('d, string) push_op" where
  "dial_device G dev =
     bindE (step ''connect'' (gnoiDial (grLib G) (grNet G) (grAllow G) (check_target dev) (dPin dev) None)) (\<lambda>peer.
     thenE (run_ok ''connect'' (''TLS connected to '' @ check_target dev)) (ret peer))"

definition list_certificates :: "'d gear \<Rightarrow> deviceCreds \<Rightarrow> string \<Rightarrow> ('d, (string \<times> string option) list) push_op" where
  "list_certificates G creds peer =
     bindE (step ''auth'' (authenticated creds peer (wrList (grNet G) creds))) (\<lambda>listed.
     thenE (run_ok ''auth'' (Itoa (length listed) @ '' certificates listed'')) (ret listed))"

text \<open>Model and serial of the last factory identity whose subject names them.\<close>

definition identity_of :: "'d gear \<Rightarrow> (string \<times> string option) list \<Rightarrow> string \<times> string" where
  "identity_of G listed =
     foldl (\<lambda>found (k, pem). if isCiscoSUDI k then (case sudiSubject (dcSubject (parseDeviceCert G k pem)) of Some m \<Rightarrow> m | None \<Rightarrow> found)
        else found) ([], []) listed"

definition gnoiInspect :: "'d gear \<Rightarrow> Device \<Rightarrow> deviceCreds \<Rightarrow> bool \<Rightarrow> ('d, deviceReport) push_op" where
  "gnoiInspect G dev creds served =
     (if normalizeFingerprint (dPin dev) = [] then run_failed ''connect'' errNoPin
      else
      bindE (dial_device G dev) (\<lambda>peer.
      bindE (list_certificates G creds peer) (\<lambda>listed.
      let certs = map (\<lambda>(k, pem). parseDeviceCert G k pem) listed; (model, serial) = identity_of G listed;
          rep = \<lparr>drModel = model, drSerial = serial, drCerts = certs, drServed = None\<rparr> in
      thenE (if model \<noteq> [] then run_ok ''identity'' (''SUDI reports '' @ model @ '' serial '' @ serial)
             else run_ok ''identity'' ''no SUDI certificate with PID and SN; model and serial unchanged'')
      (if served then
         bindE (step ''served'' (gnoiServedCert (grNet G) (grAllow G) (check_target dev))) (\<lambda>der.
         thenE (run_ok ''served'' (''gRPC port presents '' @ dcSubject (parseDCert G der)))
         (ret (rep\<lparr>drServed := Some (parseDCert G der)\<rparr>)))
       else ret rep))))"

definition errRevokeSUDI :: error where
  "errRevokeSUDI = ''Cisco SUDI certificates are the device's factory identity and are never revoked''"

definition errRevokeDNAC :: error where
  "errRevokeDNAC = ''Cisco Catalyst Center issued this certificate (issuer '' @ catalystCenterIssuer @
     '') and manages the device with it; it is never revoked''"

definition errRevokeServed :: error where
  "errRevokeServed = ''the gRPC port presents this certificate; revoking it stops the gRPC server until it is fixed on the device CLI''"

text \<open>What \<open>gnoiRevoke\<close> finds against the certificate, given what the device lists and the certificate of the peer.\<close>

definition revoke_check :: "'d gear \<Rightarrow> string \<Rightarrow> string \<Rightarrow> (string \<times> string option) list \<Rightarrow> unit result" where
  "revoke_check G peer k listed =
     (case find (\<lambda>c. fst c = k) listed of
        None \<Rightarrow> Inl (''certificate '' @ quoted k @ '' is not listed on the device'')
      | Some (_, None) \<Rightarrow> Inl ''cannot read the certificate, so it cannot be checked against the gRPC port''
      | Some (_, Some der) \<Rightarrow>
          if issuedByCatalystCenter G der then Inl errRevokeDNAC
          else if der = peer then Inl errRevokeServed
          else Inr ())"

definition gnoiRevoke :: "'d gear \<Rightarrow> Device \<Rightarrow> deviceCreds \<Rightarrow> string \<Rightarrow> ('d, unit) push_op" where
  "gnoiRevoke G dev creds k =
     (if isCiscoSUDI k then run_failed ''check'' errRevokeSUDI
      else if normalizeFingerprint (dPin dev) = [] then run_failed ''connect'' errNoPin
      else
      bindE (dial_device G dev) (\<lambda>peer.
      bindE (list_certificates G creds peer) (\<lambda>listed.
      thenE (step ''check'' (liftE (revoke_check G peer k listed)))
      (thenE (run_ok ''check'' ''not the gRPC certificate, not a SUDI and not a Catalyst Center certificate'')
      (thenE (emit (RevokeSent k))
      (bindE (step ''revoke'' (authenticated creds peer (wrRevoke (grNet G) creds k))) (\<lambda>(errs, revoked).
       if errs \<noteq> [] then run_failed ''revoke'' (''device refused: '' @ hd errs)
       else if k \<notin> set revoked then run_failed ''revoke'' ''device did not confirm the revocation''
       else run_ok ''revoke'' (''device revoked '' @ quoted k))))))))"

section \<open>Handlers\<close>

text \<open>A handler that may talk to a device; a run starts with no steps. A panic of the handler is the status 0.\<close>

type_synonym 'd live = "'d world \<Rightarrow> page \<times> 'd world"

definition in_store :: "handler \<Rightarrow> 'd live" where
  "in_store h = (\<lambda>w. case h (wdStore w) of (p, s) \<Rightarrow> (p, w\<lparr>wdStore := s\<rparr>))"

definition answer :: "page \<Rightarrow> 'd live" where
  "answer p = (\<lambda>w. (p, w))"

definition perform_live :: "('d, 'a) push_op \<Rightarrow> (error \<Rightarrow> 'd live) \<Rightarrow> ('a \<Rightarrow> 'd live) \<Rightarrow> 'd live" where
  "perform_live m onerr onok = (\<lambda>w. case m w of (Inl e, v) \<Rightarrow> onerr e v | (Inr x, v) \<Rightarrow> onok x v)"

definition fresh_run :: "('d, 'a) push_op \<Rightarrow> ('d, 'a) push_op" where
  "fresh_run m = (\<lambda>w. m (w\<lparr>wdSteps := []\<rparr>))"

text \<open>The guards of every form, as \<open>admin_form\<close> has them.\<close>

definition admin_live :: "crypto \<Rightarrow> site \<Rightarrow> User option \<Rightarrow> web_request \<Rightarrow> 'd live \<Rightarrow> 'd live" where
  "admin_live C w v r h =
     (if \<not> isAdmin w v then answer (Status 403)
      else if \<not> wqParses r then answer (Status 400)
      else if \<not> backupCSRF C w r then answer (Status 403)
      else h)"

definition panicked :: page where "panicked = Status 0"

text \<open>\<open>steps[len(steps)-1]\<close> after a failed run: a panic when there is no step.\<close>

definition failed_run :: "error \<Rightarrow> (string \<Rightarrow> 'd live) \<Rightarrow> 'd live" where
  "failed_run e h = (\<lambda>w. if wdSteps w = [] then (panicked, w)
     else h (''Failed at '' @ gsName (last (wdSteps w)) @ '': '' @ e) w)"

definition deviceCheckCreds :: "Device \<Rightarrow> deviceCreds sop" where
  "deviceCheckCreds dev =
     (case dCredentials dev of
        Some blob \<Rightarrow> (\<lambda>s. (openCredentials s blob, s))
      | None \<Rightarrow> throw ''no credentials are stored: add them with Edit device'')"

text \<open>The page of a device with the outcome of a check or an error.\<close>

definition renderDeviceDetail :: "string \<Rightarrow> 'd live" where
  "renderDeviceDetail outcome = answer (Shown ''device'' outcome)"

definition with_device :: "string \<Rightarrow> (Device \<Rightarrow> 'd live) \<Rightarrow> 'd live" where
  "with_device k h =
     perform_live (on_store (GetDevice k)) (\<lambda>e. answer (Shown ''message'' e))
       (\<lambda>d. case d of None \<Rightarrow> answer (Status 404) | Some dev \<Rightarrow> h dev)"

text \<open>The device is read again for the page; an error of that is ignored.\<close>

definition reread :: "string \<Rightarrow> 'd live \<Rightarrow> 'd live" where
  "reread k h = perform_live (on_store (GetDevice k)) (\<lambda>_. h) (\<lambda>_. h)"

definition handleDeviceCheck ::
  "'d gear \<Rightarrow> crypto \<Rightarrow> site \<Rightarrow> User option \<Rightarrow> time \<Rightarrow> bool \<Rightarrow> web_request \<Rightarrow> string \<Rightarrow> 'd live" where
  "handleDeviceCheck G C w v now refresh r k =
     admin_live C w v r
     (with_device k (\<lambda>dev.
      perform_live (on_store (deviceCheckCreds dev)) renderDeviceDetail (\<lambda>creds.
      perform_live (fresh_run (gnoiInspect G dev creds refresh)) (\<lambda>e. failed_run e renderDeviceDetail) (\<lambda>rep.
      perform_live
        (on_store
          (if refresh then UpdateDevice (dID dev) (\<lambda>d. d\<lparr>dSnapshot := Some \<lparr>snTaken = now, snCerts = drCerts rep, snServed = drServed rep\<rparr>\<rparr>)
           else if drModel rep \<noteq> [] then UpdateDevice (dID dev) (\<lambda>d. d\<lparr>dModel := drModel rep, dSerial := drSerial rep\<rparr>)
           else ret ()))
        (\<lambda>e. answer (Shown ''message'' e))
        (\<lambda>_. reread (dID dev) (renderDeviceDetail
           (if refresh then ''Certificates refreshed: '' @ Itoa (length (drCerts rep)) @ '' listed.'' else ''Test connection succeeded.''))))))) "

text \<open>After a revoke was sent the snapshot is taken again, whatever the device answered.\<close>

definition refresh_snapshot :: "'d gear \<Rightarrow> time \<Rightarrow> Device \<Rightarrow> deviceCreds \<Rightarrow> string \<Rightarrow> 'd live" where
  "refresh_snapshot G now dev creds outcome =
     perform_live (fresh_run (gnoiInspect G dev creds True))
       (\<lambda>e. reread (dID dev) (renderDeviceDetail (outcome @ '' The snapshot was not refreshed: '' @ e)))
       (\<lambda>rep. perform_live
          (on_store (UpdateDevice (dID dev) (\<lambda>d. d\<lparr>dSnapshot := Some \<lparr>snTaken = now, snCerts = drCerts rep, snServed = drServed rep\<rparr>\<rparr>)))
          (\<lambda>e. answer (Shown ''message'' e))
          (\<lambda>_. reread (dID dev)
             (renderDeviceDetail (outcome @ '' Certificates refreshed: '' @ Itoa (length (drCerts rep)) @ '' listed.''))))"

definition refresh_after :: "'d gear \<Rightarrow> time \<Rightarrow> Device \<Rightarrow> deviceCreds \<Rightarrow> string \<Rightarrow> 'd live" where
  "refresh_after G now dev creds outcome =
     (\<lambda>w. if wdSteps w = [] then (panicked, w)
      else if gsName (last (wdSteps w)) \<noteq> ''revoke'' then reread (dID dev) (renderDeviceDetail outcome) w
      else refresh_snapshot G now dev creds outcome w)"

definition handleDeviceRevoke ::
  "'d gear \<Rightarrow> crypto \<Rightarrow> site \<Rightarrow> User option \<Rightarrow> time \<Rightarrow> web_request \<Rightarrow> string \<Rightarrow> 'd live" where
  "handleDeviceRevoke G C w v now r k =
     admin_live C w v r
     (with_device k (\<lambda>dev.
      let cid = PostGet r ''cert_id'' in
      if cid = [] then renderDeviceDetail ''no certificate was chosen''
      else if PostGet r ''confirm'' \<noteq> ''on'' then renderDeviceDetail (''tick the confirmation box to remove '' @ cid @ '' from the switch'')
      else
      perform_live (on_store (deviceCheckCreds dev)) renderDeviceDetail (\<lambda>creds.
      perform_live (fresh_run (gnoiRevoke G dev creds cid))
        (\<lambda>e. failed_run e (refresh_after G now dev creds))
        (\<lambda>_. refresh_after G now dev creds (''Removed '' @ cid @ '' from the switch.'')))))"

section \<open>Properties\<close>

subsection \<open>Where a check connects to\<close>

text \<open>A result of an operation that keeps an invariant, with what is known of it whatever the state.\<close>

lemma triple_then_ok:
  assumes m: "triple I m (\<lambda>x w. I w \<and> A x) I" and ok: "\<And>a b. preserves I (run_ok a b)"
  shows "triple I (bindE m (\<lambda>x. thenE (run_ok a (b x)) (ret x))) (\<lambda>x w. I w \<and> A x) I"
proof (rule triple_bindE [OF m])
  fix x
  have "I (snd (run_ok a (b x) w))" if "I w" for w using ok that by (simp add: preserves_def)
  then show "triple (\<lambda>w. I w \<and> A x) (thenE (run_ok a (b x)) (ret x)) (\<lambda>x w. I w \<and> A x) I"
    by (simp add: triple_def run_ok_def run_record_def thenE_def bindE_def modifyE_def ret_def)
qed

lemma triple_dial_device:
  "triple (session_ok (grLib G) (grAllow G) creds (dPin dev) None) (dial_device G dev)
     (\<lambda>peer w. session_ok (grLib G) (grAllow G) creds (dPin dev) None w \<and> trusted (grLib G) (dPin dev) None peer)
     (session_ok (grLib G) (grAllow G) creds (dPin dev) None)"
  unfolding dial_device_def by (rule triple_then_ok [OF triple_step [OF triple_dial]]) (rule session_run_ok)

lemma session_list_certificates:
  "trusted (grLib G) fp n peer \<Longrightarrow> preserves (session_ok (grLib G) allow creds fp n) (list_certificates G creds peer)"
  unfolding list_certificates_def by (intro keeps session_step session_authenticated)

lemma session_served: "preserves (session_ok lib allow creds fp n) (gnoiServedCert net allow target)"
proof -
  have "triple (session_ok lib allow creds fp n) (gnoiServedCert net allow target) (\<lambda>_. session_ok lib allow creds fp n)
      (session_ok lib allow creds fp n)"
    unfolding gnoiServedCert_def
  proof (rule triple_bindE [OF triple_resolve])
    fix x :: "string \<times> string \<times> addr"
    obtain host port ip where x: "x = (host, port, ip)" by (cases x)
    let ?I = "session_ok lib allow creds fp n"
    show "triple (case x of (host, port, ip) \<Rightarrow> \<lambda>w. ?I w \<and> gnoiAllowed allow ip)
        (case x of (host, port, ip) \<Rightarrow> thenE (emit (Dialed ip port)) (bindE (on_device (wrConnect net ip port)) (\<lambda>raw.
          if raw = [] then throw ''device sent no certificate'' else ret (hd raw)))) (\<lambda>_. ?I) ?I"
      unfolding x prod.case by (rule triple_thenE [OF triple_dialed], rule triple_preserves) (intro keeps)
  qed
  then show ?thesis
    unfolding preserves_def triple_def by (fastforce split: prod.splits sum.splits)
qed

lemma session_inspect:
  "preserves (session_ok (grLib G) (grAllow G) creds (dPin dev) None) (gnoiInspect G dev creds served)"
  unfolding gnoiInspect_def Let_def split_beta
  by (rule preserves_if [OF session_run_failed], rule preserves_bind_pure [OF triple_dial_device])
    (intro keeps session_list_certificates session_step session_served)

lemma session_revoke_sent:
  "\<not> isCiscoSUDI k \<Longrightarrow> preserves (session_ok lib allow creds fp n) (emit (RevokeSent k))"
  by (auto simp: emit_def preserves_def modifyE_def session_ok_def events_ok_snoc isCiscoSUDI_def)

lemma session_revoke:
  "preserves (session_ok (grLib G) (grAllow G) creds (dPin dev) None) (gnoiRevoke G dev creds k)"
proof (cases "isCiscoSUDI k")
  case True
  then show ?thesis by (simp add: gnoiRevoke_def session_run_failed)
next
  case False
  show ?thesis
    unfolding gnoiRevoke_def split_beta
    by (simp only: False if_False, rule preserves_if [OF session_run_failed], rule preserves_bind_pure [OF triple_dial_device])
      (intro keeps session_list_certificates session_step session_authenticated session_revoke_sent False)
qed

text \<open>
  C23. A check of a device and a revocation, whatever the network and the device answer and wherever they fail, dial only allowed
  addresses, send the given credentials only to a peer with the pinned certificate, and never ask the device to revoke a
  factory identity.
\<close>

theorem checks_talk_only_to_the_pinned_device:
  "events_ok (grLib G) (grAllow G) creds (dPin dev) (wdEvents (snd (gnoiInspect G dev creds served (w\<lparr>wdEvents := []\<rparr>)))) \<and>
   events_ok (grLib G) (grAllow G) creds (dPin dev) (wdEvents (snd (gnoiRevoke G dev creds k (w\<lparr>wdEvents := []\<rparr>))))"
proof -
  have "session_ok (grLib G) (grAllow G) creds (dPin dev) None (w\<lparr>wdEvents := []\<rparr>)"
    by (simp add: session_ok_def events_ok_def)
  with session_inspect [of G creds dev served] session_revoke [of G creds dev k] show ?thesis
    by (simp add: preserves_def session_ok_def)
qed

subsection \<open>What is revoked\<close>

text \<open>Operations that send no revocation.\<close>

definition unsent :: "'d world \<Rightarrow> bool" where
  "unsent w \<longleftrightarrow> (\<forall>k. RevokeSent k \<notin> set (wdEvents w))"

lemma unsent_same: "(\<And>w. wdEvents (snd (m w)) = wdEvents w) \<Longrightarrow> preserves unsent m"
  by (simp add: preserves_def unsent_def)

lemma unsent_on_device [keeps]: "preserves unsent (on_device f)"
  by (rule unsent_same) (simp add: on_device_def split: prod.splits)

lemma unsent_run_record [keeps]: "preserves unsent (run_record a b c)"
  by (rule unsent_same) (simp add: run_record_def modifyE_def)

lemma unsent_run_ok [keeps]: "preserves unsent (run_ok a b)"
  unfolding run_ok_def by (rule unsent_run_record)

lemma unsent_run_failed [keeps]: "preserves unsent (run_failed a e)"
  unfolding run_failed_def by (intro keeps)

lemma unsent_emit: "(\<And>k. e \<noteq> RevokeSent k) \<Longrightarrow> preserves unsent (emit e)"
  by (auto simp: preserves_def unsent_def emit_def modifyE_def)

lemma unsent_step: "preserves unsent m \<Longrightarrow> preserves unsent (step a m)"
  by (auto simp: preserves_def step_def run_failed_def run_record_def op_simps unsent_def split: prod.splits sum.splits)

lemma unsent_authenticated [keeps]: "preserves unsent (authenticated c peer rpc)"
  unfolding authenticated_def by (intro keeps unsent_emit) simp

lemma unsent_dial [keeps]: "preserves unsent (gnoiDial lib net allow target fp n)"
proof -
  have "preserves unsent (gnoiResolve net allow target)"
    unfolding gnoiResolve_def gnoiResolveIPs_def by (auto split: option.split prod.split intro!: keeps)
  moreover have "preserves unsent (case x of (host, port, ip) \<Rightarrow>
     thenE (emit (Dialed ip port)) (bindE (on_device (wrConnect net ip port)) (\<lambda>raw.
      thenE (liftE (verify_peer lib fp n raw)) (thenE (on_device (wrReady net)) (ret (hd raw))))))" for x
    by (cases x) (simp add: keeps unsent_emit)
  ultimately show ?thesis unfolding gnoiDial_def by (rule preserves_bindE)
qed

lemma unsent_dial_device [keeps]: "preserves unsent (dial_device G dev)"
  unfolding dial_device_def by (intro keeps unsent_step)

lemma unsent_list [keeps]: "preserves unsent (list_certificates G creds peer)"
  unfolding list_certificates_def by (intro keeps unsent_step)

lemma dial_device_trusted:
  assumes "dial_device G dev w = (Inr peer, v)"
  shows "trusted (grLib G) (dPin dev) None peer"
proof -
  from assms obtain u where "gnoiDial (grLib G) (grNet G) (grAllow G) (check_target dev) (dPin dev) None w = (Inr peer, u)"
    by (auto simp: dial_device_def bindE_Inr_iff thenE_Inr_iff step_Inr)
  then show ?thesis
    by (auto simp: gnoiDial_def bindE_Inr_iff thenE_Inr_iff split: prod.splits intro: verify_peer_trusted)
qed

lemma list_certificates_listed:
  assumes "list_certificates G creds peer w = (Inr listed, v)"
  shows "\<exists>d. fst (wrList (grNet G) creds d) = Inr listed"
proof -
  from assms obtain u where "authenticated creds peer (wrList (grNet G) creds) w = (Inr listed, u)"
    by (auto simp: list_certificates_def bindE_Inr_iff thenE_Inr_iff step_Inr)
  then show ?thesis
    by (auto simp: authenticated_def thenE_emit on_device_def intro!: exI [of _ "wdDevice w"] split: prod.splits)
qed

text \<open>An operation that sent something was reached through every step before it.\<close>

lemma sent_bindE:
  assumes "preserves unsent m" "unsent w" "\<not> unsent (snd (bindE m f w))"
  obtains x v where "m w = (Inr x, v)" "unsent v" "\<not> unsent (snd (f x v))"
proof -
  obtain r v where m: "m w = (r, v)" by fastforce
  from preservesD [OF assms(1,2) m] have v: "unsent v" .
  show thesis
  proof (cases r)
    case (Inl e)
    with m v assms(3) show thesis by (simp add: bindE_def)
  next
    case (Inr x)
    with m v assms(3) that show thesis by (simp add: bindE_def)
  qed
qed

lemma sent_thenE:
  assumes "preserves unsent m" "unsent w" "\<not> unsent (snd (thenE m n w))"
  obtains x v where "m w = (Inr x, v)" "unsent v" "\<not> unsent (snd (n v))"
  using assms unfolding thenE_def by (rule sent_bindE)

lemma revoke_sent_cases:
  assumes "unsent w" "\<not> unsent (snd (gnoiRevoke G dev creds k w))"
  shows "\<not> isCiscoSUDI k \<and> (\<exists>peer listed d. trusted (grLib G) (dPin dev) None peer \<and>
    fst (wrList (grNet G) creds d) = Inr listed \<and> revoke_check G peer k listed = Inr ())"
proof -
  have stop: "unsent (snd (run_failed a e w :: (error + unit) \<times> 'a world))" for a e
    using assms(1) by (simp add: unsent_def run_failed_def run_record_def op_simps)
  have guards: "\<not> isCiscoSUDI k" "normalizeFingerprint (dPin dev) \<noteq> []"
    using assms(2) stop by (simp_all add: gnoiRevoke_def split: if_splits)
  let ?revoke = "\<lambda>peer. bindE (step ''revoke'' (authenticated creds peer (wrRevoke (grNet G) creds k))) (\<lambda>(errs, revoked).
       if errs \<noteq> [] then run_failed ''revoke'' (''device refused: '' @ hd errs)
       else if k \<notin> set revoked then run_failed ''revoke'' ''device did not confirm the revocation''
       else run_ok ''revoke'' (''device revoked '' @ quoted k))"
  let ?after = "\<lambda>peer listed. thenE (step ''check'' (liftE (revoke_check G peer k listed)))
      (thenE (run_ok ''check'' ''not the gRPC certificate, not a SUDI and not a Catalyst Center certificate'')
      (thenE (emit (RevokeSent k)) (?revoke peer)))"
  from guards assms(2) have "\<not> unsent (snd (bindE (dial_device G dev) (\<lambda>peer. bindE (list_certificates G creds peer) (?after peer)) w))"
    by (simp add: gnoiRevoke_def)
  from sent_bindE [OF unsent_dial_device assms(1) this] obtain peer v where
    dial: "dial_device G dev w = (Inr peer, v)" and v: "unsent v" "\<not> unsent (snd (bindE (list_certificates G creds peer) (?after peer) v))" .
  from sent_bindE [OF unsent_list v] obtain listed u where
    listed: "list_certificates G creds peer v = (Inr listed, u)" and u: "unsent u" "\<not> unsent (snd (?after peer listed u))" .
  have "preserves unsent (step ''check'' (liftE (revoke_check G peer k listed)))" by (intro unsent_step keeps)
  from sent_thenE [OF this u] obtain x t where "step ''check'' (liftE (revoke_check G peer k listed)) u = (Inr x, t)" .
  then have "revoke_check G peer k listed = Inr ()" by (simp add: step_Inr)
  with guards dial_device_trusted [OF dial] list_certificates_listed [OF listed] show ?thesis by blast
qed

text \<open>
  The device is asked to revoke a certificate only after the program has seen it: no factory identity, listed by the
  device behind the pinned certificate, readable, not issued by Catalyst Center, and another one than the certificate that
  the device presented on this very connection.
\<close>

lemma revoke_spares_protected:
  assumes "RevokeSent k' \<in> set (wdEvents (snd (gnoiRevoke G dev creds k w)))" and "unsent w"
  shows "\<not> isCiscoSUDI k \<and> (\<exists>peer listed d der. hexEncode (sha256 (grLib G) peer) = normalizeFingerprint (dPin dev) \<and>
    fst (wrList (grNet G) creds d) = Inr listed \<and> find (\<lambda>c. fst c = k) listed = Some (k, Some der) \<and>
    \<not> issuedByCatalystCenter G der \<and> der \<noteq> peer)"
proof -
  have "\<not> unsent (snd (gnoiRevoke G dev creds k w))" using assms(1) by (auto simp: unsent_def)
  from revoke_sent_cases [OF assms(2) this] obtain peer listed d where
    sudi: "\<not> isCiscoSUDI k" and peer: "trusted (grLib G) (dPin dev) None peer"
    and listed: "fst (wrList (grNet G) creds d) = Inr listed" and check: "revoke_check G peer k listed = Inr ()" by blast
  from check obtain k' der where found: "find (\<lambda>c. fst c = k) listed = Some (k', Some der)"
    and der: "\<not> issuedByCatalystCenter G der" "der \<noteq> peer"
    by (auto simp: revoke_check_def split: option.splits if_splits)
  from find_Some_set [OF found] have "k' = k" by simp
  with sudi peer listed found der show ?thesis by (auto simp: trusted_def)
qed

end
