(* ===== verification/DeviceHttp.thy ===== *)
theory DeviceHttp
  imports DeviceCheck Devices
begin

text \<open>
  The forms of the device inventory, \<open>device_http.go\<close>: adding a device after a live check, editing and deleting it, and fetching
  the fingerprint. A page is its name and its error line; the other fields that a form echoes are left out.
\<close>

section \<open>The form\<close>

definition devicePlatformIOSXE :: string where "devicePlatformIOSXE = ''IOS-XE''"
definition devicePlatformNXOS :: string where "devicePlatformNXOS = ''NX-OS''"
definition deviceDefaultPort :: int where "deviceDefaultPort = 57400"

record deviceForm =
  dfID :: string
  dfName :: string
  dfFQDN :: string
  dfManagementIP :: string
  dfPort :: string
  dfPlatform :: string
  dfSite :: string
  dfTags :: string
  dfNotes :: string
  dfModel :: string
  dfSerial :: string
  dfFingerprint :: string
  dfProbedTarget :: string
  dfProbedFingerprint :: string
  dfUsername :: string
  dfRemoveCreds :: bool
  dfPassword :: string

text \<open>\<open>deviceFormFromPost\<close>, with the password, which the code reads separately.\<close>

definition deviceFormFromPost :: "web_request \<Rightarrow> deviceForm" where
  "deviceFormFromPost r =
     \<lparr>dfID = TrimSpace (PostGet r ''id''), dfName = TrimSpace (PostGet r ''name''), dfFQDN = TrimSpace (PostGet r ''fqdn''),
      dfManagementIP = TrimSpace (PostGet r ''management_ip''), dfPort = TrimSpace (PostGet r ''port''),
      dfPlatform = PostGet r ''platform'', dfSite = TrimSpace (PostGet r ''site''), dfTags = PostGet r ''tags'',
      dfNotes = PostGet r ''notes'', dfModel = TrimSpace (PostGet r ''model''), dfSerial = TrimSpace (PostGet r ''serial''),
      dfFingerprint = TrimSpace (PostGet r ''fingerprint''), dfProbedTarget = PostGet r ''probed_target'',
      dfProbedFingerprint = PostGet r ''probed_fingerprint'', dfUsername = TrimSpace (PostGet r ''username''),
      dfRemoveCreds = (PostGet r ''remove_credentials'' = ''on''), dfPassword = PostGet r ''password''\<rparr>"

definition parsePort :: "string \<Rightarrow> int result" where
  "parsePort v =
     (if TrimSpace v = [] then Inr deviceDefaultPort
      else case ParseInt (TrimSpace v) of
          None \<Rightarrow> Inl ''port must be 1-65535''
        | Some n \<Rightarrow> if n < 1 \<or> n > 65535 then Inl ''port must be 1-65535'' else Inr n)"

text \<open>The rules for user name and password; the result is what the device stores.\<close>

definition deviceCredentials ::
  "store \<Rightarrow> string \<Rightarrow> (string, deviceCreds option) sealed option \<Rightarrow> deviceForm \<Rightarrow> (string, deviceCreds option) sealed option result" where
  "deviceCredentials s nonce old f =
     (if dfRemoveCreds f then Inr None
      else if dfUsername f = [] \<and> dfPassword f = [] then Inr old
      else if dfUsername f = [] then Inl ''username is required''
      else if dfPassword f = [] then
        (case old of
           None \<Rightarrow> Inl ''password is required''
         | Some blob \<Rightarrow> (case openCredentials s blob of
               Inl _ \<Rightarrow> Inl ''enter the password to store the username and password''
             | Inr c \<Rightarrow> if dcUsername c \<noteq> dfUsername f then Inl ''enter the password to store the username and password'' else Inr old))
      else bindR (sealCredentials s nonce \<lparr>dcUsername = dfUsername f, dcPassword = dfPassword f\<rparr>) (\<lambda>blob. Inr (Some blob)))"

definition noDevice :: Device where
  "noDevice = \<lparr>dID = [], dName = [], dFQDN = [], dManagementIP = [], dPort = 0, dPlatform = [], dSite = [], dTags = [], dNotes = [],
     dModel = [], dSerial = [], dPin = [], dPinAddress = [], dCredentials = None, dSnapshot = None, dCreated = 0, dUpdated = 0\<rparr>"

text \<open>The pin a form may set: the stored one for an unchanged address, or the one just fetched from exactly this address.\<close>

definition form_pin :: "deviceForm \<Rightarrow> string \<Rightarrow> string \<Rightarrow> string \<Rightarrow> (string \<times> string) result" where
  "form_pin f oldPin oldAddr addr =
     (let fp = normalizeFingerprint (dfFingerprint f) in
      if fp = [] then Inl ''fetch and confirm the device fingerprint first''
      else if dfID f \<noteq> [] \<and> oldAddr = addr \<and> normalizeFingerprint oldPin = fp then Inr (oldPin, oldAddr)
      else if dfProbedTarget f = addr \<and> normalizeFingerprint (dfProbedFingerprint f) = fp then Inr (dfFingerprint f, addr)
      else Inl ''fetch and confirm the device fingerprint for this address first'')"

definition form_device :: "store \<Rightarrow> string \<Rightarrow> deviceForm \<Rightarrow> Device \<Rightarrow> Device result" where
  "form_device s nonce f dev =
     (if dfName f = [] then Inl ''name is required''
      else case ParseIP (dfManagementIP f) of
        None \<Rightarrow> Inl ''management IP must be a valid IPv4 or IPv6 address''
      | Some ip \<Rightarrow>
        bindR (parsePort (dfPort f)) (\<lambda>port.
        if dfPlatform f \<noteq> devicePlatformIOSXE \<and> dfPlatform f \<noteq> devicePlatformNXOS then Inl ''choose a platform''
        else
        bindR (form_pin f (dPin dev) (dPinAddress dev) (JoinHostPort (addr_string ip) (show_int port))) (\<lambda>(pin, pinAddr).
        bindR (deviceCredentials s nonce (dCredentials dev) f) (\<lambda>creds.
        Inr (dev\<lparr>dName := dfName f, dFQDN := dfFQDN f, dManagementIP := addr_string ip, dPort := port, dPlatform := dfPlatform f,
          dSite := dfSite f, dNotes := dfNotes f, dModel := dfModel f, dSerial := dfSerial f,
          dTags := filter (\<lambda>t. t \<noteq> []) (map TrimSpace (Split CHR '','' (dfTags f))),
          dPin := pin, dPinAddress := pinAddr, dCredentials := creds\<rparr>)))))"

text \<open>\<open>deviceFromForm\<close>: nothing is stored.\<close>

definition deviceFromForm :: "string \<Rightarrow> deviceForm \<Rightarrow> Device sop" where
  "deviceFromForm nonce f =
     (if dfID f = [] then (\<lambda>s. (form_device s nonce f noDevice, s))
      else bindE (GetDevice (dfID f)) (\<lambda>d. case d of
          None \<Rightarrow> throw ''device not found''
        | Some old \<Rightarrow> (\<lambda>s. (form_device s nonce f old, s))))"

section \<open>Handlers\<close>

text \<open>The form again; when it edits a device that cannot be read, the error line says so.\<close>

definition renderDeviceForm :: "string \<Rightarrow> error \<Rightarrow> 'd live" where
  "renderDeviceForm k msg =
     (if k = [] then answer (Shown ''device'' msg)
      else perform_live (on_store (GetDevice k)) (\<lambda>e. answer (Shown ''device'' e))
        (\<lambda>d. case d of None \<Rightarrow> answer (Shown ''device'' ''device not found'') | Some _ \<Rightarrow> answer (Shown ''device'' msg)))"

definition handleDeviceNew :: "site \<Rightarrow> User option \<Rightarrow> 'd live" where
  "handleDeviceNew w v = (if \<not> isAdmin w v then answer (Status 403) else renderDeviceForm [] [])"

definition handleDeviceEdit :: "site \<Rightarrow> User option \<Rightarrow> string \<Rightarrow> 'd live" where
  "handleDeviceEdit w v k =
     (if \<not> isAdmin w v then answer (Status 403)
      else with_device k (\<lambda>dev x. renderDeviceForm (dID dev)
        (case dCredentials dev of None \<Rightarrow> []
         | Some blob \<Rightarrow> (case openCredentials (wdStore x) blob of Inl e \<Rightarrow> e | Inr _ \<Rightarrow> [])) x))"

definition handleDevices :: "'d live" where
  "handleDevices = perform_live (on_store ListDevices) (\<lambda>e. answer (Shown ''devices'' e)) (\<lambda>_. answer (Shown ''devices'' []))"

definition handleDeviceDetail :: "string \<Rightarrow> 'd live" where
  "handleDeviceDetail k = with_device k (\<lambda>_. renderDeviceDetail [])"

text \<open>Fetching the fingerprint sends no credentials; the page offers it for comparison.\<close>

definition handleDeviceProbe :: "'d gear \<Rightarrow> crypto \<Rightarrow> site \<Rightarrow> User option \<Rightarrow> web_request \<Rightarrow> 'd live" where
  "handleDeviceProbe G C w v r =
     admin_live C w v r
     (let f = deviceFormFromPost r in
      case (ParseIP (dfManagementIP f), parsePort (dfPort f)) of
        (Some ip, Inr port) \<Rightarrow>
          perform_live (gnoiProbe (grLib G) (grNet G) (grAllow G) (JoinHostPort (addr_string ip) (show_int port)))
            (\<lambda>e. renderDeviceForm (dfID f) (''fingerprint fetch failed: '' @ e))
            (\<lambda>fp. renderDeviceForm (dfID f) [])
      | _ \<Rightarrow> renderDeviceForm (dfID f) ''enter a valid management IP and port before fetching the fingerprint'')"

text \<open>\<open>addDevice\<close>: the device is stored once, after the check, with what the check learned.\<close>

definition checked_device :: "time \<Rightarrow> Device \<Rightarrow> deviceReport \<Rightarrow> Device" where
  "checked_device now dev rep =
     (if drModel rep \<noteq> [] then dev\<lparr>dModel := drModel rep, dSerial := drSerial rep\<rparr> else dev)
       \<lparr>dSnapshot := Some \<lparr>snTaken = now, snCerts = drCerts rep, snServed = drServed rep\<rparr>\<rparr>"

definition addDevice :: "'d gear \<Rightarrow> time \<Rightarrow> string \<Rightarrow> string \<Rightarrow> deviceForm \<Rightarrow> 'd live" where
  "addDevice G now newid nonce f =
     (if dfUsername f = [] \<or> dfPassword f = [] then renderDeviceForm (dfID f) ''username and password are required to add a device''
      else
      perform_live (on_store (deviceFromForm nonce f)) (renderDeviceForm (dfID f)) (\<lambda>dev.
      perform_live (fresh_run (gnoiInspect G dev \<lparr>dcUsername = dfUsername f, dcPassword = dfPassword f\<rparr> True))
        (\<lambda>e. failed_run e (renderDeviceForm (dfID f))) (\<lambda>rep.
      perform_live (on_store (SaveDevice now newid (checked_device now dev rep)))
        (renderDeviceForm (dfID f)) (\<lambda>d. answer (To (''/devices/'' @ dID d))))))"

definition handleDeviceSave ::
  "'d gear \<Rightarrow> crypto \<Rightarrow> site \<Rightarrow> User option \<Rightarrow> time \<Rightarrow> string \<Rightarrow> string \<Rightarrow> web_request \<Rightarrow> 'd live" where
  "handleDeviceSave G C w v now newid nonce r =
     admin_live C w v r
     (let f = deviceFormFromPost r in
      if dfID f = [] then addDevice G now newid nonce f
      else perform_live (on_store (bindE (deviceFromForm nonce f) (SaveDevice now newid)))
        (renderDeviceForm (dfID f)) (\<lambda>d. answer (To (''/devices/'' @ dID d))))"

definition handleDeviceDelete :: "crypto \<Rightarrow> site \<Rightarrow> User option \<Rightarrow> web_request \<Rightarrow> string \<Rightarrow> 'd live" where
  "handleDeviceDelete C w v r k =
     admin_live C w v r
     (with_device k (\<lambda>dev.
      if PostGet r ''confirm_delete'' \<noteq> ''on'' then renderDeviceDetail ''tick the confirmation box to delete this device''
      else perform_live (on_store (DeleteDevice k)) (\<lambda>e. answer (Shown ''message'' e)) (\<lambda>_. answer (To ''/devices''))))"

section \<open>Every stored pin was confirmed for the address that is dialed\<close>

text \<open>A handler that keeps an invariant of the store, and the rules for the shapes of handlers.\<close>

definition keeps_live :: "(store \<Rightarrow> bool) \<Rightarrow> 'd live \<Rightarrow> bool" where
  "keeps_live I h \<longleftrightarrow> (\<forall>w. I (wdStore w) \<longrightarrow> I (wdStore (snd (h w))))"

lemma keeps_live_answer: "keeps_live I (answer p)"
  by (simp add: keeps_live_def answer_def)

lemma preserves_on_store: "preserves I m \<Longrightarrow> preserves (\<lambda>w. I (wdStore w)) (on_store m)"
  by (auto simp: on_store_def intro!: preservesI dest: preservesD split: prod.split)

lemma keeps_live_perform:
  assumes m: "preserves (\<lambda>w. I (wdStore w)) m" and y: "yields Q m"
    and e: "\<And>e. keeps_live I (onerr e)" and ok: "\<And>x. Q x \<Longrightarrow> keeps_live I (onok x)"
  shows "keeps_live I (perform_live m onerr onok)"
  unfolding keeps_live_def
proof (intro allI impI)
  fix w :: "'a world" assume w: "I (wdStore w)"
  obtain r v where eq: "m w = (r, v)" by fastforce
  from preservesD [OF m w eq] have v: "I (wdStore v)" .
  show "I (wdStore (snd (perform_live m onerr onok w)))"
  proof (cases r)
    case (Inl a)
    with eq v e show ?thesis by (simp add: perform_live_def keeps_live_def)
  next
    case (Inr x)
    with eq y have "Q x" by (auto simp: yields_def)
    with Inr eq v ok show ?thesis by (simp add: perform_live_def keeps_live_def)
  qed
qed

lemma yields_any: "yields (\<lambda>_. True) m"
  by (simp add: yields_def)

lemmas keeps_live_performs = keeps_live_perform [OF _ yields_any]

lemma keeps_live_if: "(b \<Longrightarrow> keeps_live I h) \<Longrightarrow> (\<not> b \<Longrightarrow> keeps_live I g) \<Longrightarrow> keeps_live I (if b then h else g)"
  by simp

lemma keeps_live_admin: "keeps_live I h \<Longrightarrow> keeps_live I (admin_live C w v r h)"
  by (simp add: admin_live_def keeps_live_answer)

lemma preserves_fresh_run: "preserves (\<lambda>w. I (wdStore w)) m \<Longrightarrow> preserves (\<lambda>w. I (wdStore w)) (fresh_run m)"
  by (simp add: preserves_def fresh_run_def)

lemma keeps_live_failed_run: "(\<And>o'. keeps_live I (h o')) \<Longrightarrow> keeps_live I (failed_run e h)"
  by (simp add: keeps_live_def failed_run_def)

text \<open>The store during a check.\<close>

lemma store_dial_device [keeps]: "preserves (\<lambda>w. P (wdStore w)) (dial_device G dev)"
  unfolding dial_device_def by (intro keeps store_step)

lemma store_list [keeps]: "preserves (\<lambda>w. P (wdStore w)) (list_certificates G creds peer)"
  unfolding list_certificates_def by (intro keeps store_step)

lemma store_served [keeps]: "preserves (\<lambda>w. P (wdStore w)) (gnoiServedCert net allow target)"
proof -
  have "preserves (\<lambda>w. P (wdStore w)) (gnoiResolve net allow target)"
    unfolding gnoiResolve_def gnoiResolveIPs_def by (auto split: option.split prod.split intro!: keeps)
  moreover have "preserves (\<lambda>w. P (wdStore w)) (case x of (host, port, ip) \<Rightarrow>
     thenE (emit (Dialed ip port)) (bindE (on_device (wrConnect net ip port)) (\<lambda>raw.
      if raw = [] then throw ''device sent no certificate'' else ret (hd raw))))" for x
    by (cases x) (simp add: keeps)
  ultimately show ?thesis unfolding gnoiServedCert_def by (rule preserves_bindE)
qed

lemma store_inspect: "preserves (\<lambda>w. P (wdStore w)) (gnoiInspect G dev creds served)"
  unfolding gnoiInspect_def Let_def split_beta by (intro keeps store_step)

lemma store_revoke: "preserves (\<lambda>w. P (wdStore w)) (gnoiRevoke G dev creds k)"
  unfolding gnoiRevoke_def split_beta by (intro keeps store_step)

lemma store_probe: "preserves (\<lambda>w. P (wdStore w)) (gnoiProbe lib net allow target)"
  unfolding gnoiProbe_def by (intro keeps)

text \<open>A device as the forms store it.\<close>

definition pinned :: "Device \<Rightarrow> bool" where
  "pinned d \<longleftrightarrow> normalizeFingerprint (dPin d) \<noteq> [] \<and> dPinAddress d = check_target d \<and> 1 \<le> dPort d \<and> dPort d \<le> 65535 \<and>
     dName d \<noteq> [] \<and> dPlatform d \<in> {devicePlatformIOSXE, devicePlatformNXOS}"

definition all_pinned :: "store \<Rightarrow> bool" where
  "all_pinned s \<longleftrightarrow> list_all pinned (devices s)"

lemma parsePort_range: "parsePort v = Inr n \<Longrightarrow> 1 \<le> n \<and> n \<le> 65535"
  by (auto simp: parsePort_def deviceDefaultPort_def split: if_splits option.splits)

lemma form_pin_address:
  assumes "form_pin f oldPin oldAddr addr = Inr (pin, pinAddr)"
  shows "normalizeFingerprint pin = normalizeFingerprint (dfFingerprint f) \<and> normalizeFingerprint pin \<noteq> [] \<and> pinAddr = addr"
  using assms by (auto simp: form_pin_def Let_def split: if_splits)

lemma form_device_pinned:
  assumes "form_device s nonce f dev = Inr d"
  shows "pinned d"
proof -
  from assms obtain ip port pin pinAddr creds where port: "parsePort (dfPort f) = Inr port"
    and pin: "form_pin f (dPin dev) (dPinAddress dev) (JoinHostPort (addr_string ip) (show_int port)) = Inr (pin, pinAddr)"
    and d: "d = dev\<lparr>dName := dfName f, dFQDN := dfFQDN f, dManagementIP := addr_string ip, dPort := port, dPlatform := dfPlatform f,
          dSite := dfSite f, dNotes := dfNotes f, dModel := dfModel f, dSerial := dfSerial f,
          dTags := filter (\<lambda>t. t \<noteq> []) (map TrimSpace (Split CHR '','' (dfTags f))),
          dPin := pin, dPinAddress := pinAddr, dCredentials := creds\<rparr>"
    and name: "dfName f \<noteq> []" "dfPlatform f = devicePlatformIOSXE \<or> dfPlatform f = devicePlatformNXOS"
    by (auto simp: form_device_def split: if_splits option.splits)
  from form_pin_address [OF pin] parsePort_range [OF port] name show ?thesis
    by (auto simp: pinned_def d check_target_def)
qed

lemma deviceFromForm_pinned: "yields pinned (deviceFromForm nonce f)"
  by (auto simp: yields_def deviceFromForm_def bindE_Inr_iff split: option.splits if_splits dest: form_device_pinned)

lemma pinned_stored: "pinned d \<Longrightarrow> pinned (d\<lparr>dID := k, dCreated := a, dUpdated := b\<rparr>)"
  "pinned d \<Longrightarrow> pinned (checked_device now d rep)" "pinned d \<Longrightarrow> pinned (d\<lparr>dSnapshot := x\<rparr>)"
  "pinned d \<Longrightarrow> pinned (d\<lparr>dModel := m, dSerial := n\<rparr>)"
  by (simp_all add: pinned_def check_target_def checked_device_def)

lemma preserves_all_pinned: "preserves (\<lambda>s. list_all pinned (devices s)) m \<Longrightarrow> preserves all_pinned m"
  by (simp add: preserves_def all_pinned_def)

lemma pinned_load: "preserves all_pinned (readE f)"
  by (rule preserves_all_pinned, rule device_file.preserves_load)

lemma pinned_UpdateDevice:
  assumes "\<And>d. pinned d \<Longrightarrow> pinned (f d)"
  shows "preserves all_pinned (UpdateDevice k f)"
  unfolding UpdateDevice_def loadDevices_def saveDevices_def
  by (intro preserves_all_pinned device_file.preserves_cycle)
    (auto split: option.splits intro!: keeps device_file.preserves_save dest!: replace_first_Some simp: assms)

lemma pinned_DeleteDevice: "preserves all_pinned (DeleteDevice k)"
  unfolding DeleteDevice_def loadDevices_def saveDevices_def
  by (intro preserves_all_pinned device_file.preserves_cycle keeps device_file.preserves_save) (auto simp: list_all_iff)

lemma put_device_pinned:
  assumes put: "put_device now newid d ds = Inr (e, es)" and d: "pinned d" and ds: "list_all pinned ds"
  shows "list_all pinned es"
proof -
  have "pinned e"
    using put d by (auto simp: put_device_def Let_def pinned_def check_target_def split: if_splits option.splits)
  moreover have "set es \<subseteq> insert e (set ds)"
  proof (cases "dID d = []")
    case True
    with device_save.save_new [OF put] show ?thesis by auto
  next
    case False
    with device_save.save_old [OF put] show ?thesis by auto
  qed
  ultimately show ?thesis using ds by (auto simp: list_all_iff)
qed

lemma pinned_SaveDevice:
  assumes "pinned d"
  shows "preserves all_pinned (SaveDevice now newid d)"
  unfolding SaveDevice_def loadDevices_def
proof (intro preserves_all_pinned device_file.preserves_cycle preserves_bind_liftE)
  fix ds p assume ds: "list_all pinned ds" and p: "put_device now newid d ds = Inr p"
  obtain e es where ep: "p = (e, es)" by (cases p)
  from put_device_pinned [OF p [unfolded ep] assms ds] have "list_all pinned es" .
  then show "preserves (\<lambda>s. list_all pinned (devices s)) (case p of (d', ds') \<Rightarrow> thenE (saveDevices ds') (ret d'))"
    unfolding ep prod.case saveDevices_def by (intro keeps device_file.preserves_save)
qed

lemma pinned_GetDevice: "preserves all_pinned (GetDevice k)"
  unfolding GetDevice_def loadDevices_def by (intro keeps pinned_load)

lemma pinned_deviceFromForm: "preserves all_pinned (deviceFromForm nonce f)"
  unfolding deviceFromForm_def
  by (intro preserves_if preserves_bindE pinned_GetDevice preserves_case_option keeps)

lemma pinned_creds: "preserves all_pinned (deviceCheckCreds dev)"
  unfolding deviceCheckCreds_def by (auto simp: preserves_def throw_def split: option.split)

lemma with_device_keeps: "(\<And>dev. keeps_live all_pinned (h dev)) \<Longrightarrow> keeps_live all_pinned (with_device k h)"
  unfolding with_device_def
  by (intro keeps_live_performs preserves_on_store pinned_GetDevice keeps_live_answer) (simp add: keeps_live_answer split: option.split)

lemma renderDeviceForm_keeps: "keeps_live all_pinned (renderDeviceForm k msg)"
  unfolding renderDeviceForm_def
  by (intro keeps_live_if keeps_live_answer keeps_live_performs preserves_on_store pinned_GetDevice)
    (simp add: keeps_live_answer split: option.split)

lemma reread_keeps: "keeps_live all_pinned h \<Longrightarrow> keeps_live all_pinned (reread k h)"
  unfolding reread_def by (intro keeps_live_performs preserves_on_store pinned_GetDevice)

lemma addDevice_keeps: "keeps_live all_pinned (addDevice G now newid nonce f)"
  unfolding addDevice_def
  by (intro keeps_live_if renderDeviceForm_keeps keeps_live_perform [where Q = pinned] keeps_live_performs preserves_on_store
      pinned_deviceFromForm preserves_fresh_run store_inspect keeps_live_failed_run keeps_live_answer pinned_SaveDevice pinned_stored)
    (auto simp: yields_def on_store_Inr dest: deviceFromForm_pinned [unfolded yields_def, rule_format])

lemma saveDevice_keeps: "keeps_live all_pinned (handleDeviceSave G C w v now newid nonce r)"
proof -
  let ?f = "deviceFormFromPost r"
  have "preserves all_pinned (bindE (deviceFromForm nonce ?f) (SaveDevice now newid))"
  proof (rule preserves_bind_pure [where A = pinned])
    show "triple all_pinned (deviceFromForm nonce ?f) (\<lambda>x w. all_pinned w \<and> pinned x) all_pinned"
      unfolding triple_def
    proof (intro allI impI)
      fix s assume s: "all_pinned s"
      obtain x t where eq: "deviceFromForm nonce ?f s = (x, t)" by fastforce
      with preservesD [OF pinned_deviceFromForm s eq] deviceFromForm_pinned [of nonce ?f]
      show "case deviceFromForm nonce ?f s of (Inl e, t) \<Rightarrow> all_pinned t | (Inr x, t) \<Rightarrow> all_pinned t \<and> pinned x"
        by (auto simp: yields_def split: sum.split)
    qed
  qed (rule pinned_SaveDevice)
  then show ?thesis
    unfolding handleDeviceSave_def Let_def
    by (intro keeps_live_admin keeps_live_if addDevice_keeps keeps_live_performs preserves_on_store renderDeviceForm_keeps keeps_live_answer)
qed

lemma deleteDevice_keeps: "keeps_live all_pinned (handleDeviceDelete C w v r k)"
  unfolding handleDeviceDelete_def renderDeviceDetail_def
  by (intro keeps_live_admin with_device_keeps keeps_live_if keeps_live_answer keeps_live_performs preserves_on_store pinned_DeleteDevice)

lemma deviceCheck_keeps: "keeps_live all_pinned (handleDeviceCheck G C w v now refresh r k)"
  unfolding handleDeviceCheck_def renderDeviceDetail_def
  by (intro keeps_live_admin with_device_keeps keeps_live_performs preserves_on_store pinned_creds keeps_live_answer preserves_fresh_run
      store_inspect keeps_live_failed_run reread_keeps preserves_if pinned_UpdateDevice preserves_ret pinned_stored)

lemma refresh_snapshot_keeps: "keeps_live all_pinned (refresh_snapshot G now dev creds o')"
  unfolding refresh_snapshot_def renderDeviceDetail_def
  by (intro keeps_live_performs preserves_on_store keeps_live_answer preserves_fresh_run store_inspect reread_keeps
      pinned_UpdateDevice pinned_stored)

lemma refresh_keeps: "keeps_live all_pinned (refresh_after G now dev creds o')"
proof -
  have "keeps_live all_pinned (reread (dID dev) (renderDeviceDetail o') :: 'a live)"
    unfolding renderDeviceDetail_def by (intro reread_keeps keeps_live_answer)
  with refresh_snapshot_keeps [of G now dev creds o'] show ?thesis by (simp add: refresh_after_def keeps_live_def)
qed

lemma deviceRevoke_keeps: "keeps_live all_pinned (handleDeviceRevoke G C w v now r k)"
  unfolding handleDeviceRevoke_def renderDeviceDetail_def Let_def
  by (intro keeps_live_admin with_device_keeps keeps_live_if keeps_live_answer keeps_live_performs preserves_on_store pinned_creds
      preserves_fresh_run store_revoke keeps_live_failed_run refresh_keeps)

text \<open>The inventories that the forms and checks can bring about, while anything else happens to the rest of the store.
  The state of the devices and the network is a number.\<close>

inductive inventory_reach :: "store \<Rightarrow> bool" where
  start: "devices s = [] \<Longrightarrow> inventory_reach s"
| save: "inventory_reach s \<Longrightarrow> wdStore x = s \<Longrightarrow>
    inventory_reach (wdStore (snd (handleDeviceSave G C w v now newid nonce r (x :: nat world))))"
| delete: "inventory_reach s \<Longrightarrow> wdStore x = s \<Longrightarrow> inventory_reach (wdStore (snd (handleDeviceDelete C w v r k (x :: nat world))))"
| check: "inventory_reach s \<Longrightarrow> wdStore x = s \<Longrightarrow>
    inventory_reach (wdStore (snd (handleDeviceCheck G C w v now refresh r k (x :: nat world))))"
| revoke: "inventory_reach s \<Longrightarrow> wdStore x = s \<Longrightarrow>
    inventory_reach (wdStore (snd (handleDeviceRevoke G C w v now r k (x :: nat world))))"
| other: "inventory_reach s \<Longrightarrow> devices t = devices s \<Longrightarrow> inventory_reach t"


section \<open>No handler indexes an empty list of steps\<close>

definition marks_failures :: "('d, 'a) push_op \<Rightarrow> bool" where
  "marks_failures m \<longleftrightarrow> (\<forall>w e v. m w = (Inl e, v) \<longrightarrow> wdSteps v \<noteq> [])"

definition marks :: "('d, 'a) push_op \<Rightarrow> bool" where
  "marks m \<longleftrightarrow> (\<forall>w. wdSteps (snd (m w)) \<noteq> [])"

named_theorems marking \<open>rules: an operation leaves a step, or leaves one when it fails\<close>

lemma marks_failures_bindE [marking]:
  "marks_failures m \<Longrightarrow> (\<And>x. marks_failures (f x)) \<Longrightarrow> marks_failures (bindE m f)"
  unfolding marks_failures_def bindE_def by (fastforce split: prod.splits sum.splits)

lemma marks_failures_thenE [marking]: "marks_failures m \<Longrightarrow> marks_failures n \<Longrightarrow> marks_failures (thenE m n)"
  unfolding thenE_def by (rule marks_failures_bindE)

lemma marks_bindE [marking]: "marks_failures m \<Longrightarrow> (\<And>x. marks (f x)) \<Longrightarrow> marks (bindE m f)"
  unfolding marks_failures_def marks_def bindE_def by (auto split: prod.split sum.split)

lemma marks_thenE [marking]: "marks_failures m \<Longrightarrow> marks n \<Longrightarrow> marks (thenE m n)"
  unfolding thenE_def by (rule marks_bindE)

lemma marks_if [marking]: "(b \<Longrightarrow> marks m) \<Longrightarrow> (\<not> b \<Longrightarrow> marks n) \<Longrightarrow> marks (if b then m else n)"
  by simp

lemma marks_failures_if [marking]:
  "(b \<Longrightarrow> marks_failures m) \<Longrightarrow> (\<not> b \<Longrightarrow> marks_failures n) \<Longrightarrow> marks_failures (if b then m else n)"
  by simp

lemma marks_run [marking]: "marks (run_ok a b)" "marks (run_failed a e)"
  by (simp_all add: marks_def run_ok_def run_failed_def run_record_def op_simps)

lemma marks_failures_basic [marking]:
  "marks_failures (run_ok a b)" "marks_failures (run_failed a e)" "marks_failures (ret x)" "marks_failures (emit ev)" "marks_failures (step a m)"
  by (auto simp: marks_failures_def run_ok_def run_failed_def run_record_def emit_def step_def op_simps split: prod.splits sum.splits)

lemma marks_inspect: "marks_failures (gnoiInspect G dev creds served)"
  unfolding gnoiInspect_def dial_device_def list_certificates_def Let_def split_beta by (intro marking)

lemma marks_revoke: "marks (gnoiRevoke G dev creds k)"
  unfolding gnoiRevoke_def dial_device_def list_certificates_def split_beta by (intro marking)

definition never_panics :: "'d live \<Rightarrow> bool" where
  "never_panics h \<longleftrightarrow> (\<forall>w. fst (h w) \<noteq> panicked)"

named_theorems calm \<open>rules: a handler does not panic\<close>

lemma never_panics_perform [calm]:
  "(\<And>e. never_panics (onerr e)) \<Longrightarrow> (\<And>x. never_panics (onok x)) \<Longrightarrow> never_panics (perform_live m onerr onok)"
  by (simp add: never_panics_def perform_live_def split: prod.split sum.split)

lemma never_panics_run:
  assumes m: "marks_failures m" and h: "\<And>o'. never_panics (h o')" and ok: "\<And>x. never_panics (onok x)"
  shows "never_panics (perform_live (fresh_run m) (\<lambda>e. failed_run e h) onok)"
  using assms
  by (auto simp: never_panics_def perform_live_def fresh_run_def failed_run_def marks_failures_def split: prod.split sum.split)

lemma never_panics_page [calm]:
  "never_panics (renderDeviceDetail o')" "never_panics (answer (Shown a b))" "never_panics (answer (To a))"
  "0 < n \<Longrightarrow> never_panics (answer (Status n))"
  by (simp_all add: never_panics_def renderDeviceDetail_def answer_def panicked_def)

lemma never_panics_if [calm]:
  "(b \<Longrightarrow> never_panics h) \<Longrightarrow> (\<not> b \<Longrightarrow> never_panics g) \<Longrightarrow> never_panics (if b then h else g)"
  by simp

lemma never_panics_option [calm]:
  "never_panics h \<Longrightarrow> (\<And>x. never_panics (g x)) \<Longrightarrow> never_panics (case v of None \<Rightarrow> h | Some x \<Rightarrow> g x)"
  by (cases v) simp_all

lemma never_panics_admin [calm]: "never_panics h \<Longrightarrow> never_panics (admin_live C w v r h)"
  unfolding admin_live_def by (intro calm) simp_all

lemma never_panics_device [calm]: "(\<And>dev. never_panics (h dev)) \<Longrightarrow> never_panics (with_device k h)"
  unfolding with_device_def by (intro calm) simp_all

lemma never_panics_reread [calm]: "never_panics h \<Longrightarrow> never_panics (reread k h)"
  unfolding reread_def by (intro calm)

lemma never_panics_form [calm]: "never_panics (renderDeviceForm k msg)"
  unfolding renderDeviceForm_def by (intro calm)

lemma never_panics_refresh: "wdSteps w \<noteq> [] \<Longrightarrow> fst (refresh_after G now dev creds o' w) \<noteq> panicked"
proof -
  assume "wdSteps w \<noteq> []"
  moreover have "never_panics (refresh_snapshot G now dev creds o')"
    unfolding refresh_snapshot_def by (intro calm)
  moreover have "never_panics (reread (dID dev) (renderDeviceDetail o') :: 'a live)" by (intro calm)
  ultimately show ?thesis by (simp add: refresh_after_def never_panics_def)
qed

lemma never_panics_revoke_run:
  "never_panics (perform_live (fresh_run (gnoiRevoke G dev creds k)) (\<lambda>e. failed_run e (refresh_after G now dev creds))
     (\<lambda>_. refresh_after G now dev creds o'))"
  unfolding never_panics_def
proof
  fix w
  obtain x v where run: "gnoiRevoke G dev creds k (w\<lparr>wdSteps := []\<rparr>) = (x, v)" by fastforce
  with marks_revoke [of G dev creds k] have "wdSteps v \<noteq> []" unfolding marks_def by (metis snd_conv)
  with run never_panics_refresh [OF this] show "fst (perform_live (fresh_run (gnoiRevoke G dev creds k))
      (\<lambda>e. failed_run e (refresh_after G now dev creds)) (\<lambda>_. refresh_after G now dev creds o') w) \<noteq> panicked"
    by (cases x) (simp_all add: perform_live_def fresh_run_def failed_run_def)
qed

text \<open>
  The handlers that show the last step of a run on a device never index an empty list: every failing check, and every
  revocation however it ends, has recorded a step.
\<close>

lemma device_handlers_never_panic:
  "never_panics (handleDeviceSave G C w v now newid nonce r) \<and> never_panics (handleDeviceCheck G C w v now refresh r k) \<and>
   never_panics (handleDeviceRevoke G C w v now r k)"
proof (intro conjI)
  show "never_panics (handleDeviceSave G C w v now newid nonce r)"
    unfolding handleDeviceSave_def addDevice_def Let_def by (intro calm never_panics_run marks_inspect)
  show "never_panics (handleDeviceCheck G C w v now refresh r k)"
    unfolding handleDeviceCheck_def by (intro calm never_panics_run marks_inspect)
  show "never_panics (handleDeviceRevoke G C w v now r k)"
    unfolding handleDeviceRevoke_def Let_def by (intro calm never_panics_revoke_run)
qed

section \<open>A device is added after a check\<close>

text \<open>
  A device that the form adds was reached first: with the pin that it is stored with and the credentials of the form, a check
  listed its certificates, and the stored model, serial and snapshot are what that check saw; nothing else is stored.
\<close>

lemma device_added_after_check:
  assumes "addDevice G now newid nonce f w = (To p, v)"
  shows "\<exists>dev rep u u' saved s. deviceFromForm nonce f (wdStore w) = (Inr dev, wdStore u) \<and>
    gnoiInspect G dev \<lparr>dcUsername = dfUsername f, dcPassword = dfPassword f\<rparr> True (u\<lparr>wdSteps := []\<rparr>) = (Inr rep, u') \<and>
    SaveDevice now newid (checked_device now dev rep) (wdStore u') = (Inr saved, s) \<and> wdStore v = s \<and> wdStore u' = wdStore u \<and>
    p = ''/devices/'' @ dID saved \<and> pinned dev"
proof -
  let ?creds = "\<lparr>dcUsername = dfUsername f, dcPassword = dfPassword f\<rparr>"
  have form: "renderDeviceForm k m x \<noteq> (To p, y)" for k m and x y :: "'a world"
    by (auto simp: renderDeviceForm_def perform_live_def answer_def split: prod.splits sum.splits option.splits)
  from assms form obtain dev u where dev: "on_store (deviceFromForm nonce f) w = (Inr dev, u)"
    and rest: "perform_live (fresh_run (gnoiInspect G dev ?creds True)) (\<lambda>e. failed_run e (renderDeviceForm (dfID f)))
      (\<lambda>rep. perform_live (on_store (SaveDevice now newid (checked_device now dev rep)))
        (renderDeviceForm (dfID f)) (\<lambda>d. answer (To (''/devices/'' @ dID d)))) u = (To p, v)"
    by (auto simp: addDevice_def perform_live_def split: if_splits prod.splits sum.splits)
  have failed: "failed_run e (renderDeviceForm (dfID f)) x \<noteq> (To p, y)" for e and x y :: "'a world"
    using form by (auto simp: failed_run_def panicked_def)
  from rest failed obtain rep u' where rep: "gnoiInspect G dev ?creds True (u\<lparr>wdSteps := []\<rparr>) = (Inr rep, u')"
    and save: "perform_live (on_store (SaveDevice now newid (checked_device now dev rep)))
        (renderDeviceForm (dfID f)) (\<lambda>d. answer (To (''/devices/'' @ dID d))) u' = (To p, v)"
    by (auto simp: perform_live_def fresh_run_def split: prod.splits sum.splits)
  from save form obtain saved where saved: "on_store (SaveDevice now newid (checked_device now dev rep)) u' = (Inr saved, v)"
      "p = ''/devices/'' @ dID saved"
    by (auto simp: perform_live_def answer_def split: prod.splits sum.splits)
  have "wdStore u' = wdStore u" using kept_store [OF store_inspect rep] by simp
  moreover have "deviceFromForm nonce f (wdStore w) = (Inr dev, wdStore u)" using dev by (auto simp: on_store_Inr)
  moreover from this have "pinned dev" using deviceFromForm_pinned [of nonce f] by (auto simp: yields_def)
  moreover have "SaveDevice now newid (checked_device now dev rep) (wdStore u') = (Inr saved, wdStore v)"
    using saved(1) by (auto simp: on_store_Inr)
  ultimately show ?thesis using rep saved(2) by blast
qed

end
