(* ===== verification/GnoiAdmin.thy ===== *)
theory GnoiAdmin
  imports DeviceHttp Definitions
begin

text \<open>
  The push page, \<open>gnoi_admin.go\<close>: one definition pushed to the chosen devices in turn, the pin that follows the certificate
  the device serves, and the summary of the results. \<open>gnoiPush\<close> is run with the clock, the serials and the timing of each device as
  arguments. The selection lists of the page are in \<open>DevicePages\<close>.
\<close>

section \<open>Results\<close>

record devicePushResult =
  prDevice :: string
  prStatus :: string
  prClass :: string
  prOutcome :: string

definition push_result :: "Device \<Rightarrow> string \<Rightarrow> string \<Rightarrow> string \<Rightarrow> devicePushResult" where
  "push_result dev status cls outcome = \<lparr>prDevice = dName dev, prStatus = status, prClass = cls, prOutcome = outcome\<rparr>"

definition status_count :: "string \<Rightarrow> devicePushResult list \<Rightarrow> nat" where
  "status_count status rs = length (filter (\<lambda>r. prStatus r = status) rs)"

definition worse_class :: "string \<Rightarrow> devicePushResult \<Rightarrow> string" where
  "worse_class cls r = (if prClass r = ''err'' then ''err'' else if prClass r = ''warn'' \<and> cls = ''ok'' then ''warn'' else cls)"

definition pushSummary :: "devicePushResult list \<Rightarrow> string \<times> string" where
  "pushSummary rs =
     (Itoa (status_count ''ok'' rs) @ '' installed, '' @ Itoa (status_count ''skipped'' rs) @ '' skipped, '' @
        Itoa (status_count ''unverified'' rs) @ '' unverified, '' @ Itoa (status_count ''failed'' rs) @ '' failed.'',
      foldl worse_class ''ok'' rs)"

text \<open>The loop of \<open>pushToast\<close>: the count of the installed and the names of the skipped, unless some other status occurs.\<close>

fun toast_counts :: "devicePushResult list \<Rightarrow> nat \<Rightarrow> string list \<Rightarrow> (nat \<times> string list) option" where
  "toast_counts [] installed skipped = Some (installed, skipped)"
| "toast_counts (r # rs) installed skipped =
     (if prStatus r = ''ok'' then toast_counts rs (installed + 1) skipped
      else if prStatus r = ''skipped'' then toast_counts rs installed (skipped @ [prDevice r])
      else None)"

definition pushToast :: "devicePushResult list \<Rightarrow> (string \<times> string) option" where
  "pushToast rs =
     (if rs = [] then None
      else case toast_counts rs 0 [] of
          None \<Rightarrow> None
        | Some (installed, skipped) \<Rightarrow>
            Some (if installed > 0 then ''Successfully pushed to '' @ Itoa installed @ (if installed = 1 then '' device'' else '' devices'')
                    else ''Nothing pushed'',
                  if skipped \<noteq> [] then ''Already installed, skipped: '' @ Join skipped '', '' @ ''.''
                    else ''Installed and verified on every selected device.''))"

definition pushProblems :: "devicePushResult list \<Rightarrow> devicePushResult list" where
  "pushProblems rs = filter (\<lambda>r. prStatus r \<noteq> ''ok'') rs"

section \<open>After an install\<close>

definition gnoiRebindTries :: nat where "gnoiRebindTries = 4"

text \<open>
  The loop of \<open>gnoiServedAfterInstall\<close>: the answer of the last read of the served certificate; \<open>over i\<close> says that the context is
  done when try \<open>i\<close> would begin.
\<close>

fun served_tries :: "('d, string) push_op \<Rightarrow> (nat \<Rightarrow> bool) \<Rightarrow> string \<Rightarrow> nat \<Rightarrow> nat \<Rightarrow> string result \<Rightarrow> 'd world \<Rightarrow> string result \<times> 'd world" where
  "served_tries read over new i 0 latest w = (latest, w)"
| "served_tries read over new i (Suc n) latest w =
     (if i > 0 \<and> over i then (latest, w)
      else case read w of
          (r, v) \<Rightarrow> if r = Inr new then (Inr new, v) else served_tries read over new (i + 1) n r v)"

definition gnoiServedAfterInstall :: "'d gear \<Rightarrow> (nat \<Rightarrow> bool) \<Rightarrow> string \<Rightarrow> string \<Rightarrow> ('d, string) push_op" where
  "gnoiServedAfterInstall G over target new =
     served_tries (gnoiServedCert (grNet G) (grAllow G) target) over new 0 gnoiRebindTries (Inr [])"

text \<open>The device as it is inspected after the install, with the pin of what its port serves, and the note so far.\<close>

definition rePin :: "'d gear \<Rightarrow> (nat \<Rightarrow> bool) \<Rightarrow> Device \<Rightarrow> string \<Rightarrow> string \<Rightarrow> ('d, Device \<times> string) push_op" where
  "rePin G over dev der target = (\<lambda>w.
     case gnoiServedAfterInstall G over target der w of
       (Inl e, v) \<Rightarrow> (Inl (''Could not read the served certificate, pin kept: '' @ e @ ''.''), v)
     | (Inr served, v) \<Rightarrow>
         if served = der then
           let pin = hexColons (sha256 (grLib G) der) in
           (case on_store (UpdateDevice (dID dev) (\<lambda>d. d\<lparr>dPin := pin, dPinAddress := target\<rparr>)) v of
              (Inl e, u) \<Rightarrow> (Inl (''Could not save the new pin: '' @ e @ ''.''), u)
            | (Inr _, u) \<Rightarrow> (Inr (dev\<lparr>dPin := pin\<rparr>, ''The gRPC server now uses the new certificate; pin updated. ''), u))
         else (Inr (dev, ''The gRPC server still presents its previous certificate; pin kept. ''), v))"

text \<open>The note for the results panel; every failure is part of the note.\<close>

definition afterInstall :: "'d gear \<Rightarrow> (nat \<Rightarrow> bool) \<Rightarrow> time \<Rightarrow> Device \<Rightarrow> deviceCreds \<Rightarrow> string \<Rightarrow> string \<Rightarrow> 'd world \<Rightarrow> string \<times> 'd world" where
  "afterInstall G over now dev creds der target = (\<lambda>w.
     case rePin G over dev der target w of
       (Inl note, v) \<Rightarrow> (note, v)
     | (Inr (dev', note), v) \<Rightarrow>
         (case fresh_run (gnoiInspect G dev' creds True) v of
            (Inl e, u) \<Rightarrow> (note @ ''Certificates not refreshed: '' @ e @ ''.'', u)
          | (Inr rep, u) \<Rightarrow>
              (case on_store (UpdateDevice (dID dev)
                     (\<lambda>d. d\<lparr>dSnapshot := Some \<lparr>snTaken = now, snCerts = drCerts rep, snServed = drServed rep\<rparr>\<rparr>)) u of
                 (Inl e, t) \<Rightarrow> (note @ ''Could not save the snapshot: '' @ e @ ''.'', t)
               | (Inr _, t) \<Rightarrow> (note @ ''Certificates refreshed.'', t))))"

section \<open>Pushing\<close>

text \<open>What one push gets from the clock and the random source.\<close>

record push_run =
  puNow :: time
  puSerial :: nat
  puTiming :: timing
  puOver :: "nat \<Rightarrow> bool"

definition push_creds :: "Device \<Rightarrow> deviceCreds \<Rightarrow> deviceCreds sop" where
  "push_creds dev posted =
     (case dCredentials dev of None \<Rightarrow> ret posted | Some blob \<Rightarrow> (\<lambda>s. (openCredentials s blob, s)))"

definition push_request_of ::
  "CertDefinition \<Rightarrow> CertTemplate \<Rightarrow> Device \<Rightarrow> deviceCreds \<Rightarrow> string \<Rightarrow> string \<Rightarrow> string \<times> string list \<times> addr list \<Rightarrow> gnoiPushRequest" where
  "push_request_of def tmpl dev creds caPass admin subj =
     (case subj of (cn, dnsNames, ips) \<Rightarrow>
       \<lparr>gpTarget = check_target dev, gpCreds = creds, gpCAID = fCAID def, gpFingerprint = dPin dev, gpCAPassphrase = caPass,
        gpTemplate = tmpl, gpCommonName = cn, gpCountry = fCountry def, gpState = fState def, gpCity = fCity def,
        gpOrganization = fOrganization def, gpOU = fOU def, gpDNSNames = dnsNames, gpIPs = ips, gpCertID = fCertID def,
        gpValidDays = fValidDays def, gpAdmin = admin\<rparr>)"

definition pushOneDevice ::
  "'d gear \<Rightarrow> (string \<Rightarrow> csr option) \<Rightarrow> push_run \<Rightarrow> CertDefinition \<Rightarrow> CertTemplate \<Rightarrow> deviceCreds \<Rightarrow> string \<Rightarrow> string \<Rightarrow> Device \<Rightarrow>
     'd world \<Rightarrow> devicePushResult \<times> 'd world" where
  "pushOneDevice G decode_csr run def tmpl posted caPass admin dev = (\<lambda>w.
     let bad = (\<lambda>msg v. (push_result dev ''failed'' ''err'' msg, v)) in
     case on_store (push_creds dev posted) w of
       (Inl e, v) \<Rightarrow> bad e v
     | (Inr creds, v) \<Rightarrow>
         if dcUsername creds = [] \<or> dcPassword creds = [] then bad ''no credentials: enter a username and password on this page'' v
         else (case definitionSubject def dev of
             Inl e \<Rightarrow> bad e v
           | Inr subj \<Rightarrow>
               (case fresh_run (gnoiPush (grLib G) (grNet G) (grAllow G) decode_csr (puTiming run) (puNow run) (puSerial run)
                      (push_request_of def tmpl dev creds caPass admin subj)) v of
                  (Inr der, u) \<Rightarrow>
                    (case afterInstall G (puOver run) (puNow run) dev creds (cert_Raw (grLib G) der) (check_target dev) u of
                       (note, t) \<Rightarrow> (push_result dev ''ok'' ''ok'' (''Installed and verified as certificate '' @ fCertID def @ ''. '' @ note), t))
                | (Inl e, u) \<Rightarrow>
                    if e = errGNOIExists then (push_result dev ''skipped'' ''warn'' e, u)
                    else if e = errGNOIUnverified then (push_result dev ''unverified'' ''warn'' e, u)
                    else bad e u)))"

text \<open>One device after the other; a failure does not stop the rest. The runs are given for the devices in their order.\<close>

fun pushDefinitionToDevices ::
  "'d gear \<Rightarrow> (string \<Rightarrow> csr option) \<Rightarrow> (nat \<Rightarrow> push_run) \<Rightarrow> CertDefinition \<Rightarrow> CertTemplate \<Rightarrow> deviceCreds \<Rightarrow> string \<Rightarrow> string \<Rightarrow>
     nat \<Rightarrow> Device list \<Rightarrow> 'd world \<Rightarrow> devicePushResult list \<times> 'd world" where
  "pushDefinitionToDevices G dec runs def tmpl posted caPass admin i [] w = ([], w)"
| "pushDefinitionToDevices G dec runs def tmpl posted caPass admin i (dev # devs) w =
     (case pushOneDevice G dec (runs i) def tmpl posted caPass admin dev w of
        (r, v) \<Rightarrow> (case pushDefinitionToDevices G dec runs def tmpl posted caPass admin (i + 1) devs v of (rs, u) \<Rightarrow> (r # rs, u)))"

fun chosen_devices :: "string list \<Rightarrow> Device list sop" where
  "chosen_devices [] = ret []"
| "chosen_devices (k # ks) =
     bindE (GetDevice k) (\<lambda>d. case d of
         None \<Rightarrow> throw ''a selected device no longer exists; reload the page''
       | Some dev \<Rightarrow> bindE (chosen_devices ks) (\<lambda>devs. ret (dev # devs)))"

text \<open>The checks of the selection: the definition, its template and the devices.\<close>

definition push_selection :: "web_request \<Rightarrow> (CertDefinition \<times> CertTemplate \<times> Device list) sop" where
  "push_selection r =
     bindE (GetDefinition (PostGet r ''definition'')) (\<lambda>d. case d of
         None \<Rightarrow> throw ''select a device certificate definition''
       | Some def \<Rightarrow>
           bindE (\<lambda>s. case GetTemplate (fProfile def) s of (t, u) \<Rightarrow> (Inr t, u)) (\<lambda>t. case t of
               None \<Rightarrow> throw ''the definition's certificate template no longer exists''
             | Some tmpl \<Rightarrow>
                 if values_of (wqPost r) ''device'' = [] then throw ''select at least one device''
                 else bindE (chosen_devices (values_of (wqPost r) ''device'')) (\<lambda>devs. ret (def, tmpl, devs))))"

definition pushFromForm ::
  "'d gear \<Rightarrow> (string \<Rightarrow> csr option) \<Rightarrow> (nat \<Rightarrow> push_run) \<Rightarrow> web_request \<Rightarrow> string \<Rightarrow> 'd world \<Rightarrow>
     (devicePushResult list \<times> string \<times> string) \<times> 'd world" where
  "pushFromForm G dec runs r admin = (\<lambda>w.
     case on_store (push_selection r) w of
       (Inl e, v) \<Rightarrow> (([], e, ''err''), v)
     | (Inr (def, tmpl, devs), v) \<Rightarrow>
         (case pushDefinitionToDevices G dec runs def tmpl
              \<lparr>dcUsername = TrimSpace (PostGet r ''username''), dcPassword = PostGet r ''password''\<rparr> (PostGet r ''ca_passphrase'') admin 0 devs v of
            (rs, u) \<Rightarrow> ((rs, pushSummary rs), u)))"

text \<open>
  \<open>handlePush\<close>: a GET shows the page, a POST pushes first. The error line is the toast, or the summary; the lists are read for the
  page and an error of that replaces it.
\<close>

definition handlePush ::
  "'d gear \<Rightarrow> (string \<Rightarrow> csr option) \<Rightarrow> (nat \<Rightarrow> push_run) \<Rightarrow> crypto \<Rightarrow> site \<Rightarrow> User option \<Rightarrow> web_request \<Rightarrow> 'd live" where
  "handlePush G dec runs C w v r =
     (let page = (\<lambda>outcome.
            perform_live (on_store ListDefinitions) (\<lambda>e. perform_live (on_store ListDevices) (\<lambda>e'. answer (Shown ''push'' e')) (\<lambda>_. answer (Shown ''push'' e)))
              (\<lambda>_. perform_live (on_store ListDevices) (\<lambda>e'. answer (Shown ''push'' e')) (\<lambda>_. answer (Shown ''push'' outcome)))) in
      if \<not> isAdmin w v then answer (Status 403)
      else if \<not> wqParses r then answer (Status 400)
      else if wqMethod r \<noteq> ''POST'' then page []
      else if \<not> backupCSRF C w r then answer (Status 403)
      else (\<lambda>x. case pushFromForm G dec runs r (case v of None \<Rightarrow> ''(auth disabled)'' | Some u \<Rightarrow> uUsername u) x of
          ((rs, outcome, cls), y) \<Rightarrow> page (case pushToast rs of Some (title, body) \<Rightarrow> title | None \<Rightarrow> outcome) y))"

section \<open>Results and their summary\<close>

lemma toast_counts_eq:
  "toast_counts rs installed skipped =
     (if \<forall>r \<in> set rs. prStatus r = ''ok'' \<or> prStatus r = ''skipped''
      then Some (installed + status_count ''ok'' rs, skipped @ map prDevice (filter (\<lambda>r. prStatus r = ''skipped'') rs)) else None)"
  by (induction rs arbitrary: installed skipped) (auto simp: status_count_def)

lemma worst_class:
  assumes "\<forall>r \<in> set rs. prClass r \<in> {''ok'', ''warn'', ''err''}" "cls \<in> {''ok'', ''warn'', ''err''}"
  shows "foldl worse_class cls rs =
    (if cls = ''err'' \<or> (\<exists>r \<in> set rs. prClass r = ''err'') then ''err''
     else if cls = ''warn'' \<or> (\<exists>r \<in> set rs. prClass r = ''warn'') then ''warn'' else ''ok'')"
  using assms by (induction rs arbitrary: cls) (auto simp: worse_class_def)

definition result_kinds :: "(string \<times> string) list" where
  "result_kinds = [(''ok'', ''ok''), (''skipped'', ''warn''), (''unverified'', ''warn''), (''failed'', ''err'')]"

definition result_ok :: "Device \<Rightarrow> devicePushResult \<Rightarrow> bool" where
  "result_ok dev r \<longleftrightarrow> prDevice r = dName dev \<and> (prStatus r, prClass r) \<in> set result_kinds"

lemma push_result_ok: "(status, cls) \<in> set result_kinds \<Longrightarrow> result_ok dev (push_result dev status cls o')"
  by (simp add: result_ok_def push_result_def)

lemma pushOneDevice_result: "result_ok dev (fst (pushOneDevice G dec run def tmpl posted caPass admin dev w))"
  unfolding pushOneDevice_def Let_def
  by (auto simp: result_kinds_def intro!: push_result_ok split: prod.split sum.split)

lemma pushDefinition_results:
  "list_all2 result_ok devs (fst (pushDefinitionToDevices G dec runs def tmpl posted caPass admin i devs w))"
proof (induction devs arbitrary: i w)
  case (Cons dev devs)
  obtain r v where r: "pushOneDevice G dec (runs i) def tmpl posted caPass admin dev w = (r, v)" by fastforce
  obtain rs u where rs: "pushDefinitionToDevices G dec runs def tmpl posted caPass admin (i + 1) devs v = (rs, u)" by fastforce
  with r pushOneDevice_result [of dev G dec "runs i" def tmpl posted caPass admin w] Cons.IH [of "i + 1" v] show ?case
    by simp
qed simp

lemma count_kinds:
  assumes "\<forall>r \<in> set rs. (prStatus r, prClass r) \<in> set result_kinds"
  shows "status_count ''ok'' rs + status_count ''skipped'' rs + status_count ''unverified'' rs + status_count ''failed'' rs = length rs"
  using assms by (induction rs) (auto simp: status_count_def result_kinds_def)

text \<open>
  Every chosen device gets one result, in order and under its name, a failure of one device not keeping the next from its turn; the
  four counts of the summary add up to the devices, its class is the worst of them, and the toast that hides the steps
  is shown exactly when every device was installed or skipped.
\<close>

lemma every_device_gets_a_result:
  "case pushDefinitionToDevices G dec runs def tmpl posted caPass admin i devs w of (rs, v) \<Rightarrow>
     map prDevice rs = map dName devs \<and>
     status_count ''ok'' rs + status_count ''skipped'' rs + status_count ''unverified'' rs + status_count ''failed'' rs = length devs \<and>
     snd (pushSummary rs) = (if status_count ''failed'' rs > 0 then ''err'' else if status_count ''ok'' rs < length devs then ''warn'' else ''ok'') \<and>
     (pushToast rs \<noteq> None \<longleftrightarrow> devs \<noteq> [] \<and> status_count ''ok'' rs + status_count ''skipped'' rs = length devs)"
proof -
  obtain rs v where run: "pushDefinitionToDevices G dec runs def tmpl posted caPass admin i devs w = (rs, v)" by fastforce
  with pushDefinition_results [of devs G dec runs def tmpl posted caPass admin i w] have all: "list_all2 result_ok devs rs" by simp
  then have len: "length rs = length devs" by (simp add: list_all2_lengthD)
  have names: "map prDevice rs = map dName devs"
    using all by (induction rule: list_all2_induct) (simp_all add: result_ok_def)
  have kinds: "\<forall>r \<in> set rs. (prStatus r, prClass r) \<in> set result_kinds"
    using all by (induction rule: list_all2_induct) (simp_all add: result_ok_def)
  note sum = count_kinds [OF kinds]
  have zero: "status_count k xs = 0 \<longleftrightarrow> (\<forall>r \<in> set xs. prStatus r \<noteq> k)" for k xs by (simp add: status_count_def filter_empty_conv)
  have cls: "\<forall>r \<in> set rs. prClass r \<in> {''ok'', ''warn'', ''err''}" "''ok'' \<in> {''ok'', ''warn'', ''err''}"
    using kinds by (auto simp: result_kinds_def)
  have err: "(\<exists>r \<in> set rs. prClass r = ''err'') \<longleftrightarrow> status_count ''failed'' rs > 0"
    using kinds zero [of "''failed''" rs] by (fastforce simp: result_kinds_def)
  have warn: "(\<exists>r \<in> set rs. prClass r = ''warn'') \<longleftrightarrow> status_count ''skipped'' rs + status_count ''unverified'' rs > 0"
    using kinds zero [of "''skipped''" rs] zero [of "''unverified''" rs] by (fastforce simp: result_kinds_def)
  have toast: "pushToast rs \<noteq> None \<longleftrightarrow> rs \<noteq> [] \<and> (\<forall>r \<in> set rs. prStatus r = ''ok'' \<or> prStatus r = ''skipped'')"
    by (auto simp: pushToast_def toast_counts_eq)
  have "(\<forall>r \<in> set rs. prStatus r = ''ok'' \<or> prStatus r = ''skipped'') \<longleftrightarrow> status_count ''unverified'' rs = 0 \<and> status_count ''failed'' rs = 0"
    using kinds zero [of "''unverified''" rs] zero [of "''failed''" rs] by (fastforce simp: result_kinds_def)
  with toast len sum have toast': "pushToast rs \<noteq> None \<longleftrightarrow> devs \<noteq> [] \<and> status_count ''ok'' rs + status_count ''skipped'' rs = length devs"
    by auto
  have "snd (pushSummary rs) = (if status_count ''failed'' rs > 0 then ''err''
      else if status_count ''ok'' rs < length devs then ''warn'' else ''ok'')"
    using worst_class [OF cls] err warn sum len by (auto simp: pushSummary_def)
  with run names sum len toast' show ?thesis by simp
qed

section \<open>The pin follows the certificate that is served\<close>

definition follows :: "'d gear \<Rightarrow> Device \<Rightarrow> string \<Rightarrow> string \<Rightarrow> Device \<Rightarrow> Device \<Rightarrow> bool" where
  "follows G dev der target d e \<longleftrightarrow> dID e = dID d \<and> dName e = dName d \<and> dCredentials e = dCredentials d \<and>
     (dPin e = dPin d \<and> dPinAddress e = dPinAddress d \<or>
      dID d = dID dev \<and> dPin e = hexColons (sha256 (grLib G) der) \<and> dPinAddress e = target \<and>
      (\<exists>u t. gnoiServedCert (grNet G) (grAllow G) target u = (Inr der, t)))"

definition all_follow :: "'d gear \<Rightarrow> Device \<Rightarrow> string \<Rightarrow> string \<Rightarrow> Device list \<Rightarrow> store \<Rightarrow> bool" where
  "all_follow G dev der target ds s \<longleftrightarrow> (\<forall>e \<in> set (devices s). \<exists>d \<in> set ds. follows G dev der target d e)"

lemma UpdateDevice_follow:
  assumes "\<And>d e. dID e = k \<Longrightarrow> follows G dev der target d e \<Longrightarrow> follows G dev der target d (f e)"
  shows "preserves (all_follow G dev der target ds) (UpdateDevice k f)"
proof -
  let ?P = "\<lambda>es. \<forall>e \<in> set es. \<exists>d \<in> set ds. follows G dev der target d e"
  have "?P ys" if xs: "?P xs" and ys: "replace_first (\<lambda>d. dID d = k) f xs = Some ys" for xs ys
  proof -
    from replace_first_Some [OF ys] obtain us x vs where s: "xs = us @ x # vs" "ys = us @ f x # vs" "dID x = k" by blast
    from xs s(1) obtain d where "d \<in> set ds" "follows G dev der target d x" by auto
    with assms [OF s(3)] xs s show ?thesis by auto
  qed
  then have "preserves (\<lambda>s. ?P (devices s)) (UpdateDevice k f)"
    unfolding UpdateDevice_def loadDevices_def saveDevices_def
    by (intro device_file.preserves_cycle) (auto split: option.splits intro!: keeps device_file.preserves_save)
  then show ?thesis by (simp add: preserves_def all_follow_def)
qed

lemma served_tries_new:
  assumes "served_tries read over new i n latest w = (Inr new, v)" "latest \<noteq> Inr new"
  shows "\<exists>u t. read u = (Inr new, t)"
  using assms by (induction read over new i n latest w rule: served_tries.induct) (auto split: if_splits prod.splits)

lemma served_tries_store:
  assumes "\<And>P. preserves (\<lambda>w. P (wdStore w)) read"
  shows "wdStore (snd (served_tries read over new i n latest w)) = wdStore w"
  using assms
proof (induction read over new i n latest w rule: served_tries.induct)
  case (2 read over new i n latest w)
  obtain r v where eq: "read w = (r, v)" by fastforce
  from kept_store [OF "2.prems" eq] have "wdStore v = wdStore w" .
  with 2 eq show ?case by auto
qed simp

text \<open>
  C25. After an install a pin changes only to the fingerprint of exactly the certificate just installed, for the address just
  pushed to, on this device only, and only when the port served that certificate; identity, name and
  credentials of every device stay.
\<close>

theorem pin_follows_served_certificate:
  assumes "afterInstall G over now dev creds der target w = (note, v)" and "der \<noteq> []"
  shows "\<forall>e \<in> set (devices (wdStore v)). \<exists>d \<in> set (devices (wdStore w)). follows G dev der target d e"
proof -
  let ?I = "\<lambda>x :: 'a world. all_follow G dev der target (devices (wdStore w)) (wdStore x)"
  have start: "?I w" by (auto simp: all_follow_def follows_def)
  obtain a w1 where a: "gnoiServedAfterInstall G over target der w = (a, w1)" by fastforce
  have "wdStore w1 = wdStore w"
    using served_tries_store [OF store_served, of "grNet G" "grAllow G" target over der 0 gnoiRebindTries "Inr []" w] a
    by (simp add: gnoiServedAfterInstall_def)
  with start have w1: "?I w1" by simp
  have pin: "preserves (all_follow G dev der target (devices (wdStore w)))
      (UpdateDevice (dID dev) (\<lambda>d. d\<lparr>dPin := hexColons (sha256 (grLib G) der), dPinAddress := target\<rparr>))" if "a = Inr der"
  proof (rule UpdateDevice_follow)
    have "\<exists>u t. gnoiServedCert (grNet G) (grAllow G) target u = (Inr der, t)"
      using a that assms(2) by (intro served_tries_new) (auto simp: gnoiServedAfterInstall_def)
    then show "follows G dev der target d (e\<lparr>dPin := hexColons (sha256 (grLib G) der), dPinAddress := target\<rparr>)"
      if "dID e = dID dev" "follows G dev der target d e" for d e
      using that by (auto simp: follows_def)
  qed
  obtain b w2 where b: "rePin G over dev der target w = (b, w2)" by fastforce
  have w2: "?I w2"
  proof (cases "a = Inr der")
    case True
    from preserves_on_store [OF pin [OF True]] w1 b a True show ?thesis
      by (auto simp: rePin_def Let_def preserves_def split: prod.splits sum.splits)
  next
    case False
    with a b w1 show ?thesis by (auto simp: rePin_def split: sum.splits)
  qed
  have snap: "preserves ?I (on_store (UpdateDevice (dID dev)
      (\<lambda>d. d\<lparr>dSnapshot := Some \<lparr>snTaken = now, snCerts = drCerts rep, snServed = drServed rep\<rparr>\<rparr>)))" for rep
    by (rule preserves_on_store, rule UpdateDevice_follow) (auto simp: follows_def)
  have "?I v"
  proof (cases b)
    case (Inl e)
    with b assms w2 show ?thesis by (simp add: afterInstall_def)
  next
    case (Inr p)
    obtain dev' m where p: "p = (dev', m)" by fastforce
    obtain c w3 where c: "fresh_run (gnoiInspect G dev' creds True) w2 = (c, w3)" by fastforce
    have "preserves ?I (fresh_run (gnoiInspect G dev' creds True))" by (intro preserves_fresh_run store_inspect)
    from preservesD [OF this w2 c] have w3: "?I w3" .
    show ?thesis
    proof (cases c)
      case (Inl e)
      with assms(1) b \<open>b = Inr p\<close> p c w3 show ?thesis by (simp add: afterInstall_def)
    next
      case (Inr rep)
      obtain x w4 where x: "on_store (UpdateDevice (dID dev)
          (\<lambda>d. d\<lparr>dSnapshot := Some \<lparr>snTaken = now, snCerts = drCerts rep, snServed = drServed rep\<rparr>\<rparr>)) w3 = (x, w4)" by fastforce
      from preservesD [OF snap w3 x] have "?I w4" .
      with assms(1) b \<open>b = Inr p\<close> p c Inr x show ?thesis by (cases x) (simp_all add: afterInstall_def)
    qed
  qed
  then show ?thesis by (simp add: all_follow_def)
qed

end
