(* ===== verification/DeviceExample.thy ===== *)
theory DeviceExample
  imports GnoiExample GnoiAdmin DefinitionHttp
begin

text \<open>
  A device on concrete data: it is added through the form after its check, and one of its certificates is revoked. It
  shows that the hypotheses of the theorems on checks and forms can hold.
\<close>

definition dev_wire :: "nat wire" where
  "dev_wire = \<lparr>wrLookup = (\<lambda>h d. (Inr [V4 1], d)), wrConnect = (\<lambda>ip port d. (Inr [''c''], d)), wrReady = (\<lambda>d. (Inr (), d)),
     wrList = (\<lambda>c d. (Inr [(''tls'', Some ''c''), (''old'', Some ''o'')], d)), wrCanGenerate = (\<lambda>c d. (Inr True, d)),
     wrGenerate = (\<lambda>c p d. (Inr ''csr'', d)), wrLoad = (\<lambda>der chain d. (LoadAccepted, d)),
     wrRevoke = (\<lambda>c k d. (Inr ([], [k]), d))\<rparr>"

definition dev_gear :: "nat gear" where
  "dev_gear = \<lparr>grLib = ex_lib, grNet = dev_wire, grAllow = [Prefix (V4 0) 0], grParse = (\<lambda>_. None), grString = (\<lambda>_. None)\<rparr>"

definition dev_request :: web_request where
  "dev_request = example_post
     [(''name'', [''sw1'']), (''management_ip'', [''0.0.0.1'']), (''platform'', [''IOS-XE'']), (''fingerprint'', [''63'']),
      (''probed_target'', [''0.0.0.1:57400'']), (''probed_fingerprint'', [''63'']), (''username'', [''u'']), (''password'', [''p''])]"

definition dev_form :: deviceForm where
  "dev_form = deviceFormFromPost dev_request"

definition dev_start :: "nat world" where
  "dev_start = \<lparr>wdStore = empty_store\<lparr>deviceKey := replicate 16 CHR ''k''\<rparr>, wdDevice = 0, wdEvents = [], wdSteps = []\<rparr>"

lemma dev_digits: "char_of (48::nat) = CHR ''0''" "char_of (49::nat) = CHR ''1''" "char_of (52::nat) = CHR ''4''"
    "char_of (53::nat) = CHR ''5''" "char_of (55::nat) = CHR ''7''"
  by (simp_all add: char_of_def bit_simps)

lemma dev_address: "ParseIP ''0.0.0.1'' = Some (V4 1)" "string4 1 = ''0.0.0.1''" "show_int 57400 = ''57400''"
    "SplitHostPort ''0.0.0.1:57400'' = Some (''0.0.0.1'', ''57400'')" "ParseInt ''57400'' = Some 57400"
    "JoinHostPort ''0.0.0.1'' ''57400'' = ''0.0.0.1:57400''"
  by (simp_all add: ParseIP_def ParseAddr_def parseIPv4_def octet_def cut_def Atoi_def is_digit_def between_def ascii_def digit_value_def
      string4_def Itoa.simps digit_def Let_def dev_digits show_int_def SplitHostPort_def HasPrefix_def ParseInt_def JoinHostPort_def)

lemma dev_form_fields: "dev_form = \<lparr>dfID = [], dfName = ''sw1'', dfFQDN = [], dfManagementIP = ''0.0.0.1'', dfPort = [],
    dfPlatform = ''IOS-XE'', dfSite = [], dfTags = [], dfNotes = [], dfModel = [], dfSerial = [], dfFingerprint = ''63'',
    dfProbedTarget = ''0.0.0.1:57400'', dfProbedFingerprint = ''63'', dfUsername = ''u'', dfRemoveCreds = False, dfPassword = ''p''\<rparr>"
  by code_simp

definition dev_device :: Device where
  "dev_device = noDevice\<lparr>dName := ''sw1'', dManagementIP := ''0.0.0.1'', dPort := 57400, dPlatform := ''IOS-XE'', dPin := ''63'',
     dPinAddress := ''0.0.0.1:57400'', dCredentials := Some (Sealed (replicate 16 CHR ''k'') ''n'' (Some \<lparr>dcUsername = ''u'', dcPassword = ''p''\<rparr>))\<rparr>"

lemma dev_from_form: "deviceFromForm ''n'' dev_form (wdStore dev_start) = (Inr dev_device, wdStore dev_start)"
  by (simp add: deviceFromForm_def form_device_def dev_form_fields dev_address parsePort_def deviceDefaultPort_def TrimSpace_def TrimLeft_def
      TrimRight_def form_pin_def push_pin devicePlatformIOSXE_def deviceCredentials_def sealCredentials_def deviceGCM_def dev_start_def
      dev_device_def noDevice_def Split.simps cut_def Let_def)

lemma dev_dialed:
  assumes "check_target d = ''0.0.0.1:57400''" "dPin d = ''63''"
  shows "\<exists>v. dial_device dev_gear d w = (Inr ''c'', v)"
proof -
  have "gnoiDial (grLib dev_gear) (grNet dev_gear) (grAllow dev_gear) (check_target d) (dPin d) None w =
      (Inr ''c'', w\<lparr>wdEvents := wdEvents w @ [Dialed (V4 1) ''57400'']\<rparr>)"
    by (simp add: assms gnoiDial_def gnoiResolve_def gnoiResolveIPs_def gnoiCheckAllowed_def gnoiAllowed_def dev_address
        op_simps on_device_def dev_gear_def dev_wire_def emit_def verify_peer_def ex_lib_def push_pin)
  then show ?thesis
    by (simp add: dial_device_def step_def bindE_def thenE_def run_ok_def run_record_def modifyE_def ret_def)
qed

lemma dev_listed: "\<exists>v. list_certificates dev_gear creds peer w = (Inr [(''tls'', Some ''c''), (''old'', Some ''o'')], v)"
  by (simp add: list_certificates_def step_def authenticated_eq bindE_def thenE_def run_ok_def run_record_def modifyE_def ret_def
      dev_gear_def dev_wire_def)

lemma dev_inspected:
  assumes "check_target d = ''0.0.0.1:57400''" "dPin d = ''63''"
  shows "\<exists>rep v. gnoiInspect dev_gear d creds True w = (Inr rep, v)"
proof -
  obtain w1 where w1: "dial_device dev_gear d w = (Inr ''c'', w1)" using dev_dialed [OF assms] by blast
  obtain w2 where w2: "list_certificates dev_gear creds ''c'' w1 = (Inr [(''tls'', Some ''c''), (''old'', Some ''o'')], w2)"
    using dev_listed by blast
  have served: "\<exists>v. gnoiServedCert (grNet dev_gear) (grAllow dev_gear) ''0.0.0.1:57400'' u = (Inr ''c'', v)" for u
    by (simp add: gnoiServedCert_def gnoiResolve_def gnoiResolveIPs_def gnoiCheckAllowed_def gnoiAllowed_def dev_address
        op_simps on_device_def dev_gear_def dev_wire_def emit_def)
  have model: "identity_of dev_gear [(''tls'', Some ''c''), (''old'', Some ''o'')] = ([], [])"
    by (simp add: identity_of_def isCiscoSUDI_def HasPrefix_def)
  obtain w3 where w3: "run_ok ''identity'' ''no SUDI certificate with PID and SN; model and serial unchanged'' w2 = (Inr (), w3)"
    using run_ok_total by blast
  obtain w4 where w4: "gnoiServedCert (grNet dev_gear) (grAllow dev_gear) ''0.0.0.1:57400'' w3 = (Inr ''c'', w4)" using served by blast
  show ?thesis
    unfolding gnoiInspect_def Let_def
    by (simp add: assms push_pin bindE_def w1 w2 model thenE_def w3 step_def w4 ret_def)
      (simp add: run_ok_def run_record_def modifyE_def)
qed

lemma device_added:
  "\<exists>v. addDevice dev_gear 5 ''d1'' ''n'' dev_form dev_start = (To ''/devices/d1'', v) \<and> map dID (devices (wdStore v)) = [''d1'']"
proof -
  let ?creds = "\<lparr>dcUsername = ''u'', dcPassword = ''p''\<rparr>"
  have d: "check_target dev_device = ''0.0.0.1:57400''" "dPin dev_device = ''63''" "dID dev_device = []" "dName dev_device = ''sw1''"
    by (simp_all add: check_target_def dev_device_def noDevice_def dev_address)
  obtain rep u where rep: "gnoiInspect dev_gear dev_device ?creds True (dev_start\<lparr>wdSteps := []\<rparr>) = (Inr rep, u)"
    using dev_inspected [OF d(1,2)] by blast
  have u: "wdStore u = wdStore dev_start" using kept_store [OF store_inspect rep] by simp
  have start: "devices (wdStore dev_start) = []" "disk (wdStore dev_start) = []" by (simp_all add: dev_start_def empty_store_def)
  obtain d' s where save: "SaveDevice 5 ''d1'' (checked_device 5 dev_device rep) (wdStore u) = (Inr d', s)"
      "dID d' = ''d1''" "map dID (devices s) = [''d1'']"
    using start d u by (simp add: SaveDevice_def loadDevices_def saveDevices_def readE_def io_def op_simps put_device_def Let_def checked_device_def)
  have "on_store (deviceFromForm ''n'' dev_form) dev_start = (Inr dev_device, dev_start)"
    by (simp add: on_store_Inr dev_from_form)
  with rep save show ?thesis
    by (simp add: addDevice_def dev_form_fields perform_live_def fresh_run_def on_store_def answer_def)
qed

theorem device_added_after_check_witness:
  "\<exists>v. addDevice dev_gear 5 ''d1'' ''n'' dev_form dev_start = (To ''/devices/d1'', v) \<and>
     (\<exists>rep u u'. gnoiInspect dev_gear dev_device \<lparr>dcUsername = ''u'', dcPassword = ''p''\<rparr> True u = (Inr rep, u'))"
proof -
  obtain v where add: "addDevice dev_gear 5 ''d1'' ''n'' dev_form dev_start = (To ''/devices/d1'', v)" using device_added by (elim exE conjE) (rule that)
  have creds: "dfUsername dev_form = ''u''" "dfPassword dev_form = ''p''" by (simp_all add: dev_form_fields)
  from device_added_after_check [OF add] obtain dev rep u u' where "deviceFromForm ''n'' dev_form (wdStore dev_start) = (Inr dev, wdStore u)"
      "gnoiInspect dev_gear dev \<lparr>dcUsername = ''u'', dcPassword = ''p''\<rparr> True (u\<lparr>wdSteps := []\<rparr>) = (Inr rep, u')"
    unfolding creds by (elim exE conjE) (rule that)
  then have "gnoiInspect dev_gear dev_device \<lparr>dcUsername = ''u'', dcPassword = ''p''\<rparr> True (u\<lparr>wdSteps := []\<rparr>) = (Inr rep, u')"
    by (simp add: dev_from_form)
  with add show ?thesis by blast
qed

lemma dev_admitted: "isAdmin example_site None" "wqParses dev_request" "backupCSRF unsigned example_site dev_request"
  by code_simp+


text \<open>A certificate that is neither a factory identity nor served is revoked.\<close>

lemma dev_revoked:
  "\<exists>v. gnoiRevoke dev_gear dev_device creds ''old'' w = (Inr (), v) \<and> RevokeSent ''old'' \<in> set (wdEvents v)"
proof -
  have d: "check_target dev_device = ''0.0.0.1:57400''" "dPin dev_device = ''63''"
    by (simp_all add: check_target_def dev_device_def noDevice_def dev_address)
  obtain w1 where w1: "dial_device dev_gear dev_device w = (Inr ''c'', w1)" using dev_dialed [OF d] by blast
  obtain w2 where w2: "list_certificates dev_gear creds ''c'' w1 = (Inr [(''tls'', Some ''c''), (''old'', Some ''o'')], w2)"
    using dev_listed by blast
  have check: "revoke_check dev_gear ''c'' ''old'' [(''tls'', Some ''c''), (''old'', Some ''o'')] = Inr ()"
    by (simp add: revoke_check_def issuedByCatalystCenter_def dev_gear_def)
  have "wrRevoke (grNet dev_gear) c k x = (Inr ([], [k]), x)" for c k x by (simp add: dev_gear_def dev_wire_def)
  then show ?thesis
    by (simp add: gnoiRevoke_def isCiscoSUDI_def HasPrefix_def d push_pin bindE_def w1 w2 thenE_def check step_def liftE_def
        run_ok_def run_record_def modifyE_def emit_def authenticated_eq)
qed

theorem revoke_spares_protected_witness:
  "RevokeSent ''old'' \<in> set (wdEvents (snd (gnoiRevoke dev_gear dev_device \<lparr>dcUsername = ''u'', dcPassword = ''p''\<rparr> ''old'' dev_start))) \<and>
   \<not> isCiscoSUDI ''old''"
proof -
  have sent: "RevokeSent ''old'' \<in> set (wdEvents (snd (gnoiRevoke dev_gear dev_device \<lparr>dcUsername = ''u'', dcPassword = ''p''\<rparr> ''old'' dev_start)))"
    using dev_revoked by (metis snd_conv)
  have "unsent dev_start" by (simp add: unsent_def dev_start_def)
  from revoke_spares_protected [OF sent this] sent show ?thesis by blast
qed

definition installed_start :: "nat world" where
  "installed_start = dev_start\<lparr>wdStore := empty_store\<lparr>devices := [dev_device\<lparr>dID := ''d1''\<rparr>]\<rparr>\<rparr>"

theorem pin_follows_served_certificate_witness:
  "list_all (\<lambda>e. dID e = ''d1'' \<and> dName e = ''sw1'') (devices (wdStore (snd (afterInstall dev_gear (\<lambda>_. False) 7
      (dev_device\<lparr>dID := ''d1''\<rparr>) \<lparr>dcUsername = ''u'', dcPassword = ''p''\<rparr> ''c'' ''0.0.0.1:57400'' installed_start))))"
proof -
  obtain msg v where run: "afterInstall dev_gear (\<lambda>_. False) 7 (dev_device\<lparr>dID := ''d1''\<rparr>)
      \<lparr>dcUsername = ''u'', dcPassword = ''p''\<rparr> ''c'' ''0.0.0.1:57400'' installed_start = (msg, v)" by fastforce
  have "devices (wdStore installed_start) = [dev_device\<lparr>dID := ''d1''\<rparr>]" "dName dev_device = ''sw1''"
    by (simp_all add: installed_start_def dev_device_def)
  with pin_follows_served_certificate [OF run] run show ?thesis by (auto simp: follows_def list_all_iff)
qed

end
