(* ===== verification/CaHttp.thy ===== *)
theory CaHttp
  imports Web ScepStore
begin

text \<open>
  The handlers of \<open>server.go\<close> for authorities and certificates: creation, issuing, signing, deletion and downloads. A
  success message that the next page shows is left out, and so are the bodies of pages. \<open>parse\<close> is \<open>url.Parse\<close>,
  \<open>decode_csr\<close> reads a request from PEM.
\<close>

section \<open>Authorities\<close>

definition caError :: "error \<Rightarrow> handler" where
  "caError e = finish (Shown ''ca'' e)"

definition handleCreateRoot :: "time \<Rightarrow> randoms \<Rightarrow> web_request \<Rightarrow> handler" where
  "handleCreateRoot now rnd r =
     parse_form r (Shown ''message'' ''malformed form'')
       (let pass = FormValue r ''passphrase'' in
        if pass \<noteq> FormValue r ''passphrase_confirm'' then caError ''Passphrases do not match.''
        else perform
          (CreateCA now rnd \<lparr>cpCommonName = TrimSpace (FormValue r ''common_name''),
             cpOrganization = TrimSpace (FormValue r ''organization''), cpCountry = TrimSpace (FormValue r ''country''),
             cpAlgo = FormValue r ''algo'', cpValidDays = atoiDefault (FormValue r ''valid_days'') 3650, cpPassphrase = pass\<rparr>)
          caError (\<lambda>_. finish (To ''/ca'')))"

definition handleCreateIntermediate :: "site \<Rightarrow> User option \<Rightarrow> time \<Rightarrow> randoms \<Rightarrow> web_request \<Rightarrow> handler" where
  "handleCreateIntermediate w v now rnd r =
     (if \<not> isAdmin w v then finish (Status 403)
      else parse_form r (Shown ''message'' ''malformed form'')
       (let pass = FormValue r ''passphrase'' in
        if pass \<noteq> FormValue r ''passphrase_confirm'' then caError ''Passphrases do not match.''
        else
          let parent0 = TrimSpace (FormValue r ''parent'');
              parentID = (if parent0 = [] then caRoot else parent0) in
          (\<lambda>s. if \<not> ValidCAID s parentID then caError (''Parent CA '' @ parentID @ '' does not exist.'') s
            else perform
              (CreateIntermediate now rnd \<lparr>cpCommonName = TrimSpace (FormValue r ''common_name''),
                 cpOrganization = TrimSpace (FormValue r ''organization''), cpCountry = TrimSpace (FormValue r ''country''),
                 cpAlgo = FormValue r ''algo'', cpValidDays = atoiDefault (FormValue r ''valid_days'') 1825, cpPassphrase = pass,
                 ipParentID = parentID, ipParentPassphrase = FormValue r ''parent_passphrase'',
                 ipAllowSubCAs = (FormValue r ''allow_sub'' = ''on''), ipSCEP = (FormValue r ''scep'' = ''on'')\<rparr>)
              caError (\<lambda>_. finish (To ''/ca'')) s)))"

text \<open>\<open>CASubtree\<close> of the store and the page that lists what a deletion removes.\<close>

definition CASubtree :: "string \<Rightarrow> (CertRecord list \<times> CertRecord list) sop" where
  "CASubtree ca = bindE loadIndex (\<lambda>recs. liftE (caSubtree recs ca))"

definition renderCADelete :: "string \<Rightarrow> error \<Rightarrow> handler" where
  "renderCADelete ca e =
     (\<lambda>s. if \<not> ValidCAID s ca then finish (Status 404) s
       else perform (CASubtree ca) (\<lambda>_. finish (Status 404)) (\<lambda>_. finish (Shown ''ca_delete_confirm'' e)) s)"

definition handleCADeleteConfirm :: "web_request \<Rightarrow> string \<Rightarrow> handler" where
  "handleCADeleteConfirm r ca =
     (\<lambda>s. if \<not> ValidCAID s ca then finish (Status 404) s
       else perform (CASubtree ca) (\<lambda>_. finish (Status 404)) (\<lambda>(tree, _).
         if TrimSpace (FormValue r ''confirm_name'') \<noteq> rCommonName (hd tree)
         then renderCADelete ca ''The name you typed does not match. Nothing was deleted.''
         else perform (DeleteCA ca) failed (\<lambda>_. finish (To ''/ca''))) s)"

section \<open>Certificates\<close>

definition needCA :: handler where
  "needCA = finish (Shown ''message'' ''You need to create a root CA before you can do this.'')"

definition issueError :: "error \<Rightarrow> handler" where
  "issueError e = perform LoadTemplates (\<lambda>_. finish (Shown ''issue'' e)) (\<lambda>_. finish (Shown ''issue'' e))"

definition signError :: "error \<Rightarrow> handler" where
  "signError e = perform LoadTemplates (\<lambda>_. finish (Shown ''sign'' e)) (\<lambda>_. finish (Shown ''sign'' e))"

definition chosen_template :: "string \<Rightarrow> (error \<Rightarrow> handler) \<Rightarrow> (CertTemplate \<Rightarrow> handler) \<Rightarrow> handler" where
  "chosen_template name onerr onok =
     (\<lambda>s. case GetTemplate name s of
         (None, t) \<Rightarrow> onerr ''Select a valid certificate template.'' t
       | (Some tm, t) \<Rightarrow> onok tm t)"

definition form_ips :: "web_request \<Rightarrow> addr list result" where
  "form_ips r = map_all (\<lambda>v. case ParseIP v of None \<Rightarrow> Inl ''Invalid IP SAN.'' | Some ip \<Rightarrow> Inr ip)
     (splitLines (FormValue r ''ip_sans''))"

definition handleIssue :: "(string \<Rightarrow> url option) \<Rightarrow> time \<Rightarrow> randoms \<Rightarrow> web_request \<Rightarrow> handler" where
  "handleIssue parse now rnd r =
     (\<lambda>s. if \<not> HasCA s caRoot then needCA s
       else parse_form r (Shown ''message'' ''malformed form'')
        (chosen_template (TrimSpace (FormValue r ''template'')) issueError (\<lambda>t.
          case parseRequestedDays r of
            Inl e \<Rightarrow> issueError e
          | Inr (days, provided) \<Rightarrow>
          (case form_ips r of
            Inl e \<Rightarrow> issueError e
          | Inr ips \<Rightarrow>
            perform
              (IssueCert parse now rnd \<lparr>isCommonName = TrimSpace (FormValue r ''common_name''),
                 isOrganization = TrimSpace (FormValue r ''organization''), isCountry = TrimSpace (FormValue r ''country''),
                 isSANs = [], isAlgo = (if FormValue r ''algo'' = [] then tAlgo t else FormValue r ''algo''),
                 isValidDays = (if provided then days else tValidDays t), isProfile = tProfile t, isTemplate = t,
                 isTemplateName = tName t, isDNSNames = splitLines (FormValue r ''dns_sans''),
                 isEmails = splitLines (FormValue r ''email_sans''), isURIs = splitLines (FormValue r ''uri_sans''),
                 isIPs = ips, isIssuerID = FormValue r ''issuer'', isCAPassphrase = FormValue r ''ca_passphrase''\<rparr>)
              issueError (\<lambda>_. finish (To ''/''))))) s)"

definition handleSign :: "(string \<Rightarrow> csr option) \<Rightarrow> time \<Rightarrow> nat \<Rightarrow> web_request \<Rightarrow> handler" where
  "handleSign decode_csr now serial r =
     (\<lambda>s. if \<not> HasCA s caRoot then needCA s
       else parse_form r (Shown ''message'' ''malformed form'')
        (let pasted = TrimSpace (FormValue r ''csr'');
             csrPEM = (if pasted = [] then take 1048576 (wqFile r) else pasted) in
         if csrPEM = [] then signError ''Please paste a CSR or upload a .csr/.pem file.''
         else
         chosen_template (TrimSpace (FormValue r ''template'')) signError (\<lambda>t.
          case parseRequestedDays r of
            Inl e \<Rightarrow> signError e
          | Inr (days, provided) \<Rightarrow>
            perform
              (SignCSR now serial \<lparr>spCSR = decode_csr csrPEM, spValidDays = (if provided then days else tValidDays t),
                 spProfile = tProfile t, spIssuerID = FormValue r ''issuer'', spCAPassphrase = FormValue r ''ca_passphrase'',
                 spTemplate = t, spTemplateName = tName t, spBackdate = 0\<rparr>)
              signError (\<lambda>_. finish (Shown ''message'' [])))) s)"

definition handleCertDeleteConfirm :: "string \<Rightarrow> handler" where
  "handleCertDeleteConfirm serial =
     (if \<not> ValidSerial serial then finish (Status 400)
      else perform (DeleteCert serial) failed (\<lambda>_. finish (To ''/'')))"

end
