(* ===== verification/Pages.thy ===== *)
theory Pages
  imports CaHttp DeviceCheck
begin

text \<open>
  The read-only pages and the downloads of \<open>server.go\<close>, with the parts of \<open>certinfo.go\<close> they show: the tree of the
  dashboard, the filter of the list of certificates, the details of a certificate and what its downloads send. The formatting of
  times and names is left out. A page is its content here.
\<close>

section \<open>The list of certificates\<close>

definition certStatus :: "time \<Rightarrow> time \<Rightarrow> string" where
  "certStatus notAfter now =
     (if \<not> notAfter > now then ''expired'' else if notAfter - now \<le> deviceExpiryWarn then ''expiring'' else ''valid'')"

definition isLeaf :: "CertRecord \<Rightarrow> bool" where
  "isLeaf r \<longleftrightarrow> rKind r = ''issued'' \<or> rKind r = ''csr''"

record certCounts =
  ccTotal :: nat
  ccValid :: nat
  ccExpiring :: nat
  ccExpired :: nat

definition count_cert :: "time \<Rightarrow> CertRecord \<Rightarrow> certCounts \<Rightarrow> certCounts" where
  "count_cert now r c =
     (if \<not> isLeaf r then c
      else let d = c\<lparr>ccTotal := ccTotal c + 1\<rparr> in
        if certStatus (rNotAfter r) now = ''valid'' then d\<lparr>ccValid := ccValid d + 1\<rparr>
        else if certStatus (rNotAfter r) now = ''expiring'' then d\<lparr>ccExpiring := ccExpiring d + 1\<rparr>
        else d\<lparr>ccExpired := ccExpired d + 1\<rparr>)"

definition countCerts :: "CertRecord list \<Rightarrow> time \<Rightarrow> certCounts" where
  "countCerts recs now = fold (count_cert now) recs \<lparr>ccTotal = 0, ccValid = 0, ccExpiring = 0, ccExpired = 0\<rparr>"

record certFilter =
  cfQ :: string
  cfStatus :: string
  cfIssuer :: string
  cfType :: string
  cfTemplate :: string

definition filter_match :: "certFilter \<Rightarrow> time \<Rightarrow> CertRecord \<Rightarrow> bool" where
  "filter_match f now r =
     (if \<not> isLeaf r then False
      else if cfQ f \<noteq> [] \<and> \<not> Contains (ToLower (rCommonName r)) (ToLower (cfQ f)) then False
      else if cfStatus f \<noteq> [] \<and> certStatus (rNotAfter r) now \<noteq> cfStatus f then False
      else if cfIssuer f \<noteq> [] \<and> rIssuerID r \<noteq> cfIssuer f then False
      else if cfType f = ''scep'' \<and> rProvenance r \<noteq> ''scep'' then False
      else if (cfType f = ''issued'' \<or> cfType f = ''csr'') \<and> rKind r \<noteq> cfType f then False
      else if cfTemplate f \<noteq> [] \<and> rTemplateName r \<noteq> cfTemplate f then False
      else True)"

text \<open>The rows with their status, those that expire first in front.\<close>

definition filterCerts :: "CertRecord list \<Rightarrow> certFilter \<Rightarrow> time \<Rightarrow> (CertRecord \<times> string) list" where
  "filterCerts recs f now =
     sort_key (\<lambda>(r, _). rNotAfter r) (map (\<lambda>r. (r, certStatus (rNotAfter r) now)) (filter (filter_match f now) recs))"

section \<open>The tree of the dashboard\<close>

record caNode =
  cnInfo :: CAInfo
  cnIndent :: int
  cnStatus :: string

definition ca_node :: "time \<Rightarrow> int \<Rightarrow> CAInfo \<Rightarrow> caNode" where
  "ca_node now indent ca = \<lparr>cnInfo = ca, cnIndent = indent, cnStatus = certStatus (rNotAfter (caiRecord ca)) now\<rparr>"

definition kids :: "CAInfo list \<Rightarrow> string \<Rightarrow> CAInfo list" where
  "kids cs k = filter (\<lambda>ca. caiID ca \<noteq> caRoot \<and> caiParentID ca = k) cs"

text \<open>A list of results, all of them or none.\<close>

fun all_some :: "'a option list \<Rightarrow> 'a list option" where
  "all_some [] = Some []"
| "all_some (None # xs) = None"
| "all_some (Some x # xs) = map_option ((#) x) (all_some xs)"

text \<open>
  The closure \<open>walk\<close>, with fuel for its recursion: \<open>None\<close> when the fuel runs out, which on CAs with distinct ids and as much
  fuel as there are CAs and one more it never does (\<open>dashboard_tree\<close> below).
\<close>

fun walk_kids :: "nat \<Rightarrow> CAInfo list \<Rightarrow> time \<Rightarrow> string \<Rightarrow> int \<Rightarrow> caNode list option" where
  "walk_kids 0 cs now k indent = None"
| "walk_kids (Suc n) cs now k indent =
     map_option concat (all_some (map (\<lambda>ca. map_option ((#) (ca_node now indent ca)) (walk_kids n cs now (caiID ca) (indent + 24)))
       (kids cs k)))"

definition caTree :: "nat \<Rightarrow> CAInfo list \<Rightarrow> time \<Rightarrow> caNode list option" where
  "caTree fuel cs now =
     map_option concat (all_some (map (\<lambda>ca. map_option ((#) (ca_node now 0 ca)) (walk_kids fuel cs now caRoot 24))
       (filter (\<lambda>ca. caiID ca = caRoot) cs)))"

section \<open>Counting and filtering agree\<close>

definition no_filter :: certFilter where
  "no_filter = \<lparr>cfQ = [], cfStatus = [], cfIssuer = [], cfType = [], cfTemplate = []\<rparr>"

lemma certStatus_cases: "certStatus t now \<in> {''valid'', ''expiring'', ''expired''}"
  by (simp add: certStatus_def)

lemma fold_counts:
  "fold (count_cert now) recs c =
     \<lparr>ccTotal = ccTotal c + length (filter isLeaf recs),
      ccValid = ccValid c + length (filter (\<lambda>r. isLeaf r \<and> certStatus (rNotAfter r) now = ''valid'') recs),
      ccExpiring = ccExpiring c + length (filter (\<lambda>r. isLeaf r \<and> certStatus (rNotAfter r) now = ''expiring'') recs),
      ccExpired = ccExpired c + length (filter (\<lambda>r. isLeaf r \<and> certStatus (rNotAfter r) now = ''expired'') recs)\<rparr>"
proof (induction recs arbitrary: c)
  case (Cons r recs)
  from certStatus_cases [of "rNotAfter r" now] show ?case
    unfolding fold_simps comp_apply Cons.IH by (auto simp: count_cert_def Let_def)
qed simp

lemma filter_status: "filter_match (no_filter\<lparr>cfStatus := st\<rparr>) now r \<longleftrightarrow> isLeaf r \<and> (st = [] \<or> certStatus (rNotAfter r) now = st)"
  by (auto simp: filter_match_def no_filter_def)

text \<open>
  The tiles of the dashboard and the list of certificates agree: each tile counts exactly the rows that the filter of its
  status shows, every leaf is in one of the three, and whatever the filter, the list shows leaves of the index only, those that
  match, the sooner to expire first.
\<close>

lemma counts_match_list:
  "ccExpired (countCerts recs now) = length (filterCerts recs (no_filter\<lparr>cfStatus := ''expired''\<rparr>) now) \<and>
   ccExpiring (countCerts recs now) = length (filterCerts recs (no_filter\<lparr>cfStatus := ''expiring''\<rparr>) now) \<and>
   ccValid (countCerts recs now) = length (filterCerts recs (no_filter\<lparr>cfStatus := ''valid''\<rparr>) now) \<and>
   ccTotal (countCerts recs now) = length (filterCerts recs no_filter now) \<and>
   ccTotal (countCerts recs now) = ccExpired (countCerts recs now) + ccExpiring (countCerts recs now) + ccValid (countCerts recs now) \<and>
   fst ` set (filterCerts recs f now) = {r \<in> set recs. isLeaf r \<and> filter_match f now r} \<and>
   sorted (map (\<lambda>(r, _). rNotAfter r) (filterCerts recs f now))"
proof -
  have total: "length (filter isLeaf recs) =
      length (filter (\<lambda>r. isLeaf r \<and> certStatus (rNotAfter r) now = ''expired'') recs) +
      length (filter (\<lambda>r. isLeaf r \<and> certStatus (rNotAfter r) now = ''expiring'') recs) +
      length (filter (\<lambda>r. isLeaf r \<and> certStatus (rNotAfter r) now = ''valid'') recs)"
  proof (induction recs)
    case (Cons r recs)
    with certStatus_cases [of "rNotAfter r" now] show ?case by auto
  qed simp
  have rows: "length (filterCerts recs (no_filter\<lparr>cfStatus := st\<rparr>) now) =
      length (filter (\<lambda>r. isLeaf r \<and> (st = [] \<or> certStatus (rNotAfter r) now = st)) recs)" for st
    unfolding filterCerts_def length_sort length_map by (rule arg_cong [where f = length], rule filter_cong) (simp_all add: filter_status)
  have none: "no_filter\<lparr>cfStatus := []\<rparr> = no_filter" by (simp add: no_filter_def)
  have "fst ` set (filterCerts recs f now) = {r \<in> set recs. isLeaf r \<and> filter_match f now r}"
    by (auto simp: filterCerts_def image_image filter_match_def split: if_splits)
  moreover have "sorted (map (\<lambda>(r, _). rNotAfter r) (filterCerts recs f now))" by (simp add: filterCerts_def)
  ultimately show ?thesis
    using total rows [of "''expired''"] rows [of "''expiring''"] rows [of "''valid''"] rows [of "[]"]
    by (simp add: countCerts_def fold_counts none)
qed

section \<open>The tree is complete\<close>

text \<open>The CAs at a depth below the root, and those some levels below a CA.\<close>

inductive climbs :: "CAInfo list \<Rightarrow> string \<Rightarrow> nat \<Rightarrow> bool" for cs where
  top: "climbs cs caRoot 0"
| up: "ca \<in> set cs \<Longrightarrow> caiID ca \<noteq> caRoot \<Longrightarrow> climbs cs (caiParentID ca) d \<Longrightarrow> climbs cs (caiID ca) (Suc d)"

inductive_cases climbsE: "climbs cs k d"

inductive under :: "CAInfo list \<Rightarrow> string \<Rightarrow> nat \<Rightarrow> CAInfo \<Rightarrow> bool" for cs where
  child: "ca \<in> set (kids cs k) \<Longrightarrow> under cs k 0 ca"
| below: "ca \<in> set (kids cs k) \<Longrightarrow> under cs (caiID ca) j x \<Longrightarrow> under cs k (Suc j) x"

inductive_cases underE: "under cs k j x"

inductive_simps under_0: "under cs k 0 x"
inductive_simps under_Suc: "under cs k (Suc j) x"

lemma in_kids [simp]: "ca \<in> set (kids cs k) \<longleftrightarrow> ca \<in> set cs \<and> caiID ca \<noteq> caRoot \<and> caiParentID ca = k"
  by (auto simp: kids_def)

lemma same_id: "distinct (map caiID cs) \<Longrightarrow> a \<in> set cs \<Longrightarrow> b \<in> set cs \<Longrightarrow> caiID a = caiID b \<Longrightarrow> a = b"
  by (simp add: distinct_map inj_on_def)

lemma climbs_det:
  assumes "distinct (map caiID cs)"
  shows "climbs cs k d \<Longrightarrow> climbs cs k e \<Longrightarrow> d = e"
proof (induction arbitrary: e rule: climbs.induct)
  case top
  from top show ?case by (rule climbsE) simp_all
next
  case (up ca d)
  from up.prems show ?case
  proof (rule climbsE)
    fix cb f assume "caiID ca = caiID cb" "e = Suc f" "cb \<in> set cs" "climbs cs (caiParentID cb) f"
    with up.IH [of f] same_id [OF assms up.hyps(1), of cb] show ?thesis by simp
  qed (use up.hyps in simp)
qed

lemma climbs_ancestors:
  assumes "distinct (map caiID cs)"
  shows "climbs cs k d \<Longrightarrow> \<exists>S \<subseteq> caiID ` set cs. finite S \<and> card S = d \<and> (\<forall>x \<in> S. \<exists>e \<le> d. climbs cs x e)"
proof (induction rule: climbs.induct)
  case top
  show ?case by (intro exI [of _ "{}"]) simp
next
  case (up ca d)
  from up.IH obtain S where S: "S \<subseteq> caiID ` set cs" "finite S" "card S = d" "\<forall>x \<in> S. \<exists>e \<le> d. climbs cs x e" by blast
  have here: "climbs cs (caiID ca) (Suc d)" using up.hyps by (rule climbs.up)
  have "caiID ca \<notin> S" using S(4) climbs_det [OF assms here] by fastforce
  moreover have "\<forall>x \<in> insert (caiID ca) S. \<exists>e \<le> Suc d. climbs cs x e"
  proof
    fix x assume "x \<in> insert (caiID ca) S"
    then show "\<exists>e \<le> Suc d. climbs cs x e"
    proof
      assume "x = caiID ca"
      with here show ?thesis by auto
    next
      assume "x \<in> S"
      with S(4) obtain e where "e \<le> d" "climbs cs x e" by blast
      then show ?thesis by (intro exI [of _ e]) simp
    qed
  qed
  ultimately show ?case
    using S(1-3) up.hyps(1) by (intro exI [of _ "insert (caiID ca) S"] conjI) (simp_all add: card_insert_if)
qed

lemma climbs_bound:
  assumes "distinct (map caiID cs)" "climbs cs k d"
  shows "d \<le> length cs"
proof -
  from climbs_ancestors [OF assms] obtain S where S: "S \<subseteq> caiID ` set cs" "card S = d" by blast
  then have "d \<le> card (caiID ` set cs)" by (metis List.finite_set card_mono finite_imageI)
  also have "\<dots> \<le> length cs" by (metis card_image_le List.finite_set card_length order_trans)
  finally show ?thesis .
qed

lemma under_climbs: "under cs k j x \<Longrightarrow> climbs cs k d \<Longrightarrow> climbs cs (caiID x) (Suc (d + j))"
  by (induction arbitrary: d rule: under.induct) (fastforce dest: climbs.up)+

lemma under_last: "under cs k (Suc j) x \<Longrightarrow> \<exists>y. under cs k j y \<and> y \<in> set cs \<and> caiID y = caiParentID x \<and> x \<in> set cs"
proof (induction j arbitrary: k)
  case 0
  then show ?case by (auto simp: under_0 under_Suc)
next
  case (Suc j)
  from Suc.prems obtain ca where ca: "ca \<in> set (kids cs k)" "under cs (caiID ca) (Suc j) x" by (auto simp: under_Suc [of cs k])
  from Suc.IH [OF ca(2)] ca(1) show ?case by (blast intro: under.below)
qed

lemma under_unique:
  assumes "distinct (map caiID cs)"
  shows "under cs k j x \<Longrightarrow> under cs l j x \<Longrightarrow> k = l"
proof (induction j arbitrary: x)
  case 0
  then show ?case by (simp add: under_0)
next
  case (Suc j)
  from under_last [OF Suc.prems(1)] obtain y where y: "under cs k j y" "y \<in> set cs" "caiID y = caiParentID x" by blast
  from under_last [OF Suc.prems(2)] obtain z where z: "under cs l j z" "z \<in> set cs" "caiID z = caiParentID x" by blast
  from y z same_id [OF assms, of y z] Suc.IH [of y] show ?case by simp
qed

lemma all_some_map: "(\<And>x. x \<in> set xs \<Longrightarrow> f x = Some (g x)) \<Longrightarrow> all_some (map f xs) = Some (map g xs)"
  by (induction xs) auto

lemma distinct_concat_map:
  assumes "distinct xs" "\<And>x. x \<in> set xs \<Longrightarrow> distinct (f x)"
    "\<And>x y. x \<in> set xs \<Longrightarrow> y \<in> set xs \<Longrightarrow> x \<noteq> y \<Longrightarrow> set (f x) \<inter> set (f y) = {}"
  shows "distinct (concat (map f xs))"
  using assms
proof (induction xs)
  case (Cons x xs)
  then have "set (f x) \<inter> set (concat (map f xs)) = {}" by fastforce
  with Cons show ?case by simp
qed simp

text \<open>The CAs of the part of the tree that begins with a CA.\<close>

definition part :: "CAInfo list \<Rightarrow> CAInfo \<Rightarrow> CAInfo set" where
  "part cs ca = insert ca {x. \<exists>j. under cs (caiID ca) j x}"

lemma part_depth:
  assumes "climbs cs (caiID a) d" "x \<in> part cs a"
  obtains "x = a" | j where "under cs (caiID a) j x" "climbs cs (caiID x) (Suc (d + j))"
  using assms under_climbs [OF _ assms(1)] by (auto simp: part_def)

lemma parts_disjoint:
  assumes ids: "distinct (map caiID cs)" and a: "a \<in> set cs" "climbs cs (caiID a) d" and b: "b \<in> set cs" "climbs cs (caiID b) d"
    and x: "x \<in> part cs a" "x \<in> part cs b"
  shows "a = b"
  using part_depth [OF a(2) x(1)]
proof cases
  case 1
  from part_depth [OF b(2) x(2)] show ?thesis
  proof cases
    case (2 i)
    then show ?thesis using 1 climbs_det [OF ids a(2)] by fastforce
  qed (use 1 in simp)
next
  case j: (2 j)
  from part_depth [OF b(2) x(2)] show ?thesis
  proof cases
    case 1
    then show ?thesis using j climbs_det [OF ids b(2)] by fastforce
  next
    case i: (2 i)
    from climbs_det [OF ids j(2) i(2)] have "i = j" by simp
    with under_unique [OF ids j(1)] i(1) have "caiID a = caiID b" by simp
    with same_id [OF ids a(1) b(1)] show ?thesis by simp
  qed
qed

definition walk_result :: "CAInfo list \<Rightarrow> time \<Rightarrow> string \<Rightarrow> int \<Rightarrow> caNode list \<Rightarrow> bool" where
  "walk_result cs now k indent ns \<longleftrightarrow>
     set ns = (\<lambda>(j, x). ca_node now (indent + 24 * int j) x) ` {(j, x). under cs k j x} \<and> distinct (map cnInfo ns)"

lemma node_info [simp]: "cnInfo (ca_node now indent ca) = ca"
  by (simp add: ca_node_def)

lemma walk_part:
  assumes "distinct (map caiID cs)" "climbs cs (caiID ca) d" "walk_result cs now (caiID ca) (indent + 24) ns"
  shows "distinct (map cnInfo (ca_node now indent ca # ns))"
    and "cnInfo ` set (ca_node now indent ca # ns) = part cs ca"
proof -
  have infos: "cnInfo ` set ns = {x. \<exists>j. under cs (caiID ca) j x}"
    using assms(3) by (force simp: walk_result_def image_iff)
  then show "cnInfo ` set (ca_node now indent ca # ns) = part cs ca" by (simp add: part_def)
  have "ca \<notin> cnInfo ` set ns"
    using infos under_climbs [OF _ assms(2)] climbs_det [OF assms(1,2)] by fastforce
  with assms(3) show "distinct (map cnInfo (ca_node now indent ca # ns))" by (simp add: walk_result_def)
qed

lemma under_kids: "{(j, x). under cs k j x} = (\<Union>ca \<in> set (kids cs k). insert (0, ca) ((\<lambda>(j, x). (Suc j, x)) ` {(j, x). under cs (caiID ca) j x}))"
proof -
  have "under cs k j x \<longleftrightarrow> (\<exists>ca \<in> set (kids cs k). (j, x) = (0, ca) \<or> (\<exists>i. j = Suc i \<and> under cs (caiID ca) i x))" for j x
  proof (cases j)
    case 0
    then show ?thesis by (simp add: under_0 del: in_kids)
  next
    case (Suc i)
    show ?thesis unfolding Suc under_Suc by (auto simp del: in_kids)
  qed
  then show ?thesis by (auto simp: image_iff simp del: in_kids)
qed

lemma walk_kids_spec:
  assumes ids: "distinct (map caiID cs)"
  shows "climbs cs k d \<Longrightarrow> length cs < d + n \<Longrightarrow> \<exists>ns. walk_kids n cs now k indent = Some ns \<and> walk_result cs now k indent ns"
proof (induction n arbitrary: k d indent)
  case 0
  with climbs_bound [OF ids, of k d] show ?case by simp
next
  case (Suc n)
  have up: "climbs cs (caiID ca) (Suc d)" if "ca \<in> set (kids cs k)" for ca
    using that Suc.prems(1) by (auto intro: climbs.up)
  have "\<forall>ca \<in> set (kids cs k). \<exists>ns. walk_kids n cs now (caiID ca) (indent + 24) = Some ns \<and> walk_result cs now (caiID ca) (indent + 24) ns"
    using Suc.IH [OF up] Suc.prems(2) by simp
  then obtain g where g: "\<And>ca. ca \<in> set (kids cs k) \<Longrightarrow>
      walk_kids n cs now (caiID ca) (indent + 24) = Some (g ca) \<and> walk_result cs now (caiID ca) (indent + 24) (g ca)" by metis
  let ?f = "\<lambda>ca. ca_node now indent ca # g ca"
  let ?ns = "concat (map ?f (kids cs k))"
  let ?node = "\<lambda>(j, x). ca_node now (indent + 24 * int j) x"
  have "walk_kids (Suc n) cs now k indent = Some ?ns"
    using all_some_map [of "kids cs k" _ ?f] g by simp
  moreover have "set ?ns = ?node ` {(j, x). under cs k j x}"
  proof -
    have "set (?f ca) = ?node ` insert (0, ca) ((\<lambda>(j, x). (Suc j, x)) ` {(j, x). under cs (caiID ca) j x})" if "ca \<in> set (kids cs k)" for ca
      using g [OF that] by (simp add: walk_result_def image_image case_prod_unfold algebra_simps)
    then have "set ?ns = ?node ` (\<Union>ca \<in> set (kids cs k). insert (0, ca) ((\<lambda>(j, x). (Suc j, x)) ` {(j, x). under cs (caiID ca) j x}))"
      by (simp add: image_UN del: in_kids)
    also have "(\<Union>ca \<in> set (kids cs k). insert (0, ca) ((\<lambda>(j, x). (Suc j, x)) ` {(j, x). under cs (caiID ca) j x})) = {(j, x). under cs k j x}"
      by (rule under_kids [symmetric])
    finally show ?thesis .
  qed
  moreover have "distinct (map cnInfo ?ns)"
  proof -
    have "distinct (kids cs k)" using ids by (simp add: kids_def distinct_map)
    moreover have "part cs a \<inter> part cs b = {}" if "a \<in> set (kids cs k)" "b \<in> set (kids cs k)" "a \<noteq> b" for a b
      using parts_disjoint [OF ids _ up [OF that(1)] _ up [OF that(2)]] that by fastforce
    ultimately have "distinct (concat (map (\<lambda>ca. map cnInfo (?f ca)) (kids cs k)))"
      using walk_part [OF ids up, of _ now indent] g by (intro distinct_concat_map) (auto simp del: in_kids)
    then show ?thesis by (simp add: map_concat comp_def)
  qed
  ultimately show ?case by (auto simp: walk_result_def)
qed

lemma under_snoc: "under cs k j y \<Longrightarrow> x \<in> set (kids cs (caiID y)) \<Longrightarrow> under cs k (Suc j) x"
  by (induction rule: under.induct) (blast intro: under.intros)+

lemma climbs_under: "climbs cs k d \<Longrightarrow> x \<in> set (kids cs k) \<Longrightarrow> under cs caRoot d x"
proof (induction arbitrary: x rule: climbs.induct)
  case top
  then show ?case by (rule under.child)
next
  case (up ca d)
  then have "under cs caRoot d ca" by (intro up.IH) simp
  then show ?case using up.prems by (rule under_snoc)
qed

lemma under_in: "under cs k j x \<Longrightarrow> x \<in> set cs \<and> caiID x \<noteq> caRoot"
  by (induction rule: under.induct) auto

lemma under_root_iff:
  assumes ids: "distinct (map caiID cs)"
  shows "under cs caRoot j x \<longleftrightarrow> x \<in> set cs \<and> caiID x \<noteq> caRoot \<and> climbs cs (caiID x) (Suc j)"
proof
  assume u: "under cs caRoot j x"
  with under_in [OF u] under_climbs [OF u climbs.top]
  show "x \<in> set cs \<and> caiID x \<noteq> caRoot \<and> climbs cs (caiID x) (Suc j)" by simp
next
  assume x: "x \<in> set cs \<and> caiID x \<noteq> caRoot \<and> climbs cs (caiID x) (Suc j)"
  then have "climbs cs (caiID x) (Suc j)" by simp
  then show "under cs caRoot j x"
  proof (rule climbsE)
    fix y d assume "caiID x = caiID y" "Suc j = Suc d" "y \<in> set cs" "climbs cs (caiParentID y) d"
    with same_id [OF ids, of x y] x climbs_under [of cs "caiParentID y" d x] show ?thesis by simp
  qed simp
qed

lemma distinct_sorted: "distinct (map f (sort_key g xs)) = distinct (map f xs)"
  by (simp add: distinct_map)

lemma CAs_ids: "distinct (map caiID (CAs s)) = distinct (map caIDOf (filter is_ca (index s)))"
  by (simp add: CAs_def Let_def distinct_sorted comp_def Records_def filter_sort)

lemma sole_root:
  "distinct (map caiID cs) \<Longrightarrow> r \<in> set cs \<Longrightarrow> caiID r = caRoot \<Longrightarrow> filter (\<lambda>ca. caiID ca = caRoot) cs = [r]"
proof (induction cs)
  case (Cons c cs)
  show ?case
  proof (cases "caiID c = caRoot")
    case True
    with Cons.prems have "c = r" by (metis distinct.simps(2) image_eqI list.map(2) list.set_map set_ConsD)
    moreover have "filter (\<lambda>ca. caiID ca = caRoot) cs = []"
      using Cons.prems(1) True by (auto simp: filter_empty_conv image_iff)
    ultimately show ?thesis using True by simp
  qed (use Cons in auto)
qed simp

text \<open>
  C27. The dashboard always gets its tree: on an index in which no two CAs have the same id, whatever loops its issuers form, the walk
  ends with as much fuel as there are CAs and one more, and shows each CA that hangs below the root, however deep, exactly once and
  nothing else, indented by its depth.
\<close>

theorem dashboard_tree:
  assumes "distinct (map caIDOf (filter is_ca (index s)))" and "length (CAs s) < fuel"
    and "root \<in> set (CAs s)" "caiID root = caRoot"
  shows "\<exists>ns. caTree fuel (CAs s) now = Some ns \<and> distinct (map cnInfo ns) \<and>
    set ns = {ca_node now (24 * int d) ca | ca d. ca \<in> set (CAs s) \<and> climbs (CAs s) (caiID ca) d}"
proof -
  let ?cs = "CAs s"
  have ids: "distinct (map caiID ?cs)" using assms(1) by (simp add: CAs_ids)
  from walk_kids_spec [OF ids climbs.top, of fuel now 24] assms(2) obtain ns
    where ns: "walk_kids fuel ?cs now caRoot 24 = Some ns" "walk_result ?cs now caRoot 24 ns" by auto
  have tree: "caTree fuel ?cs now = Some (ca_node now 0 root # ns)"
    using ns(1) by (simp add: caTree_def sole_root [OF ids assms(3,4)])
  have top: "climbs ?cs (caiID root) 0" using assms(4) climbs.top by simp
  from ns(2) assms(4) have part: "walk_result ?cs now (caiID root) (0 + 24) ns" by simp
  have d: "distinct (map cnInfo (ca_node now 0 root # ns))" by (rule walk_part(1) [OF ids top part])
  have "(ca \<in> set ?cs \<and> climbs ?cs (caiID ca) d) \<longleftrightarrow> (ca = root \<and> d = 0) \<or> (\<exists>j. d = Suc j \<and> under ?cs caRoot j ca)" for ca d
  proof (cases "caiID ca = caRoot")
    case True
    then have "climbs ?cs (caiID ca) d \<longleftrightarrow> d = 0" using climbs_det [OF ids climbs.top, of d] climbs.top by auto
    moreover have "ca \<in> set ?cs \<longleftrightarrow> ca = root" using True assms(3,4) same_id [OF ids _ assms(3), of ca] by auto
    ultimately show ?thesis using True under_in by blast
  next
    case False
    then have "ca \<noteq> root" using assms(4) by blast
    moreover have "d \<noteq> 0" if "climbs ?cs (caiID ca) d" using that False by (auto elim: climbsE)
    ultimately show ?thesis using False under_root_iff [OF ids, of _ ca] by (cases d) auto
  qed
  then have "{(ca, d). ca \<in> set ?cs \<and> climbs ?cs (caiID ca) d} = insert (root, 0) ((\<lambda>(j, x). (x, Suc j)) ` {(j, x). under ?cs caRoot j x})"
    by (auto simp: image_iff)
  then have "set (ca_node now 0 root # ns) = (\<lambda>(ca, d). ca_node now (24 * int d) ca) ` {(ca, d). ca \<in> set ?cs \<and> climbs ?cs (caiID ca) d}"
    using ns(2) by (simp add: walk_result_def image_image case_prod_unfold algebra_simps)
  also have "\<dots> = {ca_node now (24 * int d) ca | ca d. ca \<in> set ?cs \<and> climbs ?cs (caiID ca) d}" by auto
  finally show ?thesis using tree d by blast
qed

end
