(* ===== verification/Views.thy ===== *)
theory Views
  imports Pages
begin

text \<open>
  The pages of \<open>server.go\<close> that show the authorities and the certificates: what they list, without the texts around it. The
  message of the last action that a page shows once is left out, as are the user and the title.
\<close>

section \<open>The authorities\<close>

record caOptionData =
  coCAID :: string
  coDisplayPath :: string
  coKeyEnc :: bool
  coLocked :: bool

definition caOption :: "store \<Rightarrow> string \<Rightarrow> string \<Rightarrow> caOptionData" where
  "caOption s k path = \<lparr>coCAID = k, coDisplayPath = path, coKeyEnc = CAKeyEncrypted s k, coLocked = CALocked s k\<rparr>"

definition getIssueCAs :: "store \<Rightarrow> caOptionData list" where
  "getIssueCAs s =
     map (\<lambda>ca. caOption s (caiID ca) (pathString (caiPath ca)))
       (filter (\<lambda>ca. rKind (caiRecord ca) = caRoot \<or> rKind (caiRecord ca) = caIntermediate) (CAs s))"

definition hasIntermediate :: "store \<Rightarrow> bool" where
  "hasIntermediate s \<longleftrightarrow> (\<exists>r \<in> set (Records s). rKind r = caIntermediate)"

record intermediateViewData =
  ivCAID :: string
  ivCommonName :: string
  ivSignedBy :: string
  ivNotAfter :: time
  ivKeyEnc :: bool
  ivLocked :: bool
  ivAllowSubCALabel :: string

record caViewData =
  cvRoot :: "CertRecord option"
  cvRootEncrypted :: bool
  cvRootLocked :: bool
  cvIntermediates :: "intermediateViewData list"
  cvParentOptions :: "caOptionData list"

text \<open>The paths under the ids of the CAs; the last one of an id stays, and an id without a CA has none.\<close>

definition ca_paths :: "store \<Rightarrow> string \<Rightarrow> string option" where
  "ca_paths s = map_of (rev (map (\<lambda>ca. (caiID ca, pathString (caiPath ca))) (CAs s)))"

definition intermediate_view :: "store \<Rightarrow> CAInfo \<Rightarrow> intermediateViewData" where
  "intermediate_view s ca =
     (let r = caiRecord ca in
      \<lparr>ivCAID = caiID ca, ivCommonName = rCommonName r,
       ivSignedBy = (case ca_paths s (caiParentID ca) of None \<Rightarrow> [] | Some path \<Rightarrow> path),
       ivNotAfter = rNotAfter r, ivKeyEnc = rKeyEnc r, ivLocked = CALocked s (caiID ca),
       ivAllowSubCALabel = (if rAllowSubCA r then ''Yes'' else ''No'')\<rparr>)"

definition caData :: "store \<Rightarrow> caViewData" where
  "caData s =
     (let roots = filter (\<lambda>ca. rKind (caiRecord ca) = caRoot) (CAs s) in
      \<lparr>cvRoot = (if roots = [] then None else Some (caiRecord (last roots))),
       cvRootEncrypted = (roots \<noteq> [] \<and> CAKeyEncrypted s caRoot), cvRootLocked = (roots \<noteq> [] \<and> CALocked s caRoot),
       cvIntermediates = map (intermediate_view s) (filter (\<lambda>ca. rKind (caiRecord ca) = caIntermediate) (CAs s)),
       cvParentOptions = map (\<lambda>ca. caOption s (caiID ca) (pathString (caiPath ca))) (filter caiCanSignSubCA (CAs s))\<rparr>)"

section \<open>The dashboard and the list of certificates\<close>

text \<open>The recursion of the tree is over the CAs: their number and one is enough, as \<open>dashboard_tree\<close> shows.\<close>

definition handleDashboard :: "time \<Rightarrow> store \<Rightarrow> (caNode list option \<times> certCounts)" where
  "handleDashboard now s = (caTree (length (CAs s) + 1) (CAs s) now, countCerts (Records s) now)"

definition template_names :: "CertRecord list \<Rightarrow> string list" where
  "template_names recs =
     sort (remdups (map rTemplateName (filter (\<lambda>r. isLeaf r \<and> rTemplateName r \<noteq> []) recs)))"

definition QueryGet :: "web_request \<Rightarrow> string \<Rightarrow> string" where
  "QueryGet r k = first_value (values_of (wqQuery r) k)"

record certificatesPage =
  cpRows :: "(CertRecord \<times> string) list"
  cpTotal :: nat
  cpFilter :: certFilter
  cpPaths :: "string \<Rightarrow> string option"
  cpIssuers :: "caOptionData list"
  cpTemplates :: "string list"

text \<open>The filter of a query; unknown values mean no filter.\<close>

definition query_filter :: "store \<Rightarrow> (string \<Rightarrow> string) \<Rightarrow> certFilter" where
  "query_filter s q =
     (let only = (\<lambda>P v. if P v then v else []) in
      \<lparr>cfQ = q ''q'', cfStatus = only (\<lambda>v. v \<in> {''valid'', ''expiring'', ''expired''}) (q ''status''),
       cfIssuer = only (ValidCAID s) (q ''issuer''), cfType = only (\<lambda>v. v \<in> {''issued'', ''csr'', ''scep''}) (q ''type''),
       cfTemplate = only (\<lambda>v. v \<in> set (template_names (Records s))) (q ''template'')\<rparr>)"

definition handleCertificates :: "time \<Rightarrow> web_request \<Rightarrow> store \<Rightarrow> certificatesPage" where
  "handleCertificates now r s =
     (let f = query_filter s (QueryGet r); recs = Records s in
      \<lparr>cpRows = filterCerts recs f now, cpTotal = ccTotal (countCerts recs now), cpFilter = f, cpPaths = ca_paths s,
       cpIssuers = getIssueCAs s, cpTemplates = template_names recs\<rparr>)"

section \<open>The list shows what it counts\<close>

text \<open>The certificates that a template, a status or an issuer of the page's own menus selects.\<close>

lemma template_names_iff: "t \<in> set (template_names recs) \<longleftrightarrow> t \<noteq> [] \<and> (\<exists>r \<in> set recs. isLeaf r \<and> rTemplateName r = t)"
  by (auto simp: template_names_def)

lemma set_filterCerts: "(r, st) \<in> set (filterCerts recs f now) \<longleftrightarrow> r \<in> set recs \<and> filter_match f now r \<and> st = certStatus (rNotAfter r) now"
  by (auto simp: filterCerts_def)

text \<open>A certificate of the index is on the page without a query, and every template of the page's menu selects one.\<close>

lemma menu_selects:
  assumes "t \<in> set (cpTemplates (handleCertificates now r s))"
    and "\<And>k. QueryGet r' k = (if k = ''template'' then t else [])"
  shows "cpRows (handleCertificates now r' s) \<noteq> [] \<and> (\<forall>(c, st) \<in> set (cpRows (handleCertificates now r' s)). rTemplateName c = t)"
proof -
  from assms(1) have t: "t \<in> set (template_names (Records s))" by (simp add: handleCertificates_def Let_def)
  then obtain c where c: "c \<in> set (Records s)" "isLeaf c" "rTemplateName c = t" "t \<noteq> []" by (auto simp: template_names_iff)
  have f: "cfQ (query_filter s (QueryGet r')) = []" "cfStatus (query_filter s (QueryGet r')) = []"
      "cfIssuer (query_filter s (QueryGet r')) = []" "cfType (query_filter s (QueryGet r')) = []"
      "cfTemplate (query_filter s (QueryGet r')) = t"
    using t by (simp_all add: query_filter_def Let_def assms(2))
  have "filter_match (query_filter s (QueryGet r')) now c" using c f by (simp add: filter_match_def)
  then have "(c, certStatus (rNotAfter c) now) \<in> set (cpRows (handleCertificates now r' s))"
    using c(1) by (simp add: handleCertificates_def Let_def set_filterCerts)
  moreover have "rTemplateName d = t" if "(d, st) \<in> set (cpRows (handleCertificates now r' s))" for d st
    using that f c(4) by (auto simp: handleCertificates_def Let_def set_filterCerts filter_match_def split: if_splits)
  ultimately show ?thesis by fastforce
qed

end
