(* ===== verification/ScepAdmin.thy ===== *)
theory ScepAdmin
  imports ScepShared Views
begin

text \<open>
  The administration of enrollment, \<open>scep_admin.go\<close>: the form that selects the CA and creates, revokes and deletes challenges, and
  the page that shows a new challenge's password once. The random password, its hash function and the environment that names the
  SCEP listener are arguments.
\<close>

section \<open>The form\<close>

definition is_separator :: "char \<Rightarrow> bool" where
  "is_separator c \<longleftrightarrow> c = CHR '','' \<or> c = LF \<or> c = CR"

fun fields_by :: "(char \<Rightarrow> bool) \<Rightarrow> string \<Rightarrow> string \<Rightarrow> string list" where
  "fields_by sep [] acc = (if acc = [] then [] else [rev acc])"
| "fields_by sep (c # cs) acc =
     (if sep c then (if acc = [] then [] else [rev acc]) @ fields_by sep cs [] else fields_by sep cs (c # acc))"

definition sharedFormList :: "string \<Rightarrow> string list" where
  "sharedFormList text = fields_by is_separator text []"

text \<open>\<open>netip.ParsePrefix\<close>: no zone, no sign and no leading zero of the length.\<close>

definition ParsePrefix :: "string \<Rightarrow> prefix option" where
  "ParsePrefix s =
     (case cut CHR ''/'' (rev s) of
        None \<Rightarrow> None
      | Some (rbits, raddr) \<Rightarrow>
          let bits = rev rbits; ip = rev raddr in
          if CHR ''%'' \<in> set ip then None
          else case ParseAddr ip of
              None \<Rightarrow> None
            | Some a \<Rightarrow>
                if length bits > 1 \<and> \<not> between CHR ''1'' CHR ''9'' (hd bits) then None
                else (case ParseInt bits of
                    None \<Rightarrow> None
                  | Some n \<Rightarrow> if n < 0 \<or> n > int (BitLen a) then None else Some (Prefix a n)))"

definition parseSharedRanges :: "string list \<Rightarrow> prefix list result" where
  "parseSharedRanges items =
     map_all (\<lambda>item. case ParsePrefix item of
         None \<Rightarrow> Inl (''invalid CIDR range '' @ quoted item @ '': use address/length, for example 192.0.2.0/24'')
       | Some p \<Rightarrow> Inr p)
       (filter (\<lambda>item. item \<noteq> []) (map TrimSpace items))"

definition scepFormInt :: "string \<Rightarrow> int result" where
  "scepFormInt s =
     (if s = [] then Inr 0
      else case ParseInt s of
          None \<Rightarrow> Inl ''lifetimes must be positive whole numbers''
        | Some n \<Rightarrow> if n < 1 then Inl ''lifetimes must be positive whole numbers'' else Inr n)"

text \<open>The URLs for devices, the one of the SCEP listener in front; \<open>addr\<close> and \<open>pubport\<close> are its environment, \<open>[]\<close> when unset.\<close>

definition scepURLs :: "string \<Rightarrow> string \<Rightarrow> bool \<Rightarrow> string \<Rightarrow> string list" where
  "scepURLs addr pubport tls host =
     (let own = (case SplitHostPort host of None \<Rightarrow> host | Some (h, _) \<Rightarrow> h);
          port = (if pubport \<noteq> [] then pubport else case SplitHostPort addr of None \<Rightarrow> [] | Some (_, p) \<Rightarrow> p) in
      (if addr \<noteq> [] then [''http://'' @ JoinHostPort own port @ ''/scep''] else []) @
      [(if tls then ''https'' else ''http'') @ ''://'' @ host @ ''/scep''])"

section \<open>The actions\<close>

text \<open>A created challenge is its password, the other actions have none.\<close>

definition create_challenge :: "(string \<Rightarrow> string) \<Rightarrow> time \<Rightarrow> string \<Rightarrow> web_request \<Rightarrow> string sop" where
  "create_challenge H now secret r =
     bindE (liftE (scepFormInt (PostGet r ''days''))) (\<lambda>days.
     bindE (liftE (scepFormInt (PostGet r ''hours''))) (\<lambda>hours.
       new_challenge H now secret (PostGet r ''profile'') (sharedFormList (PostGet r ''sans'')) days hours))"

definition create_shared :: "(string \<Rightarrow> string) \<Rightarrow> time \<Rightarrow> string \<Rightarrow> web_request \<Rightarrow> string sop" where
  "create_shared H now secret r =
     bindE (liftE (scepFormInt (PostGet r ''days''))) (\<lambda>days.
     bindE (liftE (scepFormInt (PostGet r ''expiry''))) (\<lambda>expiry.
     bindE (liftE (parseSharedRanges (sharedFormList (PostGet r ''ranges'')))) (\<lambda>ranges.
       sharedChallenge H now secret (PostGet r ''profile'') ranges (sharedFormList (PostGet r ''suffixes'')) days expiry)))"

definition scep_action :: "(string \<Rightarrow> string) \<Rightarrow> time \<Rightarrow> string \<Rightarrow> web_request \<Rightarrow> string \<Rightarrow> string sop option" where
  "scep_action H now secret r action =
     (let quiet = (\<lambda>m. thenE m (ret [])) in
      if action = ''use'' then Some (quiet (selectCA (PostGet r ''ca'')))
      else if action = ''des'' then Some (quiet (setAllowDES (PostGet r ''allow'' = ''on'')))
      else if action = ''revoke'' then Some (quiet (revoke (PostGet r ''id'')))
      else if action = ''delete'' then Some (quiet (deleteChallenge now (PostGet r ''id'')))
      else if action = ''challenge'' \<and> PostGet r ''kind'' \<noteq> ''shared'' then Some (create_challenge H now secret r)
      else if action = ''challenge'' \<or> action = ''shared-challenge'' then Some (create_shared H now secret r)
      else None)"

section \<open>The page\<close>

record scep_page =
  pgSecret :: string
  pgURLs :: "string list"
  pgCAName :: string
  pgError :: error
  pgState :: "scepState option"
  pgCAs :: "caOptionData list"
  pgProfiles :: "CertTemplate list"

datatype scep_reply = ScepStatus nat | ScepTo string | ScepPage scep_page

text \<open>A CA is offered when it can enroll and its key is unlocked; the error shown is the last one.\<close>

definition scep_offers :: "store \<Rightarrow> caOptionData list" where
  "scep_offers s = filter (\<lambda>d. (case scep_ca s (coCAID d) of Inl _ \<Rightarrow> False | Inr _ \<Rightarrow> \<not> coLocked d)) (getIssueCAs s)"

definition selected_name :: "caOptionData list \<Rightarrow> string \<Rightarrow> string" where
  "selected_name offers ca =
     (let names = map coDisplayPath (filter (\<lambda>d. coCAID d = ca) offers) in if names = [] then [] else last names)"

definition show_scep :: "string list \<Rightarrow> string \<Rightarrow> error \<Rightarrow> store \<Rightarrow> scep_reply \<times> store" where
  "show_scep urls secret e = (\<lambda>s.
     case scep_load s of (loaded, t) \<Rightarrow>
     case LoadTemplates t of (custom, u) \<Rightarrow>
       (ScepPage \<lparr>pgSecret = secret, pgURLs = urls,
          pgCAName = selected_name (scep_offers t) (case loaded of Inl _ \<Rightarrow> [] | Inr st \<Rightarrow> stCA st),
          pgError = (case custom of Inl e' \<Rightarrow> e' | Inr _ \<Rightarrow> (case loaded of Inl e' \<Rightarrow> e' | Inr _ \<Rightarrow> e)),
          pgState = (case loaded of Inl _ \<Rightarrow> None | Inr st \<Rightarrow> Some st),
          pgCAs = scep_offers t,
          pgProfiles = filter (\<lambda>p. serverAuth (tProfile p)) (builtinTemplates @ (case custom of Inl _ \<Rightarrow> [] | Inr ts \<Rightarrow> ts))\<rparr>, u))"

definition handleSCEPAdmin ::
  "string \<times> string \<times> bool \<Rightarrow> (string \<Rightarrow> string) \<Rightarrow> site \<Rightarrow> User option \<Rightarrow> time \<Rightarrow> string \<Rightarrow> web_request \<Rightarrow> string \<Rightarrow> store \<Rightarrow>
     scep_reply \<times> store" where
  "handleSCEPAdmin env H w v now secret r action = (\<lambda>s.
     let show = show_scep (case env of (addr, pubport, tls) \<Rightarrow> scepURLs addr pubport tls (wqHost r)) in
     if \<not> isAdmin w v then (ScepStatus 403, s)
     else if wqMethod r \<noteq> ''POST'' then show [] [] s
     else if \<not> wqParses r then (ScepStatus 400, s)
     else case scep_action H now secret r action of
         None \<Rightarrow> (ScepStatus 404, s)
       | Some m \<Rightarrow>
           (case m s of
              (Inl e, t) \<Rightarrow> show [] e t
            | (Inr x, t) \<Rightarrow>
                if x = [] then
                  (ScepTo (''/admin/scep'' @ (if action = ''revoke'' \<or> action = ''delete'' then ''#challenges'' else [])), t)
                else show x [] t))"

section \<open>A password shown is a password stored\<close>

definition settles :: "('a \<Rightarrow> store \<Rightarrow> bool) \<Rightarrow> 'a sop \<Rightarrow> bool" where
  "settles Q m \<longleftrightarrow> (\<forall>s x t. m s = (Inr x, t) \<longrightarrow> Q x t)"

lemma settlesD: "settles Q m \<Longrightarrow> m s = (Inr x, t) \<Longrightarrow> Q x t"
  by (simp add: settles_def)

lemma settles_bind: "(\<And>x. settles Q (f x)) \<Longrightarrow> settles Q (bindE m f)"
  by (auto simp: settles_def bindE_Inr_iff)

lemma settles_then: "settles Q n \<Longrightarrow> settles Q (thenE m n)"
  by (auto simp: settles_def thenE_Inr_iff)

lemma settles_throw: "settles Q (throw e)"
  by (simp add: settles_def)

lemma settles_if: "(b \<Longrightarrow> settles Q m) \<Longrightarrow> (\<not> b \<Longrightarrow> settles Q n) \<Longrightarrow> settles Q (if b then m else n)"
  by simp

lemma settles_save: "(\<And>t. scep t = st \<Longrightarrow> Q x t) \<Longrightarrow> settles Q (thenE (scep_save st) (ret x))"
  by (auto simp: settles_def thenE_Inr_iff scep_save_def dest: scep_file.save_Inr)

lemmas settles_rules = settles_bind settles_then settles_throw settles_if

text \<open>An unused challenge for one request, or a shared one, of the selected CA, under the hash of a password and not yet expired.\<close>

definition holds_challenge :: "string \<Rightarrow> time \<Rightarrow> scepState \<Rightarrow> bool" where
  "holds_challenge hash now st \<longleftrightarrow>
     (\<exists>c \<in> set (stChallenges st). cHash c = hash \<and> cCA c = stCA st \<and> \<not> cRevoked c \<and> cIssuance c = noIssuance \<and>
        now < cExpires c \<and> cExpires c \<le> now + 168 * hour) \<or>
     (\<exists>c \<in> set (stShared st). hHash c = hash \<and> hCA c = stCA st \<and> \<not> hRevoked c \<and> hIssuances c = [] \<and>
        now < hExpires c \<and> hExpires c \<le> now + 365 * day)"

lemma new_challenge_settles:
  "settles (\<lambda>x s. x = secret \<and> holds_challenge (H secret) now (scep s)) (new_challenge H now secret profile ids days hours0)"
  unfolding new_challenge_def Let_def case_prod_beta
  by (intro settles_bind settles_if settles_throw settles_then settles_save)
    (auto simp: holds_challenge_def time_units noIssuance_def split: if_splits)

lemma sharedChallenge_settles:
  "settles (\<lambda>x s. x = secret \<and> holds_challenge (H secret) now (scep s)) (sharedChallenge H now secret profile ranges sfx days expiry)"
  unfolding sharedChallenge_def Let_def case_prod_beta
  by (intro settles_bind settles_if settles_throw settles_then settles_save)
    (auto simp: holds_challenge_def time_units)

lemma scep_action_settles:
  assumes "scep_action H now secret r action = Some m"
  shows "settles (\<lambda>x s. x = [] \<or> x = secret \<and> holds_challenge (H secret) now (scep s)) m"
proof -
  let ?Q = "\<lambda>x s. x = [] \<or> x = secret \<and> holds_challenge (H secret) now (scep s)"
  have quiet: "settles ?Q (thenE m' (ret []))" for m' :: "unit sop" by (auto simp: settles_def thenE_Inr_iff)
  have weak: "settles (\<lambda>x s. x = secret \<and> holds_challenge (H secret) now (scep s)) m' \<Longrightarrow> settles ?Q m'" for m'
    by (auto simp: settles_def)
  have "settles ?Q (create_challenge H now secret r)" "settles ?Q (create_shared H now secret r)"
    unfolding create_challenge_def create_shared_def
    by (intro settles_bind weak new_challenge_settles sharedChallenge_settles)+
  with assms quiet show ?thesis by (auto simp: scep_action_def Let_def split: if_splits)
qed

lemma show_scep_keeps:
  assumes "show_scep urls x e s = (reply, t)"
  shows "scep t = scep s" and "\<exists>p. reply = ScepPage p \<and> pgSecret p = x"
proof -
  obtain a u where a: "scep_load s = (a, u)" by fastforce
  obtain b u' where b: "LoadTemplates u = (b, u')" by fastforce
  have "preserves (\<lambda>s. scep s = st) LoadTemplates" for st
    unfolding LoadTemplates_def saveTemplates_def Let_def by (intro keeps preserves_io) simp_all
  from preservesD [OF this _ b] have "scep u' = scep u" by simp
  moreover have "scep u = scep s" using scep_file.load_keeps [of scep s] a by (simp add: scep_load_def)
  ultimately show "scep t = scep s" using assms a b by (simp add: show_scep_def)
  from assms a b show "\<exists>p. reply = ScepPage p \<and> pgSecret p = x" by (auto simp: show_scep_def)
qed

text \<open>
  A new enrollment password is shown to an administrator only, and only when its challenge is in the journal: unused, for the
  selected CA, under the hash of exactly this password, and expiring within a week, or a year when it is shared.
\<close>

lemma shown_password_is_stored:
  assumes "handleSCEPAdmin env H w v now secret r action s = (ScepPage p, t)" and "pgSecret p \<noteq> []"
  shows "isAdmin w v \<and> pgSecret p = secret \<and> holds_challenge (H secret) now (scep t)"
proof -
  let ?urls = "case env of (addr, pubport, tls) \<Rightarrow> scepURLs addr pubport tls (wqHost r)"
  from assms have admin: "isAdmin w v" by (auto simp: handleSCEPAdmin_def Let_def split: if_splits)
  have "wqMethod r = ''POST''"
  proof (rule ccontr)
    assume "wqMethod r \<noteq> ''POST''"
    with assms(1) admin have "show_scep ?urls [] [] s = (ScepPage p, t)" by (simp add: handleSCEPAdmin_def Let_def)
    from show_scep_keeps(2) [OF this] assms(2) show False by auto
  qed
  with assms admin obtain m where m: "scep_action H now secret r action = Some m"
    by (auto simp: handleSCEPAdmin_def Let_def split: if_splits option.splits)
  obtain x u where run: "m s = (x, u)" by fastforce
  show ?thesis
  proof (cases x)
    case (Inl e)
    with assms(1) admin \<open>wqMethod r = ''POST''\<close> m run have "show_scep ?urls [] e u = (ScepPage p, t)"
      by (auto simp: handleSCEPAdmin_def Let_def split: if_splits)
    from show_scep_keeps(2) [OF this] assms(2) show ?thesis by auto
  next
    case (Inr y)
    with assms(1) admin \<open>wqMethod r = ''POST''\<close> m run have page: "show_scep ?urls y [] u = (ScepPage p, t)" "y \<noteq> []"
      by (auto simp: handleSCEPAdmin_def Let_def split: if_splits)
    from settlesD [OF scep_action_settles [OF m], of s y u] run Inr page(2)
    have "y = secret" "holds_challenge (H secret) now (scep u)" by auto
    with show_scep_keeps [OF page(1)] admin show ?thesis by auto
  qed
qed

end
