(* ===== verification/PagesExample.thy ===== *)
theory PagesExample
  imports ScepExample ScepAdmin Pages
begin

text \<open>
  The dashboard of a site with two CAs, and the creation of a challenge through its form: the hypotheses of the theorems about pages
  can hold.
\<close>

lemma ex_tree_ids: "distinct (map caIDOf (filter is_ca (index ex_store)))" "length (filter is_ca (index ex_store)) = 2"
  by (simp_all add: ex_store_def is_ca_def caIDOf_def ca_kinds noRecord_def)

lemma ex_tree_length: "length (CAs ex_store) = 2"
  using ex_tree_ids(2) by (simp add: CAs_def Let_def Records_def filter_sort)

lemma ex_tree_root: "\<exists>root \<in> set (CAs ex_store). caiID root = caRoot"
proof -
  have "\<exists>r \<in> set (index ex_store). is_ca r \<and> caIDOf r = caRoot" by (simp add: ex_store_def is_ca_def caIDOf_def noRecord_def)
  then show ?thesis by (auto simp: CAs_def Let_def)
qed

theorem dashboard_tree_witness:
  "\<exists>ns. caTree 3 (CAs ex_store) 0 = Some ns \<and> distinct (map cnInfo ns)"
proof -
  from ex_tree_root obtain root where root: "root \<in> set (CAs ex_store)" "caiID root = caRoot" by blast
  have "length (CAs ex_store) < 3" by (simp add: ex_tree_length)
  from dashboard_tree [OF ex_tree_ids(1) this root] show ?thesis by blast
qed

definition ex_form :: web_request where
  "ex_form = \<lparr>wqMethod = ''POST'', wqPath = ''/admin/scep/challenge'', wqHost = [], wqOrigin = None, wqCookie = None, wqParses = True,
     wqPost = [(''profile'', [''TLS-Server'']), (''sans'', [''r1.lab'']), (''days'', [''90'']), (''hours'', [''24''])],
     wqQuery = [], wqFile = []\<rparr>"

definition ex_site :: site where
  "ex_site = \<lparr>siEnabled = False, siKey = [], siStopped = False\<rparr>"

lemma ex_form_values: "scepFormInt ''90'' = Inr 90" "scepFormInt ''24'' = Inr 24" "sharedFormList ''r1.lab'' = [''r1.lab'']"
  by code_simp+

lemma ex_form_fields: "PostGet ex_form ''profile'' = ''TLS-Server''" "PostGet ex_form ''sans'' = ''r1.lab''"
    "PostGet ex_form ''days'' = ''90''" "PostGet ex_form ''hours'' = ''24''" "PostGet ex_form ''kind'' = []"
  by code_simp+

lemma ex_challenge_created: "create_challenge (\<lambda>s. s) (1000 * day) ''pw'' ex_form ex_store0 = (Inr ''pw'', ex_store)"
  by (simp add: create_challenge_def ex_form_fields ex_form_values ex_create op_simps)

theorem shown_password_is_stored_witness:
  "\<exists>p t. handleSCEPAdmin ([], [], True) (\<lambda>s. s) ex_site None (1000 * day) ''pw'' ex_form ''challenge'' ex_store0 = (ScepPage p, t) \<and>
     pgSecret p = ''pw'' \<and> holds_challenge ''pw'' (1000 * day) (scep t)"
proof -
  let ?urls = "scepURLs [] [] True (wqHost ex_form)"
  obtain p t where page: "show_scep ?urls ''pw'' [] ex_store = (ScepPage p, t)" and secret: "pgSecret p = ''pw''"
    using show_scep_keeps(2) [of ?urls "''pw''" "[]" ex_store] by (metis surj_pair)
  have "scep_action (\<lambda>s. s) (1000 * day) ''pw'' ex_form ''challenge'' = Some (create_challenge (\<lambda>s. s) (1000 * day) ''pw'' ex_form)"
    by (simp add: scep_action_def ex_form_fields)
  with page have run: "handleSCEPAdmin ([], [], True) (\<lambda>s. s) ex_site None (1000 * day) ''pw'' ex_form ''challenge'' ex_store0 = (ScepPage p, t)"
    by (simp add: handleSCEPAdmin_def Let_def isAdmin_def ex_site_def ex_challenge_created) (simp add: ex_form_def)
  from shown_password_is_stored [OF run] secret run show ?thesis by auto
qed

end
