(* ===== verification/Tools.thy ===== *)
theory Tools
  imports Web
begin

text \<open>
  The certificate tools, \<open>tools.go\<close>: what an upload decodes to, the cache of results and their downloads. The parsers of
  x509, PEM, PKCS#12 and ASN.1 are arguments; what is modelled is in which order they are tried and what becomes of their answers.
  The order in which Go visits a map is an argument too.
\<close>

section \<open>Items and parsers\<close>

record toolItem =
  tiKind :: string
  tiLabel :: string
  tiCert :: "xcert option"
  tiCSR :: "csr option"
  tiKey :: "privkey option"
  tiMatch :: int

definition cert_item :: "xcert \<Rightarrow> toolItem" where
  "cert_item c = \<lparr>tiKind = ''Certificate'', tiLabel = CommonName (Subject c), tiCert = Some c, tiCSR = None, tiKey = None, tiMatch = 0\<rparr>"

definition csr_item :: "csr \<Rightarrow> toolItem" where
  "csr_item c = \<lparr>tiKind = ''CSR'', tiLabel = CommonName (csrSubject c), tiCert = None, tiCSR = Some c, tiKey = None, tiMatch = 0\<rparr>"

definition key_item :: "privkey \<Rightarrow> toolItem" where
  "key_item k = \<lparr>tiKind = ''Private key'', tiLabel = [], tiCert = None, tiCSR = None, tiKey = Some k, tiMatch = 0\<rparr>"

text \<open>A PEM block; \<open>pbSealed\<close> is the block read as an encrypted key of the store.\<close>

record pemBlock =
  pbType :: string
  pbBytes :: string
  pbEncrypted :: bool
  pbSealed :: keyblock

record asn1_value =
  avTag :: nat
  avBytes :: string
  avFull :: string

record pfx_view =
  pxVersion :: int
  pxAuthSafe :: asn1_value
  pxMacData :: asn1_value

record mac_view =
  mvOID :: "nat list"
  mvValue :: string
  mvSalt :: string
  mvIterations :: int

text \<open>Each \<open>asn1.Unmarshal\<close> gives the value and the rest of the input.\<close>

record parsers =
  paCert :: "string \<Rightarrow> xcert option"
  paCSR :: "string \<Rightarrow> csr option"
  paPKCS8 :: "string \<Rightarrow> der_key"
  paPKCS1 :: "string \<Rightarrow> privkey option"
  paEC :: "string \<Rightarrow> privkey option"
  paPEM :: "string \<Rightarrow> pemBlock list"
  paDecrypt :: "pemBlock \<Rightarrow> string \<Rightarrow> string option"
  paChain :: "string \<Rightarrow> string \<Rightarrow> (privkey option \<times> xcert option \<times> xcert list) option"
  paTrust :: "string \<Rightarrow> string \<Rightarrow> xcert list option"
  paContent :: "string \<Rightarrow> ((nat list \<times> string) \<times> string) option"
  paInfo :: "string \<Rightarrow> ((nat list \<times> string) \<times> string) option"
  paSigned :: "string \<Rightarrow> (string \<times> string) option"
  paValue :: "string \<Rightarrow> (asn1_value \<times> string) option"
  paPFX :: "string \<Rightarrow> (pfx_view \<times> string) option"
  paMAC :: "string \<Rightarrow> (mac_view \<times> string) option"

definition whole :: "('a \<times> string) option \<Rightarrow> 'a option" where
  "whole v = (case v of None \<Rightarrow> None | Some (x, rest) \<Rightarrow> if rest = [] then Some x else None)"

section \<open>Decoding\<close>

definition oidSignedData :: "nat list" where "oidSignedData = [1, 2, 840, 113549, 1, 7, 2]"
definition oidData :: "nat list" where "oidData = [1, 2, 840, 113549, 1, 7, 1]"

text \<open>The loop over the certificates of a bundle; the fuel is the length of the input, of which each round takes at least a byte.\<close>

fun bundle_certs :: "parsers \<Rightarrow> nat \<Rightarrow> string \<Rightarrow> xcert list result" where
  "bundle_certs P n [] = Inr []"
| "bundle_certs P 0 (c # raw) = Inl ''out of fuel''"
| "bundle_certs P (Suc n) (c # raw) =
     (case paValue P (c # raw) of
        None \<Rightarrow> Inl ''asn1: structure error''
      | Some (v, rest) \<Rightarrow>
          (case paCert P (avFull v) of
             None \<Rightarrow> Inl ''x509: malformed certificate''
           | Some x \<Rightarrow> bindR (bundle_certs P n rest) (\<lambda>xs. Inr (x # xs))))"

definition decodePKCS7Certs :: "parsers \<Rightarrow> string \<Rightarrow> xcert list result" where
  "decodePKCS7Certs P der =
     (case whole (paContent P der) of
        None \<Rightarrow> Inl ''not signedData''
      | Some (oid, content) \<Rightarrow>
          if oid \<noteq> oidSignedData then Inl ''not signedData''
          else (case paSigned P content of
              None \<Rightarrow> Inl ''asn1: structure error''
            | Some (raw, _) \<Rightarrow>
                bindR (bundle_certs P (length raw) raw) (\<lambda>cs. if cs = [] then Inl ''no certs'' else Inr cs)))"

definition decodePEMKey :: "parsers \<Rightarrow> pemBlock \<Rightarrow> string \<Rightarrow> privkey result" where
  "decodePEMKey P b password =
     (if pbType b = encKeyType then unmarshalKey (Some (pbSealed b)) password
      else bindR
        (if \<not> pbEncrypted b then Inr (pbBytes b)
         else if password = [] then Inl ''password required''
         else case paDecrypt P b password of None \<Rightarrow> Inl ''wrong password or invalid encrypted key'' | Some der \<Rightarrow> Inr der) (\<lambda>der.
        if pbType b = ''RSA PRIVATE KEY'' then (case paPKCS1 P der of None \<Rightarrow> Inl ''x509: invalid key'' | Some k \<Rightarrow> Inr k)
        else if pbType b = ''EC PRIVATE KEY'' then (case paEC P der of None \<Rightarrow> Inl ''x509: invalid key'' | Some k \<Rightarrow> Inr k)
        else (case paPKCS8 P der of NotPKCS8 \<Rightarrow> Inl ''x509: invalid key'' | NotSigner \<Rightarrow> Inl ''not a signer'' | PKCS8 k \<Rightarrow> Inr k)))"

definition csr_genuine :: "csr \<Rightarrow> bool" where
  "csr_genuine c \<longleftrightarrow> csrSignedBy c = csrPublicKey c"

definition decode_block :: "parsers \<Rightarrow> string \<Rightarrow> pemBlock \<Rightarrow> toolItem list \<times> string list" where
  "decode_block P password b =
     (if pbType b = ''PKCS7'' then
        (case decodePKCS7Certs P (pbBytes b) of
           Inl e \<Rightarrow> ([], [''Invalid PKCS#7 block: '' @ e])
         | Inr cs \<Rightarrow> (map cert_item cs, []))
      else if pbType b = ''CERTIFICATE'' then
        (case paCert P (pbBytes b) of
           None \<Rightarrow> ([], [''Invalid certificate block: x509: malformed certificate''])
         | Some c \<Rightarrow> ([cert_item c], []))
      else if pbType b = ''CERTIFICATE REQUEST'' \<or> pbType b = ''NEW CERTIFICATE REQUEST'' then
        (case paCSR P (pbBytes b) of
           None \<Rightarrow> ([], [''Invalid CSR block: x509: malformed request''])
         | Some c \<Rightarrow> if \<not> csr_genuine c then ([], [''CSR signature is invalid'']) else ([csr_item c], []))
      else if pbType b \<in> {''PRIVATE KEY'', ''RSA PRIVATE KEY'', ''EC PRIVATE KEY'', encKeyType} then
        (case decodePEMKey P b password of
           Inl e \<Rightarrow> ([], [''Private key block could not be decoded; verify its format and supplied password''])
         | Inr k \<Rightarrow> ([key_item k], []))
      else ([], [''Unsupported PEM block: '' @ pbType b]))"

text \<open>A DER input: the first reading that succeeds, or none.\<close>

definition decode_der_key :: "parsers \<Rightarrow> string \<Rightarrow> (toolItem list \<times> string list) option" where
  "decode_der_key P data =
     (case paPKCS8 P data of
        PKCS8 k \<Rightarrow> Some ([key_item k], [])
      | _ \<Rightarrow>
     (case paPKCS1 P data of
        Some k \<Rightarrow> Some ([key_item k], [])
      | None \<Rightarrow> (case paEC P data of Some k \<Rightarrow> Some ([key_item k], []) | None \<Rightarrow> None)))"

definition decode_der :: "parsers \<Rightarrow> string \<Rightarrow> string \<Rightarrow> (toolItem list \<times> string list) option" where
  "decode_der P data password =
     (case decodePKCS7Certs P data of
        Inr cs \<Rightarrow> Some (map cert_item cs, [])
      | Inl _ \<Rightarrow>
     (case paChain P data password of
        Some (None, _, _) \<Rightarrow> Some ([], [''PKCS#12 private key is not a usable signer.''])
      | Some (Some k, c, cs) \<Rightarrow> Some (key_item k # (case c of None \<Rightarrow> [] | Some x \<Rightarrow> [cert_item x]) @ map cert_item cs, [])
      | None \<Rightarrow>
     (case paTrust P data password of
        Some (c # cs) \<Rightarrow> Some (map cert_item (c # cs), [])
      | _ \<Rightarrow>
     (case paCert P data of
        Some c \<Rightarrow> Some ([cert_item c], [])
      | None \<Rightarrow>
     (case paCSR P data of
        Some c \<Rightarrow> if csr_genuine c then Some ([csr_item c], []) else decode_der_key P data
      | None \<Rightarrow> decode_der_key P data)))))"

definition decodeToolInput :: "parsers \<Rightarrow> string \<Rightarrow> string \<Rightarrow> toolItem list \<times> string list" where
  "decodeToolInput P data password =
     (let candidate = (data \<noteq> [] \<and> ascii (hd data) = 48) in
      case (if candidate then decode_der P data password else None) of
        Some r \<Rightarrow> r
      | None \<Rightarrow>
          let blocks = map (decode_block P password) (paPEM P data);
              items = concat (map fst blocks); warn = concat (map snd blocks) in
          if items = [] \<and> warn = [] then
            ([], [if candidate then ''DER input could not be decoded; if this is PKCS#12, check the supplied password and file format.''
                  else ''Input is not recognized PEM, DER, PKCS#7, or PKCS#12.''])
          else (items, warn))"

text \<open>Whether a PKCS#12 file needs a password, as far as its outer structure tells.\<close>

definition pkcs12PasswordState :: "parsers \<Rightarrow> string \<Rightarrow> string" where
  "pkcs12PasswordState P data =
     (if paChain P data [] \<noteq> None then ''not-required''
      else if (case paTrust P data [] of Some (c # cs) \<Rightarrow> True | _ \<Rightarrow> False) then ''not-required''
      else case whole (paPFX P data) of
          None \<Rightarrow> ''unknown''
        | Some pfx \<Rightarrow>
            if pxVersion pfx \<noteq> 3 \<or> avTag (pxAuthSafe pfx) \<noteq> 16 \<or> avTag (pxMacData pfx) \<noteq> 16 then ''unknown''
            else (case whole (paInfo P (avFull (pxAuthSafe pfx))) of
                None \<Rightarrow> ''unknown''
              | Some (oid, content) \<Rightarrow>
                  if oid \<noteq> oidData then ''unknown''
                  else (case whole (paValue P content) of
                      None \<Rightarrow> ''unknown''
                    | Some octets \<Rightarrow>
                        if avTag octets \<noteq> 4 then ''unknown''
                        else (case whole (paValue P (avBytes octets)) of
                            None \<Rightarrow> ''unknown''
                          | Some safe \<Rightarrow>
                              if avTag safe \<noteq> 16 then ''unknown''
                              else (case whole (paMAC P (avFull (pxMacData pfx))) of
                                  None \<Rightarrow> ''unknown''
                                | Some m \<Rightarrow>
                                    if mvOID m = [] \<or> mvValue m = [] \<or> mvSalt m = [] \<or> mvIterations m < 1 then ''unknown''
                                    else ''required'')))))"

text \<open>The first certificate whose key is the public one.\<close>

fun first_match :: "privkey \<Rightarrow> toolItem list \<Rightarrow> nat \<Rightarrow> int" where
  "first_match k [] j = - 1"
| "first_match k (it # items) j =
     (case tiCert it of
        Some c \<Rightarrow> if PublicKey c = public k then int j else first_match k items (j + 1)
      | None \<Rightarrow> first_match k items (j + 1))"

definition match_items :: "toolItem list \<Rightarrow> toolItem list" where
  "match_items items =
     map (\<lambda>it. it\<lparr>tiMatch := (case tiKey it of None \<Rightarrow> - 1 | Some k \<Rightarrow> first_match k items 0)\<rparr>) items"

section \<open>The cache of results\<close>

record toolEntry =
  teOwner :: string
  teSession :: string
  teExpires :: time
  teItems :: "toolItem list"
  teWarnings :: "string list"

type_synonym cache = "(string \<times> toolEntry) list"

text \<open>
  A request to the tools: the form of a multipart body with its files per field (\<open>None\<close>: one that cannot be read), and the
  header \<open>Sec-Fetch-Site\<close>. \<open>tqOrigin\<close> says that there is a header \<open>Origin\<close>.
\<close>

record tools_request = web_request +
  tqFiles :: "(string \<times> string option list) list"
  tqOrigin :: bool
  tqFetchSite :: string

definition toolsMaxUpload :: nat where "toolsMaxUpload = 8388608"
definition toolsTTL :: time where "toolsTTL = 10 * minute"
definition toolsMaxEntries :: nat where "toolsMaxEntries = 64"

definition toolOwner :: "site \<Rightarrow> User option \<Rightarrow> string" where
  "toolOwner w v = (if \<not> siEnabled w then ''admin:disabled'' else case v of None \<Rightarrow> [] | Some u \<Rightarrow> uUsername u)"

definition ownerFromRequest :: "User option \<Rightarrow> string" where
  "ownerFromRequest v = (case v of Some u \<Rightarrow> uUsername u | None \<Rightarrow> ''admin:disabled'')"

definition validToolsOrigin :: "'x tools_request_scheme \<Rightarrow> bool" where
  "validToolsOrigin r =
     (if tqFetchSite r = ''cross-site'' then False
      else if tqOrigin r then
        (case wqOrigin r of
           None \<Rightarrow> False
         | Some u \<Rightarrow> ogHost u \<noteq> [] \<and> EqualFold (ogHost u) (wqHost r) \<and> (ogScheme u = ''http'' \<or> ogScheme u = ''https''))
      else tqFetchSite r = ''same-origin'' \<or> tqFetchSite r = ''same-site'')"

definition session_value :: "'x web_request_scheme \<Rightarrow> string" where
  "session_value r = (case wqCookie r of None \<Rightarrow> [] | Some c \<Rightarrow> c)"

text \<open>Expired entries are dropped, then one more when the cache is still full: the one that the map's iteration meets first.\<close>

definition evict :: "nat \<Rightarrow> time \<Rightarrow> cache \<Rightarrow> cache" where
  "evict pick now cs =
     (let live = filter (\<lambda>(_, e). now < teExpires e) cs in
      if length live \<ge> toolsMaxEntries then take (pick mod length live) live @ drop (pick mod length live + 1) live else live)"

definition store_entry :: "string \<Rightarrow> toolEntry \<Rightarrow> cache \<Rightarrow> cache" where
  "store_entry k e cs = (k, e) # filter (\<lambda>(j, _). j \<noteq> k) cs"

definition new_entry :: "site \<Rightarrow> User option \<Rightarrow> time \<Rightarrow> 'x web_request_scheme \<Rightarrow> toolItem list \<times> string list \<Rightarrow> toolEntry" where
  "new_entry w v now r decoded =
     \<lparr>teOwner = toolOwner w v, teSession = (if siEnabled w then session_value r else []), teExpires = now + toolsTTL,
      teItems = match_items (fst decoded), teWarnings = snd decoded\<rparr>"

datatype tool_page = ToolStatus nat | ToolError string | ToolResult string

text \<open>The upload: pasted text or exactly one file, within the limits.\<close>

definition tool_upload :: "tools_request \<Rightarrow> (string \<Rightarrow> tool_page) \<Rightarrow> (string \<Rightarrow> 'a) \<Rightarrow> (tool_page \<Rightarrow> 'a) \<Rightarrow> 'a" where
  "tool_upload r note onok onerr =
     (let pasted = FormValue (web_request.truncate r) ''pem''; data = TrimSpace pasted;
          files = concat (map snd (tqFiles r)) in
      if \<not> wqParses r then onerr (ToolStatus 400)
      else if length pasted > toolsMaxUpload then onerr (ToolStatus 400)
      else if length files > 1 then onerr (ToolStatus 400)
      else case files of
          [] \<Rightarrow> if data = [] then onerr (note ''Paste PEM or upload one file.'') else onok data
        | f # _ \<Rightarrow>
            if data \<noteq> [] then onerr (ToolStatus 400)
            else (case f of
                None \<Rightarrow> onerr (ToolStatus 400)
              | Some content \<Rightarrow>
                  if length content > toolsMaxUpload then onerr (ToolStatus 400)
                  else if content = [] then onerr (note ''Paste PEM or upload one file.'')
                  else onok content))"

text \<open>The check of an upload's password keeps nothing: the file must be the only one, in the field \<open>file\<close>.\<close>

definition handleToolsPasswordCheck :: "parsers \<Rightarrow> tools_request \<Rightarrow> nat + string" where
  "handleToolsPasswordCheck P r =
     (if \<not> validToolsOrigin r then Inl 403
      else if \<not> wqParses r then Inl 400
      else case tqFiles r of
          [(field, [f])] \<Rightarrow>
            if field \<noteq> ''file'' then Inl 400
            else (case f of
                None \<Rightarrow> Inl 400
              | Some content \<Rightarrow> if length content > toolsMaxUpload then Inl 400 else Inr (pkcs12PasswordState P content))
        | _ \<Rightarrow> Inl 400)"

definition undecoded :: "parsers \<Rightarrow> string \<Rightarrow> string \<Rightarrow> string list \<Rightarrow> string" where
  "undecoded P data password warn =
     (if pkcs12PasswordState P data = ''required'' \<and> TrimSpace password = []
      then ''This PKCS#12 file is password-protected. Enter its password and try again.''
      else ''No supported certificates, CSRs, or private keys were found. Check the input format and password.'' @
        (if warn \<noteq> [] then '' '' @ Join warn '' '' else []))"

definition handleToolsDecode ::
  "parsers \<Rightarrow> site \<Rightarrow> User option \<Rightarrow> time \<Rightarrow> string option \<Rightarrow> nat \<Rightarrow> tools_request \<Rightarrow> cache \<Rightarrow> tool_page \<times> cache" where
  "handleToolsDecode P w v now token pick r cs =
     (if \<not> validToolsOrigin r then (ToolStatus 403, cs)
      else tool_upload r ToolError (\<lambda>data.
        let password = FormValue (web_request.truncate r) ''password'';
            decoded = decodeToolInput P data password in
        if fst decoded = [] then (ToolError (undecoded P data password (snd decoded)), cs)
        else case token of
            None \<Rightarrow> (ToolStatus 500, cs)
          | Some k \<Rightarrow> (ToolResult k, store_entry k (new_entry w v now r decoded) (evict pick now cs)))
        (\<lambda>page. (page, cs)))"

text \<open>The entry of a token, for its owner in its session while it lasts; an expired one is dropped.\<close>

definition toolEntryFor :: "User option \<Rightarrow> time \<Rightarrow> 'x web_request_scheme \<Rightarrow> string \<Rightarrow> cache \<Rightarrow> toolEntry option \<times> cache" where
  "toolEntryFor v now r k cs =
     (case map_of cs k of
        None \<Rightarrow> (None, cs)
      | Some e \<Rightarrow>
          if \<not> now < teExpires e then (None, filter (\<lambda>(j, _). j \<noteq> k) cs)
          else if teOwner e \<noteq> ownerFromRequest v \<or> (teSession e \<noteq> [] \<and> teSession e \<noteq> session_value r) then (None, cs)
          else (Some e, cs))"

definition handleToolsResult :: "User option \<Rightarrow> time \<Rightarrow> 'x web_request_scheme \<Rightarrow> string \<Rightarrow> cache \<Rightarrow> toolEntry option \<times> cache" where
  "handleToolsResult v now r k cs = toolEntryFor v now r k cs"

section \<open>Downloads of a result\<close>

datatype tool_file =
    CertPEM xcert
  | CertDER xcert
  | CSRPEM csr
  | CSRDER csr
  | PlainKeyPEM privkey
  | PlainKeyDER privkey
  | CertBundle "xcert list"
  | CertP7 "xcert list"
  | KeyP12 privkey xcert "xcert list" string

datatype tool_reply = Denied nat | ToolFile string tool_file

text \<open>
  The chain of a PKCS#12 file, as positions among the items: each certificate is followed by the first one, other than itself,
  whose subject is its issuer. \<open>issued c d\<close> compares the names.
\<close>

fun next_cert :: "(xcert \<Rightarrow> xcert \<Rightarrow> bool) \<Rightarrow> xcert \<Rightarrow> nat \<Rightarrow> toolItem list \<Rightarrow> nat \<Rightarrow> nat option" where
  "next_cert issued cur i [] j = None"
| "next_cert issued cur i (it # items) j =
     (case tiCert it of
        Some d \<Rightarrow> if j \<noteq> i \<and> issued cur d then Some j else next_cert issued cur i items (j + 1)
      | None \<Rightarrow> next_cert issued cur i items (j + 1))"

fun link_chain :: "(xcert \<Rightarrow> xcert \<Rightarrow> bool) \<Rightarrow> toolItem list \<Rightarrow> nat \<Rightarrow> nat \<Rightarrow> nat list" where
  "link_chain issued items 0 i = []"
| "link_chain issued items (Suc n) i =
     (case tiCert (items ! i) of
        None \<Rightarrow> []
      | Some c \<Rightarrow> (case next_cert issued c i items 0 of None \<Rightarrow> [] | Some j \<Rightarrow> j # link_chain issued items n j))"

definition item_certs :: "toolItem list \<Rightarrow> nat list \<Rightarrow> xcert list" where
  "item_certs items js = List.map_filter (\<lambda>j. tiCert (items ! j)) js"

definition result_certs :: "toolItem list \<Rightarrow> xcert list" where
  "result_certs items = List.map_filter tiCert items"

text \<open>The number that \<open>strconv.Atoi\<close> returns, with or without an error: the nearest one when it is out of range, else 0.\<close>

definition Atoi_value :: "string \<Rightarrow> int" where
  "Atoi_value s =
     (case ParseInt s of
        Some n \<Rightarrow> n
      | None \<Rightarrow>
          let ds = (case s of c # cs \<Rightarrow> if c = CHR ''-'' \<or> c = CHR ''+'' then cs else s | [] \<Rightarrow> []) in
          if ds = [] \<or> \<not> list_all is_digit ds then 0 else if hd s = CHR ''-'' then - (2 ^ 63) else 2 ^ 63 - 1)"

definition tool_download ::
  "(xcert \<Rightarrow> xcert \<Rightarrow> bool) \<Rightarrow> (privkey \<Rightarrow> xcert \<Rightarrow> xcert list \<Rightarrow> string \<Rightarrow> bool) \<Rightarrow> bool \<Rightarrow> web_request \<Rightarrow> toolEntry \<Rightarrow> tool_reply" where
  "tool_download issued p12_ok admin r e =
     (let what = FormValue r ''what''; items = teItems e;
          n = Atoi_value (FormValue r ''item'') in
      if \<not> wqParses r then Denied 400
      else if what \<noteq> ''bundle'' \<and> what \<noteq> ''p7b'' \<and> (n < 0 \<or> n \<ge> int (length items)) then Denied 400
      else if what = ''pem'' \<or> what = ''der'' then
        (let it = items ! nat n in
         case tiCert it of
           Some c \<Rightarrow> if what = ''pem'' then ToolFile ''certificate.pem'' (CertPEM c) else ToolFile ''certificate.der'' (CertDER c)
         | None \<Rightarrow>
        (case tiCSR it of
           Some c \<Rightarrow> if what = ''pem'' then ToolFile ''request.pem'' (CSRPEM c) else ToolFile ''request.der'' (CSRDER c)
         | None \<Rightarrow>
        (case tiKey it of
           Some k \<Rightarrow> if \<not> admin then Denied 404
             else if what = ''pem'' then ToolFile ''key.pem'' (PlainKeyPEM k) else ToolFile ''key.der'' (PlainKeyDER k)
         | None \<Rightarrow> Denied 404)))
      else if what = ''bundle'' then ToolFile ''certificates.pem'' (CertBundle (result_certs items))
      else if what = ''p7b'' then ToolFile ''certificates.p7b'' (CertP7 (result_certs items))
      else if what = ''p12'' then
        (let it = items ! nat n; password = FormValue r ''password'' in
         case tiKey it of
           None \<Rightarrow> Denied 400
         | Some k \<Rightarrow>
             if \<not> admin \<or> tiMatch it < 0 \<or> TrimSpace password = [] then Denied 400
             else let i = nat (tiMatch it) in
               (case tiCert (items ! i) of
                  None \<Rightarrow> Denied 500
                | Some leaf \<Rightarrow>
                    let chain = item_certs items (link_chain issued items (length items) i) in
                    if p12_ok k leaf chain password then ToolFile ''certificate.p12'' (KeyP12 k leaf chain password) else Denied 500))
      else Denied 400)"

definition handleToolsDownload ::
  "(xcert \<Rightarrow> xcert \<Rightarrow> bool) \<Rightarrow> (privkey \<Rightarrow> xcert \<Rightarrow> xcert list \<Rightarrow> string \<Rightarrow> bool) \<Rightarrow> site \<Rightarrow> User option \<Rightarrow> time \<Rightarrow> tools_request \<Rightarrow> string \<Rightarrow>
     cache \<Rightarrow> tool_reply \<times> cache" where
  "handleToolsDownload issued p12_ok w v now r k cs =
     (if \<not> validToolsOrigin r then (Denied 403, cs)
      else case toolEntryFor v now r k cs of
          (None, cs') \<Rightarrow> (Denied 404, cs')
        | (Some e, cs') \<Rightarrow> (tool_download issued p12_ok (isAdmin w v) (web_request.truncate r) e, cs'))"

section \<open>Who gets a result\<close>

text \<open>The caches that can arise, with the uploads that were stored: token, time, user and request.\<close>

inductive tools_reach :: "parsers \<Rightarrow> site \<Rightarrow> (string \<times> time \<times> User option \<times> tools_request) list \<Rightarrow> cache \<Rightarrow> bool" for P w where
  start: "tools_reach P w [] []"
| decode: "tools_reach P w hist cs \<Longrightarrow> handleToolsDecode P w v now token pick r cs = (page, cs') \<Longrightarrow>
    tools_reach P w (case page of ToolResult k \<Rightarrow> (k, now, v, r) # hist | _ \<Rightarrow> hist) cs'"
| read: "tools_reach P w hist cs \<Longrightarrow> toolEntryFor v now (r :: tools_request) k cs = (x, cs') \<Longrightarrow> tools_reach P w hist cs'"

definition uploaded :: "parsers \<Rightarrow> site \<Rightarrow> (string \<times> time \<times> User option \<times> tools_request) list \<Rightarrow> string \<Rightarrow> toolEntry \<Rightarrow> bool" where
  "uploaded P w hist k e \<longleftrightarrow>
     (\<exists>t u q data. (k, t, u, q) \<in> set hist \<and> e = new_entry w u t q (decodeToolInput P data (FormValue (web_request.truncate q) ''password'')))"

definition cache_ok :: "parsers \<Rightarrow> site \<Rightarrow> (string \<times> time \<times> User option \<times> tools_request) list \<Rightarrow> cache \<Rightarrow> bool" where
  "cache_ok P w hist cs \<longleftrightarrow> length cs \<le> toolsMaxEntries \<and> (\<forall>(k, e) \<in> set cs. uploaded P w hist k e)"

lemma cache_ok_subset: "cache_ok P w hist cs \<Longrightarrow> set ds \<subseteq> set cs \<Longrightarrow> length ds \<le> length cs \<Longrightarrow> cache_ok P w hist ds"
  by (auto simp: cache_ok_def)

lemma uploaded_more: "uploaded P w hist k e \<Longrightarrow> uploaded P w (x # hist) k e"
  by (auto simp: uploaded_def)

lemma evict_room:
  assumes "length cs \<le> toolsMaxEntries"
  shows "set (evict pick now cs) \<subseteq> set cs" and "length (evict pick now cs) < toolsMaxEntries"
proof -
  let ?live = "filter (\<lambda>(_, e). now < teExpires e) cs"
  have len: "length ?live \<le> toolsMaxEntries" using assms length_filter_le [of _ cs] order_trans by blast
  show "set (evict pick now cs) \<subseteq> set cs"
    by (auto simp: evict_def Let_def dest!: in_set_takeD in_set_dropD)
  show "length (evict pick now cs) < toolsMaxEntries"
  proof (cases "toolsMaxEntries \<le> length ?live")
    case True
    with len have eq: "length ?live = toolsMaxEntries" by simp
    have "pick mod toolsMaxEntries < toolsMaxEntries" by (simp add: toolsMaxEntries_def)
    then show ?thesis unfolding evict_def Let_def eq using eq by simp
  next
    case False
    then show ?thesis by (simp add: evict_def Let_def)
  qed
qed

lemma tool_upload_cases:
  "(\<exists>page. tool_upload r note onok onerr = onerr page \<and> (\<forall>k. page = ToolResult k \<longrightarrow> (\<exists>m. note m = ToolResult k))) \<or>
   (\<exists>data. tool_upload r note onok onerr = onok data)"
  by (auto simp: tool_upload_def Let_def split: list.split option.split)

lemma decode_cases:
  assumes "handleToolsDecode P w v now token pick r cs = (page, cs')"
  obtains "cs' = cs" "\<And>k. page \<noteq> ToolResult k"
  | k data where "page = ToolResult k"
      "cs' = store_entry k (new_entry w v now r (decodeToolInput P data (FormValue (web_request.truncate r) ''password''))) (evict pick now cs)"
proof -
  let ?ok = "\<lambda>data. let password = FormValue (web_request.truncate r) ''password''; decoded = decodeToolInput P data password in
        if fst decoded = [] then (ToolError (undecoded P data password (snd decoded)), cs)
        else case token of None \<Rightarrow> (ToolStatus 500, cs)
          | Some k \<Rightarrow> (ToolResult k, store_entry k (new_entry w v now r decoded) (evict pick now cs))"
  show thesis
  proof (cases "validToolsOrigin r")
    case False
    with assms show ?thesis by (intro that(1)) (auto simp: handleToolsDecode_def)
  next
    case True
    with assms have run: "tool_upload r ToolError ?ok (\<lambda>page. (page, cs)) = (page, cs')" by (simp add: handleToolsDecode_def)
    from tool_upload_cases [of r ToolError ?ok "\<lambda>page. (page, cs)"] show ?thesis
    proof (elim disjE exE conjE)
      fix p assume "tool_upload r ToolError ?ok (\<lambda>page. (page, cs)) = (p, cs)"
        "\<forall>k. p = ToolResult k \<longrightarrow> (\<exists>m. ToolError m = ToolResult k)"
      with run show ?thesis by (intro that(1)) auto
    next
      fix data assume eq: "tool_upload r ToolError ?ok (\<lambda>page. (page, cs)) = ?ok data"
      from eq [symmetric] run have "?ok data = (page, cs')" by (rule trans)
      then show ?thesis using that by (auto simp: Let_def split: if_splits option.splits)
    qed
  qed
qed

lemma reach_ok: "tools_reach P w hist cs \<Longrightarrow> cache_ok P w hist cs"
proof (induction rule: tools_reach.induct)
  case start
  show ?case by (simp add: cache_ok_def)
next
  case (decode hist cs v now token pick r page cs')
  from decode.hyps(2) show ?case
  proof (rule decode_cases)
    assume "cs' = cs" "\<And>k. page \<noteq> ToolResult k"
    with decode.IH show ?thesis by (simp split: tool_page.split)
  next
    fix k data
    let ?e = "new_entry w v now r (decodeToolInput P data (FormValue (web_request.truncate r) ''password''))"
    assume page: "page = ToolResult k" and cs': "cs' = store_entry k ?e (evict pick now cs)"
    from decode.IH have ok: "length cs \<le> toolsMaxEntries" "\<forall>(j, e) \<in> set cs. uploaded P w hist j e" by (auto simp: cache_ok_def)
    have "length cs' \<le> toolsMaxEntries"
      using le_less_trans [OF length_filter_le evict_room(2) [OF ok(1), of pick now]]
      by (simp add: cs' store_entry_def Suc_le_eq)
    moreover have "uploaded P w ((k, now, v, r) # hist) k ?e" by (auto simp: uploaded_def)
    moreover have "uploaded P w ((k, now, v, r) # hist) j e" if "(j, e) \<in> set (evict pick now cs)" for j e
      using that evict_room(1) [OF ok(1), of pick now] ok(2) by (fastforce intro: uploaded_more)
    ultimately show ?thesis by (auto simp: page cache_ok_def cs' store_entry_def)
  qed
next
  case (read hist cs v now r k x cs')
  from read.hyps(2) have "set cs' \<subseteq> set cs \<and> length cs' \<le> length cs"
    by (auto simp: toolEntryFor_def split: option.splits if_splits)
  with read.IH show ?case by (blast intro: cache_ok_subset)
qed

text \<open>
  C29. A result of the tools is private and short-lived: whatever was uploaded before and whatever is asked for, a token gives its
  result only to the user who uploaded it, within the session it was uploaded in, less than ten minutes later, and exactly
  what the upload decodes to; the cache never holds more than 64 results.
\<close>

theorem tool_results_private:
  assumes "tools_reach P w hist cs" and "toolEntryFor v now r k cs = (Some e, cs')"
  shows "length cs \<le> 64 \<and> (\<exists>t u q data. (k, t, u, q) \<in> set hist \<and> now < t + 10 * minute \<and>
    teItems e = match_items (fst (decodeToolInput P data (FormValue (web_request.truncate q) ''password''))) \<and>
    toolOwner w u = ownerFromRequest v \<and> (siEnabled w \<and> session_value q \<noteq> [] \<longrightarrow> session_value r = session_value q))"
proof -
  from assms(2) have e: "map_of cs k = Some e" "now < teExpires e" "teOwner e = ownerFromRequest v"
      "teSession e \<noteq> [] \<longrightarrow> teSession e = session_value r"
    by (auto simp: toolEntryFor_def split: option.splits if_splits)
  from reach_ok [OF assms(1)] map_of_SomeD [OF e(1)] have "uploaded P w hist k e" "length cs \<le> 64"
    by (auto simp: cache_ok_def toolsMaxEntries_def)
  then obtain t u q data where q: "(k, t, u, q) \<in> set hist"
    "e = new_entry w u t q (decodeToolInput P data (FormValue (web_request.truncate q) ''password''))" by (auto simp: uploaded_def)
  from e(2-4) have "now < t + 10 * minute" "toolOwner w u = ownerFromRequest v"
      "siEnabled w \<and> session_value q \<noteq> [] \<longrightarrow> session_value r = session_value q"
    unfolding q(2) by (simp_all add: new_entry_def toolsTTL_def)
  then show ?thesis using \<open>length cs \<le> 64\<close> q by (auto simp: new_entry_def)
qed

section \<open>Private keys and bundles\<close>

lemma nth_shift: "Suc j \<le> m \<Longrightarrow> (x # xs) ! (m - j) = xs ! (m - Suc j)"
  by (metis Suc_diff_Suc Suc_le_lessD nth_Cons_Suc)

lemma first_match_certificate:
  "first_match k items j = int m \<Longrightarrow> j \<le> m \<and> m < j + length items \<and> (\<exists>c. tiCert (items ! (m - j)) = Some c \<and> PublicKey c = public k)"
proof (induction items arbitrary: j)
  case (Cons it items)
  show ?case
  proof (cases "\<exists>c. tiCert it = Some c \<and> PublicKey c = public k")
    case True
    with Cons.prems show ?thesis by (auto split: option.splits)
  next
    case False
    with Cons.prems have "first_match k items (j + 1) = int m" by (auto split: option.splits if_splits)
    from Cons.IH [OF this] show ?thesis by (auto simp: nth_shift)
  qed
qed simp

definition matched :: "toolItem list \<Rightarrow> bool" where
  "matched items \<longleftrightarrow> (\<forall>it \<in> set items. \<forall>k. tiKey it = Some k \<longrightarrow> 0 \<le> tiMatch it \<longrightarrow>
     nat (tiMatch it) < length items \<and> (\<exists>c. tiCert (items ! nat (tiMatch it)) = Some c \<and> PublicKey c = public k))"

lemma match_items_matched: "matched (match_items items)"
proof -
  have "nat (tiMatch it) < length (match_items items) \<and>
      (\<exists>c. tiCert (match_items items ! nat (tiMatch it)) = Some c \<and> PublicKey c = public k)"
    if it: "it \<in> set (match_items items)" "tiKey it = Some k" "0 \<le> tiMatch it" for it k
  proof -
    from it have "tiMatch it = first_match k items 0" by (auto simp: match_items_def)
    with it(3) have "first_match k items 0 = int (nat (tiMatch it))" by simp
    from first_match_certificate [OF this] show ?thesis by (auto simp: match_items_def)
  qed
  then show ?thesis by (simp add: matched_def)
qed

text \<open>Each certificate of a chain names the next one as its issuer.\<close>

fun linked :: "(xcert \<Rightarrow> xcert \<Rightarrow> bool) \<Rightarrow> xcert list \<Rightarrow> bool" where
  "linked issued (c # d # cs) = (issued c d \<and> linked issued (d # cs))"
| "linked issued _ = True"

lemma next_cert_Some:
  "next_cert issued cur i items j = Some m \<Longrightarrow> j \<le> m \<and> m < j + length items \<and> m \<noteq> i \<and> (\<exists>d. tiCert (items ! (m - j)) = Some d \<and> issued cur d)"
proof (induction items arbitrary: j)
  case (Cons it items)
  show ?case
  proof (cases "\<exists>d. tiCert it = Some d \<and> j \<noteq> i \<and> issued cur d")
    case True
    with Cons.prems show ?thesis by auto
  next
    case False
    with Cons.prems have "next_cert issued cur i items (j + 1) = Some m" by (auto split: option.splits if_splits)
    from Cons.IH [OF this] show ?thesis by (auto simp: nth_shift)
  qed
qed simp

lemma item_certs_Cons: "tiCert (items ! j) = Some d \<Longrightarrow> item_certs items (j # js) = d # item_certs items js"
  by (simp add: item_certs_def map_filter_simps)

lemma link_chain_linked:
  "tiCert (items ! i) = Some c \<Longrightarrow> linked issued (c # item_certs items (link_chain issued items n i)) \<and>
     length (item_certs items (link_chain issued items n i)) \<le> n"
proof (induction n arbitrary: i c)
  case 0
  then show ?case by (simp add: item_certs_def map_filter_simps)
next
  case (Suc n)
  show ?case
  proof (cases "next_cert issued c i items 0")
    case None
    with Suc.prems show ?thesis by (simp add: item_certs_def map_filter_simps)
  next
    case (Some j)
    from next_cert_Some [OF Some] obtain d where d: "tiCert (items ! j) = Some d" "issued c d" by auto
    with Some Suc.prems Suc.IH [OF d(1)] show ?thesis by (simp add: item_certs_Cons [OF d(1)])
  qed
qed

fun has_key :: "tool_file \<Rightarrow> bool" where
  "has_key (PlainKeyPEM _) = True"
| "has_key (PlainKeyDER _) = True"
| "has_key (KeyP12 _ _ _ _) = True"
| "has_key _ = False"

lemma tool_download_key:
  assumes "tool_download issued p12_ok admin r e = ToolFile fn f" "has_key f"
  shows "admin"
  using assms by (auto simp: tool_download_def Let_def split: if_splits option.splits)

lemma tool_download_p12:
  assumes "tool_download issued p12_ok admin r e = ToolFile fn (KeyP12 k leaf chain pw)" "matched (teItems e)"
  shows "PublicKey leaf = public k \<and> linked issued (leaf # chain) \<and> length chain \<le> length (teItems e) \<and> TrimSpace pw \<noteq> []"
proof -
  let ?n = "Atoi_value (FormValue r ''item'')"
  let ?it = "teItems e ! nat ?n"
  from assms(1) have n: "\<not> (?n < 0 \<or> ?n \<ge> int (length (teItems e)))" and k: "tiKey ?it = Some k" and pw: "TrimSpace pw \<noteq> []"
    and m: "0 \<le> tiMatch ?it" and leaf: "tiCert (teItems e ! nat (tiMatch ?it)) = Some leaf"
    and chain: "chain = item_certs (teItems e) (link_chain issued (teItems e) (length (teItems e)) (nat (tiMatch ?it)))"
    by (auto simp: tool_download_def Let_def split: if_splits option.splits)
  from n have "?it \<in> set (teItems e)" by (intro nth_mem) auto
  with assms(2) k m leaf have "PublicKey leaf = public k" by (auto simp: matched_def)
  with link_chain_linked [OF leaf, of issued "length (teItems e)"] chain pw show ?thesis by simp
qed

text \<open>
  C30. What a result gives away: only an administrator gets a file with a private key, and a PKCS#12 file holds the key with the
  certificate of exactly its public key, under a password that is not blank, followed by certificates each of which is named as the
  issuer of the one before it, never more of them than the result has items.
\<close>

theorem tool_keys_need_admin:
  assumes "tools_reach P w hist cs" and "handleToolsDownload issued p12_ok w v now r k cs = (ToolFile fn f, cs')"
  shows "(has_key f \<longrightarrow> isAdmin w v) \<and>
    (\<forall>key leaf chain pw. f = KeyP12 key leaf chain pw \<longrightarrow>
      PublicKey leaf = public key \<and> TrimSpace pw \<noteq> [] \<and> linked issued (leaf # chain) \<and>
      (\<exists>e. toolEntryFor v now r k cs = (Some e, cs') \<and> length chain \<le> length (teItems e)))"
proof -
  from assms(2) obtain e where e: "toolEntryFor v now r k cs = (Some e, cs')"
    and f: "tool_download issued p12_ok (isAdmin w v) (web_request.truncate r) e = ToolFile fn f"
    by (auto simp: handleToolsDownload_def split: if_splits prod.splits option.splits)
  from e have "map_of cs k = Some e" by (auto simp: toolEntryFor_def split: option.splits if_splits)
  with reach_ok [OF assms(1)] have "uploaded P w hist k e" by (auto simp: cache_ok_def dest: map_of_SomeD)
  then have "matched (teItems e)" by (auto simp: uploaded_def new_entry_def match_items_matched)
  with f e show ?thesis using tool_download_key [OF f] tool_download_p12 by blast
qed

section \<open>An example\<close>

definition tool_cert :: xcert where
  "tool_cert = noCert\<lparr>Subject := subject ''tool'' [] [], PublicKey := OtherKey 7\<rparr>"

text \<open>Parsers that know one text: a certificate and its key in PEM.\<close>

definition tool_block :: "string \<Rightarrow> pemBlock" where
  "tool_block t = \<lparr>pbType = t, pbBytes = ''x'', pbEncrypted = False,
     pbSealed = \<lparr>kType = [], kHeaders = [], kSalt = [], kNonce = [], kPlain = NotPKCS8, kCipher = TooShort\<rparr>\<rparr>"

definition tool_parsers :: parsers where
  "tool_parsers = \<lparr>paCert = (\<lambda>_. Some tool_cert), paCSR = (\<lambda>_. None), paPKCS8 = (\<lambda>_. PKCS8 (Private (OtherKey 7))),
     paPKCS1 = (\<lambda>_. None), paEC = (\<lambda>_. None), paPEM = (\<lambda>_. [tool_block ''CERTIFICATE'', tool_block ''PRIVATE KEY'']),
     paDecrypt = (\<lambda>_ _. None), paChain = (\<lambda>_ _. None), paTrust = (\<lambda>_ _. None), paContent = (\<lambda>_. None), paInfo = (\<lambda>_. None),
     paSigned = (\<lambda>_. None), paValue = (\<lambda>_. None), paPFX = (\<lambda>_. None), paMAC = (\<lambda>_. None)\<rparr>"

definition tool_request :: "(string \<times> string list) list \<Rightarrow> tools_request" where
  "tool_request form = \<lparr>wqMethod = ''POST'', wqPath = ''/tools'', wqHost = ''h'', wqOrigin = None, wqCookie = None, wqParses = True,
     wqPost = form, wqQuery = [], wqFile = [], tqFiles = [], tqOrigin = False, tqFetchSite = ''same-origin''\<rparr>"

definition tool_site :: site where
  "tool_site = \<lparr>siEnabled = False, siKey = ''k'', siStopped = False\<rparr>"

definition tool_cache :: cache where
  "tool_cache = snd (handleToolsDecode tool_parsers tool_site None 0 (Some ''t'') 0 (tool_request [(''pem'', [''x''])]) [])"

definition tool_items :: "toolItem list" where
  "tool_items = [(cert_item tool_cert)\<lparr>tiMatch := - 1\<rparr>, (key_item (Private (OtherKey 7)))\<lparr>tiMatch := 0\<rparr>]"

lemma tool_form:
  "FormValue (web_request.truncate (tool_request [(''pem'', [''x''])])) ''pem'' = ''x''"
  "FormValue (web_request.truncate (tool_request [(''pem'', [''x''])])) ''password'' = []"
  "TrimSpace ''x'' = ''x''"
  by code_simp+

lemma tool_input: "decodeToolInput tool_parsers ''x'' [] = ([cert_item tool_cert, key_item (Private (OtherKey 7))], [])"
  by code_simp

lemma tool_matches: "match_items [cert_item tool_cert, key_item (Private (OtherKey 7))] = tool_items"
  by (simp add: match_items_def tool_items_def cert_item_def key_item_def tool_cert_def noCert_def)

lemma tool_decoded:
  "handleToolsDecode tool_parsers tool_site None 0 (Some ''t'') 0 (tool_request [(''pem'', [''x''])]) [] =
     (ToolResult ''t'', [(''t'', \<lparr>teOwner = ''admin:disabled'', teSession = [], teExpires = toolsTTL, teItems = tool_items, teWarnings = []\<rparr>)])"
proof -
  have "validToolsOrigin (tool_request [(''pem'', [''x''])])" "wqParses (tool_request [(''pem'', [''x''])])"
      "tqFiles (tool_request [(''pem'', [''x''])]) = []"
    by (simp_all add: validToolsOrigin_def tool_request_def)
  moreover have "evict 0 0 [] = []" by (simp add: evict_def toolsMaxEntries_def)
  ultimately show ?thesis
    by (simp add: handleToolsDecode_def tool_upload_def tool_form tool_input tool_matches toolsMaxUpload_def Let_def new_entry_def
        toolOwner_def tool_site_def store_entry_def)
qed

lemma tool_cache_eq:
  "tool_cache = [(''t'', \<lparr>teOwner = ''admin:disabled'', teSession = [], teExpires = toolsTTL, teItems = tool_items, teWarnings = []\<rparr>)]"
  by (simp add: tool_cache_def tool_decoded)

lemma tool_reached: "tools_reach tool_parsers tool_site [(''t'', 0, None, tool_request [(''pem'', [''x''])])] tool_cache"
  using tools_reach.decode [OF tools_reach.start tool_decoded] by (simp add: tool_cache_eq)

theorem tool_results_private_witness:
  "toolEntryFor None (9 * minute) (tool_request []) ''t'' tool_cache \<noteq> (None, tool_cache) \<and> length tool_cache \<le> 64"
proof -
  have get: "toolEntryFor None (9 * minute) (tool_request []) ''t'' tool_cache =
      (Some \<lparr>teOwner = ''admin:disabled'', teSession = [], teExpires = toolsTTL, teItems = tool_items, teWarnings = []\<rparr>, tool_cache)"
    by (simp add: toolEntryFor_def tool_cache_eq toolsTTL_def time_units ownerFromRequest_def)
  from tool_results_private [OF tool_reached get] get show ?thesis by simp
qed

theorem tool_keys_need_admin_witness:
  "handleToolsDownload (\<lambda>_ _. False) (\<lambda>_ _ _ _. True) tool_site None minute
      (tool_request [(''what'', [''p12'']), (''item'', [''1'']), (''password'', [''pw''])]) ''t'' tool_cache =
     (ToolFile ''certificate.p12'' (KeyP12 (Private (OtherKey 7)) tool_cert [] ''pw''), tool_cache) \<and>
   PublicKey tool_cert = public (Private (OtherKey 7))"
proof -
  have run: "handleToolsDownload (\<lambda>_ _. False) (\<lambda>_ _ _ _. True) tool_site None minute
      (tool_request [(''what'', [''p12'']), (''item'', [''1'']), (''password'', [''pw''])]) ''t'' tool_cache =
     (ToolFile ''certificate.p12'' (KeyP12 (Private (OtherKey 7)) tool_cert [] ''pw''), tool_cache)"
    unfolding tool_cache_eq by code_simp
  from tool_keys_need_admin [OF tool_reached run] run show ?thesis by blast
qed

end
