(* ===== verification/Pkcs7.thy ===== *)
theory Pkcs7
  imports Tools
begin

text \<open>
  The bundles of certificates of \<open>pkcs7.go\<close>, in DER as \<open>asn1.Marshal\<close> writes their types, and their way back through the
  certificate tools. The DER text of a certificate is an argument; what \<open>asn1.Unmarshal\<close> does with these types is stated as a law
  of the parsers, and a reader that obeys it is built at the end.
\<close>

section \<open>DER\<close>

fun base256 :: "nat \<Rightarrow> nat list" where
  "base256 n = (if n < 256 then [n] else base256 (n div 256) @ [n mod 256])"

declare base256.simps [simp del]

definition der_length :: "nat \<Rightarrow> nat list" where
  "der_length n = (if n < 128 then [n] else (128 + length (base256 n)) # base256 n)"

definition bytes :: "nat list \<Rightarrow> string" where
  "bytes = map char_of"

definition tlv :: "nat \<Rightarrow> string \<Rightarrow> string" where
  "tlv tag body = bytes (tag # der_length (length body)) @ body"

text \<open>An arc of an object identifier, in groups of seven bits; all but the last carry the high bit.\<close>

fun arc_groups :: "nat \<Rightarrow> nat list" where
  "arc_groups n = (if n = 0 then [] else arc_groups (n div 128) @ [128 + n mod 128])"

declare arc_groups.simps [simp del]

definition arc :: "nat \<Rightarrow> nat list" where
  "arc n = arc_groups (n div 128) @ [n mod 128]"

fun der_oid :: "nat list \<Rightarrow> string" where
  "der_oid (a # b # ids) = tlv 6 (bytes (concat (map arc ((40 * a + b) # ids))))"
| "der_oid _ = []"

section \<open>The bundle\<close>

text \<open>
  \<open>SignedData\<close> with the version, no digest algorithms, the content type without content, the certificates and no signers; and the
  content that wraps it.
\<close>

definition signed_data :: "string \<Rightarrow> string" where
  "signed_data raw = tlv 48 (tlv 2 (bytes [1]) @ tlv 49 [] @ tlv 48 (der_oid oidData) @ tlv 160 raw @ tlv 49 [])"

definition wrapped :: "string \<Rightarrow> string" where
  "wrapped content = tlv 48 (der_oid oidSignedData @ tlv 160 content)"

text \<open>The PEM type and the bytes of the block.\<close>

definition encodePKCS7Certs :: "(xcert \<Rightarrow> string) \<Rightarrow> xcert list \<Rightarrow> string \<times> string" where
  "encodePKCS7Certs raw cs = (''PKCS7'', wrapped (signed_data (concat (map raw cs))))"

text \<open>
  What \<open>encoding/asn1\<close> promises of its readers, for contents whose length it can represent: a value is read in full and the rest is
  given back, and what \<open>Marshal\<close> wrote for the two types of a bundle \<open>Unmarshal\<close> reads.
\<close>

definition der_limit :: nat where "der_limit = 2147483648"

definition asn1_reads :: "parsers \<Rightarrow> bool" where
  "asn1_reads P \<longleftrightarrow>
     (\<forall>body rest. length body < der_limit \<longrightarrow>
        (\<exists>v. paValue P (tlv 48 body @ rest) = Some (v, rest) \<and> avFull v = tlv 48 body)) \<and>
     (\<forall>raw. length (signed_data raw) < der_limit - 64 \<longrightarrow>
        paContent P (wrapped (signed_data raw)) = Some ((oidSignedData, signed_data raw), []) \<and> paSigned P (signed_data raw) = Some (raw, []))"

lemma tlv_Cons: "tlv t body = char_of t # bytes (der_length (length body)) @ body"
  by (simp add: tlv_def bytes_def)

lemma bundle_certs_reads:
  assumes "asn1_reads P" and "\<forall>c \<in> set cs. \<exists>body. raw c = tlv 48 body \<and> length body < der_limit" and "\<forall>c \<in> set cs. paCert P (raw c) = Some c"
    and "length (concat (map raw cs)) \<le> n"
  shows "bundle_certs P n (concat (map raw cs)) = Inr cs"
  using assms(2-4)
proof (induction cs arbitrary: n)
  case (Cons c cs)
  then obtain body where body: "raw c = tlv 48 body" "length body < der_limit" by auto
  with assms(1) obtain v where v: "paValue P (tlv 48 body @ concat (map raw cs)) = Some (v, concat (map raw cs))" "avFull v = raw c"
    unfolding asn1_reads_def by metis
  obtain x xs where x: "raw c = x # xs" using body(1) by (simp add: tlv_Cons)
  with Cons.prems(3) obtain m where m: "n = Suc m" "length (concat (map raw cs)) \<le> m" by (cases n) auto
  from Cons.IH [OF _ _ m(2)] Cons.prems have "bundle_certs P m (concat (map raw cs)) = Inr cs" by simp
  moreover have "paValue P (x # xs @ concat (map raw cs)) = Some (v, concat (map raw cs))" by (metis append_Cons body(1) v(1) x)
  moreover have "concat (map raw (c # cs)) = x # xs @ concat (map raw cs)" by (simp add: x)
  ultimately show ?case using v(2) Cons.prems(2) by (simp add: m(1))
qed simp


section \<open>A reader\<close>

definition from256 :: "nat list \<Rightarrow> nat" where
  "from256 bs = foldl (\<lambda>n b. n * 256 + b) 0 bs"

text \<open>
  Tag and length of a value with a tag of one byte, as \<open>parseTagAndLength\<close> reads them: at most four bytes of length, in the shortest
  form and below the limit.
\<close>

definition read_size :: "nat list \<Rightarrow> (nat \<times> nat list) option" where
  "read_size bs =
     (case bs of
        [] \<Rightarrow> None
      | b # r \<Rightarrow>
          if b < 128 then Some (b, r)
          else let k = b - 128; n = from256 (take k r) in
            if k = 0 \<or> k > 4 \<or> length r < k \<or> hd r = 0 \<or> n < 128 \<or> n \<ge> der_limit then None else Some (n, drop k r))"

definition read_value :: "string \<Rightarrow> (nat \<times> string \<times> string \<times> string) option" where
  "read_value s =
     (case s of
        [] \<Rightarrow> None
      | t # r \<Rightarrow>
          (case read_size (map of_char r) of
             None \<Rightarrow> None
           | Some (n, _) \<Rightarrow>
               let h = 1 + (if of_char (hd r) < (128::nat) then 1 else 1 + (of_char (hd r) - 128)) in
               if length s < h + n then None else Some (of_char t, take n (drop h s), take (h + n) s, drop (h + n) s)))"

lemma from256_base256: "from256 (base256 n) = n"
proof (induction n rule: base256.induct)
  case (1 n)
  then show ?case by (subst base256.simps) (simp add: from256_def div_mult_mod_eq)
qed

lemma base256_ne: "base256 n \<noteq> []"
  by (subst base256.simps) simp

lemma base256_hd: "n \<noteq> 0 \<Longrightarrow> hd (base256 n) \<noteq> 0"
proof (induction n rule: base256.induct)
  case (1 n)
  then show ?case by (subst base256.simps) (simp add: base256_ne hd_append div_eq_0_iff)
qed

lemma base256_bytes: "\<forall>b \<in> set (base256 n). b < 256"
proof (induction n rule: base256.induct)
  case (1 n)
  then show ?case by (subst base256.simps) auto
qed

lemma base256_short: "n < 256 ^ Suc k \<Longrightarrow> length (base256 n) \<le> Suc k"
proof (induction k arbitrary: n)
  case (Suc k)
  have "n div 256 < 256 ^ Suc k" using Suc.prems by (simp add: less_mult_imp_div_less mult.commute)
  from Suc.IH [OF this] show ?case by (subst base256.simps) simp
qed (subst base256.simps, simp)

lemma codes_bytes: "\<forall>b \<in> set bs. b < 256 \<Longrightarrow> map of_char (bytes bs) = bs"
  by (induction bs) (auto simp: bytes_def)

lemma read_size_short:
  assumes "n < der_limit"
  shows "read_size (der_length n @ r) = Some (n, r)"
proof (cases "n < 128")
  case False
  have "length (base256 n) \<le> 4" using assms base256_short [of n 3] by (simp add: der_limit_def)
  moreover have "0 < length (base256 n)" using base256_ne by simp
  moreover have "hd (base256 n @ r) \<noteq> 0" using base256_hd [of n] base256_ne [of n] False by (simp add: hd_append)
  ultimately show ?thesis using False assms by (simp add: read_size_def der_length_def Let_def from256_base256)
qed (simp add: read_size_def der_length_def)

lemma read_value_tlv:
  assumes "t < 256" and "length body < der_limit"
  shows "read_value (tlv t body @ rest) = Some (t, body, tlv t body, rest)"
proof -
  let ?n = "length body" let ?size = "bytes (der_length ?n)"
  have short: "length (base256 ?n) \<le> 4" using assms(2) base256_short [of ?n 3] by (simp add: der_limit_def)
  have small: "\<forall>b \<in> set (der_length ?n). b < 256" using base256_bytes [of ?n] short by (auto simp: der_length_def)
  have "read_size (map of_char (?size @ body @ rest)) = Some (?n, map of_char (body @ rest))"
    using read_size_short [OF assms(2)] by (simp add: codes_bytes [OF small])
  moreover have "1 + (if of_char (hd (?size @ body @ rest)) < (128::nat) then 1 else 1 + (of_char (hd (?size @ body @ rest)) - 128)) =
      length (char_of t # ?size)"
    using short base256_ne [of ?n] by (auto simp: der_length_def bytes_def)
  ultimately have "read_value (char_of t # ?size @ body @ rest) = (if length (char_of t # ?size @ body @ rest) < length (char_of t # ?size) + ?n then None
      else Some (of_char (char_of t :: char), take ?n (drop (length (char_of t # ?size)) (char_of t # ?size @ body @ rest)),
        take (length (char_of t # ?size) + ?n) (char_of t # ?size @ body @ rest), drop (length (char_of t # ?size) + ?n) (char_of t # ?size @ body @ rest)))"
    unfolding read_value_def list.case by (simp add: Let_def del: length_append)
  also have "\<dots> = Some (t, body, char_of t # ?size @ body, rest)" using assms(1) by simp
  finally show ?thesis by (simp add: tlv_Cons)
qed

text \<open>The readers of the two types of a bundle, field by field.\<close>

definition read_bundle :: "string \<Rightarrow> ((nat list \<times> string) \<times> string) option" where
  "read_bundle s =
     (case read_value s of
        Some (t, body, full, rest) \<Rightarrow>
          (case read_value body of
             Some (u, oid, oid_full, after) \<Rightarrow>
               (case read_value after of
                  Some (v, content, content_full, []) \<Rightarrow>
                    if t = 48 \<and> v = 160 then Some ((if oid_full = der_oid oidSignedData then oidSignedData else [], content), rest) else None
                | _ \<Rightarrow> None)
           | None \<Rightarrow> None)
      | None \<Rightarrow> None)"

definition read_signed :: "string \<Rightarrow> (string \<times> string) option" where
  "read_signed s =
     (case read_value s of
        Some (t, body, full, rest) \<Rightarrow>
          (case read_value body of
             Some (_, _, _, a) \<Rightarrow> (case read_value a of
                 Some (_, _, _, b) \<Rightarrow> (case read_value b of
                     Some (_, _, _, c) \<Rightarrow> (case read_value c of
                         Some (v, raw, _, _) \<Rightarrow> if t = 48 \<and> v = 160 then Some (raw, rest) else None
                       | None \<Rightarrow> None)
                   | None \<Rightarrow> None)
               | None \<Rightarrow> None)
           | None \<Rightarrow> None)
      | None \<Rightarrow> None)"

definition plain_parsers :: "(string \<Rightarrow> xcert option) \<Rightarrow> parsers" where
  "plain_parsers cert = \<lparr>paCert = cert, paCSR = (\<lambda>_. None), paPKCS8 = (\<lambda>_. NotPKCS8), paPKCS1 = (\<lambda>_. None), paEC = (\<lambda>_. None),
     paPEM = (\<lambda>_. []), paDecrypt = (\<lambda>_ _. None), paChain = (\<lambda>_ _. None), paTrust = (\<lambda>_ _. None), paContent = read_bundle,
     paInfo = (\<lambda>_. None), paSigned = read_signed,
     paValue = (\<lambda>s. map_option (\<lambda>(t, body, full, rest). (\<lparr>avTag = t, avBytes = body, avFull = full\<rparr>, rest)) (read_value s)),
     paPFX = (\<lambda>_. None), paMAC = (\<lambda>_. None)\<rparr>"

lemma tlv_length: "length body < der_limit \<Longrightarrow> length (tlv t body) \<le> length body + 6"
  using base256_short [of "length body" 3] by (simp add: tlv_def bytes_def der_length_def der_limit_def)

lemma body_length: "length body \<le> length (tlv t body)"
  by (simp add: tlv_def)

lemma oid_short: "der_oid oidSignedData = tlv 6 (bytes [42, 134, 72, 134, 247, 13, 1, 7, 2])" "der_oid oidData = tlv 6 (bytes [42, 134, 72, 134, 247, 13, 1, 7, 1])"
  by (simp_all add: oidSignedData_def oidData_def arc_def arc_groups.simps)

lemma plain_parsers_read: "asn1_reads (plain_parsers cert)"
  unfolding asn1_reads_def
proof (intro conjI allI impI)
  fix body rest :: string assume "length body < der_limit"
  then show "\<exists>v. paValue (plain_parsers cert) (tlv 48 body @ rest) = Some (v, rest) \<and> avFull v = tlv 48 body"
    by (simp add: plain_parsers_def read_value_tlv)
next
  fix raw assume short: "length (signed_data raw) < der_limit - 64"
  then have content: "length (signed_data raw) < der_limit" by simp
  have small: "length (bytes bs) = length bs" for bs by (simp add: bytes_def)
  let ?parts = "tlv 2 (bytes [1]) @ tlv 49 [] @ tlv 48 (der_oid oidData) @ tlv 160 raw @ tlv 49 []"
  have parts: "length ?parts < der_limit"
    using content body_length [of ?parts 48] by (simp add: signed_data_def del: length_append)
  have raw: "length raw < der_limit"
    using parts body_length [of raw 160] by simp
  have oid: "length (der_oid oidData) < der_limit"
    using parts body_length [of "der_oid oidData" 48] by simp
  have tiny: "length (bytes [1]) < der_limit" "length ([] :: string) < der_limit" by (simp_all add: small der_limit_def)
  show "paSigned (plain_parsers cert) (signed_data raw) = Some (raw, [])"
    using read_value_tlv [OF _ parts, of 48 "[]"] read_value_tlv [OF _ raw, of 160] read_value_tlv [OF _ oid, of 48]
      read_value_tlv [OF _ tiny(1), of 2] read_value_tlv [OF _ tiny(2), of 49]
    by (simp add: plain_parsers_def read_signed_def signed_data_def)
  have name: "length (bytes [42, 134, 72, 134, 247, 13, 1, 7, 2]) < der_limit" by (simp add: small der_limit_def)
  have "length (der_oid oidSignedData) \<le> 15" using tlv_length [OF name, of 6] by (simp add: oid_short small)
  then have outer: "length (der_oid oidSignedData @ tlv 160 (signed_data raw)) < der_limit"
    using tlv_length [OF content, of 160] short by simp
  show "paContent (plain_parsers cert) (wrapped (signed_data raw)) = Some ((oidSignedData, signed_data raw), [])"
    using read_value_tlv [OF _ outer, of 48 "[]"] read_value_tlv [OF _ content, of 160 "[]"]
      read_value_tlv [OF _ name, of 6 "tlv 160 (signed_data raw)"]
    by (simp add: plain_parsers_def read_bundle_def wrapped_def oid_short)
qed

definition ex_der :: "xcert \<Rightarrow> string" where
  "ex_der c = tlv 48 (bytes [SerialNumber c])"

definition ex_one :: xcert where "ex_one = noCert\<lparr>SerialNumber := 1\<rparr>"
definition ex_two :: xcert where "ex_two = noCert\<lparr>SerialNumber := 2\<rparr>"

definition ex_block :: pemBlock where
  "ex_block = \<lparr>pbType = ''PKCS7'', pbBytes = wrapped (signed_data (ex_der ex_one @ ex_der ex_two)), pbEncrypted = False,
     pbSealed = \<lparr>kType = [], kHeaders = [], kSalt = [], kNonce = [], kPlain = NotPKCS8, kCipher = NotSealed\<rparr>\<rparr>"


end
