(* ===== verification/AppLog.thy ===== *)
theory AppLog
  imports Web
begin

text \<open>
  The application log, \<open>applog.go\<close>: the file \<open>netanchor.log\<close>, its predecessor \<open>netanchor.log.1\<close> and the pages that show them, and
  what the wrappers around the handlers log of a request. A write reaches the file in full or not at all.
\<close>

section \<open>The two files\<close>

record applog =
  lgDisk :: "disk_fault list"
  lgCur :: "string option"
  lgPrev :: "string option"
  lgOpen :: bool
  lgSize :: nat

type_synonym 'a lop = "(applog, 'a) op"

definition appLogMax :: nat where "appLogMax = 5242880"
definition appLogTail :: nat where "appLogTail = 2000"

definition lg_io :: "(applog \<Rightarrow> applog) \<Rightarrow> unit lop" where
  "lg_io f = (\<lambda>a. case lgDisk a of
       [] \<Rightarrow> (Inr (), f a)
     | NoFault # fs \<Rightarrow> (Inr (), f (a\<lparr>lgDisk := fs\<rparr>))
     | Failed # fs \<Rightarrow> (Inl ''input/output error'', a\<lparr>lgDisk := fs\<rparr>)
     | FailedLate # fs \<Rightarrow> (Inl ''input/output error'', f (a\<lparr>lgDisk := fs\<rparr>)))"

definition content :: "string option \<Rightarrow> string" where
  "content f = (case f of None \<Rightarrow> [] | Some s \<Rightarrow> s)"

text \<open>The file is created when it is missing; its size is read.\<close>

definition lg_open :: "unit lop" where
  "lg_open =
     thenE (lg_io (\<lambda>a. a\<lparr>lgCur := Some (content (lgCur a))\<rparr>))
     (thenE (lg_io (\<lambda>a. a))
       (modifyE (\<lambda>a. a\<lparr>lgOpen := True, lgSize := length (content (lgCur a))\<rparr>)))"

definition openAppLog :: "unit lop" where
  "openAppLog = thenE (lg_io (\<lambda>a. a)) lg_open"

definition lg_rename :: "unit lop" where
  "lg_rename = (\<lambda>a. case lgCur a of
       None \<Rightarrow> (Inl ''no such file or directory'', a)
     | Some s \<Rightarrow> lg_io (\<lambda>a. a\<lparr>lgCur := None, lgPrev := Some s\<rparr>) a)"

text \<open>The file is closed, renamed over its predecessor and opened anew, which is tried after a failed rename too.\<close>

definition rotate_log :: "unit lop" where
  "rotate_log =
     thenE (modifyE (\<lambda>a. a\<lparr>lgOpen := False\<rparr>))
       (\<lambda>a. case lg_rename a of (e, b) \<Rightarrow>
          (case lg_open b of
             (Inl oerr, c) \<Rightarrow> (Inl oerr, c)
           | (Inr _, c) \<Rightarrow> (e, c)))"

definition append_log :: "string \<Rightarrow> unit lop" where
  "append_log p = (\<lambda>a. if \<not> lgOpen a then (Inl ''file already closed'', a)
     else lg_io (\<lambda>a. a\<lparr>lgCur := Some (content (lgCur a) @ p), lgSize := lgSize a + length p\<rparr>) a)"

definition Write :: "string \<Rightarrow> unit lop" where
  "Write p =
     bindE (gets lgSize) (\<lambda>size.
     thenE (if size > 0 \<and> size + length p > appLogMax then rotate_log else ret ())
       (append_log p))"

section \<open>Reading it back\<close>

definition log_lines :: "string option \<Rightarrow> string list" where
  "log_lines f = (let s = TrimSuffix (content f) [LF] in if s = [] then [] else Split LF s)"

definition readLogLines :: "(applog \<Rightarrow> string option) \<Rightarrow> string list lop" where
  "readLogLines f = thenE (lg_io (\<lambda>a. a)) (gets (\<lambda>a. log_lines (f a)))"

definition appLogLines :: "nat \<Rightarrow> string list lop" where
  "appLogLines n =
     bindE (readLogLines lgCur) (\<lambda>cur.
     if length cur \<ge> n then ret (drop (length cur - n) cur)
     else bindE (readLogLines lgPrev) (\<lambda>prev.
       let need = n - length cur in
       ret ((if length prev > need then drop (length prev - need) prev else prev) @ cur)))"

datatype log_page = LogPage string | LogText string | LogError error | LogStatus nat

definition handleLogs :: "site \<Rightarrow> User option \<Rightarrow> applog \<Rightarrow> log_page \<times> applog" where
  "handleLogs w v a =
     (if \<not> isAdmin w v then (LogStatus 403, a)
      else case appLogLines appLogTail a of
          (Inl e, b) \<Rightarrow> (LogError e, b)
        | (Inr ls, b) \<Rightarrow> (LogPage (Join (rev ls) [LF]), b))"

definition handleLogsText :: "site \<Rightarrow> User option \<Rightarrow> applog \<Rightarrow> log_page \<times> applog" where
  "handleLogsText w v a =
     (if \<not> isAdmin w v then (LogStatus 403, a)
      else case appLogLines appLogTail a of
          (Inl e, b) \<Rightarrow> (LogError e, b)
        | (Inr ls, b) \<Rightarrow> (LogText (if ls = [] then [] else Join ls [LF] @ [LF]), b))"

section \<open>What is logged of a request\<close>

text \<open>The line of a request to the web interface; polling is not logged, and a result of the tools is not named.\<close>

definition logRequests :: "string \<Rightarrow> string \<Rightarrow> bool \<Rightarrow> string option" where
  "logRequests meth path follow =
     (if path = ''/healthz'' \<or> (path = ''/logs.txt'' \<and> follow) then None
      else Some (meth @ '' '' @ (if HasPrefix path ''/tools/'' then ''/tools/[result]'' else path)))"

text \<open>The line of an enrollment request; \<open>code\<close> is the status that was written, if any.\<close>

definition logSCEP :: "string \<Rightarrow> string \<Rightarrow> string \<Rightarrow> string \<Rightarrow> nat option \<Rightarrow> string" where
  "logSCEP meth path oper remote code =
     ''scep '' @ meth @ '' '' @ path @ '' op='' @ oper @ '' from='' @
     (case SplitHostPort remote of Some (host, port) \<Rightarrow> host | None \<Rightarrow> remote) @ '' status='' @
     Itoa (case code of None \<Rightarrow> 200 | Some c \<Rightarrow> c)"

text \<open>The identifier of a result, with which it can be fetched, does not reach the log.\<close>

lemma tool_results_not_logged: "logRequests meth (''/tools/'' @ token @ rest) follow = Some (meth @ '' /tools/[result]'')"
  by (simp add: logRequests_def HasPrefix_def)

section \<open>The log shows the latest lines\<close>

definition last_lines :: "nat \<Rightarrow> 'a list \<Rightarrow> 'a list" where
  "last_lines n xs = drop (length xs - n) xs"

definition printed :: "string list \<Rightarrow> string" where
  "printed ls = concat (map (\<lambda>l. l @ [LF]) ls)"

lemma printed_Join: "ls \<noteq> [] \<Longrightarrow> printed ls = Join ls [LF] @ [LF]"
  by (induction ls rule: induct_list012) (simp_all add: printed_def)

lemma log_lines_printed:
  assumes "\<forall>l \<in> set ls. l \<noteq> [] \<and> LF \<notin> set l"
  shows "log_lines (Some (printed ls)) = ls"
proof (cases "ls = []")
  case True
  then show ?thesis by (simp add: log_lines_def content_def printed_def TrimSuffix_def HasSuffix_def)
next
  case False
  have "HasSuffix (Join ls [LF] @ [LF]) [LF]" by (auto simp: HasSuffix_iff)
  then have "TrimSuffix (printed ls) [LF] = Join ls [LF]" using False by (simp add: printed_Join TrimSuffix_def)
  moreover have "Join ls [LF] \<noteq> []" using False assms by (cases ls rule: remdups_adj.cases) auto
  ultimately show ?thesis using Split_Join [OF False, of LF] assms by (simp add: log_lines_def content_def)
qed

lemma appLogLines_last:
  assumes "lgDisk a = []"
  shows "appLogLines n a = (Inr (last_lines n (log_lines (lgPrev a) @ log_lines (lgCur a))), a)"
  using assms by (simp add: appLogLines_def readLogLines_def lg_io_def op_simps last_lines_def Let_def)

text \<open>The log after some lines: the oldest are gone only when the rest is larger than a file may be.\<close>

definition logged :: "string list \<Rightarrow> applog \<Rightarrow> bool" where
  "logged ls a \<longleftrightarrow> lgDisk a = [] \<and> lgOpen a \<and>
     (\<exists>old p c. ls = old @ p @ c \<and> (old = [] \<or> length (printed (p @ c)) > appLogMax) \<and>
        lgCur a = Some (printed c) \<and> lgSize a = length (printed c) \<and> (lgPrev a = Some (printed p) \<or> lgPrev a = None \<and> p = []))"

lemma Write_logged:
  assumes "logged ls a"
  shows "\<exists>b. Write (l @ [LF]) a = (Inr (), b) \<and> logged (ls @ [l]) b"
proof -
  from assms obtain old p c where ls: "ls = old @ p @ c" "old = [] \<or> length (printed (p @ c)) > appLogMax"
    and a: "lgDisk a = []" "lgOpen a" "lgCur a = Some (printed c)" "lgSize a = length (printed c)"
      "lgPrev a = Some (printed p) \<or> lgPrev a = None \<and> p = []"
    by (auto simp: logged_def)
  have add: "printed (xs @ [l]) = printed xs @ l @ [LF]" "length (printed (xs @ ys)) = length (printed xs) + length (printed ys)" for xs ys
    by (simp_all add: printed_def)
  show ?thesis
  proof (cases "lgSize a > 0 \<and> lgSize a + length (l @ [LF]) > appLogMax")
    case True
    let ?b = "a\<lparr>lgPrev := Some (printed c), lgCur := Some (printed [l]), lgSize := length (printed [l])\<rparr>"
    have "Write (l @ [LF]) a = (Inr (), ?b)"
      using True a by (simp add: Write_def rotate_log_def lg_rename_def lg_open_def lg_io_def append_log_def op_simps content_def printed_def)
    moreover have "logged (ls @ [l]) ?b"
      unfolding logged_def using True a ls
      by (intro conjI exI [of _ "old @ p"] exI [of _ c] exI [of _ "[l]"]) (auto simp: add printed_def)
    ultimately show ?thesis by blast
  next
    case False
    let ?b = "a\<lparr>lgCur := Some (printed (c @ [l])), lgSize := length (printed (c @ [l]))\<rparr>"
    have "Write (l @ [LF]) a = (Inr (), ?b)"
      using False a by (auto simp: Write_def lg_io_def append_log_def op_simps content_def add)
    moreover have "logged (ls @ [l]) ?b"
      unfolding logged_def using a ls
      by (intro conjI exI [of _ old] exI [of _ p] exI [of _ "c @ [l]"]) (auto simp: add)
    ultimately show ?thesis by blast
  qed
qed

definition write_all :: "string list \<Rightarrow> unit lop" where
  "write_all ls = thenE (mapE (\<lambda>l. Write (l @ [LF])) ls) (ret ())"

text \<open>
  On a new log, after any number of lines, the page shows the last of them, as many as it asks for; lines are missing only when more
  than the size of a file was written after them.
\<close>

theorem log_shows_latest:
  assumes "\<forall>l \<in> set ls. l \<noteq> [] \<and> LF \<notin> set l" and "lgDisk a = []" and "lgCur a = None" and "lgPrev a = None"
  shows "\<exists>b old kept. thenE openAppLog (write_all ls) a = (Inr (), b) \<and> ls = old @ kept \<and> (old = [] \<or> length (printed kept) > appLogMax) \<and>
    appLogLines n b = (Inr (last_lines n kept), b)"
proof -
  let ?o = "a\<lparr>lgCur := Some [], lgOpen := True, lgSize := 0\<rparr>"
  have opened: "openAppLog a = (Inr (), ?o)" using assms(2-4) by (simp add: openAppLog_def lg_open_def lg_io_def op_simps content_def)
  have "logged [] ?o" using assms(2,4) by (simp add: logged_def printed_def)
  moreover have "\<exists>b. mapE (\<lambda>l. Write (l @ [LF])) us o1 = (Inr (map (\<lambda>_. ()) us), b) \<and> logged (done1 @ us) b" if "logged done1 o1" for us done1 o1
    using that
  proof (induction us arbitrary: done1 o1)
    case (Cons l us)
    from Write_logged [OF Cons.prems, of l] obtain b where b: "Write (l @ [LF]) o1 = (Inr (), b)" "logged (done1 @ [l]) b" by blast
    from Cons.IH [OF b(2)] b(1) show ?case by (auto simp: op_simps)
  qed (simp add: op_simps)
  ultimately obtain b where b: "mapE (\<lambda>l. Write (l @ [LF])) ls ?o = (Inr (map (\<lambda>_. ()) ls), b)" "logged ls b" by fastforce
  from b(2) obtain old p c where ls: "ls = old @ p @ c" "old = [] \<or> length (printed (p @ c)) > appLogMax"
    and log: "lgDisk b = []" "lgCur b = Some (printed c)" "lgPrev b = Some (printed p) \<or> lgPrev b = None \<and> p = []"
    by (auto simp: logged_def)
  have "log_lines (lgCur b) = c" using log(2) log_lines_printed [of c] assms(1) ls(1) by simp
  moreover have "log_lines None = []" by (simp add: log_lines_def content_def TrimSuffix_def HasSuffix_def)
  then have "log_lines (lgPrev b) = p" using log(3)
  proof (elim disjE conjE)
    assume "lgPrev b = Some (printed p)"
    moreover have "\<forall>l \<in> set p. l \<noteq> [] \<and> LF \<notin> set l" using assms(1) ls(1) by simp
    ultimately show ?thesis by (simp only: log_lines_printed)
  qed simp
  ultimately have "appLogLines n b = (Inr (last_lines n (p @ c)), b)" using appLogLines_last [OF log(1)] by simp
  moreover have "thenE openAppLog (write_all ls) a = (Inr (), b)" using opened b(1) by (simp add: write_all_def op_simps)
  ultimately show ?thesis using ls by blast
qed

end
