(* ===== verification/Flash.thy ===== *)
theory Flash
  imports Web
begin

text \<open>
  The messages that a redirect leaves for the next page, \<open>redirectSuccess\<close> and \<open>takeFlash\<close> of \<open>server.go\<close>: they are kept in the
  server under a random token, for one showing within two minutes. The map of messages is a list with distinct tokens; the order in
  which Go visits it is an argument.
\<close>

section \<open>Operations\<close>

record caFlash =
  flTitle :: string
  flBody :: string
  flExpires :: time

type_synonym flashes = "(string \<times> caFlash) list"

definition flashMax :: nat where "flashMax = 128"
definition flashTTL :: time where "flashTTL = 2 * minute"

text \<open>While it is visited, a message is dropped when it is expired or the map is full at that moment.\<close>

fun drop_flashes :: "time \<Rightarrow> string list \<Rightarrow> flashes \<Rightarrow> flashes" where
  "drop_flashes now [] fs = fs"
| "drop_flashes now (k # ks) fs =
     drop_flashes now ks
       (case map_of fs k of
          None \<Rightarrow> fs
        | Some f \<Rightarrow> if \<not> now < flExpires f \<or> length fs \<ge> flashMax then filter (\<lambda>(j, _). j \<noteq> k) fs else fs)"

text \<open>The token is random, \<open>None\<close> when it cannot be drawn; the result is the cookie of the redirect.\<close>

definition redirectSuccess :: "time \<Rightarrow> string option \<Rightarrow> string list \<Rightarrow> string \<Rightarrow> string \<Rightarrow> flashes \<Rightarrow> string option \<times> flashes" where
  "redirectSuccess now token visit title body fs =
     (case token of
        None \<Rightarrow> (None, fs)
      | Some t \<Rightarrow>
          let key = hexEncode t; kept = drop_flashes now visit fs in
          (Some key, (key, \<lparr>flTitle = title, flBody = body, flExpires = now + flashTTL\<rparr>) # filter (\<lambda>(j, _). j \<noteq> key) kept))"

definition takeFlash :: "time \<Rightarrow> string option \<Rightarrow> flashes \<Rightarrow> caFlash option \<times> flashes" where
  "takeFlash now cookie fs =
     (case cookie of
        None \<Rightarrow> (None, fs)
      | Some k \<Rightarrow>
          ((case map_of fs k of Some f \<Rightarrow> if now < flExpires f then Some f else None | None \<Rightarrow> None),
           filter (\<lambda>(j, _). j \<noteq> k) fs))"

section \<open>A message is shown once and soon\<close>

lemma map_of_without: "map_of (filter (\<lambda>(j, _). j \<noteq> k) fs) j = (if j = k then None else map_of fs j)"
  by (induction fs) auto

lemma without_distinct: "distinct (map fst fs) \<Longrightarrow> distinct (map fst (filter (\<lambda>(j, _). j \<noteq> k) fs))"
  by (rule distinct_map_filter)

lemma without_length: "k \<in> fst ` set fs \<Longrightarrow> length (filter (\<lambda>(j, _). j \<noteq> k) fs) < length fs"
  by (force intro!: length_filter_less)

text \<open>The map holds at most as many messages as allowed, each under its own token, when every key is visited.\<close>

definition flashes_ok :: "flashes \<Rightarrow> bool" where
  "flashes_ok fs \<longleftrightarrow> distinct (map fst fs) \<and> length fs \<le> flashMax"

lemma drop_flashes_ok:
  assumes "distinct (map fst fs)" and "length fs \<le> flashMax" and "visit \<noteq> []" and "hd visit \<in> fst ` set fs"
  shows "distinct (map fst (drop_flashes now visit fs)) \<and> length (drop_flashes now visit fs) < flashMax"
proof -
  have step: "distinct (map fst (drop_flashes now ks us)) \<and> length (drop_flashes now ks us) \<le> length us"
    if "distinct (map fst us)" for ks us
    using that
  proof (induction ks arbitrary: us)
    case (Cons k ks)
    let ?us = "case map_of us k of None \<Rightarrow> us
        | Some f \<Rightarrow> if \<not> now < flExpires f \<or> length us \<ge> flashMax then filter (\<lambda>(j, _). j \<noteq> k) us else us"
    have "distinct (map fst ?us)" "length ?us \<le> length us"
      using Cons.prems without_distinct by (auto split: option.split)
    with Cons.IH [of ?us] show ?case by (auto intro: order_trans)
  qed simp
  from assms(3,4) obtain k ks f where k: "visit = k # ks" "map_of fs k = Some f"
    by (cases visit) (auto dest: weak_map_of_SomeI)
  let ?us = "if \<not> now < flExpires f \<or> length fs \<ge> flashMax then filter (\<lambda>(j, _). j \<noteq> k) fs else fs"
  have "length ?us < flashMax" using without_length [of k fs] assms(2) k(2) by (force dest: map_of_SomeD)
  moreover have "distinct (map fst ?us)" using assms(1) without_distinct by auto
  ultimately show ?thesis using step [of ?us ks] k by (auto intro: le_less_trans)
qed

lemma redirectSuccess_ok:
  assumes "flashes_ok fs" and "set visit = fst ` set fs"
  shows "flashes_ok (snd (redirectSuccess now token visit title body fs))"
proof (cases token)
  case (Some t)
  let ?kept = "drop_flashes now visit fs"
  have kept: "distinct (map fst ?kept) \<and> length ?kept < flashMax"
  proof (cases "visit = []")
    case True
    with assms(2) show ?thesis by (simp add: flashMax_def)
  next
    case False
    with assms(2) have "hd visit \<in> fst ` set fs" using hd_in_set by blast
    with assms(1) False drop_flashes_ok show ?thesis by (simp add: flashes_ok_def)
  qed
  then have "length (filter (\<lambda>(j, _). j \<noteq> hexEncode t) ?kept) < flashMax" using length_filter_le le_less_trans by blast
  with kept Some without_distinct [of ?kept "hexEncode t"] show ?thesis
    by (auto simp: redirectSuccess_def Let_def flashes_ok_def Suc_le_eq)
qed (use assms(1) in \<open>simp add: redirectSuccess_def\<close>)

lemma takeFlash_ok: "flashes_ok fs \<Longrightarrow> flashes_ok (snd (takeFlash now cookie fs))"
  by (auto simp: takeFlash_def flashes_ok_def intro: without_distinct le_trans [OF length_filter_le] split: option.splits)

text \<open>What a redirect leaves is shown to whoever brings its token within two minutes, and to nobody a second time.\<close>

lemma shown_once:
  assumes "redirectSuccess now (Some t) visit title body fs = (Some key, gs)" and "takeFlash later (Some key) gs = (shown, hs)"
  shows "(shown = None \<longleftrightarrow> \<not> later < now + flashTTL) \<and> (shown \<noteq> None \<longrightarrow> flTitle (the shown) = title \<and> flBody (the shown) = body) \<and>
    fst (takeFlash again (Some key) hs) = None"
  using assms by (auto simp: redirectSuccess_def takeFlash_def Let_def map_of_without split: if_splits)

end
