(* ===== verification/Restore.thy ===== *)
theory Restore
  imports Prelude
begin

text \<open>
  The restore transaction of \<open>restore.go\<close>: \<open>activateBackup\<close> swaps every backup root of the data
  directory for its staged replacement under a journal, and \<open>recoverRestore\<close> finishes or undoes
  the swap at the next start. The model keeps, per root, what is in the data directory, in
  \<open>.restore/old\<close> and in \<open>.restore/new\<close>, and the journal. Every file-system call takes its
  outcome from a list of faults: it may fail before or after its effect, leave a half-removed
  tree, or be the point where the process dies. A rename and a journal write are atomic, and
  metadata reaches the disk in the order of the calls; contents of a root are opaque.
\<close>

section \<open>The data directory and its faults\<close>

definition backupRoots :: "string list" where
  "backupRoots = [''cas'', ''certs'', ''auth'', ''tls'', ''trash'', ''index.json'', ''templates.json'',
     ''scep.json'', ''devices.json'', ''definitions.json'', ''ca-secrets'']"

record restoreJournal =
  Version :: nat
  Committed :: bool
  Present :: "(string \<times> bool) list"

record 'c area =
  live :: "string \<Rightarrow> 'c option"
  old_root :: "string \<Rightarrow> 'c option"
  new_root :: "string \<Rightarrow> 'c option"
  tx_dir :: bool
  journal :: "restoreJournal option"
  stage :: "(string \<Rightarrow> 'c option) option"

datatype 'c fault = Fine | Err | ErrLate | Die | DieLate | Torn "string \<Rightarrow> 'c option" bool

datatype failure = IOError | Unsupported | Incomplete | RestartRequired | Uncertain | Crashed

type_synonym ('c, 'a) io = "('c area \<times> 'c fault list, failure, 'a) opx"

text \<open>One file-system call: its effect, and what a half-done removal leaves behind.\<close>

definition step :: "('c area \<Rightarrow> 'c area) \<Rightarrow> ((string \<Rightarrow> 'c option) \<Rightarrow> 'c area \<Rightarrow> 'c area) \<Rightarrow> ('c, unit) io" where
  "step f torn = (\<lambda>(a, fs). case fs of
       [] \<Rightarrow> (Inr (), (f a, []))
     | Fine # fs \<Rightarrow> (Inr (), (f a, fs))
     | Err # fs \<Rightarrow> (Inl IOError, (a, fs))
     | ErrLate # fs \<Rightarrow> (Inl IOError, (f a, fs))
     | Die # fs \<Rightarrow> (Inl Crashed, (a, fs))
     | DieLate # fs \<Rightarrow> (Inl Crashed, (f a, fs))
     | Torn junk died # fs \<Rightarrow> (Inl (if died then Crashed else IOError), (torn junk a, fs)))"

definition act :: "('c area \<Rightarrow> 'c area) \<Rightarrow> ('c, unit) io" where
  "act f = step f (\<lambda>_ a. a)"

definition sync :: "('c, unit) io" where
  "sync = act (\<lambda>a. a)"

definition peek :: "('c area \<Rightarrow> 'a) \<Rightarrow> ('c, 'a) io" where
  "peek f = thenE sync (gets (\<lambda>s. f (fst s)))"

text \<open>A call that fails on a missing source or an existing target.\<close>

definition requiring :: "('c area \<Rightarrow> bool) \<Rightarrow> ('c, 'a) io \<Rightarrow> ('c, 'a) io" where
  "requiring b m = (\<lambda>s. if b (fst s) then m s else (Inl IOError, s))"

text \<open>\<open>durableRename\<close>: the rename, then both directories are synced.\<close>

definition durableRename :: "('c area \<Rightarrow> bool) \<Rightarrow> ('c area \<Rightarrow> 'c area) \<Rightarrow> ('c, unit) io" where
  "durableRename source rename = requiring source (thenE (act rename) (thenE sync sync))"

definition live_to_old :: "string \<Rightarrow> 'c area \<Rightarrow> 'c area" where
  "live_to_old r a = a\<lparr>old_root := (old_root a)(r := live a r), live := (live a)(r := None)\<rparr>"

definition new_to_live :: "string \<Rightarrow> 'c area \<Rightarrow> 'c area" where
  "new_to_live r a = a\<lparr>live := (live a)(r := new_root a r), new_root := (new_root a)(r := None)\<rparr>"

definition old_to_live :: "string \<Rightarrow> 'c area \<Rightarrow> 'c area" where
  "old_to_live r a = a\<lparr>live := (live a)(r := old_root a r), old_root := (old_root a)(r := None)\<rparr>"

definition stage_to_new :: "'c area \<Rightarrow> 'c area" where
  "stage_to_new a = (case stage a of None \<Rightarrow> a | Some n \<Rightarrow> a\<lparr>new_root := n, stage := None\<rparr>)"

text \<open>\<open>os.RemoveAll\<close> of one live root, and of the whole \<open>.restore\<close> directory.\<close>

definition remove_live :: "string \<Rightarrow> ('c, unit) io" where
  "remove_live r = step (\<lambda>a. a\<lparr>live := (live a)(r := None)\<rparr>)
                        (\<lambda>junk a. a\<lparr>live := (live a)(r := junk r)\<rparr>)"

definition remove_tx :: "('c, unit) io" where
  "remove_tx = step (\<lambda>a. a\<lparr>tx_dir := False, old_root := (\<lambda>_. None), new_root := (\<lambda>_. None), journal := None\<rparr>)
                    (\<lambda>junk a. a\<lparr>old_root := junk, new_root := junk\<rparr>)"

definition remove_stage :: "('c, unit) io" where
  "remove_stage = step (\<lambda>a. a\<lparr>stage := None\<rparr>) (\<lambda>junk a. a\<lparr>stage := Some junk\<rparr>)"

section \<open>Recovery\<close>

definition was_present :: "restoreJournal \<Rightarrow> string \<Rightarrow> bool" where
  "was_present j r \<longleftrightarrow> map_of (Present j) r = Some True"

definition rollback_root :: "restoreJournal \<Rightarrow> string \<Rightarrow> ('c, unit) io" where
  "rollback_root j r =
     bindE (peek (\<lambda>a. old_root a r \<noteq> None)) (\<lambda>present.
       if present \<or> \<not> was_present j r then
         thenE (remove_live r) (thenE sync
           (if present then durableRename (\<lambda>a. old_root a r \<noteq> None) (old_to_live r) else ret ()))
       else ret ())"

fun rollback :: "restoreJournal \<Rightarrow> string list \<Rightarrow> ('c, unit) io" where
  "rollback j [] = ret ()"
| "rollback j (r # rs) = thenE (rollback_root j r) (rollback j rs)"

definition recoverRestore :: "('c, unit) io" where
  "recoverRestore =
     bindE (peek journal) (\<lambda>found.
     thenE (case found of
         None \<Rightarrow> remove_tx
       | Some j \<Rightarrow>
           if Version j \<noteq> 1 \<or> length (Present j) \<noteq> length backupRoots then throw Unsupported
           else if \<exists>r \<in> set backupRoots. map_of (Present j) r = None then throw Incomplete
           else thenE (if \<not> Committed j then rollback j backupRoots else ret ())
             (thenE sync (thenE (act (\<lambda>a. a\<lparr>journal := None\<rparr>)) (thenE sync remove_tx))))
       (thenE sync (thenE remove_stage sync)))"

section \<open>Activation\<close>

text \<open>The deferred \<open>os.RemoveAll(tx)\<close> of a run that returns before it is prepared.\<close>

definition unprepared :: "('c, 'a) io \<Rightarrow> ('c, 'a) io" where
  "unprepared m = (\<lambda>s. case m s of
       (Inl Crashed, t) \<Rightarrow> (Inl Crashed, t)
     | (Inl e, t) \<Rightarrow> (case remove_tx t of (Inl Crashed, u) \<Rightarrow> (Inl Crashed, u) | (_, u) \<Rightarrow> (Inl e, u))
     | (Inr x, t) \<Rightarrow> (Inr x, t))"

text \<open>The closure \<open>fail\<close>: recover at once, then report the cause or that a restart is needed.\<close>

definition failing :: "('c, 'a) io \<Rightarrow> ('c, 'a) io" where
  "failing m = (\<lambda>s. case m s of
       (Inl Crashed, t) \<Rightarrow> (Inl Crashed, t)
     | (Inl e, t) \<Rightarrow> (case recoverRestore t of
           (Inl Crashed, u) \<Rightarrow> (Inl Crashed, u)
         | (Inl _, u) \<Rightarrow> (Inl RestartRequired, u)
         | (Inr _, u) \<Rightarrow> (Inl e, u))
     | (Inr x, t) \<Rightarrow> (Inr x, t))"

definition write_journal :: "restoreJournal \<Rightarrow> ('c, unit) io" where
  "write_journal j = act (\<lambda>a. a\<lparr>journal := Some j\<rparr>)"

fun record_presence :: "string list \<Rightarrow> ('c, (string \<times> bool) list) io" where
  "record_presence [] = ret []"
| "record_presence (r # rs) =
     bindE (peek (\<lambda>a. live a r \<noteq> None)) (\<lambda>p. bindE (record_presence rs) (\<lambda>ps. ret ((r, p) # ps)))"

definition swap_root :: "restoreJournal \<Rightarrow> string \<Rightarrow> ('c, unit) io" where
  "swap_root j r =
     thenE (if was_present j r then durableRename (\<lambda>a. live a r \<noteq> None) (live_to_old r) else ret ())
       (bindE (peek (\<lambda>a. new_root a r \<noteq> None)) (\<lambda>present.
         if present then durableRename (\<lambda>a. new_root a r \<noteq> None) (new_to_live r) else ret ()))"

fun swap_roots :: "restoreJournal \<Rightarrow> string list \<Rightarrow> ('c, unit) io" where
  "swap_roots j [] = ret ()"
| "swap_roots j (r # rs) = thenE (swap_root j r) (swap_roots j rs)"

text \<open>The commit: an error here leaves the decision to whichever journal is on disk.\<close>

definition commit :: "restoreJournal \<Rightarrow> ('c, unit) io" where
  "commit j = (\<lambda>s. case write_journal (j\<lparr>Committed := True\<rparr>) s of
       (Inl Crashed, t) \<Rightarrow> (Inl Crashed, t)
     | (Inl _, t) \<Rightarrow> (Inl Uncertain, t)
     | (Inr _, t) \<Rightarrow> (case recoverRestore t of
           (Inl Crashed, u) \<Rightarrow> (Inl Crashed, u)
         | (_, u) \<Rightarrow> (Inr (), u)))"

definition prepare :: "('c, restoreJournal) io" where
  "prepare =
     thenE sync \<comment> \<open>mkdir old\<close>
     (thenE (durableRename (\<lambda>a. stage a \<noteq> None) stage_to_new)
     (bindE (record_presence backupRoots) (\<lambda>ps.
      thenE sync (thenE sync (ret \<lparr>Version = 1, Committed = False, Present = ps\<rparr>)))))"

definition activateBackup :: "('c, unit) io" where
  "activateBackup =
     thenE (requiring (\<lambda>a. \<not> tx_dir a) (act (\<lambda>a. a\<lparr>tx_dir := True\<rparr>)))
     (bindE (unprepared prepare) (\<lambda>j.
      thenE (write_journal j)
      (thenE (failing (swap_roots j backupRoots))
             (commit j))))"

lemmas [spec_defs] = sync_def act_def

section \<open>Triples over the data directory\<close>

text \<open>
  \<open>holds P m Q E\<close>: from a directory in \<open>P\<close>, under every list of faults, \<open>m\<close> ends in \<open>Q\<close> when it
  succeeds and in \<open>E\<close> when it fails or the process dies.
\<close>

definition holds :: "('d \<Rightarrow> bool) \<Rightarrow> ('d \<times> 'f, 'e, 'a) opx \<Rightarrow> ('a \<Rightarrow> 'd \<Rightarrow> bool) \<Rightarrow> ('d \<Rightarrow> bool) \<Rightarrow> bool" where
  "holds P m Q E \<longleftrightarrow> triple (\<lambda>s. P (fst s)) m (\<lambda>x s. Q x (fst s)) (\<lambda>s. E (fst s))"

lemma holds_bindE [intro?]:
  "holds P m Q E \<Longrightarrow> (\<And>x. holds (Q x) (f x) R E) \<Longrightarrow> holds P (bindE m f) R E"
  unfolding holds_def by (rule triple_bindE)

lemma holds_thenE: "holds P m (\<lambda>_. Q) E \<Longrightarrow> holds Q n R E \<Longrightarrow> holds P (thenE m n) R E"
  unfolding holds_def by (rule triple_thenE)

lemma holds_if:
  "(b \<Longrightarrow> holds P m Q E) \<Longrightarrow> (\<not> b \<Longrightarrow> holds P n Q E) \<Longrightarrow> holds P (if b then m else n) Q E"
  by simp

lemma holds_pre: "holds P m Q E \<Longrightarrow> (\<And>a. P' a \<Longrightarrow> P a) \<Longrightarrow> holds P' m Q E"
  unfolding holds_def by (erule triple_pre) simp

lemma holds_post:
  "holds P m Q E \<Longrightarrow> (\<And>x a. Q x a \<Longrightarrow> Q' x a) \<Longrightarrow> (\<And>a. E a \<Longrightarrow> E' a) \<Longrightarrow> holds P m Q' E'"
  unfolding holds_def by (erule triple_post) simp_all

lemma holds_ret: "(\<And>a. P a \<Longrightarrow> Q x a) \<Longrightarrow> holds P (ret x) Q E"
  unfolding holds_def by (rule triple_ret) simp

lemma holds_throw: "(\<And>a. P a \<Longrightarrow> E a) \<Longrightarrow> holds P (throw e) Q E"
  unfolding holds_def by (rule triple_throw) simp

lemma holds_step:
  assumes "\<And>a. P a \<Longrightarrow> Q (f a)" and "\<And>a. P a \<Longrightarrow> E a" and "\<And>a. P a \<Longrightarrow> E (f a)"
    and "\<And>junk a. P a \<Longrightarrow> E (torn junk a)"
  shows "holds P (step f torn) (\<lambda>_. Q) E"
  using assms by (auto simp: holds_def triple_def step_def split: list.splits fault.splits)

lemma holds_act:
  "(\<And>a. P a \<Longrightarrow> Q (f a)) \<Longrightarrow> (\<And>a. P a \<Longrightarrow> E a) \<Longrightarrow> (\<And>a. P a \<Longrightarrow> E (f a)) \<Longrightarrow> holds P (act f) (\<lambda>_. Q) E"
  unfolding act_def by (rule holds_step)

lemma holds_sync: "(\<And>a. P a \<Longrightarrow> Q a) \<Longrightarrow> (\<And>a. P a \<Longrightarrow> E a) \<Longrightarrow> holds P sync (\<lambda>_. Q) E"
  unfolding sync_def by (rule holds_act)

lemma holds_peek: "(\<And>a. P a \<Longrightarrow> Q (f a) a) \<Longrightarrow> (\<And>a. P a \<Longrightarrow> E a) \<Longrightarrow> holds P (peek f) Q E"
  unfolding peek_def
  by (rule holds_thenE [OF holds_sync [of P P]]) (auto simp: holds_def intro: triple_gets)

lemma holds_requiring:
  "holds (\<lambda>a. P a \<and> b a) m Q E \<Longrightarrow> (\<And>a. P a \<Longrightarrow> E a) \<Longrightarrow> holds P (requiring b m) Q E"
  by (simp add: holds_def triple_def requiring_def)

lemma holds_durableRename:
  assumes "\<And>a. P a \<Longrightarrow> b a \<Longrightarrow> Q (f a)" and "\<And>a. P a \<Longrightarrow> E a" and "\<And>a. Q a \<Longrightarrow> E a"
  shows "holds P (durableRename b f) (\<lambda>_. Q) E"
  unfolding durableRename_def
  by (rule holds_requiring [OF holds_thenE [OF holds_act [of _ Q] holds_thenE [OF holds_sync [of _ Q] holds_sync]]])
    (use assms in auto)

section \<open>What is on disk during a transaction\<close>

text \<open>
  \<open>L\<close> is the data directory before the restore, \<open>N\<close> the staged replacement. An uncommitted
  journal records which roots of \<open>L\<close> existed; then each root of \<open>L\<close> is either in \<open>old\<close>, with
  anything in its live place, or still live. A committed journal, or none, means that the live
  roots are those of \<open>N\<close>, or those of one of the two.
\<close>

definition agree :: "(string \<Rightarrow> 'c option) \<Rightarrow> (string \<Rightarrow> 'c option) \<Rightarrow> bool" where
  "agree f g \<longleftrightarrow> (\<forall>r \<in> set backupRoots. f r = g r)"

definition wf_journal :: "(string \<Rightarrow> 'c option) \<Rightarrow> restoreJournal \<Rightarrow> bool" where
  "wf_journal L j \<longleftrightarrow> Version j = 1 \<and> length (Present j) = length backupRoots \<and>
     (\<forall>r \<in> set backupRoots. map_of (Present j) r = Some (L r \<noteq> None))"

definition kept :: "(string \<Rightarrow> 'c option) \<Rightarrow> 'c area \<Rightarrow> string \<Rightarrow> bool" where
  "kept L a r \<longleftrightarrow> (case old_root a r of Some c \<Rightarrow> L r = Some c | None \<Rightarrow> L r \<noteq> None \<longrightarrow> live a r = L r)"

definition consistent :: "(string \<Rightarrow> 'c option) \<Rightarrow> (string \<Rightarrow> 'c option) \<Rightarrow> 'c area \<Rightarrow> bool" where
  "consistent L N a \<longleftrightarrow> (case journal a of
       None \<Rightarrow> agree (live a) L \<or> agree (live a) N
     | Some j \<Rightarrow> wf_journal L j \<and>
         (if Committed j then agree (live a) N else \<forall>r \<in> set backupRoots. kept L a r))"

definition closed :: "'c area \<Rightarrow> bool" where
  "closed a \<longleftrightarrow> \<not> tx_dir a \<and> journal a = None \<and> stage a = None \<and> old_root a = (\<lambda>_. None) \<and> new_root a = (\<lambda>_. None)"

lemma consistent_uncommitted:
  "journal a = Some j \<Longrightarrow> \<not> Committed j \<Longrightarrow>
   consistent L N a \<longleftrightarrow> wf_journal L j \<and> (\<forall>r \<in> set backupRoots. kept L a r)"
  by (simp add: consistent_def)

lemma wf_journal_present:
  "wf_journal L j \<Longrightarrow> r \<in> set backupRoots \<Longrightarrow> was_present j r \<longleftrightarrow> L r \<noteq> None"
  by (auto simp: wf_journal_def was_present_def)

subsection \<open>Recovery keeps it, and closes the transaction when it succeeds\<close>

definition undoing :: "(string \<Rightarrow> 'c option) \<Rightarrow> restoreJournal \<Rightarrow> string set \<Rightarrow> 'c area \<Rightarrow> bool" where
  "undoing L j D a \<longleftrightarrow> journal a = Some j \<and> \<not> Committed j \<and> wf_journal L j \<and>
     (\<forall>r \<in> set backupRoots. kept L a r) \<and> (\<forall>r \<in> D. live a r = L r \<and> old_root a r = None)"

definition settled :: "(string \<Rightarrow> 'c option) \<Rightarrow> 'c area \<Rightarrow> bool" where
  "settled X a \<longleftrightarrow> journal a = None \<and> agree (live a) X"

definition swapped_in :: "(string \<Rightarrow> 'c option) \<Rightarrow> (string \<Rightarrow> 'c option) \<Rightarrow> 'c area \<Rightarrow> bool" where
  "swapped_in L N a \<longleftrightarrow> (\<exists>j. journal a = Some j \<and> wf_journal L j \<and> Committed j \<and> agree (live a) N)"

text \<open>The two kinds of consistent states: recovery leads back to \<open>L\<close>, or on to \<open>N\<close>.\<close>

definition old_side :: "(string \<Rightarrow> 'c option) \<Rightarrow> 'c area \<Rightarrow> bool" where
  "old_side L a \<longleftrightarrow> settled L a \<or> (\<exists>j. undoing L j {} a)"

definition new_side :: "(string \<Rightarrow> 'c option) \<Rightarrow> (string \<Rightarrow> 'c option) \<Rightarrow> 'c area \<Rightarrow> bool" where
  "new_side L N a \<longleftrightarrow> settled N a \<or> swapped_in L N a"

lemma consistent_sides: "consistent L N a \<longleftrightarrow> old_side L a \<or> new_side L N a"
  by (auto simp: consistent_def old_side_def new_side_def settled_def undoing_def swapped_in_def
      split: option.splits)

lemma undoing_old_side: "undoing L j D a \<Longrightarrow> old_side L a"
  by (auto simp: undoing_def old_side_def)

lemma undoing_insert:
  "undoing L j (D - {r}) a \<Longrightarrow> live a r = L r \<Longrightarrow> old_root a r = None \<Longrightarrow> undoing L j (insert r D) a"
  by (auto simp: undoing_def)

lemma rollback_root_holds:
  fixes L :: "string \<Rightarrow> 'c option"
  assumes r: "r \<in> set backupRoots"
  shows "holds (undoing L j D) (rollback_root j r) (\<lambda>_. undoing L j (insert r D)) (old_side L)"
proof -
  let ?P = "\<lambda>p a. undoing L j D a \<and> p = (old_root a r \<noteq> None)"
  let ?R = "\<lambda>p a. undoing L j (D - {r}) a \<and> live a r = None \<and> p = (old_root a r \<noteq> None)"
  have kept_gone: "kept L (a\<lparr>live := (live a)(r := v)\<rparr>) r'"
    if "undoing L j D a" "old_root a r \<noteq> None \<or> \<not> was_present j r" "r' \<in> set backupRoots" for a v r'
    using that r by (auto simp: undoing_def kept_def wf_journal_present split: option.splits)
  have remove: "holds (\<lambda>a. ?P p a \<and> (p \<or> \<not> was_present j r)) (remove_live r) (\<lambda>_. ?R p) (old_side L)" for p
    unfolding remove_live_def
  proof (rule holds_step)
    fix a and junk :: "string \<Rightarrow> 'c option" assume P: "?P p a \<and> (p \<or> \<not> was_present j r)"
    then have st: "undoing L j (D - {r}) (a\<lparr>live := (live a)(r := v)\<rparr>)" for v
      using kept_gone [of a _ v] by (auto simp: undoing_def)
    show "?R p (a\<lparr>live := (live a)(r := None)\<rparr>)" using st P by auto
    show "old_side L a" using P by (auto intro: undoing_old_side)
    show "old_side L (a\<lparr>live := (live a)(r := None)\<rparr>)" "old_side L (a\<lparr>live := (live a)(r := junk r)\<rparr>)"
      using undoing_old_side [OF st] by auto
  qed
  have rename: "holds (?R True) (durableRename (\<lambda>a. old_root a r \<noteq> None) (old_to_live r))
      (\<lambda>_. undoing L j (insert r D)) (old_side L)"
  proof (rule holds_durableRename)
    fix a assume "?R True a"
    then show "undoing L j (insert r D) (old_to_live r a)"
      using r by (auto simp: undoing_def old_to_live_def kept_def split: option.splits)
  qed (auto intro: undoing_old_side)
  have rest: "holds (?R p) (if p then durableRename (\<lambda>a. old_root a r \<noteq> None) (old_to_live r) else ret ())
      (\<lambda>_. undoing L j (insert r D)) (old_side L)" if "p \<or> \<not> was_present j r" for p
  proof (cases p)
    case True
    with rename show ?thesis by simp
  next
    case False
    with that r have "undoing L j (D - {r}) a \<Longrightarrow> L r = None" for a
      by (auto simp: undoing_def wf_journal_present)
    with False show ?thesis by (auto intro!: holds_ret undoing_insert)
  qed
  show ?thesis
    unfolding rollback_root_def
  proof (rule holds_bindE [where Q = ?P])
    show "holds (undoing L j D) (peek (\<lambda>a. old_root a r \<noteq> None)) ?P (old_side L)"
      by (rule holds_peek) (auto intro: undoing_old_side)
    fix p
    show "holds (?P p) (if p \<or> \<not> was_present j r
        then thenE (remove_live r) (thenE sync
          (if p then durableRename (\<lambda>a. old_root a r \<noteq> None) (old_to_live r) else ret ()))
        else ret ()) (\<lambda>_. undoing L j (insert r D)) (old_side L)"
    proof (rule holds_if)
      assume c: "p \<or> \<not> was_present j r"
      show "holds (?P p) (thenE (remove_live r) (thenE sync
          (if p then durableRename (\<lambda>a. old_root a r \<noteq> None) (old_to_live r) else ret ())))
          (\<lambda>_. undoing L j (insert r D)) (old_side L)"
        by (rule holds_thenE [OF holds_pre [OF remove] holds_thenE [OF holds_sync rest [OF c]]])
          (use c in \<open>auto intro: undoing_old_side\<close>)
    next
      assume c: "\<not> (p \<or> \<not> was_present j r)"
      show "holds (?P p) (ret ()) (\<lambda>_. undoing L j (insert r D)) (old_side L)"
        by (rule holds_ret) (use c r in \<open>auto simp: undoing_def kept_def wf_journal_present\<close>)
    qed
  qed
qed

lemma rollback_holds:
  "set rs \<subseteq> set backupRoots \<Longrightarrow>
   holds (undoing L j D) (rollback j rs) (\<lambda>_. undoing L j (D \<union> set rs)) (old_side L)"
proof (induction rs arbitrary: D)
  case Nil
  then show ?case by (auto intro: holds_ret)
next
  case (Cons r rs)
  have "holds (undoing L j (insert r D)) (rollback j rs) (\<lambda>_. undoing L j (insert r D \<union> set rs)) (old_side L)"
    using Cons.IH [of "insert r D"] Cons.prems by simp
  with Cons.prems holds_thenE [OF rollback_root_holds [of r L j D], of "rollback j rs"] show ?case
    by simp
qed

definition tx_gone :: "'c area \<Rightarrow> bool" where
  "tx_gone a \<longleftrightarrow> \<not> tx_dir a \<and> old_root a = (\<lambda>_. None) \<and> new_root a = (\<lambda>_. None)"

lemma remove_tx_holds:
  "(\<And>a. settled X a \<Longrightarrow> E a) \<Longrightarrow> holds (settled X) remove_tx (\<lambda>_ a. settled X a \<and> tx_gone a) E"
  unfolding remove_tx_def by (rule holds_step) (auto simp: settled_def tx_gone_def)

lemma tail_holds:
  assumes "\<And>a. settled X a \<Longrightarrow> E a"
  shows "holds (\<lambda>a. settled X a \<and> tx_gone a) (thenE sync (thenE remove_stage sync))
    (\<lambda>_ a. settled X a \<and> closed a) E"
  unfolding remove_stage_def
  by (intro holds_thenE [OF holds_sync [of _ "\<lambda>a. settled X a \<and> tx_gone a"]]
      holds_thenE [OF holds_step [of _ "\<lambda>a. settled X a \<and> closed a"] holds_sync])
    (auto simp: settled_def tx_gone_def closed_def intro!: assms)

text \<open>
  Deleting the journal is the step that settles the directory: before it \<open>P\<close>, whose live
  roots are already those of \<open>X\<close>; after it the journal does not come back.
\<close>

lemma finish_holds:
  assumes "\<And>a. P a \<Longrightarrow> E a" and "\<And>a. settled X a \<Longrightarrow> E a" and "\<And>a. P a \<Longrightarrow> agree (live a) X"
  shows "holds P (thenE sync (thenE (act (\<lambda>a. a\<lparr>journal := None\<rparr>)) (thenE sync remove_tx)))
    (\<lambda>_ a. settled X a \<and> tx_gone a) E"
  by (intro holds_thenE [OF holds_sync [of _ P]] holds_thenE [OF holds_act [of _ "settled X"]]
      holds_thenE [OF holds_sync [of _ "settled X"]] remove_tx_holds)
    (use assms in \<open>auto simp: settled_def\<close>)

lemma recover_holds:
  fixes X L :: "string \<Rightarrow> 'c option"
  assumes E: "\<And>a. settled X a \<Longrightarrow> S a" and P: "\<And>a. S a \<Longrightarrow> journal a = None \<Longrightarrow> settled X a"
    and wf: "\<And>a j. S a \<Longrightarrow> journal a = Some j \<Longrightarrow> wf_journal L j"
    and body: "\<And>j. holds (\<lambda>a. S a \<and> journal a = Some j) (if \<not> Committed j then rollback j backupRoots else ret ())
        (\<lambda>_ a. S a \<and> agree (live a) X) S"
  shows "holds S recoverRestore (\<lambda>_ a. settled X a \<and> closed a) S"
  unfolding recoverRestore_def
proof (rule holds_bindE [OF holds_peek [where Q = "\<lambda>j a. S a \<and> journal a = j"]])
  fix found :: "restoreJournal option"
  show "holds (\<lambda>a. S a \<and> journal a = found)
    (thenE (case found of
         None \<Rightarrow> remove_tx
       | Some j \<Rightarrow>
           if Version j \<noteq> 1 \<or> length (Present j) \<noteq> length backupRoots then throw Unsupported
           else if \<exists>r \<in> set backupRoots. map_of (Present j) r = None then throw Incomplete
           else thenE (if \<not> Committed j then rollback j backupRoots else ret ())
             (thenE sync (thenE (act (\<lambda>a. a\<lparr>journal := None\<rparr>)) (thenE sync remove_tx))))
       (thenE sync (thenE remove_stage sync))) (\<lambda>_ a. settled X a \<and> closed a) S"
  proof (rule holds_thenE [OF _ tail_holds [of X S, OF E]])
    show "holds (\<lambda>a. S a \<and> journal a = found) (case found of
         None \<Rightarrow> remove_tx
       | Some j \<Rightarrow>
           if Version j \<noteq> 1 \<or> length (Present j) \<noteq> length backupRoots then throw Unsupported
           else if \<exists>r \<in> set backupRoots. map_of (Present j) r = None then throw Incomplete
           else thenE (if \<not> Committed j then rollback j backupRoots else ret ())
             (thenE sync (thenE (act (\<lambda>a. a\<lparr>journal := None\<rparr>)) (thenE sync remove_tx))))
      (\<lambda>_ a. settled X a \<and> tx_gone a) S"
    proof (cases found)
      case None
      then show ?thesis by (auto intro!: holds_pre [OF remove_tx_holds] E P)
    next
      case (Some j)
      have "holds (\<lambda>a. S a \<and> journal a = Some j) (thenE (if \<not> Committed j then rollback j backupRoots else ret ())
             (thenE sync (thenE (act (\<lambda>a. a\<lparr>journal := None\<rparr>)) (thenE sync remove_tx))))
          (\<lambda>_ a. settled X a \<and> tx_gone a) S"
        by (rule holds_thenE [OF body finish_holds]) (auto intro: E)
      moreover have "holds (\<lambda>a. S a \<and> journal a = Some j) (throw e :: ('c, unit) io) Q S" for e Q
        by (rule holds_throw) simp
      ultimately show ?thesis using Some by simp
    qed
  qed
qed auto

lemma recover_old: "holds (old_side L) recoverRestore (\<lambda>_ a. settled L a \<and> closed a) (old_side L)"
proof (rule recover_holds)
  fix j
  show "holds (\<lambda>a. old_side L a \<and> journal a = Some j) (if \<not> Committed j then rollback j backupRoots else ret ())
      (\<lambda>_ a. old_side L a \<and> agree (live a) L) (old_side L)"
  proof (cases "Committed j")
    case True
    then show ?thesis by (auto intro!: holds_ret simp: old_side_def settled_def undoing_def)
  next
    case False
    have "holds (\<lambda>a. old_side L a \<and> journal a = Some j) (rollback j backupRoots)
        (\<lambda>_. undoing L j ({} \<union> set backupRoots)) (old_side L)"
      by (rule holds_pre [OF rollback_holds]) (auto simp: old_side_def settled_def undoing_def)
    with False show ?thesis
      by (auto elim!: holds_post intro: undoing_old_side simp: undoing_def agree_def)
  qed
qed (auto simp: old_side_def settled_def undoing_def)

lemma recover_new: "holds (new_side L N) recoverRestore (\<lambda>_ a. settled N a \<and> closed a) (new_side L N)"
proof (rule recover_holds)
  fix j
  show "holds (\<lambda>a. new_side L N a \<and> journal a = Some j) (if \<not> Committed j then rollback j backupRoots else ret ())
      (\<lambda>_ a. new_side L N a \<and> agree (live a) N) (new_side L N)"
    by (cases "Committed j")
      (auto simp: new_side_def swapped_in_def settled_def holds_def triple_def ret_def)
qed (auto simp: new_side_def swapped_in_def settled_def)

subsection \<open>Activation\<close>

text \<open>The state \<open>activateBackup\<close> starts from: nothing of an earlier transaction, \<open>N\<close> staged.\<close>

definition fresh :: "(string \<Rightarrow> 'c option) \<Rightarrow> (string \<Rightarrow> 'c option) \<Rightarrow> 'c area \<Rightarrow> bool" where
  "fresh L N a \<longleftrightarrow> \<not> tx_dir a \<and> journal a = None \<and> old_root a = (\<lambda>_. None) \<and> agree (live a) L \<and>
     (\<exists>n. stage a = Some n \<and> agree n N)"

definition moved :: "(string \<Rightarrow> 'c option) \<Rightarrow> (string \<Rightarrow> 'c option) \<Rightarrow> 'c area \<Rightarrow> bool" where
  "moved L N a \<longleftrightarrow> settled L a \<and> old_root a = (\<lambda>_. None) \<and> agree (new_root a) N"

definition swapping :: "(string \<Rightarrow> 'c option) \<Rightarrow> (string \<Rightarrow> 'c option) \<Rightarrow> restoreJournal \<Rightarrow> string set \<Rightarrow> 'c area \<Rightarrow> bool" where
  "swapping L N j D a \<longleftrightarrow> journal a = Some j \<and> \<not> Committed j \<and> wf_journal L j \<and>
     (\<forall>r \<in> set backupRoots. if r \<in> D then old_root a r = L r \<and> live a r = N r
        else old_root a r = None \<and> live a r = L r \<and> new_root a r = N r)"

definition emptied :: "(string \<Rightarrow> 'c option) \<Rightarrow> (string \<Rightarrow> 'c option) \<Rightarrow> restoreJournal \<Rightarrow> string set \<Rightarrow> string \<Rightarrow> 'c area \<Rightarrow> bool" where
  "emptied L N j D r a \<longleftrightarrow> journal a = Some j \<and> \<not> Committed j \<and> wf_journal L j \<and>
     old_root a r = L r \<and> live a r = None \<and> new_root a r = N r \<and>
     (\<forall>r' \<in> set backupRoots - {r}. if r' \<in> D then old_root a r' = L r' \<and> live a r' = N r'
        else old_root a r' = None \<and> live a r' = L r' \<and> new_root a r' = N r')"

lemma swapping_old_side: "swapping L N j D a \<Longrightarrow> old_side L a"
  by (auto simp: swapping_def old_side_def undoing_def kept_def split: option.splits if_splits)

lemma emptied_old_side:
  assumes e: "emptied L N j D r a"
  shows "old_side L a"
proof -
  have "kept L a r'" if "r' \<in> set backupRoots" for r'
  proof (cases "r' = r")
    case True
    with e show ?thesis by (auto simp: emptied_def kept_def split: option.splits)
  next
    case False
    with that have "r' \<in> set backupRoots - {r}" by simp
    with e show ?thesis by (cases "r' \<in> D") (auto simp: emptied_def kept_def split: option.splits)
  qed
  with e show ?thesis by (auto simp: emptied_def old_side_def undoing_def)
qed

lemma emptied_swapping:
  assumes e: "emptied L N j D r a" and "N r = None"
  shows "swapping L N j (insert r D) a"
proof -
  have "if r' \<in> insert r D then old_root a r' = L r' \<and> live a r' = N r'
        else old_root a r' = None \<and> live a r' = L r' \<and> new_root a r' = N r'"
    if "r' \<in> set backupRoots" for r'
    using assms that by (cases "r' = r") (auto simp: emptied_def)
  with e show ?thesis by (simp add: swapping_def emptied_def)
qed

lemma holdsI:
  "(\<And>s. P (fst s) \<Longrightarrow> case m s of (Inl e, t) \<Rightarrow> E (fst t) | (Inr x, t) \<Rightarrow> Q x (fst t)) \<Longrightarrow> holds P m Q E"
  by (simp add: holds_def triple_def)

lemma holdsD:
  assumes "holds P m Q E" and "P (fst s)"
  shows "case m s of (Inl e, t) \<Rightarrow> E (fst t) | (Inr x, t) \<Rightarrow> Q x (fst t)"
  by (rule assms(1) [unfolded holds_def triple_def, rule_format, OF assms(2)])

lemma holds_Inr: "holds P m Q E \<Longrightarrow> P (fst s) \<Longrightarrow> m s = (Inr x, t) \<Longrightarrow> Q x (fst t)"
  by (drule holdsD) auto

lemma holds_Inl: "holds P m Q E \<Longrightarrow> P (fst s) \<Longrightarrow> m s = (Inl e, t) \<Longrightarrow> E (fst t)"
  by (drule holdsD) auto

lemma holds_any:
  assumes "holds P m Q E" and "\<And>x a. Q x a \<Longrightarrow> E a" and "P (fst s)"
  shows "E (fst (snd (m s)))"
proof -
  obtain r t where "m s = (r, t)" by (cases "m s") auto
  with assms show ?thesis
    by (cases r) (auto dest: holds_Inr holds_Inl)
qed

lemma recover_old_side: "old_side L (fst t) \<Longrightarrow> old_side L (fst (snd (recoverRestore t)))"
  by (rule holds_any [OF recover_old]) (auto simp: old_side_def)

lemma recover_new_side: "new_side L N (fst t) \<Longrightarrow> new_side L N (fst (snd (recoverRestore t)))"
  by (rule holds_any [OF recover_new]) (auto simp: new_side_def)

lemma remove_tx_settled: "settled L (fst t) \<Longrightarrow> settled L (fst (snd (remove_tx t)))"
  by (rule holds_any [OF remove_tx_holds]) auto

lemma holds_unprepared:
  assumes m: "holds P m Q (settled L)"
  shows "holds P (unprepared m) Q (settled L)"
proof (rule holdsI)
  fix s :: "'a area \<times> 'a fault list" assume "P (fst s)"
  with holdsD [OF m this] remove_tx_settled [of L]
  show "case unprepared m s of (Inl e, t) \<Rightarrow> settled L (fst t) | (Inr x, t) \<Rightarrow> Q x (fst t)"
    by (auto simp: unprepared_def split: prod.splits sum.splits failure.splits) (metis fst_conv snd_conv)+
qed

lemma holds_failing:
  assumes m: "holds P m Q (old_side L)"
  shows "holds P (failing m) Q (old_side L)"
proof (rule holdsI)
  fix s :: "'a area \<times> 'a fault list" assume "P (fst s)"
  with holdsD [OF m this] recover_old_side [of L]
  show "case failing m s of (Inl e, t) \<Rightarrow> old_side L (fst t) | (Inr x, t) \<Rightarrow> Q x (fst t)"
    by (auto simp: failing_def split: prod.splits sum.splits failure.splits) (metis fst_conv snd_conv)+
qed

definition recorded :: "(string \<Rightarrow> 'c option) \<Rightarrow> string list \<Rightarrow> (string \<times> bool) list \<Rightarrow> bool" where
  "recorded L rs ps \<longleftrightarrow> map fst ps = rs \<and> (\<forall>r \<in> set rs. map_of ps r = Some (L r \<noteq> None))"

lemma recorded_Cons:
  assumes "recorded L rs ps" and "p = (L r \<noteq> None)"
  shows "recorded L (r # rs) ((r, p) # ps)"
proof -
  have "map_of ((r, p) # ps) r' = Some (L r' \<noteq> None)" if "r' \<in> set (r # rs)" for r'
    using assms that by (cases "r' = r") (simp_all only: recorded_def map_of_Cons_code if_True if_False set_ConsD simp_thms, auto)
  then have "\<forall>r' \<in> set (r # rs). map_of ((r, p) # ps) r' = Some (L r' \<noteq> None)" by blast
  with assms(1) show ?thesis unfolding recorded_def by (simp only: list.map fst_conv simp_thms)
qed

lemma record_presence_holds:
  "set rs \<subseteq> set backupRoots \<Longrightarrow>
   holds (moved L N) (record_presence rs) (\<lambda>ps a. moved L N a \<and> recorded L rs ps) (settled L)"
proof (induction rs)
  case Nil
  then show ?case by (auto intro: holds_ret simp: recorded_def)
next
  case (Cons r rs)
  let ?b = "L r \<noteq> None"
  have 1: "holds (moved L N) (peek (\<lambda>a. live a r \<noteq> None)) (\<lambda>p a. moved L N a \<and> p = ?b) (settled L)"
    by (rule holds_peek) (use Cons.prems in \<open>auto simp: moved_def settled_def agree_def\<close>)
  have 2: "holds (\<lambda>a. moved L N a \<and> p = ?b) (record_presence rs)
      (\<lambda>ps a. moved L N a \<and> recorded L (r # rs) ((r, p) # ps)) (settled L)" for p
  proof (cases "p = ?b")
    case True
    have "holds (moved L N) (record_presence rs) (\<lambda>ps a. moved L N a \<and> recorded L rs ps) (settled L)"
      using Cons by simp
    then have "holds (\<lambda>a. moved L N a \<and> p = ?b) (record_presence rs) (\<lambda>ps a. moved L N a \<and> recorded L rs ps) (settled L)"
      by (rule holds_pre) simp
    then show ?thesis
      by (rule holds_post) (use True in \<open>blast intro: recorded_Cons\<close>)+
  next
    case False
    then have "(p = ?b) = False" by blast
    then show ?thesis by (simp only: holds_def triple_def simp_thms)
  qed
  show ?case
    unfolding record_presence.simps
    by (rule holds_bindE [OF 1 holds_bindE [OF 2 holds_ret]]) auto
qed

lemma prepare_holds:
  "holds (fresh' L N) prepare (\<lambda>j a. moved L N a \<and> wf_journal L j \<and> \<not> Committed j) (settled L)"
  if "fresh' = (\<lambda>L N a. settled L a \<and> old_root a = (\<lambda>_. None) \<and> (\<exists>n. stage a = Some n \<and> agree n N))"
proof -
  let ?F = "fresh' L N"
  let ?J = "\<lambda>ps a. moved L N a \<and> recorded L backupRoots ps"
  have 1: "holds ?F (durableRename (\<lambda>a. stage a \<noteq> None) stage_to_new) (\<lambda>_. moved L N) (settled L)"
    by (rule holds_durableRename) (auto simp: that moved_def stage_to_new_def settled_def)
  have 2: "holds (?J ps) (thenE sync (thenE sync (ret \<lparr>Version = 1, Committed = False, Present = ps\<rparr>)))
      (\<lambda>j a. moved L N a \<and> wf_journal L j \<and> \<not> Committed j) (settled L)" for ps
    by (intro holds_thenE [OF holds_sync [of _ "?J ps"]] holds_ret)
      (auto simp: moved_def wf_journal_def recorded_def dest: arg_cong [where f = length])
  show ?thesis
    unfolding prepare_def
    by (rule holds_thenE [OF holds_sync [of _ ?F] holds_thenE [OF 1 holds_bindE [OF record_presence_holds 2]]])
      (auto simp: that)
qed

lemma swap_root_holds:
  assumes r: "r \<in> set backupRoots" "r \<notin> D"
  shows "holds (swapping L N j D) (swap_root j r) (\<lambda>_. swapping L N j (insert r D)) (old_side L)"
  unfolding swap_root_def
proof (rule holds_thenE)
  show "holds (swapping L N j D)
      (if was_present j r then durableRename (\<lambda>a. live a r \<noteq> None) (live_to_old r) else ret ())
      (\<lambda>_. emptied L N j D r) (old_side L)"
  proof (rule holds_if)
    assume "was_present j r"
    show "holds (swapping L N j D) (durableRename (\<lambda>a. live a r \<noteq> None) (live_to_old r))
      (\<lambda>_. emptied L N j D r) (old_side L)"
    proof (rule holds_durableRename)
      fix a assume "swapping L N j D a"
      then show "emptied L N j D r (live_to_old r a)"
        using r by (auto simp: swapping_def emptied_def live_to_old_def)
    qed (auto intro: swapping_old_side emptied_old_side)
  next
    assume "\<not> was_present j r"
    then show "holds (swapping L N j D) (ret ()) (\<lambda>_. emptied L N j D r) (old_side L)"
      using r by (intro holds_ret) (auto simp: swapping_def emptied_def wf_journal_present)
  qed
  have "holds (\<lambda>a. emptied L N j D r a \<and> p = (N r \<noteq> None))
      (if p then durableRename (\<lambda>a. new_root a r \<noteq> None) (new_to_live r) else ret ())
      (\<lambda>_. swapping L N j (insert r D)) (old_side L)" for p
  proof (rule holds_if)
    show "holds (\<lambda>a. emptied L N j D r a \<and> p = (N r \<noteq> None)) (durableRename (\<lambda>a. new_root a r \<noteq> None) (new_to_live r))
      (\<lambda>_. swapping L N j (insert r D)) (old_side L)"
    proof (rule holds_durableRename)
      fix a assume "emptied L N j D r a \<and> p = (N r \<noteq> None)"
      then show "swapping L N j (insert r D) (new_to_live r a)"
        by (auto simp: swapping_def emptied_def new_to_live_def)
    qed (auto intro: swapping_old_side emptied_old_side)
  next
    assume "\<not> p"
    then show "holds (\<lambda>a. emptied L N j D r a \<and> p = (N r \<noteq> None)) (ret ()) (\<lambda>_. swapping L N j (insert r D)) (old_side L)"
      by (intro holds_ret emptied_swapping) auto
  qed
  moreover have "holds (emptied L N j D r) (peek (\<lambda>a. new_root a r \<noteq> None))
      (\<lambda>p a. emptied L N j D r a \<and> p = (N r \<noteq> None)) (old_side L)"
    by (rule holds_peek) (simp add: emptied_def, rule emptied_old_side)
  ultimately show "holds (emptied L N j D r) (bindE (peek (\<lambda>a. new_root a r \<noteq> None)) (\<lambda>present.
         if present then durableRename (\<lambda>a. new_root a r \<noteq> None) (new_to_live r) else ret ()))
      (\<lambda>_. swapping L N j (insert r D)) (old_side L)"
    by (rule holds_bindE [rotated])
qed

lemma swap_roots_holds:
  "set rs \<subseteq> set backupRoots \<Longrightarrow> distinct rs \<Longrightarrow> D \<inter> set rs = {} \<Longrightarrow>
   holds (swapping L N j D) (swap_roots j rs) (\<lambda>_. swapping L N j (D \<union> set rs)) (old_side L)"
proof (induction rs arbitrary: D)
  case Nil
  then show ?case by (auto intro: holds_ret swapping_old_side)
next
  case (Cons r rs)
  have "holds (swapping L N j (insert r D)) (swap_roots j rs) (\<lambda>_. swapping L N j (insert r D \<union> set rs)) (old_side L)"
    using Cons.IH [of "insert r D"] Cons.prems by auto
  with Cons.prems holds_thenE [OF swap_root_holds [of r D L N j], of "swap_roots j rs"] show ?case
    by simp
qed

lemma distinct_backupRoots: "distinct backupRoots"
  by (simp add: backupRoots_def)

lemma commit_holds:
  "holds (swapping L N j (set backupRoots)) (commit j) (\<lambda>_. new_side L N) (consistent L N)"
proof -
  have w: "holds (swapping L N j (set backupRoots)) (write_journal (j\<lparr>Committed := True\<rparr>))
      (\<lambda>_. new_side L N) (consistent L N)"
    unfolding write_journal_def
  proof (rule holds_act)
    fix a assume s: "swapping L N j (set backupRoots) a"
    then show new: "new_side L N (a\<lparr>journal := Some (j\<lparr>Committed := True\<rparr>)\<rparr>)"
      by (auto simp: swapping_def new_side_def swapped_in_def wf_journal_def agree_def)
    then show "consistent L N (a\<lparr>journal := Some (j\<lparr>Committed := True\<rparr>)\<rparr>)"
      by (simp add: consistent_sides)
    show "consistent L N a" using s by (auto simp: consistent_sides intro: swapping_old_side)
  qed
  show ?thesis
  proof (rule holdsI)
    fix s :: "'a area \<times> 'a fault list" assume "swapping L N j (set backupRoots) (fst s)"
    from holdsD [OF w this] recover_new_side [of L N]
    show "case commit j s of (Inl e, t) \<Rightarrow> consistent L N (fst t) | (Inr x, t) \<Rightarrow> new_side L N (fst t)"
      by (auto simp: commit_def consistent_sides split: prod.splits sum.splits failure.splits)
        (metis fst_conv snd_conv)+
  qed
qed

lemma activateBackup_holds:
  "holds (fresh L N) activateBackup (\<lambda>_. new_side L N) (consistent L N)"
proof -
  let ?F = "\<lambda>a. settled L a \<and> old_root a = (\<lambda>_. None) \<and> (\<exists>n. stage a = Some n \<and> agree n N)"
  let ?M = "\<lambda>j a. moved L N a \<and> wf_journal L j \<and> \<not> Committed j"
  have E: "settled L a \<Longrightarrow> consistent L N a" "old_side L a \<Longrightarrow> consistent L N a" for a :: "'a area"
    by (auto simp: consistent_sides old_side_def)
  have 1: "holds (fresh L N) (requiring (\<lambda>a. \<not> tx_dir a) (act (\<lambda>a. a\<lparr>tx_dir := True\<rparr>))) (\<lambda>_. ?F) (consistent L N)"
    by (rule holds_requiring [OF holds_act]) (auto simp: fresh_def settled_def consistent_def)
  have 2: "holds ?F (unprepared prepare) ?M (consistent L N)"
    by (rule holds_post [OF holds_unprepared [OF prepare_holds [OF refl]]]) (auto intro: E)
  have 3: "holds (?M j) (write_journal j) (\<lambda>_. swapping L N j {}) (consistent L N)" for j
    unfolding write_journal_def
  proof (rule holds_act)
    fix a assume m: "?M j a"
    then show s: "swapping L N j {} (a\<lparr>journal := Some j\<rparr>)"
      by (auto simp: moved_def swapping_def settled_def agree_def)
    show "consistent L N a" using m by (auto simp: moved_def intro: E)
    show "consistent L N (a\<lparr>journal := Some j\<rparr>)" using s by (auto intro: E swapping_old_side)
  qed
  have 4: "holds (swapping L N j {}) (failing (swap_roots j backupRoots))
      (\<lambda>_. swapping L N j (set backupRoots)) (consistent L N)" for j
    using holds_failing [OF swap_roots_holds [of backupRoots "{}" L N j]] distinct_backupRoots
    by (auto elim!: holds_post intro: E)
  show ?thesis
    unfolding activateBackup_def
    by (intro holds_thenE [OF 1 holds_bindE [OF 2 holds_thenE [OF 3 holds_thenE [OF 4 commit_holds]]]])
qed

section \<open>Runs without faults\<close>

lemmas run_simps = step_def act_def sync_def peek_def requiring_def durableRename_def remove_live_def
  remove_tx_def remove_stage_def write_journal_def op_simps

lemma rollback_root_fine: "\<exists>b. rollback_root j r (a, []) = (Inr (), (b, []))"
  by (simp add: rollback_root_def run_simps old_to_live_def)

lemma rollback_fine: "\<exists>b. rollback j rs (a, []) = (Inr (), (b, []))"
proof (induction rs arbitrary: a)
  case (Cons r rs)
  from rollback_root_fine [of j r a] Cons show ?case by (auto simp: thenE_def bindE_def)
qed (simp add: ret_def)

lemma recoverRestore_fine:
  assumes "\<And>j. journal a = Some j \<Longrightarrow> wf_journal L j"
  shows "\<exists>b. recoverRestore (a, []) = (Inr (), (b, []))"
proof (cases "journal a")
  case None
  then show ?thesis by (simp add: recoverRestore_def run_simps)
next
  case (Some j)
  with assms have "wf_journal L j" by simp
  then have ok: "Version j = 1" "length (Present j) = length backupRoots"
      "\<forall>r \<in> set backupRoots. map_of (Present j) r \<noteq> None"
    by (auto simp: wf_journal_def)
  obtain b where b: "rollback j backupRoots (a, []) = (Inr (), (b, []))"
    using rollback_fine by blast
  show ?thesis
    using ok b unfolding recoverRestore_def
    by (cases "Committed j") (simp_all add: run_simps Some)
qed

lemma consistent_wf: "consistent L N a \<Longrightarrow> journal a = Some j \<Longrightarrow> wf_journal L j"
  by (simp add: consistent_def)

text \<open>Any number of starts of the program, each running into its own faults.\<close>

fun restarts :: "'c fault list list \<Rightarrow> 'c area \<Rightarrow> 'c area" where
  "restarts [] a = a"
| "restarts (fs # fss) a = restarts fss (fst (snd (recoverRestore (a, fs))))"

lemma restarts_old_side: "old_side L a \<Longrightarrow> old_side L (restarts fss a)"
  by (induction fss arbitrary: a) (simp_all add: recover_old_side)

lemma restarts_new_side: "new_side L N a \<Longrightarrow> new_side L N (restarts fss a)"
  by (induction fss arbitrary: a) (simp_all add: recover_new_side)

lemma old_side_recovers:
  assumes "old_side L a"
  shows "\<exists>d. recoverRestore (a, []) = (Inr (), (d, [])) \<and> closed d \<and> agree (live d) L"
proof -
  have "consistent L L a" using assms by (simp add: consistent_sides)
  from recoverRestore_fine [OF consistent_wf [OF this]] obtain d
    where d: "recoverRestore (a, []) = (Inr (), (d, []))" by blast
  from holds_Inr [OF recover_old _ d, of L] assms d show ?thesis
    by (auto simp: settled_def)
qed

lemma new_side_recovers:
  assumes "new_side L N a"
  shows "\<exists>d. recoverRestore (a, []) = (Inr (), (d, [])) \<and> closed d \<and> agree (live d) N"
proof -
  have "consistent L N a" using assms by (simp add: consistent_sides)
  from recoverRestore_fine [OF consistent_wf [OF this]] obtain d
    where d: "recoverRestore (a, []) = (Inr (), (d, []))" by blast
  from holds_Inr [OF recover_new _ d, of L N] assms d show ?thesis
    by (auto simp: settled_def)
qed

section \<open>The properties\<close>

text \<open>
  C1. A restore is atomic. Start from a data directory holding \<open>L\<close> with a validated backup \<open>N\<close>
  staged; let the activation run into any faults (call failures before or after their effect,
  half-done removals, the death of the process at any call), and let any number of restarts run
  into any faults of their own. The next undisturbed recovery succeeds, leaves no trace of the
  transaction, and every backup root is then that of \<open>L\<close> or every one is that of \<open>N\<close>.
\<close>

theorem restore_atomic:
  assumes "fresh L N a"
  shows "\<exists>d. recoverRestore (restarts fss (fst (snd (activateBackup (a, fs)))), []) = (Inr (), (d, [])) \<and>
             closed d \<and> (agree (live d) L \<or> agree (live d) N)"
proof -
  have "consistent L N (fst (snd (activateBackup (a, fs))))"
    by (rule holds_any [OF activateBackup_holds]) (use assms in \<open>auto simp: consistent_sides\<close>)
  then consider "old_side L (restarts fss (fst (snd (activateBackup (a, fs)))))"
    | "new_side L N (restarts fss (fst (snd (activateBackup (a, fs)))))"
    by (auto simp: consistent_sides intro: restarts_old_side restarts_new_side)
  then show ?thesis
    by cases (blast dest: old_side_recovers new_side_recovers)+
qed

text \<open>
  A restore that reports success is never undone: when \<open>activateBackup\<close> returns nil, every
  later recovery that is not disturbed, after any number of disturbed ones, leaves the staged
  roots \<open>N\<close> in place.
\<close>

lemma restore_success_is_final:
  assumes "fresh L N a" and "fst (activateBackup (a, fs)) = Inr ()"
  shows "\<exists>d. recoverRestore (restarts fss (fst (snd (activateBackup (a, fs)))), []) = (Inr (), (d, [])) \<and>
             closed d \<and> agree (live d) N"
proof -
  obtain t where t: "activateBackup (a, fs) = (Inr (), t)"
    using assms(2) by (metis prod.collapse)
  from holds_Inr [OF activateBackup_holds _ this] assms(1) have "new_side L N (fst t)" by simp
  with t show ?thesis
    using new_side_recovers [OF restarts_new_side] by simp
qed

definition exampleL :: "string \<Rightarrow> nat option" where
  "exampleL r = (if r = ''cas'' then Some 1 else None)"

definition exampleN :: "string \<Rightarrow> nat option" where
  "exampleN r = (if r = ''certs'' then Some 2 else None)"

definition example_area :: "nat area" where
  "example_area = \<lparr>live = exampleL, old_root = (\<lambda>_. None), new_root = (\<lambda>_. None), tx_dir = False,
     journal = None, stage = Some exampleN\<rparr>"

lemma example_fresh: "fresh exampleL exampleN example_area"
  by (simp add: fresh_def example_area_def agree_def)

theorem restore_atomic_witness:
  "\<exists>d. recoverRestore (restarts [[Fine, Die]] (fst (snd (activateBackup (example_area, replicate 20 Fine @ [DieLate])))), [])
         = (Inr (), (d, [])) \<and>
       closed d \<and> (agree (live d) exampleL \<or> agree (live d) exampleN)"
  by (rule restore_atomic [OF example_fresh])

lemma example_success: "fst (activateBackup (example_area, [])) = Inr ()"
  by (simp add: activateBackup_def prepare_def failing_def unprepared_def commit_def recoverRestore_def
      swap_root_def backupRoots_def example_area_def exampleL_def exampleN_def run_simps stage_to_new_def
      live_to_old_def new_to_live_def was_present_def)

theorem restore_success_is_final_witness:
  "\<exists>d. recoverRestore (restarts [[Die]] (fst (snd (activateBackup (example_area, [])))), [])
         = (Inr (), (d, [])) \<and> closed d \<and> agree (live d) exampleN"
  by (rule restore_success_is_final [OF example_fresh example_success])

end
