(* ===== verification/BackupValidate.thy ===== *)
theory BackupValidate
  imports DefinitionHttp DeviceHttp ScepShared
begin

text \<open>
  What a backup must satisfy before it is restored, \<open>backup_validate.go\<close>. A backup is its decoded content: the JSON files as
  values, a directory as the list of its entries. Sizes of files, the strict decoding of JSON and errors of reading are
  left out; \<open>tls.X509KeyPair\<close> and the size of an encrypted key are arguments.
\<close>

section \<open>The content of a backup\<close>

text \<open>A tree of certificates: the live one, or one entry of the trash.\<close>

record cert_tree =
  ctIndex :: "CertRecord list"
  ctCAs :: "(string \<times> ca_dir) list"
  ctCerts :: "(string \<times> certpem) list"
  ctKeys :: "(string \<times> keypem) list"
  ctSecrets :: "(string \<times> string) list"

record backup =
  bkUsers :: "User list"
  bkSessionKey :: "string option"
  bkDeviceKey :: "string option"
  bkTLSCert :: "certpem option"
  bkTLSKey :: "keypem option"
  bkLive :: cert_tree
  bkTemplates :: "CertTemplate list"
  bkDevices :: "Device list"
  bkDefinitions :: "CertDefinition list"
  bkTrash :: "cert_tree list"
  bkSCEP :: scepState

text \<open>The store that the backup is restored to.\<close>

definition bk_store :: "backup \<Rightarrow> store" where
  "bk_store b = empty_store\<lparr>cas := map_of (ctCAs (bkLive b)), certs := map_of (ctCerts (bkLive b)), keys := map_of (ctKeys (bkLive b)),
     index := ctIndex (bkLive b), templates := bkTemplates b, scep := bkSCEP b, devices := bkDevices b,
     definitions := bkDefinitions b, users := bkUsers b, secrets := map_of (ctSecrets (bkLive b)),
     deviceKey := (case bkDeviceKey b of None \<Rightarrow> [] | Some k \<Rightarrow> k)\<rparr>"

text \<open>\<open>Certificate.CheckSignatureFrom\<close>: the parent may sign certificates and has signed this one.\<close>

definition CheckSignatureFrom :: "xcert \<Rightarrow> xcert \<Rightarrow> bool" where
  "CheckSignatureFrom c parent \<longleftrightarrow>
     IsCA parent \<and> (KeyUsage parent = 0 \<or> KeyUsage parent AND KeyUsageCertSign \<noteq> 0) \<and> SignedBy c = PublicKey parent"

definition unix :: "time \<Rightarrow> int" where "unix t = t div second"

section \<open>Accounts, devices, definitions\<close>

definition password_hash_check :: "string \<Rightarrow> unit result" where
  "password_hash_check h =
     (case Split CHR ''$'' h of
        [p0, p1, p2, p3] \<Rightarrow>
          if p0 \<noteq> ''pbkdf2'' then Inl ''invalid password hash''
          else if \<not> (case ParseInt p1 of None \<Rightarrow> False | Some n \<Rightarrow> 1 \<le> n \<and> n \<le> int pwIter) then Inl ''unsupported password KDF''
          else checkR (case (decode64 std_val p2, decode64 std_val p3) of
              (Some salt, Some hash) \<Rightarrow> length salt = 16 \<and> length hash = 32 | _ \<Rightarrow> False) ''invalid password hash''
      | _ \<Rightarrow> Inl ''invalid password hash'')"

fun check_users :: "User list \<Rightarrow> string set \<Rightarrow> nat \<Rightarrow> nat result" where
  "check_users [] names admins = Inr admins"
| "check_users (u # us) names admins =
     (let name = ToLower (uUsername u) in
      if TrimSpace name = [] \<or> ContainsAny name (''|'' @ [CR, LF]) \<or> name \<in> names \<or> (uRole u \<noteq> RoleAdmin \<and> uRole u \<noteq> RoleViewer)
      then Inl ''invalid user record''
      else bindR (password_hash_check (uPasswordHash u)) (\<lambda>_.
        check_users us (insert name names) (if uRole u = RoleAdmin then admins + 1 else admins)))"

definition validateUsers :: "User list \<Rightarrow> unit result" where
  "validateUsers us =
     (if length us > 10000 then Inl ''too many users''
      else bindR (check_users us {} 0) (\<lambda>admins.
        if us \<noteq> [] \<and> admins = 0 then Inl ''backup has no administrator'' else Inr ()))"

definition device_record_ok :: "Device \<Rightarrow> bool" where
  "device_record_ok d \<longleftrightarrow> dID d \<noteq> [] \<and> dName d \<noteq> [] \<and> length (dName d) \<le> 256 \<and> ParseIP (dManagementIP d) \<noteq> None \<and>
     1 \<le> dPort d \<and> dPort d \<le> 65535 \<and> (dPlatform d = devicePlatformIOSXE \<or> dPlatform d = devicePlatformNXOS)"

fun check_devices :: "Device list \<Rightarrow> string set \<Rightarrow> string set \<Rightarrow> unit result" where
  "check_devices [] ids names = Inr ()"
| "check_devices (d # ds) ids names =
     (if \<not> device_record_ok d \<or> dID d \<in> ids \<or> dName d \<in> names then Inl ''invalid device record''
      else check_devices ds (insert (dID d) ids) (insert (dName d) names))"

definition validateDevices :: "Device list \<Rightarrow> unit result" where
  "validateDevices ds = (if length ds > 10000 then Inl ''too many devices'' else check_devices ds {} {})"

definition backupCAID :: "string \<Rightarrow> bool" where
  "backupCAID k \<longleftrightarrow> k = caRoot \<or> k = caIntermediate \<or> ValidSerial k"

definition definitionCNFQDN :: string where "definitionCNFQDN = ''fqdn''"

definition definition_record_ok :: "CertDefinition \<Rightarrow> bool" where
  "definition_record_ok d \<longleftrightarrow> fID d \<noteq> [] \<and> validTemplateName (fName d) \<and> backupCAID (fCAID d) \<and> fProfile d \<noteq> [] \<and>
     length (fProfile d) \<le> 64 \<and> 1 \<le> fValidDays d \<and> fValidDays d \<le> 36500 \<and> validCertID (fCertID d) \<and> fCountry d \<noteq> [] \<and>
     fState d \<noteq> [] \<and> fOrganization d \<noteq> [] \<and> fCNSource d \<in> {[], definitionCNName, definitionCNFQDN} \<and>
     length (fExtraSANs d) \<le> 64 \<and> length (fDNSSANs d) \<le> 64 \<and> length (fIPSANs d) \<le> 64"

fun check_definitions :: "CertDefinition list \<Rightarrow> string set \<Rightarrow> string set \<Rightarrow> unit result" where
  "check_definitions [] ids names = Inr ()"
| "check_definitions (d # ds) ids names =
     (if \<not> definition_record_ok d \<or> fID d \<in> ids \<or> ToLower (fName d) \<in> names then Inl ''invalid definition record''
      else let m = migrateLegacyDefinition d in
        bindR (checkDefinitionTemplates (fCommonName m) (fDNSSANs m) (fIPSANs m)) (\<lambda>_.
          check_definitions ds (insert (fID d) ids) (insert (ToLower (fName d)) names)))"

definition validateDefinitions :: "CertDefinition list \<Rightarrow> unit result" where
  "validateDefinitions ds = (if length ds > 10000 then Inl ''too many definitions'' else check_definitions ds {} {})"

fun check_templates :: "CertTemplate list \<Rightarrow> string set \<Rightarrow> unit result" where
  "check_templates [] names = Inr ()"
| "check_templates (t # ts) names =
     (if ToLower (tName t) \<in> names \<or> tBuiltin t then Inl ''invalid custom templates''
      else bindR (normalize t) (\<lambda>n.
        if \<not> list_all backupCAID (tAllowedIssuers n) then Inl ''invalid template issuer''
        else check_templates ts (insert (ToLower (tName t)) names)))"

definition validateTemplates :: "CertTemplate list \<Rightarrow> unit result" where
  "validateTemplates ts = (if length ts > 10000 then Inl ''too many templates'' else check_templates ts {})"

section \<open>Keys and certificates\<close>

definition validateBackupKey :: "(keyblock \<Rightarrow> bool) \<Rightarrow> keypem \<Rightarrow> xcert \<Rightarrow> bool \<Rightarrow> unit result" where
  "validateBackupKey long_enough pem c encrypted =
     (case pem of
        None \<Rightarrow> Inl ''invalid key PEM''
      | Some p \<Rightarrow>
          if encrypted then
            (if kType p \<noteq> encKeyType \<or> header p ''KDF'' \<noteq> ''PBKDF2-SHA256'' \<or> header p ''Cipher'' \<noteq> ''AES-256-GCM'' \<or>
                header p ''Iterations'' \<noteq> Itoa pbkdf2Iter \<or> \<not> long_enough p
             then Inl ''invalid encrypted CA key envelope'' else Inr ())
          else if kType p \<noteq> plainKeyType then Inl ''invalid unencrypted key''
          else bindR (unmarshalKey pem []) (\<lambda>k.
            if public k \<noteq> PublicKey c then Inl ''certificate/private key mismatch'' else Inr ()))"

text \<open>The one certificate of a file.\<close>

definition sole_certificate :: "certpem \<Rightarrow> xcert result" where
  "sole_certificate pem =
     (case pem_Decode pem of
        None \<Rightarrow> Inl ''no certificate''
      | Some (None, _) \<Rightarrow> Inl ''x509: malformed certificate''
      | Some (Some c, rest) \<Rightarrow> if rest \<noteq> [] then Inl ''invalid certificate PEM framing'' else Inr c)"

text \<open>The maps that \<open>validateRecords\<close> fills, and the files it expects.\<close>

record checked =
  vcCAs :: "string \<Rightarrow> xcert option"
  vcRecords :: "string \<Rightarrow> CertRecord option"
  vcCerts :: "string \<Rightarrow> xcert option"
  vcFiles :: "string list"

definition nothing_checked :: checked where
  "nothing_checked = \<lparr>vcCAs = (\<lambda>_. None), vcRecords = (\<lambda>_. None), vcCerts = (\<lambda>_. None), vcFiles = []\<rparr>"

definition ca_cert_path :: "string \<Rightarrow> string" where "ca_cert_path k = ''cas/'' @ k @ ''/cert.pem''"
definition ca_key_path :: "string \<Rightarrow> string" where "ca_key_path k = ''cas/'' @ k @ ''/key.pem''"
definition leaf_cert_path :: "string \<Rightarrow> string" where "leaf_cert_path k = ''certs/'' @ k @ ''-cert.pem''"
definition leaf_key_path :: "string \<Rightarrow> string" where "leaf_key_path k = ''certs/'' @ k @ ''-key.pem''"

text \<open>The checks of a record that need no file.\<close>

definition record_metadata :: "(string \<Rightarrow> xcert option) \<Rightarrow> CertRecord \<Rightarrow> unit result" where
  "record_metadata known r =
     (if is_ca r then
        (if \<not> backupCAID (caIDOf r) \<or> known (caIDOf r) \<noteq> None \<or> \<not> rHasKey r then Inl ''invalid CA record''
         else if rKind r = caRoot \<and> (rCAID r \<noteq> [] \<or> rIssuerID r \<noteq> []) then Inl ''invalid root metadata''
         else if rKind r = caIntermediate \<and>
           (caIDOf r = caRoot \<or> \<not> backupCAID (rIssuerID r) \<or> caIDOf r = rIssuerID r \<or> (rCAID r \<noteq> [] \<and> rCAID r \<noteq> rSerial r))
         then Inl ''invalid intermediate metadata''
         else Inr ())
      else if rKind r = ''issued'' \<or> rKind r = ''csr'' then
        (if \<not> backupCAID (rIssuerID r) \<or> (rKind r = ''csr'' \<and> rHasKey r) \<or> (rKind r = ''issued'' \<and> \<not> rHasKey r) \<or> rKeyEnc r
         then Inl ''invalid leaf record'' else Inr ())
      else Inl ''unsupported certificate kind'')"

definition record_files :: "cert_tree \<Rightarrow> CertRecord \<Rightarrow> certpem option \<times> keypem option" where
  "record_files T r =
     (if is_ca r then (Option.bind (map_of (ctCAs T) (caIDOf r)) caCert, Option.bind (map_of (ctCAs T) (caIDOf r)) caKey)
      else (map_of (ctCerts T) (rSerial r), map_of (ctKeys T) (rSerial r)))"

definition record_matches :: "CertRecord \<Rightarrow> xcert \<Rightarrow> bool" where
  "record_matches r c \<longleftrightarrow> serialString (SerialNumber c) = rSerial r \<and> unix (NotBefore c) = unix (rNotBefore r) \<and>
     unix (NotAfter c) = unix (rNotAfter r) \<and> IsCA c = is_ca r"

text \<open>One round of the loop over the records.\<close>

definition check_record :: "(keyblock \<Rightarrow> bool) \<Rightarrow> cert_tree \<Rightarrow> checked \<Rightarrow> CertRecord \<Rightarrow> checked result" where
  "check_record long_enough T v r =
     (if \<not> ValidSerial (rSerial r) \<or> vcRecords v (rSerial r) \<noteq> None then Inl ''invalid or duplicate certificate serial''
      else bindR (record_metadata (vcCAs v) r) (\<lambda>_.
      case record_files T r of (certFile, keyFile) \<Rightarrow>
      (case certFile of
         None \<Rightarrow> Inl ''file does not exist''
       | Some pem \<Rightarrow>
           bindR (sole_certificate pem) (\<lambda>c.
           if \<not> record_matches r c then Inl ''certificate/index mismatch''
           else if rKind r = caIntermediate \<and> rAllowSubCA r = MaxPathLenZero c then Inl ''CA path length metadata mismatch''
           else if rProvenance r \<noteq> [] \<and> rProvenance r \<noteq> ''scep'' then Inl ''unsupported certificate provenance''
           else
           bindR (if tName (rTemplatePolicy r) \<noteq> [] then bindR (normalize (rTemplatePolicy r)) (\<lambda>_. Inr ()) else Inr ()) (\<lambda>_.
           bindR (if rHasKey r then (case keyFile of None \<Rightarrow> Inl ''file does not exist'' | Some k \<Rightarrow> validateBackupKey long_enough k c (rKeyEnc r))
                  else Inr ()) (\<lambda>_.
           Inr \<lparr>vcCAs = (if IsCA c then (vcCAs v)(caIDOf r := Some c) else vcCAs v),
                vcRecords = (vcRecords v)(rSerial r := Some r), vcCerts = (vcCerts v)(rSerial r := Some c),
                vcFiles = (if rHasKey r then [if is_ca r then ca_key_path (caIDOf r) else leaf_key_path (rSerial r)] else []) @
                  (if is_ca r then ca_cert_path (caIDOf r) else leaf_cert_path (rSerial r)) # vcFiles v\<rparr>))))))"

fun check_records :: "(keyblock \<Rightarrow> bool) \<Rightarrow> cert_tree \<Rightarrow> CertRecord list \<Rightarrow> checked \<Rightarrow> checked result" where
  "check_records long_enough T [] v = Inr v"
| "check_records long_enough T (r # rs) v = bindR (check_record long_enough T v r) (check_records long_enough T rs)"

text \<open>The files of a tree with the content of the certificates among them, in the order of the walk up to the file names.\<close>

definition tree_files :: "cert_tree \<Rightarrow> (string \<times> (string \<times> certpem) option) list" where
  "tree_files T =
     concat (map (\<lambda>(k, d). (if caCert d \<noteq> None then [(ca_cert_path k, None)] else []) @ (if caKey d \<noteq> None then [(ca_key_path k, None)] else []))
       (ctCAs T)) @
     map (\<lambda>(k, c). (leaf_cert_path k, Some (k, c))) (ctCerts T) @ map (\<lambda>(k, _). (leaf_key_path k, None)) (ctKeys T)"

text \<open>Every issuance of the journal.\<close>

definition journal :: "scepState \<Rightarrow> scepIssuance list" where
  "journal st = map cIssuance (stChallenges st) @ concat (map (\<lambda>h. map sIssuance (hIssuances h)) (stShared st))"

text \<open>A certificate that the journal has committed and the index does not know yet.\<close>

definition is_pending_file :: "scepState \<Rightarrow> (string \<times> certpem) option \<Rightarrow> bool" where
  "is_pending_file st file =
     (case file of
        None \<Rightarrow> False
      | Some (k, pem) \<Rightarrow>
          list_ex (\<lambda>i. iUsed i \<noteq> 0 \<and> \<not> iPublished i \<and> rSerial (iRecord i) = k \<and> pem = [Block (iDER i)]) (journal st))"

definition validateRecords :: "(keyblock \<Rightarrow> bool) \<Rightarrow> scepState \<Rightarrow> bool \<Rightarrow> cert_tree \<Rightarrow> checked result" where
  "validateRecords long_enough st live T =
     (if length (ctIndex T) > 10000 then Inl ''too many certificate records''
      else bindR (check_records long_enough T (ctIndex T) nothing_checked) (\<lambda>v.
        bindR (check_all (\<lambda>(p, file). checkR (p \<in> set (vcFiles v) \<or> (live \<and> is_pending_file st file))
            (''unindexed certificate/key: '' @ p)) (tree_files T)) (\<lambda>_. Inr v)))"

text \<open>Passphrase files only of the CAs of the same tree.\<close>

definition caSecretLimit :: nat where "caSecretLimit = 1024"

definition validateCASecrets :: "cert_tree \<Rightarrow> (string \<Rightarrow> xcert option) \<Rightarrow> unit result" where
  "validateCASecrets T known =
     check_all (\<lambda>(k, p). checkR (known k \<noteq> None \<and> length p \<le> caSecretLimit) (''invalid CA passphrase file '' @ k)) (ctSecrets T)"

section \<open>Chains\<close>

text \<open>The walk from an issuer up to the root, at most \<open>fuel\<close> CAs long; a CA without a record has no issuer.\<close>

definition issuer_of :: "checked \<Rightarrow> xcert \<Rightarrow> string" where
  "issuer_of v c = (case vcRecords v (serialString (SerialNumber c)) of None \<Rightarrow> [] | Some r \<Rightarrow> rIssuerID r)"

fun chain_to_root :: "checked \<Rightarrow> nat \<Rightarrow> string \<Rightarrow> bool" where
  "chain_to_root v fuel k =
     (if k = caRoot then True
      else case fuel of
          0 \<Rightarrow> False
        | Suc n \<Rightarrow> (case vcCAs v k of None \<Rightarrow> False | Some c \<Rightarrow> chain_to_root v n (issuer_of v c)))"

declare chain_to_root.simps [simp del]

definition check_issuer :: "checked \<Rightarrow> CertRecord \<Rightarrow> unit result" where
  "check_issuer v r =
     (case vcCerts v (rSerial r) of
        None \<Rightarrow> Inl ''no certificate''
      | Some c \<Rightarrow>
          if rKind r = caRoot then checkR (CheckSignatureFrom c c) ''invalid root signature''
          else case vcCAs v (rIssuerID r) of
              None \<Rightarrow> Inl ''missing or mismatched issuer''
            | Some issuer \<Rightarrow>
                if \<not> CheckSignatureFrom c issuer then Inl ''missing or mismatched issuer''
                else checkR (chain_to_root v 64 (rIssuerID r)) ''invalid or excessively deep CA chain'')"

section \<open>The trash\<close>

text \<open>The certificates of the trash by serial, the CAs of every id (live and deleted), the records of the trash.\<close>

record history =
  hiCerts :: "string \<Rightarrow> xcert option"
  hiCAs :: "string \<Rightarrow> xcert list"
  hiRecords :: "CertRecord list"

definition check_trash :: "(xcert \<Rightarrow> string) \<Rightarrow> (keyblock \<Rightarrow> bool) \<Rightarrow> scepState \<Rightarrow> history \<Rightarrow> cert_tree \<Rightarrow> history result" where
  "check_trash raw long_enough st h T =
     (if ctIndex T = [] then Inl ''trash without index''
      else bindR (validateRecords long_enough st False T) (\<lambda>v.
      if \<exists>r \<in> set (ctIndex T). case (hiCerts h (rSerial r), vcCerts v (rSerial r)) of
            (Some a, Some c) \<Rightarrow> raw a \<noteq> raw c | _ \<Rightarrow> False
      then Inl ''conflicting trash certificates''
      else bindR (validateCASecrets T (vcCAs v)) (\<lambda>_.
        Inr \<lparr>hiCerts = hiCerts h ++ vcCerts v,
             hiCAs = (\<lambda>k. hiCAs h k @ (case vcCAs v k of None \<Rightarrow> [] | Some c \<Rightarrow> [c])),
             hiRecords = hiRecords h @ ctIndex T\<rparr>)))"

fun check_trashes :: "(xcert \<Rightarrow> string) \<Rightarrow> (keyblock \<Rightarrow> bool) \<Rightarrow> scepState \<Rightarrow> cert_tree list \<Rightarrow> history \<Rightarrow> history result" where
  "check_trashes raw long_enough st [] h = Inr h"
| "check_trashes raw long_enough st (T # Ts) h = bindR (check_trash raw long_enough st h T) (check_trashes raw long_enough st Ts)"

text \<open>A certificate of the trash was signed by one of the CAs of its issuer's id, when any is known.\<close>

definition check_history :: "history \<Rightarrow> CertRecord \<Rightarrow> unit result" where
  "check_history h r =
     checkR (hiCAs h (rIssuerID r) = [] \<or>
       (case hiCerts h (rSerial r) of None \<Rightarrow> False | Some c \<Rightarrow> list_ex (CheckSignatureFrom c) (hiCAs h (rIssuerID r))))
       ''trash certificate issuer mismatch''"

section \<open>The journal\<close>

definition hash_ok :: "string \<Rightarrow> bool" where
  "hash_ok s \<longleftrightarrow> length s = 64 \<and> ValidSerial s"

text \<open>\<open>checkSCEPIssuance\<close>: an issuance against its CA, the index and the trash.\<close>

definition issuer_check :: "(xcert \<Rightarrow> string) \<Rightarrow> checked \<Rightarrow> history \<Rightarrow> string \<Rightarrow> scepIssuance \<Rightarrow> xcert \<Rightarrow> unit result" where
  "issuer_check raw v h ca iss c =
     (case vcCAs v ca of
        Some issuer \<Rightarrow> checkR (CheckSignatureFrom c issuer) ''SCEP issuer mismatch''
      | None \<Rightarrow>
          if iPublished iss then
            checkR (case hiCerts h (rSerial (iRecord iss)) of None \<Rightarrow> False | Some d \<Rightarrow> raw d = raw c)
              ''published SCEP certificate missing from live data and trash''
          else Inl ''pending SCEP issuer missing'')"

definition projection_check :: "(xcert \<Rightarrow> string) \<Rightarrow> cert_tree \<Rightarrow> checked \<Rightarrow> scepIssuance \<Rightarrow> xcert \<Rightarrow> unit result" where
  "projection_check raw T v iss c =
     (case vcRecords v (rSerial (iRecord iss)) of
        Some r \<Rightarrow>
          checkR (r = iRecord iss \<and> (case vcCerts v (rSerial r) of None \<Rightarrow> False | Some d \<Rightarrow> raw d = raw c)) ''SCEP projection mismatch''
      | None \<Rightarrow>
          if iPublished iss then Inr ()
          else (case map_of (ctCerts T) (rSerial (iRecord iss)) of
              None \<Rightarrow> Inr ()
            | Some pem \<Rightarrow> checkR (pem = encodeCertPEM c) ''pending SCEP PEM mismatch''))"

definition checkSCEPIssuance ::
  "(xcert \<Rightarrow> string) \<Rightarrow> cert_tree \<Rightarrow> checked \<Rightarrow> history \<Rightarrow> string \<Rightarrow> CertTemplate \<Rightarrow> scepIssuance \<Rightarrow> unit result" where
  "checkSCEPIssuance raw T v h ca profile iss =
     (let r = iRecord iss in
      if \<not> hash_ok (iRequestHash iss) \<or> \<not> hash_ok (iSignerHash iss) \<or> length (iTransaction iss) < 1 \<or> length (iTransaction iss) > 256
      then Inl ''invalid SCEP history''
      else case iDER iss of
          None \<Rightarrow> Inl ''inconsistent SCEP issuance''
        | Some c \<Rightarrow>
            if rSerial r \<noteq> serialString (SerialNumber c) \<or> rIssuerID r \<noteq> ca \<or> rKind r \<noteq> ''csr'' \<or> rProvenance r \<noteq> ''scep'' \<or>
               rHasKey r \<or> rKeyEnc r
            then Inl ''inconsistent SCEP issuance''
            else if IsCA c \<or> unix (NotBefore c) \<noteq> unix (rNotBefore r) \<or> unix (NotAfter c) \<noteq> unix (rNotAfter r) \<or>
               profile \<noteq> rTemplatePolicy r \<or> rTemplateName r \<noteq> tName profile
            then Inl ''SCEP policy/metadata mismatch''
            else bindR (issuer_check raw v h ca iss c) (\<lambda>_. projection_check raw T v iss c))"

definition backup_dns :: "string \<Rightarrow> unit result" where
  "backup_dns d =
     (if length d > 253 then Inl ''invalid SCEP DNS identity''
      else check_all (\<lambda>l. checkR (dns_label l) ''invalid SCEP DNS label'') (Split CHR ''.'' d))"

text \<open>A challenge for one request; the hashes of the challenges before it are \<open>names\<close>.\<close>

definition check_challenge ::
  "(xcert \<Rightarrow> string) \<Rightarrow> cert_tree \<Rightarrow> checked \<Rightarrow> history \<Rightarrow> string set \<Rightarrow> scepChallenge \<Rightarrow> unit result" where
  "check_challenge raw T v h names c =
     (if \<not> hash_ok (cHash c) \<or> cHash c \<in> names \<or> \<not> backupCAID (cCA c) \<or> cCA c = caRoot then Inl ''invalid SCEP challenge''
      else if cExpires c = 0 \<or> cDays c < 1 \<or> cDays c > 36500 \<or> length (cDNS c) + length (cIPs c) < 1 \<or>
         length (cDNS c) + length (cIPs c) > 100 \<or> tProfile (cProfile c) \<noteq> profileServer
      then Inl ''invalid SCEP authorization''
      else bindR (normalize (cProfile c)) (\<lambda>profile.
        bindR (check_all backup_dns (cDNS c)) (\<lambda>_.
        let i = cIssuance c in
        if iUsed i = 0 then
          checkR (iDER i = None \<and> rSerial (iRecord i) = [] \<and> \<not> iPublished i \<and> iTransaction i = [] \<and> iRequestHash i = [] \<and> iSignerHash i = [])
            ''inconsistent unused SCEP challenge''
        else checkSCEPIssuance raw T v h (cCA c) profile i)))"

fun check_challenges ::
  "(xcert \<Rightarrow> string) \<Rightarrow> cert_tree \<Rightarrow> checked \<Rightarrow> history \<Rightarrow> string set \<Rightarrow> scepChallenge list \<Rightarrow> string set result" where
  "check_challenges raw T v h names [] = Inr names"
| "check_challenges raw T v h names (c # cs) =
     bindR (check_challenge raw T v h names c) (\<lambda>_. check_challenges raw T v h (insert (cHash c) names) cs)"

definition check_shared_issuance ::
  "(xcert \<Rightarrow> string) \<Rightarrow> cert_tree \<Rightarrow> checked \<Rightarrow> history \<Rightarrow> string \<Rightarrow> CertTemplate \<Rightarrow> prefix list \<Rightarrow> scepSharedIssuance \<Rightarrow> unit result" where
  "check_shared_issuance raw T v h ca profile ranges s =
     (if iUsed (sIssuance s) = 0 \<or> sIdentity s = [] \<or> \<not> list_ex (\<lambda>p. prefix_contains p (sSource s)) ranges
      then Inl ''invalid SCEP shared issuance''
      else checkSCEPIssuance raw T v h ca profile (sIssuance s))"

definition check_shared ::
  "(xcert \<Rightarrow> string) \<Rightarrow> cert_tree \<Rightarrow> checked \<Rightarrow> history \<Rightarrow> string set \<Rightarrow> scepSharedChallenge \<Rightarrow> unit result" where
  "check_shared raw T v h names c =
     (if \<not> hash_ok (hHash c) \<or> hHash c \<in> names \<or> \<not> backupCAID (hCA c) \<or> hCA c = caRoot then Inl ''invalid SCEP shared challenge''
      else if hExpires c = 0 \<or> hCreated c = 0 \<or> hDays c < 1 \<or> hDays c > 36500 \<or> tProfile (hProfile c) \<noteq> profileServer
      then Inl ''invalid SCEP shared authorization''
      else bindR (normalize (hProfile c)) (\<lambda>profile.
        bindR (case normalizeSharedRanges (hRanges c) of Inl e \<Rightarrow> Inl ''invalid SCEP shared ranges''
          | Inr ranges \<Rightarrow> checkR (ranges = hRanges c) ''invalid SCEP shared ranges'') (\<lambda>_.
        bindR (case normalizeSharedSuffixes (hSuffixes c) of Inl e \<Rightarrow> Inl ''invalid SCEP shared suffixes''
          | Inr ends \<Rightarrow> checkR (ends = hSuffixes c) ''invalid SCEP shared suffixes'') (\<lambda>_.
        check_all (check_shared_issuance raw T v h (hCA c) profile (hRanges c)) (hIssuances c)))))"

fun check_shareds ::
  "(xcert \<Rightarrow> string) \<Rightarrow> cert_tree \<Rightarrow> checked \<Rightarrow> history \<Rightarrow> string set \<Rightarrow> scepSharedChallenge list \<Rightarrow> unit result" where
  "check_shareds raw T v h names [] = Inr ()"
| "check_shareds raw T v h names (c # cs) =
     bindR (check_shared raw T v h names c) (\<lambda>_. check_shareds raw T v h (insert (hHash c) names) cs)"

definition validateSCEP :: "(xcert \<Rightarrow> string) \<Rightarrow> backup \<Rightarrow> checked \<Rightarrow> history \<Rightarrow> unit result" where
  "validateSCEP raw b v h =
     (let st = bkSCEP b in
      if stCA st \<noteq> [] \<and> \<not> backupCAID (stCA st) then Inl ''invalid SCEP selection''
      else if stCA st = caRoot then Inl ''invalid SCEP root selection''
      else bindR (if vcCAs v (stCA st) \<noteq> None then bindR (scep_ca (bk_store b) (stCA st)) (\<lambda>_. Inr ()) else Inr ()) (\<lambda>_.
        if length (stChallenges st) + length (stShared st) > 10000 then Inl ''too many SCEP challenges''
        else bindR (check_challenges raw (bkLive b) v h {} (stChallenges st)) (\<lambda>names.
          check_shareds raw (bkLive b) v h names (stShared st))))"

section \<open>The whole backup\<close>

text \<open>The HTTPS identity: a key that fits the first certificate, a leaf, and each certificate signed by the next.\<close>

fun signed_in_turn :: "xcert list \<Rightarrow> bool" where
  "signed_in_turn (a # b # cs) = (CheckSignatureFrom a b \<and> signed_in_turn (b # cs))"
| "signed_in_turn _ = True"

fun certs_of :: "certpem \<Rightarrow> xcert list option" where
  "certs_of [] = Some []"
| "certs_of (Junk # rest) = certs_of rest"
| "certs_of (Block None # rest) = None"
| "certs_of (Block (Some c) # rest) = map_option ((#) c) (certs_of rest)"

definition validateIdentity :: "(certpem \<Rightarrow> keypem \<Rightarrow> bool) \<Rightarrow> certpem option \<Rightarrow> keypem option \<Rightarrow> unit result" where
  "validateIdentity key_pair c k =
     (case (c, k) of
        (None, None) \<Rightarrow> Inr ()
      | (Some cert, Some key) \<Rightarrow>
          if \<not> key_pair cert key then Inl ''invalid HTTPS identity''
          else (case certs_of cert of
              None \<Rightarrow> Inl ''invalid HTTPS certificate chain''
            | Some [] \<Rightarrow> Inl ''invalid HTTPS certificate chain''
            | Some (leaf # chain) \<Rightarrow>
                if IsCA leaf then Inl ''invalid HTTPS certificate chain''
                else checkR (signed_in_turn (leaf # chain)) ''HTTPS chain signature mismatch'')
      | _ \<Rightarrow> Inl ''incomplete HTTPS identity'')"

definition validateBackup ::
  "(xcert \<Rightarrow> string) \<Rightarrow> (keyblock \<Rightarrow> bool) \<Rightarrow> (certpem \<Rightarrow> keypem \<Rightarrow> bool) \<Rightarrow> backup \<Rightarrow> unit result" where
  "validateBackup raw long_enough key_pair b =
     bindR (validateUsers (bkUsers b)) (\<lambda>_.
     if (case bkSessionKey b of None \<Rightarrow> False | Some k \<Rightarrow> length k \<noteq> 32) then Inl ''invalid session key''
     else if (case bkDeviceKey b of None \<Rightarrow> False | Some k \<Rightarrow> length k \<noteq> deviceKeySize) then Inl ''invalid device credential key''
     else
     bindR (validateIdentity key_pair (bkTLSCert b) (bkTLSKey b)) (\<lambda>_.
     bindR (validateRecords long_enough (bkSCEP b) True (bkLive b)) (\<lambda>v.
     bindR (check_all (check_issuer v) (ctIndex (bkLive b))) (\<lambda>_.
     bindR (validateCASecrets (bkLive b) (vcCAs v)) (\<lambda>_.
     bindR (validateTemplates (bkTemplates b)) (\<lambda>_.
     bindR (validateDevices (bkDevices b)) (\<lambda>_.
     bindR (validateDefinitions (bkDefinitions b)) (\<lambda>_.
     bindR (check_trashes raw long_enough (bkSCEP b) (bkTrash b)
         \<lparr>hiCerts = (\<lambda>_. None), hiCAs = (\<lambda>k. case vcCAs v k of None \<Rightarrow> [] | Some c \<Rightarrow> [c]), hiRecords = []\<rparr>) (\<lambda>h.
     bindR (check_all (check_history h) (hiRecords h)) (\<lambda>_.
     validateSCEP raw b v h))))))))))"

section \<open>What a validated backup promises\<close>

lemma validateBackup_parts:
  assumes "validateBackup raw long_enough key_pair b = Inr ()"
  obtains v where "validateUsers (bkUsers b) = Inr ()" "validateRecords long_enough (bkSCEP b) True (bkLive b) = Inr v"
    "\<forall>r \<in> set (ctIndex (bkLive b)). check_issuer v r = Inr ()" "validateTemplates (bkTemplates b) = Inr ()"
    "validateDevices (bkDevices b) = Inr ()" "validateDefinitions (bkDefinitions b) = Inr ()"
  using assms by (auto simp: validateBackup_def)

lemma check_users_Inr:
  "check_users us names admins = Inr n \<Longrightarrow>
     distinct (map (\<lambda>u. ToLower (uUsername u)) us) \<and> (\<lambda>u. ToLower (uUsername u)) ` set us \<inter> names = {} \<and>
     n = admins + length (filter (\<lambda>u. uRole u = RoleAdmin) us) \<and>
     (\<forall>u \<in> set us. uRole u \<in> {RoleAdmin, RoleViewer} \<and> CHR ''|'' \<notin> set (uUsername u) \<and> TrimSpace (ToLower (uUsername u)) \<noteq> [])"
proof (induction us arbitrary: names admins)
  case (Cons u us)
  let ?name = "ToLower (uUsername u)"
  from Cons.prems have u: "TrimSpace ?name \<noteq> []" "\<not> ContainsAny ?name (''|'' @ [CR, LF])" "?name \<notin> names"
      "uRole u \<in> {RoleAdmin, RoleViewer}"
    and us: "check_users us (insert ?name names) (if uRole u = RoleAdmin then admins + 1 else admins) = Inr n"
    by (auto simp: Let_def)
  have "CHR ''|'' \<notin> set (uUsername u)"
  proof
    assume "CHR ''|'' \<in> set (uUsername u)"
    then have "lower CHR ''|'' \<in> set ?name" by (simp add: ToLower_def)
    moreover have "lower CHR ''|'' = CHR ''|''" by (simp add: lower_def char_defs)
    ultimately show False using u(2) by (auto simp: ContainsAny_def)
  qed
  with u Cons.IH [OF us] show ?case by auto
qed simp

lemma check_devices_Inr:
  "check_devices ds ids names = Inr () \<Longrightarrow>
     distinct (map dID ds) \<and> distinct (map dName ds) \<and> dID ` set ds \<inter> ids = {} \<and> dName ` set ds \<inter> names = {} \<and>
     (\<forall>d \<in> set ds. device_record_ok d)"
proof (induction ds arbitrary: ids names)
  case (Cons d ds)
  from Cons.prems have d: "device_record_ok d" "dID d \<notin> ids" "dName d \<notin> names"
    and ds: "check_devices ds (insert (dID d) ids) (insert (dName d) names) = Inr ()" by auto
  from d Cons.IH [OF ds] show ?case by auto
qed simp

lemma check_definitions_Inr:
  "check_definitions ds ids names = Inr () \<Longrightarrow>
     distinct (map fID ds) \<and> distinct (map (\<lambda>d. ToLower (fName d)) ds) \<and> fID ` set ds \<inter> ids = {} \<and>
     (\<lambda>d. ToLower (fName d)) ` set ds \<inter> names = {} \<and>
     (\<forall>d \<in> set ds. definition_record_ok d \<and> (case migrateLegacyDefinition d of m \<Rightarrow>
        checkDefinitionTemplates (fCommonName m) (fDNSSANs m) (fIPSANs m) = Inr ()))"
proof (induction ds arbitrary: ids names)
  case (Cons d ds)
  from Cons.prems have d: "definition_record_ok d" "fID d \<notin> ids" "ToLower (fName d) \<notin> names"
      "case migrateLegacyDefinition d of m \<Rightarrow> checkDefinitionTemplates (fCommonName m) (fDNSSANs m) (fIPSANs m) = Inr ()"
    and ds: "check_definitions ds (insert (fID d) ids) (insert (ToLower (fName d)) names) = Inr ()" by (auto simp: Let_def)
  from d Cons.IH [OF ds] show ?case by auto
qed simp

lemma check_templates_Inr:
  "check_templates ts names = Inr () \<Longrightarrow>
     distinct (map (\<lambda>t. ToLower (tName t)) ts) \<and> (\<lambda>t. ToLower (tName t)) ` set ts \<inter> names = {} \<and>
     (\<forall>t \<in> set ts. \<exists>n. normalize t = Inr n)"
proof (induction ts arbitrary: names)
  case (Cons t ts)
  from Cons.prems obtain n where t: "ToLower (tName t) \<notin> names" "normalize t = Inr n"
    and ts: "check_templates ts (insert (ToLower (tName t)) names) = Inr ()" by auto
  from t Cons.IH [OF ts] show ?case by auto
qed simp

text \<open>
  A backup that passed validation gives back what the stores promise of themselves: accounts with unique names up to case,
  valid roles, no separator of session tokens in a name and, when there are any, an administrator among them; devices with
  unique identifiers and names; definitions with unique identifiers and names whose templates are valid after the conversion
  of old records; templates with unique names up to case that normalize.
\<close>

lemma validated_lists:
  assumes "validateBackup raw long_enough key_pair b = Inr ()"
  shows "distinct (map (\<lambda>u. ToLower (uUsername u)) (bkUsers b)) \<and>
    (\<forall>u \<in> set (bkUsers b). uRole u \<in> {RoleAdmin, RoleViewer} \<and> CHR ''|'' \<notin> set (uUsername u)) \<and>
    (bkUsers b \<noteq> [] \<longrightarrow> has_admin (bkUsers b)) \<and>
    devices_ok (bkDevices b) \<and>
    distinct (map fID (bkDefinitions b)) \<and> distinct (map (\<lambda>d. ToLower (fName d)) (bkDefinitions b)) \<and>
    (\<forall>m \<in> migrateLegacyDefinition ` set (bkDefinitions b).
       checkDefinitionTemplates (fCommonName m) (fDNSSANs m) (fIPSANs m) = Inr ()) \<and>
    distinct (map (\<lambda>t. ToLower (tName t)) (bkTemplates b)) \<and> (\<forall>t \<in> set (bkTemplates b). \<exists>n. normalize t = Inr n)"
proof -
  from assms obtain v where b: "validateUsers (bkUsers b) = Inr ()" "validateTemplates (bkTemplates b) = Inr ()"
    "validateDevices (bkDevices b) = Inr ()" "validateDefinitions (bkDefinitions b) = Inr ()" by (rule validateBackup_parts)
  from b(1) obtain n where n: "check_users (bkUsers b) {} 0 = Inr n" "\<not> (bkUsers b \<noteq> [] \<and> n = 0)"
    by (auto simp: validateUsers_def split: if_splits)
  from b(3) have d: "check_devices (bkDevices b) {} {} = Inr ()" by (simp add: validateDevices_def split: if_splits)
  from b(4) have f: "check_definitions (bkDefinitions b) {} {} = Inr ()" by (simp add: validateDefinitions_def split: if_splits)
  from b(2) have t: "check_templates (bkTemplates b) {} = Inr ()" by (simp add: validateTemplates_def split: if_splits)
  have "has_admin (bkUsers b)" if "bkUsers b \<noteq> []"
    using check_users_Inr [OF n(1)] n(2) that by (auto simp: has_admin_def list_ex_iff filter_empty_conv)
  moreover have "devices_ok (bkDevices b)"
    using check_devices_Inr [OF d] by (auto simp: devices_ok_def device_record_ok_def)
  ultimately show ?thesis
    using check_users_Inr [OF n(1)] check_definitions_Inr [OF f] check_templates_Inr [OF t] by auto
qed

section \<open>The chains of a validated backup\<close>

text \<open>What the loop over the records establishes of the maps it fills.\<close>

definition record_entry :: "cert_tree \<Rightarrow> checked \<Rightarrow> CertRecord \<Rightarrow> bool" where
  "record_entry T v r \<longleftrightarrow> vcRecords v (rSerial r) = Some r \<and>
     (\<exists>c pem. fst (record_files T r) = Some pem \<and> certs_of pem = Some [c] \<and> vcCerts v (rSerial r) = Some c \<and>
        serialString (SerialNumber c) = rSerial r \<and> (is_ca r \<longrightarrow> vcCAs v (caIDOf r) = Some c)) \<and>
     (rKind r = caIntermediate \<longrightarrow> rCAID r = [] \<or> ValidSerial (rCAID r)) \<and> (rKind r = caRoot \<longrightarrow> rCAID r = [])"

definition maps_filled :: "cert_tree \<Rightarrow> CertRecord list \<Rightarrow> checked \<Rightarrow> bool" where
  "maps_filled T rs v \<longleftrightarrow> (\<forall>r \<in> set rs. record_entry T v r) \<and> (\<forall>k r. vcRecords v k = Some r \<longrightarrow> r \<in> set rs \<and> rSerial r = k) \<and>
     (\<forall>k c. vcCAs v k = Some c \<longrightarrow> (\<exists>r \<in> set rs. is_ca r \<and> caIDOf r = k \<and> rSerial r = serialString (SerialNumber c)))"

lemma sole_certificate_Inr: "sole_certificate pem = Inr c \<Longrightarrow> certs_of pem = Some [c]"
  unfolding sole_certificate_def
  by (induction pem rule: pem_Decode.induct) (auto split: option.splits if_splits)

lemma check_record_Inr:
  assumes "check_record long_enough T v r = Inr w"
  obtains c pem where "ValidSerial (rSerial r)" "vcRecords v (rSerial r) = None" "record_metadata (vcCAs v) r = Inr ()"
    "fst (record_files T r) = Some pem" "certs_of pem = Some [c]" "record_matches r c"
    "vcRecords w = (vcRecords v)(rSerial r := Some r)" "vcCerts w = (vcCerts v)(rSerial r := Some c)"
    "vcCAs w = (if is_ca r then (vcCAs v)(caIDOf r := Some c) else vcCAs v)"
proof -
  obtain cf kf where f: "record_files T r = (cf, kf)" by fastforce
  from assms obtain pem where a: "ValidSerial (rSerial r)" "vcRecords v (rSerial r) = None" "record_metadata (vcCAs v) r = Inr ()"
    "cf = Some pem" by (auto simp: check_record_def f split: option.splits)
  have "\<exists>c. sole_certificate pem = Inr c \<and> record_matches r c \<and> vcRecords w = (vcRecords v)(rSerial r := Some r) \<and>
      vcCerts w = (vcCerts v)(rSerial r := Some c) \<and> vcCAs w = (if IsCA c then (vcCAs v)(caIDOf r := Some c) else vcCAs v)"
    using assms a by (auto simp: check_record_def f intro: exI)
  then obtain c where m: "sole_certificate pem = Inr c" "record_matches r c"
    and w: "vcRecords w = (vcRecords v)(rSerial r := Some r)" "vcCerts w = (vcCerts v)(rSerial r := Some c)"
      "vcCAs w = (if IsCA c then (vcCAs v)(caIDOf r := Some c) else vcCAs v)"
    by (elim exE conjE) (rule that)
  from m have "IsCA c = is_ca r" by (simp add: record_matches_def)
  with a f m w show ?thesis by (intro that [of pem c]) (auto intro: sole_certificate_Inr)
qed

lemma backupCAID_ne: "backupCAID k \<Longrightarrow> k \<noteq> []"
  by (auto simp: backupCAID_def ca_kinds ValidSerial_def)

lemma kinds_differ: "caRoot \<noteq> caIntermediate"
  by (simp add: ca_kinds)

lemma record_metadata_ca:
  assumes "record_metadata known r = Inr ()" "is_ca r"
  shows "known (caIDOf r) = None" "rKind r = caRoot \<Longrightarrow> rCAID r = []"
    "rKind r = caIntermediate \<Longrightarrow> rCAID r = [] \<or> rCAID r = rSerial r"
  using assms kinds_differ by (auto simp: record_metadata_def split: if_splits)

lemma check_record_fills:
  assumes "check_record long_enough T v r = Inr w" "maps_filled T rs v"
  shows "maps_filled T (rs @ [r]) w"
proof -
  from assms(1) obtain c pem where r: "ValidSerial (rSerial r)" "vcRecords v (rSerial r) = None" "record_metadata (vcCAs v) r = Inr ()"
    "fst (record_files T r) = Some pem" "certs_of pem = Some [c]" "record_matches r c"
    "vcRecords w = (vcRecords v)(rSerial r := Some r)" "vcCerts w = (vcCerts v)(rSerial r := Some c)"
    "vcCAs w = (if is_ca r then (vcCAs v)(caIDOf r := Some c) else vcCAs v)" by (rule check_record_Inr)
  note ca = record_metadata_ca [OF r(3)]
  have sn: "serialString (SerialNumber c) = rSerial r" using r(6) by (simp add: record_matches_def)
  have new: "record_entry T w r"
    using r(1,4,5,7-9) ca sn by (auto simp: record_entry_def is_ca_def)
  have old: "record_entry T w x" if x: "x \<in> set rs" for x
  proof -
    from assms(2) x have e: "record_entry T v x" by (simp add: maps_filled_def)
    then have "rSerial x \<noteq> rSerial r" using r(2) by (auto simp: record_entry_def)
    moreover have "caIDOf x \<noteq> caIDOf r" if "is_ca x" "is_ca r"
      using e that ca(1) by (auto simp: record_entry_def)
    ultimately show ?thesis using e r(7-9) by (auto simp: record_entry_def)
  qed
  show ?thesis
    unfolding maps_filled_def
  proof (intro conjI allI impI)
    show "\<forall>x \<in> set (rs @ [r]). record_entry T w x" using new old by auto
  next
    fix k x assume "vcRecords w k = Some x"
    then show "x \<in> set (rs @ [r])" "rSerial x = k"
      using r(7) assms(2) by (auto simp: maps_filled_def split: if_splits)
  next
    fix k d assume "vcCAs w k = Some d"
    then show "\<exists>x \<in> set (rs @ [r]). is_ca x \<and> caIDOf x = k \<and> rSerial x = serialString (SerialNumber d)"
      using r(9) sn assms(2) by (auto simp: maps_filled_def split: if_splits)
  qed
qed

lemma check_records_fill:
  "check_records long_enough T rs v = Inr w \<Longrightarrow> maps_filled T before v \<Longrightarrow> maps_filled T (before @ rs) w"
proof (induction rs arbitrary: before v)
  case (Cons r rs)
  from Cons.prems(1) obtain u where u: "check_record long_enough T v r = Inr u" "check_records long_enough T rs u = Inr w" by auto
  from Cons.IH [OF u(2) check_record_fills [OF u(1) Cons.prems(2)]] show ?case by simp
qed simp

lemma validateRecords_fill:
  assumes "validateRecords long_enough st live T = Inr v"
  shows "maps_filled T (ctIndex T) v"
proof -
  from assms have "check_records long_enough T (ctIndex T) nothing_checked = Inr v"
    by (auto simp: validateRecords_def split: if_splits)
  moreover have "maps_filled T [] nothing_checked" by (simp add: maps_filled_def nothing_checked_def)
  ultimately show ?thesis using check_records_fill [of long_enough T _ nothing_checked v "[]"] by simp
qed

lemma caIDOf_ne: "caIDOf r \<noteq> []"
  by (simp add: caIDOf_def ca_kinds)

lemma find_only:
  assumes "r \<in> set xs" "P r" and "\<And>x. x \<in> set xs \<Longrightarrow> P x \<Longrightarrow> x = r"
  shows "find P xs = Some r"
proof (cases "find P xs")
  case None
  with assms(1,2) show ?thesis by (auto simp: find_None_iff)
next
  case (Some x)
  then have "x \<in> set xs" "P x" by (auto simp: find_Some_iff)
  from assms(3) [OF this] Some show ?thesis by blast
qed

lemma filled_entry: "maps_filled T rs v \<Longrightarrow> r \<in> set rs \<Longrightarrow> record_entry T v r"
  by (simp add: maps_filled_def)

lemma ca_entry:
  assumes "maps_filled T rs v" "r \<in> set rs" "is_ca r"
  obtains c where "vcCAs v (caIDOf r) = Some c" "serialString (SerialNumber c) = rSerial r" "vcRecords v (rSerial r) = Some r"
  using filled_entry [OF assms(1,2)] assms(3) unfolding record_entry_def by blast

lemma record_by_id:
  assumes "maps_filled T rs v" "r \<in> set rs" "x \<in> set rs" "is_ca r" "is_ca x" "caIDOf x = caIDOf r"
  shows "x = r"
proof -
  obtain c where c: "vcCAs v (caIDOf r) = Some c" "serialString (SerialNumber c) = rSerial r" "vcRecords v (rSerial r) = Some r"
    by (rule ca_entry [OF assms(1,2,4)])
  obtain d where d: "vcCAs v (caIDOf x) = Some d" "serialString (SerialNumber d) = rSerial x" "vcRecords v (rSerial x) = Some x"
    by (rule ca_entry [OF assms(1,3,5)])
  from c(1) d(1) assms(6) have "c = d" by simp
  with c(2,3) d(2,3) show ?thesis by simp
qed

text \<open>An intermediate of the time before ids must hang below the root, as the store expects of it.\<close>

definition legacy_below_root :: "CertRecord list \<Rightarrow> bool" where
  "legacy_below_root rs \<longleftrightarrow> list_all (\<lambda>r. rKind r = caIntermediate \<and> rCAID r = [] \<longrightarrow> rIssuerID r = caRoot) rs"

lemma ca_record_id:
  assumes "is_ca_record k x" "k \<noteq> []"
  shows "is_ca x \<and> caIDOf x = k"
proof (cases "rKind x = caIntermediate")
  case True
  then have "rKind x \<noteq> caRoot" using kinds_differ by simp
  with assms True show ?thesis by (auto simp: is_ca_record_def is_ca_def caIDOf_def)
next
  case False
  with assms have "rKind x = caRoot" "k = caRoot" by (simp_all add: is_ca_record_def)
  then show ?thesis by (simp add: is_ca_def caIDOf_def)
qed

lemma own_record:
  assumes "is_ca r" "rKind r = caIntermediate \<and> rCAID r = [] \<longrightarrow> rIssuerID r = caRoot"
  shows "is_ca_record (caIDOf r) r"
proof (cases "rKind r = caIntermediate")
  case True
  then have "rKind r \<noteq> caRoot" using kinds_differ by simp
  with assms True show ?thesis by (cases "rCAID r = []") (simp_all add: is_ca_record_def caIDOf_def)
next
  case False
  with assms have "rKind r = caRoot" by (simp add: is_ca_def)
  then show ?thesis using kinds_differ by (simp add: is_ca_record_def caIDOf_def)
qed

lemma validated_ca_is_found:
  assumes "maps_filled (bkLive b) (ctIndex (bkLive b)) v" "legacy_below_root (ctIndex (bkLive b))"
    "r \<in> set (ctIndex (bkLive b))" "is_ca r"
  shows "findCARecord (bk_store b) (caIDOf r) = Some r"
  unfolding findCARecord_def
proof (rule find_only)
  show "r \<in> set (Records (bk_store b))" using assms(3) by (simp add: bk_store_def)
  show "is_ca_record (caIDOf r) r"
    using assms(2,3) by (intro own_record assms(4)) (simp add: legacy_below_root_def list_all_iff)
next
  fix x assume x: "x \<in> set (Records (bk_store b))" "is_ca_record (caIDOf r) x"
  from x(1) have "x \<in> set (ctIndex (bkLive b))" by (simp add: bk_store_def)
  moreover from ca_record_id [OF x(2) caIDOf_ne] have "is_ca x" "caIDOf x = caIDOf r" by simp_all
  ultimately show "x = r" using record_by_id [OF assms(1,3) _ assms(4)] by blast
qed

lemma check_issuer_Inr:
  assumes "check_issuer v r = Inr ()" "vcCerts v (rSerial r) = Some c"
  shows "rKind r = caRoot \<Longrightarrow> CheckSignatureFrom c c"
    and "rKind r \<noteq> caRoot \<Longrightarrow>
      \<exists>p. vcCAs v (rIssuerID r) = Some p \<and> CheckSignatureFrom c p \<and> chain_to_root v 64 (rIssuerID r)"
  using assms by (auto simp: check_issuer_def split: option.splits if_splits)

text \<open>The certificates on a way to the root: each signed by the next one, the last by itself.\<close>

definition verified_chain :: "xcert \<Rightarrow> xcert list \<Rightarrow> bool" where
  "verified_chain c cs \<longleftrightarrow> cs \<noteq> [] \<and> signed_in_turn (c # cs) \<and> CheckSignatureFrom (last cs) (last cs)"

lemma certs_of_append: "certs_of (p @ q) = (case (certs_of p, certs_of q) of (Some a, Some b) \<Rightarrow> Some (a @ b) | _ \<Rightarrow> None)"
  by (induction p rule: certs_of.induct) (auto split: option.splits)

text \<open>What the checks of the live records leave for the chains.\<close>

definition issuers_checked :: "backup \<Rightarrow> checked \<Rightarrow> bool" where
  "issuers_checked b v \<longleftrightarrow> maps_filled (bkLive b) (ctIndex (bkLive b)) v \<and> legacy_below_root (ctIndex (bkLive b)) \<and>
     (\<forall>r \<in> set (ctIndex (bkLive b)). check_issuer v r = Inr ())"

lemma ca_file:
  assumes "issuers_checked b v" "vcCAs v k = Some c"
  obtains r pem where "r \<in> set (ctIndex (bkLive b))" "is_ca r" "caIDOf r = k" "LoadCACertPEM (bk_store b) k = Some pem"
    "certs_of pem = Some [c]" "vcCerts v (rSerial r) = Some c" "issuer_of v c = rIssuerID r"
proof -
  have m: "maps_filled (bkLive b) (ctIndex (bkLive b)) v" using assms(1) by (simp add: issuers_checked_def)
  with assms(2) obtain r where r: "r \<in> set (ctIndex (bkLive b))" "is_ca r" "caIDOf r = k" "rSerial r = serialString (SerialNumber c)"
    unfolding maps_filled_def by blast
  from filled_entry [OF m r(1)] r(2) obtain d pem where d: "vcRecords v (rSerial r) = Some r" "fst (record_files (bkLive b) r) = Some pem"
    "certs_of pem = Some [d]" "vcCerts v (rSerial r) = Some d" "vcCAs v (caIDOf r) = Some d" unfolding record_entry_def by blast
  from d(5) r(3) assms(2) have "d = c" by simp
  with d r show ?thesis
    by (intro that [of r pem]) (simp_all add: record_files_def bk_store_def LoadCACertPEM_def issuer_of_def)
qed

lemma root_id_kind:
  assumes "record_entry T v r" "is_ca r"
  shows "caIDOf r = caRoot \<longleftrightarrow> rKind r = caRoot"
proof
  assume k: "caIDOf r = caRoot"
  show "rKind r = caRoot"
  proof (rule ccontr)
    assume n: "rKind r \<noteq> caRoot"
    with assms(2) have "rKind r = caIntermediate" by (simp add: is_ca_def)
    with assms(1) have "rCAID r = [] \<or> ValidSerial (rCAID r)" by (simp add: record_entry_def)
    moreover have "\<not> ValidSerial caRoot" by code_simp
    ultimately show False using k n kinds_differ by (auto simp: caIDOf_def split: if_splits)
  qed
qed (simp add: caIDOf_def)

lemma root_walk:
  assumes checked: "issuers_checked b v" and "k = caRoot" "vcCAs v k = Some c"
  shows "\<exists>xs cs. walk_path (issuer_up (bk_store b)) k xs \<and> certs_of (concat xs) = Some (c # cs) \<and> signed_in_turn (c # cs) \<and>
     CheckSignatureFrom (last (c # cs)) (last (c # cs))"
proof -
  obtain r pem where r: "r \<in> set (ctIndex (bkLive b))" "is_ca r" "caIDOf r = k" "LoadCACertPEM (bk_store b) k = Some pem"
    "certs_of pem = Some [c]" "vcCerts v (rSerial r) = Some c" "issuer_of v c = rIssuerID r"
    by (rule ca_file [OF checked assms(3)])
  have "record_entry (bkLive b) v r" "check_issuer v r = Inr ()"
    using checked r(1) filled_entry by (auto simp: issuers_checked_def)
  with root_id_kind [of "bkLive b" v r] check_issuer_Inr(1) [of v r c] r(2,3,6) assms(2) have "CheckSignatureFrom c c" by simp
  moreover have "walk_path (issuer_up (bk_store b)) k [pem]"
    using r(4) assms(2) by (intro walk_path.top) (simp add: issuer_up_def)
  ultimately show ?thesis using r(5) by (intro exI [of _ "[pem]"] exI [of _ "[]"]) simp
qed

lemma ca_id_not_empty: "issuers_checked b v \<Longrightarrow> vcCAs v k = Some c \<Longrightarrow> k \<noteq> []"
  using caIDOf_ne by (metis ca_file)

lemma chain_walk:
  assumes checked: "issuers_checked b v"
  shows "chain_to_root v fuel k \<Longrightarrow> vcCAs v k = Some c \<Longrightarrow>
    \<exists>xs cs. walk_path (issuer_up (bk_store b)) k xs \<and> certs_of (concat xs) = Some (c # cs) \<and> signed_in_turn (c # cs) \<and>
     CheckSignatureFrom (last (c # cs)) (last (c # cs))"
proof (induction fuel arbitrary: k c)
  case (0 k c)
  then show ?case by (intro root_walk [OF checked]) (simp_all add: chain_to_root.simps split: if_splits)
next
  case (Suc fuel k c)
  show ?case
  proof (cases "k = caRoot")
    case True
    with Suc.prems show ?thesis by (intro root_walk [OF checked])
  next
    case False
    obtain r pem where r: "r \<in> set (ctIndex (bkLive b))" "is_ca r" "caIDOf r = k" "LoadCACertPEM (bk_store b) k = Some pem"
      "certs_of pem = Some [c]" "vcCerts v (rSerial r) = Some c" "issuer_of v c = rIssuerID r"
      by (rule ca_file [OF checked Suc.prems(2)])
    have nr: "rKind r \<noteq> caRoot" using False r(3) by (auto simp: caIDOf_def)
    have iss: "check_issuer v r = Inr ()" using checked r(1) by (simp add: issuers_checked_def)
    from check_issuer_Inr(2) [OF iss r(6) nr] obtain p where p: "vcCAs v (rIssuerID r) = Some p" "CheckSignatureFrom c p" by blast
    have "chain_to_root v fuel (rIssuerID r)"
      using Suc.prems False r(7) by (simp add: chain_to_root.simps [of v "Suc fuel"])
    from Suc.IH [OF this p(1)] obtain xs cs where above: "walk_path (issuer_up (bk_store b)) (rIssuerID r) xs"
      "certs_of (concat xs) = Some (p # cs)" "signed_in_turn (p # cs)" "CheckSignatureFrom (last (p # cs)) (last (p # cs))" by blast
    have "issuer_up (bk_store b) k = Inr (pem, Some (rIssuerID r))"
      using validated_ca_is_found [of b v r] checked r(1-4) False ca_id_not_empty [OF checked p(1)]
      by (simp add: issuer_up_def issuers_checked_def)
    then have "walk_path (issuer_up (bk_store b)) k (pem # xs)" using above(1) by (rule walk_path.above)
    moreover have "certs_of (concat (pem # xs)) = Some (c # p # cs)" using r(5) above(2) by (simp add: certs_of_append)
    moreover have "signed_in_turn (c # p # cs)" using p(2) above(3) by simp
    ultimately show ?thesis using above(4) by (intro exI [of _ "pem # xs"] exI [of _ "p # cs"]) simp
  qed
qed

text \<open>
  C26. Every certificate of a restored site has its chain: when the validation accepted the backup, and its intermediates from
  before ids hang below the root, then for every record of the index but the root's, the certificate is in the store, the issuer's
  chain can be read from it, and in this chain every certificate was signed by the next one, the first signed the
  record's certificate, and the last signed itself.
\<close>

theorem restored_chains:
  assumes "validateBackup raw long_enough key_pair b = Inr ()" and "legacy_below_root (ctIndex (bkLive b))"
    and "r \<in> set (index (bk_store b))" "rKind r \<noteq> caRoot"
  shows "\<exists>pem c chain cs. (if is_ca r then LoadCACertPEM (bk_store b) (caIDOf r) else certs (bk_store b) (rSerial r)) = Some pem \<and>
    certs_of pem = Some [c] \<and> IssuerChainPEM (bk_store b) (rIssuerID r) = Inr chain \<and> certs_of chain = Some cs \<and> verified_chain c cs"
proof -
  from assms(1) obtain v where recs: "validateRecords long_enough (bkSCEP b) True (bkLive b) = Inr v"
    and iss: "\<forall>r \<in> set (ctIndex (bkLive b)). check_issuer v r = Inr ()" by (rule validateBackup_parts)
  from validateRecords_fill [OF recs] assms(2) iss have v: "issuers_checked b v" by (simp add: issuers_checked_def)
  have r: "r \<in> set (ctIndex (bkLive b))" using assms(3) by (simp add: bk_store_def)
  from filled_entry [OF validateRecords_fill [OF recs] r] obtain c pem where c: "fst (record_files (bkLive b) r) = Some pem"
    "certs_of pem = Some [c]" "vcCerts v (rSerial r) = Some c" unfolding record_entry_def by blast
  from check_issuer_Inr(2) [OF bspec [OF iss r] c(3) assms(4)] obtain p where p: "vcCAs v (rIssuerID r) = Some p"
    "CheckSignatureFrom c p" "chain_to_root v 64 (rIssuerID r)" by blast
  from chain_walk [OF v p(3,1)] obtain xs cs where cs: "walk_path (issuer_up (bk_store b)) (rIssuerID r) xs"
    "certs_of (concat xs) = Some (p # cs)" "signed_in_turn (p # cs)" "CheckSignatureFrom (last (p # cs)) (last (p # cs))" by blast
  have "IssuerChainPEM (bk_store b) (rIssuerID r) = Inr (concat xs)" using cs(1) by (auto simp: IssuerChainPEM_def issuer_walk.go_iff)
  moreover have "verified_chain c (p # cs)" using p(2) cs(3,4) by (simp add: verified_chain_def)
  moreover have "(if is_ca r then LoadCACertPEM (bk_store b) (caIDOf r) else certs (bk_store b) (rSerial r)) = Some pem"
    using c(1) by (simp add: record_files_def bk_store_def LoadCACertPEM_def split: if_splits)
  ultimately show ?thesis using c(2) cs(2) by blast
qed

end
