(* ===== verification/Archive.thy ===== *)
theory Archive
  imports Restore BackupValidate
begin

text \<open>
  Backup files, \<open>backup.go\<close>: the sealed container, the paths an archive may name, the strict reading of its JSON and the collection of
  the data directory into an archive. AES-GCM is an argument with the laws of an authenticated cipher; the JSON decoder is the value it
  reads; the data directory is a tree of named files and directories.
\<close>

section \<open>The sealed container\<close>

record aead =
  gcmSeal :: "dkey \<Rightarrow> string \<Rightarrow> string \<Rightarrow> string \<Rightarrow> string"
  gcmOpen :: "dkey \<Rightarrow> string \<Rightarrow> string \<Rightarrow> string \<Rightarrow> string option"

text \<open>
  What \<open>crypto/cipher\<close> promises of GCM: key, nonce, text and additional data determine the sealed text, which is 16 bytes longer; it
  opens again, and nothing else opens under the same key, nonce and additional data.
\<close>

definition gcm_laws :: "aead \<Rightarrow> bool" where
  "gcm_laws G \<longleftrightarrow>
     (\<forall>k n p a. length (gcmSeal G k n p a) = length p + 16) \<and>
     (\<forall>k n c p a. gcmOpen G k n c a = Some p \<longleftrightarrow> c = gcmSeal G k n p a)"

definition backupMagic :: string where "backupMagic = ''NETANCHOR-BACKUP-1'' @ [LF]"
definition backupLimit :: nat where "backupLimit = 67108864"
definition backupFileLimit :: nat where "backupFileLimit = 16777216"

text \<open>The limits on the files of an archive that the loops name inline: their total size and their number.\<close>

definition archiveTotal :: nat where "archiveTotal = 50331648"
definition archiveCount :: nat where "archiveCount = 10000"

definition backupPassword :: "string \<Rightarrow> unit result" where
  "backupPassword p =
     checkR (\<not> (length p < 12 \<or> length p > 1024 \<or> TrimSpace p = []))
       (''use a backup password of 12'' @ [CHR 0xE2, CHR 0x80, CHR 0x93] @ ''1024 bytes (a long, unique passphrase is recommended)'')"

text \<open>The 28 random bytes of the header, salt and nonce, are an argument; \<open>None\<close> when they cannot be read.\<close>

definition sealBackup :: "aead \<Rightarrow> string option \<Rightarrow> string \<Rightarrow> string \<Rightarrow> string result" where
  "sealBackup G random content password =
     bindR (backupPassword password) (\<lambda>_.
     if length content > backupLimit then Inl ''backup exceeds 64 MiB archive limit''
     else case random of
         None \<Rightarrow> Inl ''reading random bytes''
       | Some rnd \<Rightarrow>
           let header = backupMagic @ rnd in
           Inr (header @ gcmSeal G (PBKDF2 password (take 16 rnd) pbkdf2Iter) (drop 16 rnd) content header))"

definition openBackup :: "aead \<Rightarrow> string \<Rightarrow> string \<Rightarrow> string result" where
  "openBackup G data password =
     bindR (backupPassword password) (\<lambda>_.
     let n = length backupMagic + 28; rnd = take 28 (drop (length backupMagic) data) in
     if length data < n + 16 \<or> length data > backupLimit + n + 16 \<or> \<not> HasPrefix data backupMagic
     then Inl ''unsupported or oversized backup''
     else case gcmOpen G (PBKDF2 password (take 16 rnd) pbkdf2Iter) (drop 16 rnd) (drop n data) (take n data) of
         None \<Rightarrow> Inl ''incorrect password or damaged backup''
       | Some b \<Rightarrow> Inr b)"

lemma length_magic [simp]: "length backupMagic = 19"
  by (simp add: backupMagic_def)

lemma split_header:
  assumes "HasPrefix data backupMagic" and "length data \<ge> 47"
  shows "data = backupMagic @ take 28 (drop 19 data) @ drop 47 data" and "length (take 28 (drop 19 data)) = 28"
    and "take 47 data = backupMagic @ take 28 (drop 19 data)"
proof -
  from assms(1) obtain t where t: "data = backupMagic @ t" by (auto simp: HasPrefix_iff)
  then have drops: "drop 19 data = t" "drop 47 data = drop 28 t" "take 47 data = backupMagic @ take 28 t"
    by simp_all
  show "data = backupMagic @ take 28 (drop 19 data) @ drop 47 data" unfolding drops append_take_drop_id by (rule t)
  show "length (take 28 (drop 19 data)) = 28" using assms(2) t drops(1) by simp
  show "take 47 data = backupMagic @ take 28 (drop 19 data)" by (simp add: drops)
qed

lemma backup_opens:
  assumes "gcm_laws G"
  shows "openBackup G data password = Inr content \<longleftrightarrow>
    (\<exists>rnd. length rnd = 28 \<and> sealBackup G (Some rnd) content password = Inr data)"
proof
  assume opened: "openBackup G data password = Inr content"
  define rnd where "rnd = take 28 (drop 19 data)"
  from opened have checks: "backupPassword password = Inr ()" "HasPrefix data backupMagic" "length data \<ge> 63"
      "length data \<le> backupLimit + 63"
    and got: "gcmOpen G (PBKDF2 password (take 16 rnd) pbkdf2Iter) (drop 16 rnd) (drop 47 data) (take 47 data) = Some content"
    by (auto simp: openBackup_def Let_def bindR_Inr_iff rnd_def split: if_splits option.splits)
  have len: "length data \<ge> 47" using checks(3) by simp
  note parts = split_header [OF checks(2) len, folded rnd_def]
  from got assms have body: "drop 47 data = gcmSeal G (PBKDF2 password (take 16 rnd) pbkdf2Iter) (drop 16 rnd) content (backupMagic @ rnd)"
    by (simp add: gcm_laws_def parts(3))
  then have "length content + 16 = length (drop 47 data)" using assms by (simp add: gcm_laws_def)
  with checks(4) have "length content \<le> backupLimit" by simp
  with checks(1) parts(1) body have "sealBackup G (Some rnd) content password = Inr data"
    by (simp add: sealBackup_def Let_def bindR_Inr_iff)
  with parts(2) show "\<exists>rnd. length rnd = 28 \<and> sealBackup G (Some rnd) content password = Inr data" by blast
next
  assume "\<exists>rnd. length rnd = 28 \<and> sealBackup G (Some rnd) content password = Inr data"
  then obtain rnd where rnd: "length rnd = 28" and sealed: "sealBackup G (Some rnd) content password = Inr data" by blast
  let ?c = "gcmSeal G (PBKDF2 password (take 16 rnd) pbkdf2Iter) (drop 16 rnd) content (backupMagic @ rnd)"
  from sealed have data: "data = backupMagic @ rnd @ ?c" and ok: "backupPassword password = Inr ()" "length content \<le> backupLimit"
    by (auto simp: sealBackup_def Let_def bindR_Inr_iff split: if_splits)
  have len: "length ?c = length content + 16" using assms by (simp add: gcm_laws_def)
  have drops: "take 28 (drop 19 data) = rnd" "drop 47 data = ?c" "take 47 data = backupMagic @ rnd" "HasPrefix data backupMagic"
      "length data = length content + 63"
    using rnd len by (simp_all add: data HasPrefix_iff)
  have "gcmOpen G (PBKDF2 password (take 16 rnd) pbkdf2Iter) (drop 16 rnd) ?c (backupMagic @ rnd) = Some content"
    using assms by (simp add: gcm_laws_def)
  with ok drops show "openBackup G data password = Inr content"
    by (simp add: openBackup_def Let_def bindR_Inr_iff)
qed

text \<open>
  C32. Sealing and opening are inverse to each other: under a password a file opens to a text exactly when it is what sealing this
  text under the password yields for some 28 random bytes. So a backup opens again, whatever its size within the limits, and a file
  that differs anywhere, header included, from every backup made with the password is refused.
\<close>

theorem backup_opens_iff:
  assumes "gcm_laws G"
  shows "openBackup G data password = Inr content \<longleftrightarrow>
    (\<exists>rnd. length rnd = 28 \<and> sealBackup G (Some rnd) content password = Inr data)"
  using assms by (rule backup_opens)

section \<open>Paths\<close>

text \<open>\<open>filepath.Clean\<close> on a system whose separator is the slash.\<close>

fun clean_parts :: "bool \<Rightarrow> string list \<Rightarrow> string list \<Rightarrow> string list" where
  "clean_parts rooted [] st = rev st"
| "clean_parts rooted (w # ws) st =
     (if w = [] \<or> w = ''.'' then clean_parts rooted ws st
      else if w = ''..'' then
        (case st of
           [] \<Rightarrow> clean_parts rooted ws (if rooted then [] else [w])
         | t # st' \<Rightarrow> if t = ''..'' then clean_parts rooted ws (w # st) else clean_parts rooted ws st')
      else clean_parts rooted ws (w # st))"

definition Clean :: "string \<Rightarrow> string" where
  "Clean p =
     (let rooted = HasPrefix p ''/''; q = Join (clean_parts rooted (Split CHR ''/'' p) []) ''/'' in
      if rooted then CHR ''/'' # q else if q = [] then ''.'' else q)"

text \<open>
  \<open>time.Parse\<close> for the layout \<open>20060102T150405.000000000\<close>: fixed fields, a calendar date, and a fraction after a point or a comma
  that may carry a sign.
\<close>

definition number :: "string \<Rightarrow> nat" where
  "number ds = foldl (\<lambda>n c. 10 * n + digit_value c) 0 ds"

definition days_in :: "nat \<Rightarrow> nat \<Rightarrow> nat" where
  "days_in m y =
     (if m \<in> {4, 6, 9, 11} then 30
      else if m = 2 then (if y mod 4 = 0 \<and> (y mod 100 \<noteq> 0 \<or> y mod 400 = 0) then 29 else 28) else 31)"

definition fraction_ok :: "string \<Rightarrow> bool" where
  "fraction_ok ds \<longleftrightarrow>
     (case ds of
        [] \<Rightarrow> False
      | c # cs \<Rightarrow> list_all is_digit ds \<or> (c = CHR ''+'' \<and> list_all is_digit cs) \<or> (c = CHR ''-'' \<and> list_all ((=) CHR ''0'') cs))"

definition valid_stamp :: "string \<Rightarrow> bool" where
  "valid_stamp v \<longleftrightarrow>
     (let field = (\<lambda>i n. take n (drop i v)); num = (\<lambda>i n. number (field i n)) in
      length v = 25 \<and> list_all is_digit (field 0 8) \<and> field 8 1 = ''T'' \<and> list_all is_digit (field 9 6) \<and>
      field 15 1 \<in> {''.'', '',''} \<and> fraction_ok (field 16 9) \<and>
      1 \<le> num 4 2 \<and> num 4 2 \<le> 12 \<and> 1 \<le> num 6 2 \<and> num 6 2 \<le> days_in (num 4 2) (num 0 4) \<and>
      num 9 2 < 24 \<and> num 11 2 < 60 \<and> num 13 2 < 60)"

definition caSecretsRoot :: string where "caSecretsRoot = ''ca-secrets''"

definition single_files :: "string list" where
  "single_files = [''index.json'', ''templates.json'', ''scep.json'', ''devices.json'', ''definitions.json'']"

definition backup_entry :: "string list \<Rightarrow> bool" where
  "backup_entry v \<longleftrightarrow>
     (case v of
        [f] \<Rightarrow> f \<in> set single_files
      | [d, f] \<Rightarrow>
          if d = ''auth'' then f \<in> {''users.json'', ''session.key'', ''device.key''}
          else if d = ''tls'' then f \<in> {''server-cert.pem'', ''server-key.pem''}
          else if d = caSecretsRoot then backupCAID f
          else if d = ''certs'' then
            list_ex (\<lambda>suffix. HasSuffix f suffix \<and> ValidSerial (TrimSuffix f suffix)) [''-cert.pem'', ''-key.pem'']
          else False
      | [d, k, f] \<Rightarrow> d = ''cas'' \<and> backupCAID k \<and> f \<in> {''cert.pem'', ''key.pem''}
      | _ \<Rightarrow> False)"

definition backupPath :: "string \<Rightarrow> bool" where
  "backupPath p \<longleftrightarrow>
     (if p = [] \<or> length p > 256 \<or> CHR 0x5C \<in> set p \<or> HasPrefix p ''/'' \<or> Clean p \<noteq> p then False
      else case Split CHR ''/'' p of
          root # stamp # v \<Rightarrow>
            if root = ''trash'' then
              (case v of
                 [] \<Rightarrow> False
               | d # _ \<Rightarrow> valid_stamp stamp \<and> (d \<in> {''cas'', ''certs'', caSecretsRoot} \<or> Join v ''/'' = ''index.json'') \<and> backup_entry v)
            else backup_entry (root # stamp # v)
        | v \<Rightarrow> hd v \<noteq> ''trash'' \<and> backup_entry v)"

text \<open>Below each root, an accepted file is at one depth only, so no file takes the place of another's directory.\<close>

definition entry_depth :: "string \<Rightarrow> nat" where
  "entry_depth root = (if root \<in> set single_files then 1 else if root = ''cas'' then 3 else 2)"

definition odd_name :: "string \<Rightarrow> bool" where
  "odd_name w \<longleftrightarrow> w \<in> {[], ''.'', ''..''}"

lemma backupCAID_named: "backupCAID k \<Longrightarrow> \<not> odd_name k"
  by (auto simp: backupCAID_def odd_name_def ca_kinds ValidSerial_def is_digit_def between_def ascii_def)

lemma suffix_named: "HasSuffix f s \<Longrightarrow> length s > 2 \<Longrightarrow> \<not> odd_name f"
proof -
  assume "HasSuffix f s" "length s > 2"
  then have "length f > 2" by (auto simp: HasSuffix_iff)
  then show ?thesis by (auto simp: odd_name_def)
qed

lemma backup_entry_shape:
  assumes "backup_entry v"
  shows "v \<noteq> [] \<and> length v = entry_depth (hd v) \<and> hd v \<in> set backupRoots - {''trash''} \<and> \<not> list_ex odd_name v"
proof -
  consider (one) f where "v = [f]" | (two) d f where "v = [d, f]" | (three) d k f where "v = [d, k, f]"
    using assms by (auto simp: backup_entry_def split: list.splits)
  then show ?thesis
  proof cases
    case one
    with assms show ?thesis by (auto simp: backup_entry_def single_files_def entry_depth_def odd_name_def backupRoots_def)
  next
    case two
    with assms show ?thesis
      by (auto simp: backup_entry_def single_files_def entry_depth_def backupRoots_def caSecretsRoot_def odd_name_def
        dest: backupCAID_named [unfolded odd_name_def] suffix_named [unfolded odd_name_def] split: if_splits)
  next
    case three
    with assms show ?thesis
      by (auto simp: backup_entry_def single_files_def entry_depth_def backupRoots_def odd_name_def
        dest: backupCAID_named [unfolded odd_name_def])
  qed
qed

lemma valid_stamp_named: "valid_stamp s \<Longrightarrow> \<not> odd_name s"
  by (auto simp: valid_stamp_def Let_def odd_name_def)

lemma backupPath_shape:
  assumes "backupPath p"
  obtains (live) "backup_entry (Split CHR ''/'' p)"
    | (trash) stamp v where "Split CHR ''/'' p = ''trash'' # stamp # v" "\<not> odd_name stamp" "backup_entry v"
  using assms that valid_stamp_named
  by (fastforce simp: backupPath_def split: if_splits list.splits)

lemma entry_not_below:
  assumes "backup_entry v" and "backup_entry w"
  shows "\<not> strict_prefix w v"
proof
  assume "strict_prefix w v"
  then obtain t where t: "v = w @ t" "t \<noteq> []" by (auto simp: strict_prefix_def prefix_def)
  from backup_entry_shape [OF assms(2)] t(1) have "hd v = hd w" by simp
  with backup_entry_shape [OF assms(1)] backup_entry_shape [OF assms(2)] have "length v = length w" by simp
  with t show False by simp
qed

text \<open>
  C33. An archive cannot write outside its place. A path that it may name begins with one of the roots that a restore replaces and has
  no empty part and no part that stands for the same or the parent directory, and of two such paths neither is a directory of the
  other: the files of an archive can be written one by one, in any order, below an empty directory.
\<close>

theorem archive_paths_confined:
  assumes "backupPath p" and "backupPath q"
  shows "hd (Split CHR ''/'' p) \<in> set backupRoots \<and> \<not> list_ex (\<lambda>w. w \<in> {[], ''.'', ''..''}) (Split CHR ''/'' p) \<and>
    \<not> strict_prefix (Split CHR ''/'' q) (Split CHR ''/'' p)"
proof -
  have one: "hd (Split CHR ''/'' p) \<in> set backupRoots \<and> \<not> list_ex odd_name (Split CHR ''/'' p)"
    using assms(1)
  proof (cases rule: backupPath_shape)
    case live
    then show ?thesis using backup_entry_shape by blast
  next
    case (trash stamp v)
    then show ?thesis using backup_entry_shape [of v] by (simp add: odd_name_def backupRoots_def)
  qed
  have "\<not> strict_prefix (Split CHR ''/'' q) (Split CHR ''/'' p)"
    using assms(1)
  proof (cases rule: backupPath_shape)
    case live
    note p = this
    show ?thesis using assms(2)
    proof (cases rule: backupPath_shape)
      case (trash s w)
      with backup_entry_shape [OF p] show ?thesis by (auto simp: strict_prefix_def prefix_def)
    qed (use p entry_not_below in blast)
  next
    case (trash s v)
    note p = this
    show ?thesis using assms(2)
    proof (cases rule: backupPath_shape)
      case live
      from backup_entry_shape [OF this] p show ?thesis
        by (cases "Split CHR ''/'' q") (auto simp: strict_prefix_def prefix_def)
    next
      case (trash t w)
      with p entry_not_below [of v w] show ?thesis by (auto simp: strict_prefix_def prefix_def)
    qed
  qed
  with one show ?thesis by (simp add: odd_name_def [abs_def])
qed

theorem archive_paths_confined_witness:
  "hd (Split CHR ''/'' ''certs/a-cert.pem'') \<in> set backupRoots"
proof -
  have "backupPath ''certs/a-cert.pem''" "backupPath ''trash/20240229T235959.000000000/cas/root/key.pem''"
    by code_simp+
  from archive_paths_confined [OF this] show ?thesis by blast
qed

section \<open>Strict JSON\<close>

datatype json = JAtom string | JArray "json list" | JObject "(string \<times> json) list"

fun strict_walk :: "nat \<Rightarrow> json \<Rightarrow> unit result"
  and strict_items :: "nat \<Rightarrow> json list \<Rightarrow> unit result"
  and strict_fields :: "nat \<Rightarrow> string set \<Rightarrow> (string \<times> json) list \<Rightarrow> unit result" where
  "strict_walk depth (JAtom a) = checkR (depth \<le> 32) ''JSON nesting limit''"
| "strict_walk depth (JArray js) = (if depth > 32 then Inl ''JSON nesting limit'' else strict_items (depth + 1) js)"
| "strict_walk depth (JObject fs) = (if depth > 32 then Inl ''JSON nesting limit'' else strict_fields (depth + 1) {} fs)"
| "strict_items depth [] = Inr ()"
| "strict_items depth (j # js) = bindR (strict_walk depth j) (\<lambda>_. strict_items depth js)"
| "strict_fields depth seen [] = Inr ()"
| "strict_fields depth seen ((k, j) # fs) =
     (if ToLower k \<in> seen then Inl ''duplicate JSON field''
      else bindR (strict_walk depth j) (\<lambda>_. strict_fields depth (insert (ToLower k) seen) fs))"

text \<open>The decoder reads a text that is one value, and that value into a type whose fields it all knows.\<close>

definition strictJSON :: "(string \<Rightarrow> json option) \<Rightarrow> (json \<Rightarrow> 'a option) \<Rightarrow> string \<Rightarrow> 'a result" where
  "strictJSON parse decode b =
     (case parse b of
        None \<Rightarrow> Inl ''invalid JSON''
      | Some j \<Rightarrow> bindR (strict_walk 0 j) (\<lambda>_. case decode j of None \<Rightarrow> Inl ''json: unknown field'' | Some x \<Rightarrow> Inr x))"

text \<open>The values that the walk is meant to accept.\<close>

fun height :: "json \<Rightarrow> nat" where
  "height (JAtom a) = 0"
| "height (JArray js) = foldr max (map (\<lambda>j. height j + 1) js) 0"
| "height (JObject fs) = foldr max (map (\<lambda>(k, j). height j + 1) fs) 0"

fun fields_once :: "json \<Rightarrow> bool" where
  "fields_once (JAtom a) \<longleftrightarrow> True"
| "fields_once (JArray js) \<longleftrightarrow> list_all fields_once js"
| "fields_once (JObject fs) \<longleftrightarrow> distinct (map (\<lambda>(k, j). ToLower k) fs) \<and> list_all (\<lambda>(k, j). fields_once j) fs"

lemma foldr_max: "foldr max xs 0 \<le> (n::nat) \<longleftrightarrow> (\<forall>x \<in> set xs. x \<le> n)"
  by (induction xs) auto

lemma foldr_max_below: "d + foldr max xs 0 \<le> n \<longleftrightarrow> d \<le> n \<and> (\<forall>x \<in> set xs. d + x \<le> (n::nat))"
  by (induction xs) auto

lemma strict_iff:
  "strict_walk d j = Inr () \<longleftrightarrow> d + height j \<le> 32 \<and> fields_once j"
  "strict_items d js = Inr () \<longleftrightarrow> (\<forall>j \<in> set js. d + height j \<le> 32 \<and> fields_once j)"
  "strict_fields d seen fs = Inr () \<longleftrightarrow> distinct (map (\<lambda>f. ToLower (fst f)) fs) \<and> (\<forall>f \<in> set fs. ToLower (fst f) \<notin> seen) \<and>
     (\<forall>f \<in> set fs. d + height (snd f) \<le> 32 \<and> fields_once (snd f))"
proof (induction d j and d js and d seen fs rule: strict_walk_strict_items_strict_fields.induct)
  case (2 depth js)
  then show ?case by (auto simp: foldr_max_below list_all_iff)
next
  case (3 depth fs)
  have "map (\<lambda>f. ToLower (fst f)) fs = map (\<lambda>(k, j). ToLower k) fs" by (simp add: case_prod_beta)
  with 3 show ?case by (auto simp: foldr_max_below list_all_iff case_prod_beta simp del: map_eq_conv)
next
  case (7 depth seen k j fs)
  show ?case
  proof (cases "ToLower k \<in> seen")
    case False
    have "ToLower k \<notin> (\<lambda>f. ToLower (fst f)) ` set fs \<longleftrightarrow> (\<forall>f \<in> set fs. ToLower (fst f) \<noteq> ToLower k)" by force
    then show ?thesis unfolding strict_fields.simps using False 7 [OF False] by auto
  qed simp
qed (simp_all add: list_all_iff)

text \<open>
  The strict reading of JSON accepts exactly the values whose arrays and objects nest at most 32 deep and none of whose objects, at
  any depth, has two names that differ in case only.
\<close>

lemma strict_walk_iff: "strict_walk 0 j = Inr () \<longleftrightarrow> height j \<le> 32 \<and> fields_once j"
  by (simp add: strict_iff)

section \<open>Collecting the data directory\<close>

datatype node = RegFile string | DirNode "(string \<times> node) list" | OddFile | Unreadable

record backupFile =
  bfPath :: string
  bfData :: string

record backupArchive =
  baFormat :: int
  baApplication :: string
  baCreated :: time
  baFiles :: "backupFile list"

text \<open>The files collected so far and their total size.\<close>

type_synonym collected = "backupFile list \<times> nat"

definition add_file :: "nat \<Rightarrow> string \<Rightarrow> string \<Rightarrow> error \<Rightarrow> collected \<Rightarrow> collected result" where
  "add_file limit path data e acc =
     (case acc of (fs, used) \<Rightarrow>
        if length data > limit \<or> length data > archiveTotal - used \<or> length fs \<ge> archiveCount then Inl e
        else Inr (fs @ [\<lparr>bfPath = path, bfData = data\<rparr>], used + length data))"

fun collect :: "string \<Rightarrow> string \<Rightarrow> node \<Rightarrow> collected \<Rightarrow> collected result"
  and collect_all :: "string \<Rightarrow> (string \<times> node) list \<Rightarrow> collected \<Rightarrow> collected result" where
  "collect path name (DirNode es) acc = (if HasPrefix name ''.netanchor-'' then Inr acc else collect_all path es acc)"
| "collect path name OddFile acc = (if HasPrefix name ''.netanchor-'' then Inr acc else Inl ''nonregular data file'')"
| "collect path name Unreadable acc = (if HasPrefix name ''.netanchor-'' then Inr acc else Inl ''input/output error'')"
| "collect path name (RegFile b) acc =
     (if HasPrefix name ''.netanchor-'' then Inr acc
      else if \<not> backupPath path then Inl (''unexpected data file '' @ path)
      else add_file backupFileLimit path b ''backup file/count/size limit exceeded'' acc)"
| "collect_all path [] acc = Inr acc"
| "collect_all path ((name, d) # es) acc =
     bindR (collect (path @ CHR ''/'' # name) name d acc) (\<lambda>acc. collect_all path es acc)"

fun collect_roots :: "(string \<times> node) list \<Rightarrow> string list \<Rightarrow> collected \<Rightarrow> collected result" where
  "collect_roots dir [] acc = Inr acc"
| "collect_roots dir (r # rs) acc =
     (if r = caSecretsRoot then collect_roots dir rs acc
      else bindR (case map_of dir r of None \<Rightarrow> Inr acc | Some d \<Rightarrow> collect r r d acc) (\<lambda>acc. collect_roots dir rs acc))"

text \<open>The passphrase files of the CAs in the index; a CA without one is passed over.\<close>

fun collect_secrets :: "(string \<Rightarrow> string option) \<Rightarrow> CertRecord list \<Rightarrow> string set \<Rightarrow> collected \<Rightarrow> collected result" where
  "collect_secrets secret [] seen acc = Inr acc"
| "collect_secrets secret (r # rs) seen acc =
     (if \<not> is_ca r \<or> caIDOf r \<in> seen then collect_secrets secret rs seen acc
      else bindR (case secret (caIDOf r) of
            None \<Rightarrow> Inr acc
          | Some b \<Rightarrow> add_file caSecretLimit (caSecretsRoot @ CHR ''/'' # caIDOf r) b ''CA passphrase file or backup size limit exceeded'' acc)
        (\<lambda>acc. collect_secrets secret rs (insert (caIDOf r) seen) acc))"

text \<open>\<open>dir\<close> is the data directory as the store leaves it on disk.\<close>

definition snapshotBackup :: "(store \<Rightarrow> (string \<times> node) list) \<Rightarrow> string \<Rightarrow> time \<Rightarrow> backupArchive sop" where
  "snapshotBackup dir version now =
     thenE reconcileSCEP
     (bindE LoadTemplates (\<lambda>_.
     bindE (\<lambda>s. (collect_roots (dir s) backupRoots ([], 0), s)) (\<lambda>acc.
     bindE (\<lambda>s. (collect_secrets (secrets s) (Records s) {} acc, s)) (\<lambda>(fs, used).
       ret \<lparr>baFormat = 1, baApplication = version, baCreated = now, baFiles = fs\<rparr>))))"

section \<open>What a restore accepts of an archive\<close>

definition manifest_ok :: "backupArchive \<Rightarrow> bool" where
  "manifest_ok a \<longleftrightarrow>
     \<not> (baFormat a \<noteq> 1 \<or> baApplication a = [] \<or> length (baApplication a) > 128 \<or> baCreated a = 0 \<or> length (baFiles a) > archiveCount)"

fun check_files :: "backupFile list \<Rightarrow> string set \<Rightarrow> nat \<Rightarrow> unit result" where
  "check_files [] seen used = Inr ()"
| "check_files (f # fs) seen used =
     (if \<not> backupPath (bfPath f) \<or> bfPath f \<in> seen \<or> length (bfData f) > backupFileLimit \<or> used + length (bfData f) > archiveTotal
      then Inl ''invalid archive path, duplicate or size''
      else check_files fs (insert (bfPath f) seen) (used + length (bfData f)))"

section \<open>A snapshot can be restored\<close>

text \<open>Names of a directory are distinct and hold no slash.\<close>

fun named :: "node \<Rightarrow> bool" where
  "named (DirNode es) \<longleftrightarrow> distinct (map fst es) \<and> list_all (\<lambda>(n, d). CHR ''/'' \<notin> set n \<and> named d) es"
| "named d \<longleftrightarrow> True"

definition below :: "string \<Rightarrow> string \<Rightarrow> bool" where
  "below path p \<longleftrightarrow> p = path \<or> HasPrefix p (path @ ''/'')"

definition adds :: "(string \<Rightarrow> bool) \<Rightarrow> collected \<Rightarrow> collected \<Rightarrow> bool" where
  "adds P a b \<longleftrightarrow>
     (\<exists>new. fst b = fst a @ new \<and> snd b = snd a + sum_list (map (\<lambda>f. length (bfData f)) new) \<and> distinct (map bfPath new) \<and>
        (\<forall>f \<in> set new. backupPath (bfPath f) \<and> length (bfData f) \<le> backupFileLimit \<and> P (bfPath f)) \<and>
        (snd a \<le> archiveTotal \<longrightarrow> snd b \<le> archiveTotal) \<and> (length (fst a) \<le> archiveCount \<longrightarrow> length (fst b) \<le> archiveCount))"

lemma adds_refl: "adds P a a"
  by (auto simp: adds_def)

lemma adds_mono: "adds P a b \<Longrightarrow> (\<And>p. P p \<Longrightarrow> Q p) \<Longrightarrow> adds Q a b"
  unfolding adds_def by blast

lemma adds_trans:
  assumes "adds P a b" and "adds Q b c" and "\<And>p. P p \<Longrightarrow> Q p \<Longrightarrow> False"
  shows "adds (\<lambda>p. P p \<or> Q p) a c"
proof -
  from assms(1) obtain m where m: "fst b = fst a @ m" "snd b = snd a + sum_list (map (\<lambda>f. length (bfData f)) m)" "distinct (map bfPath m)"
      "\<forall>f \<in> set m. backupPath (bfPath f) \<and> length (bfData f) \<le> backupFileLimit \<and> P (bfPath f)"
      "snd a \<le> archiveTotal \<longrightarrow> snd b \<le> archiveTotal" "length (fst a) \<le> archiveCount \<longrightarrow> length (fst b) \<le> archiveCount"
    unfolding adds_def by blast
  from assms(2) obtain n where n: "fst c = fst b @ n" "snd c = snd b + sum_list (map (\<lambda>f. length (bfData f)) n)" "distinct (map bfPath n)"
      "\<forall>f \<in> set n. backupPath (bfPath f) \<and> length (bfData f) \<le> backupFileLimit \<and> Q (bfPath f)"
      "snd b \<le> archiveTotal \<longrightarrow> snd c \<le> archiveTotal" "length (fst b) \<le> archiveCount \<longrightarrow> length (fst c) \<le> archiveCount"
    unfolding adds_def by blast
  have "bfPath ` set m \<inter> bfPath ` set n = {}" using m(4) n(4) assms(3) by fastforce
  with m n show ?thesis unfolding adds_def by (intro exI [of _ "m @ n"]) (auto simp: add.assoc)
qed

lemma adds_file:
  assumes "add_file limit path data e a = Inr b" and "backupPath path" and "limit \<le> backupFileLimit"
  shows "adds ((=) path) a b"
proof -
  obtain fs n where a: "a = (fs, n)" by (cases a)
  with assms(1) have b: "b = (fs @ [\<lparr>bfPath = path, bfData = data\<rparr>], n + length data)" and ok: "length data \<le> limit"
      "length data \<le> archiveTotal - n" "length fs < archiveCount"
    by (auto simp: add_file_def split: if_splits)
  from ok(1) assms(3) have "length data \<le> backupFileLimit" by (rule order_trans)
  with assms(2) ok show ?thesis unfolding adds_def a b by (intro exI [of _ "[\<lparr>bfPath = path, bfData = data\<rparr>]"]) auto
qed

lemma slash_split:
  assumes "CHR ''/'' \<notin> set n" "CHR ''/'' \<notin> set m" and "below (w @ n) p" "below (w @ m) p"
  shows "n = m"
proof -
  have word: "takeWhile ((\<noteq>) CHR ''/'') (k @ t) = k" if "CHR ''/'' \<notin> set k" "t = [] \<or> hd t = CHR ''/''" for k t
    using that by (induction k) (auto, cases t, auto)
  have key: "takeWhile ((\<noteq>) CHR ''/'') (drop (length w) p) = k" if "CHR ''/'' \<notin> set k" "below (w @ k) p" for k
  proof -
    from that(2) obtain t where "p = w @ k @ t" "t = [] \<or> hd t = CHR ''/''" by (auto simp: below_def HasPrefix_iff)
    with word [OF that(1)] show ?thesis by simp
  qed
  from key [OF assms(1,3)] key [OF assms(2,4)] show ?thesis by simp
qed

lemma below_trans: "below (path @ CHR ''/'' # n) p \<Longrightarrow> below path p"
  by (auto simp: below_def HasPrefix_iff)

lemma collect_adds:
  "collect path name d a = Inr b \<Longrightarrow> named d \<Longrightarrow> adds (below path) a b"
  "collect_all path es a = Inr b \<Longrightarrow> named (DirNode es) \<Longrightarrow> adds (\<lambda>p. \<exists>n \<in> fst ` set es. below (path @ CHR ''/'' # n) p) a b"
proof (induction path name d a and path es a arbitrary: b and b rule: collect_collect_all.induct)
  case (1 path name es acc)
  show ?case
  proof (cases "HasPrefix name ''.netanchor-''")
    case True
    with 1 show ?thesis by (simp add: adds_refl)
  next
    case False
    with 1 have "adds (\<lambda>p. \<exists>n \<in> fst ` set es. below (path @ CHR ''/'' # n) p) acc b" by simp
    then show ?thesis by (rule adds_mono) (auto dest: below_trans)
  qed
next
  case (4 path name data acc)
  then show ?case
    by (auto simp: adds_refl below_def split: if_splits intro: adds_mono [OF adds_file])
next
  case (6 path name d es acc)
  from 6(3) obtain c where c: "collect (path @ CHR ''/'' # name) name d acc = Inr c" "collect_all path es c = Inr b" by auto
  from 6(4) have d: "named d" "named (DirNode es)" "CHR ''/'' \<notin> set name" "name \<notin> fst ` set es" "\<forall>n \<in> fst ` set es. CHR ''/'' \<notin> set n"
    by (auto simp: list_all_iff)
  have "adds (\<lambda>p. below (path @ CHR ''/'' # name) p \<or> (\<exists>n \<in> fst ` set es. below (path @ CHR ''/'' # n) p)) acc b"
  proof (rule adds_trans [OF 6(1) [OF c(1) d(1)] 6(2) [OF c(2) d(2)]])
    fix p assume "below (path @ CHR ''/'' # name) p" and "\<exists>n \<in> fst ` set es. below (path @ CHR ''/'' # n) p"
    then obtain n where n: "n \<in> fst ` set es" "below (path @ CHR ''/'' # n) p" "below (path @ CHR ''/'' # name) p" by blast
    with slash_split [of name n "path @ ''/''" p] d(3,5) have "n = name" by simp
    with n(1) d(4) show False by simp
  qed
  then show ?case by (rule adds_mono) auto
qed (auto simp: adds_refl split: if_splits)

lemma collect_roots_adds:
  assumes "collect_roots dir rs a = Inr b" and "named (DirNode dir)" and "distinct rs" and "\<forall>r \<in> set rs. CHR ''/'' \<notin> set r"
  shows "adds (\<lambda>p. \<exists>r \<in> set rs - {caSecretsRoot}. below r p) a b"
  using assms
proof (induction rs arbitrary: a)
  case (Cons r rs)
  show ?case
  proof (cases "r = caSecretsRoot")
    case True
    with Cons have "adds (\<lambda>p. \<exists>r \<in> set rs - {caSecretsRoot}. below r p) a b" by simp
    then show ?thesis by (rule adds_mono) auto
  next
    case False
    with Cons.prems(1) obtain c where c: "(case map_of dir r of None \<Rightarrow> Inr a | Some d \<Rightarrow> collect r r d a) = Inr c"
      "collect_roots dir rs c = Inr b" by auto
    have "adds (below r) a c"
    proof (cases "map_of dir r")
      case (Some d)
      then have "named d" using Cons.prems(2) by (auto simp: list_all_iff dest!: map_of_SomeD)
      with Some c(1) show ?thesis by (simp add: collect_adds(1))
    qed (use c(1) in \<open>simp add: adds_refl\<close>)
    moreover have "adds (\<lambda>p. \<exists>r \<in> set rs - {caSecretsRoot}. below r p) c b" using Cons c(2) by simp
    ultimately have "adds (\<lambda>p. below r p \<or> (\<exists>r \<in> set rs - {caSecretsRoot}. below r p)) a b"
    proof (rule adds_trans)
      fix p assume "below r p" and "\<exists>q \<in> set rs - {caSecretsRoot}. below q p"
      then obtain q where q: "q \<in> set rs" "below q p" "below r p" by blast
      with slash_split [of q r "[]" p] Cons.prems(4) have "q = r" by simp
      with q(1) Cons.prems(3) show False by simp
    qed
    then show ?thesis by (rule adds_mono) (use False in auto)
  qed
qed (simp add: adds_refl)

definition short_id :: "CertRecord \<Rightarrow> bool" where
  "short_id r \<longleftrightarrow> is_ca r \<longrightarrow> backupCAID (caIDOf r) \<and> length (caIDOf r) \<le> 64"

lemma backupCAID_chars: "backupCAID k \<Longrightarrow> c \<in> set k \<Longrightarrow> c \<noteq> CHR ''/'' \<and> c \<noteq> CHR 0x5C"
  by (auto simp: backupCAID_def ca_kinds ValidSerial_def is_digit_def between_def ascii_def list_all_iff)

lemma backupPath_secret:
  assumes "backupCAID k" and "length k \<le> 64"
  shows "backupPath (caSecretsRoot @ CHR ''/'' # k)"
proof -
  have k: "CHR ''/'' \<notin> set k" "CHR 0x5C \<notin> set k" using backupCAID_chars [OF assms(1)] by blast+
  have "CHR ''/'' \<notin> set caSecretsRoot" "CHR 0x5C \<notin> set caSecretsRoot" by (simp_all add: caSecretsRoot_def)
  then have split: "Split CHR ''/'' (caSecretsRoot @ CHR ''/'' # k) = [caSecretsRoot, k]"
    using Split_append [of "CHR ''/''" caSecretsRoot k] Split_single [OF k(1)] by simp
  have "\<not> HasPrefix (caSecretsRoot @ CHR ''/'' # k) ''/''" by (simp add: HasPrefix_def caSecretsRoot_def)
  moreover from this have "Clean (caSecretsRoot @ CHR ''/'' # k) = caSecretsRoot @ CHR ''/'' # k"
    using backupCAID_named [OF assms(1)] by (simp add: Clean_def split odd_name_def) (simp add: caSecretsRoot_def)
  moreover have "backup_entry [caSecretsRoot, k]" using assms(1) by (simp add: backup_entry_def caSecretsRoot_def)
  ultimately show ?thesis using assms(2) k(2) unfolding backupPath_def split by (simp add: caSecretsRoot_def)
qed

lemma secret_limit: "caSecretLimit \<le> backupFileLimit"
  by (simp add: caSecretLimit_def backupFileLimit_def)

lemma collect_secrets_adds:
  assumes "collect_secrets secret rs seen a = Inr b" and "list_all short_id rs"
  shows "adds (\<lambda>p. \<exists>r \<in> set rs. caIDOf r \<notin> seen \<and> p = caSecretsRoot @ CHR ''/'' # caIDOf r) a b"
  using assms
proof (induction rs arbitrary: seen a)
  case (Cons r rs)
  show ?case
  proof (cases "\<not> is_ca r \<or> caIDOf r \<in> seen")
    case True
    with Cons have "adds (\<lambda>p. \<exists>r \<in> set rs. caIDOf r \<notin> seen \<and> p = caSecretsRoot @ CHR ''/'' # caIDOf r) a b" by simp
    then show ?thesis by (rule adds_mono) auto
  next
    case False
    let ?p = "caSecretsRoot @ CHR ''/'' # caIDOf r" and ?e = "''CA passphrase file or backup size limit exceeded''"
    from False Cons.prems(1) obtain c where c: "(case secret (caIDOf r) of None \<Rightarrow> Inr a | Some x \<Rightarrow> add_file caSecretLimit ?p x ?e a) = Inr c"
      "collect_secrets secret rs (insert (caIDOf r) seen) c = Inr b" by auto
    have "adds ((=) ?p) a c"
    proof (cases "secret (caIDOf r)")
      case (Some x)
      have "backupPath ?p" using Cons.prems(2) False by (intro backupPath_secret) (simp_all add: short_id_def)
      with c(1) Some show ?thesis by (intro adds_file [OF _ _ secret_limit]) simp_all
    qed (use c(1) in \<open>simp add: adds_refl\<close>)
    moreover have "adds (\<lambda>p. \<exists>q \<in> set rs. caIDOf q \<notin> insert (caIDOf r) seen \<and> p = caSecretsRoot @ CHR ''/'' # caIDOf q) c b"
      using Cons.IH [OF c(2)] Cons.prems(2) by simp
    ultimately have "adds (\<lambda>p. ?p = p \<or> (\<exists>q \<in> set rs. caIDOf q \<notin> insert (caIDOf r) seen \<and> p = caSecretsRoot @ CHR ''/'' # caIDOf q)) a b"
      by (rule adds_trans) auto
    then show ?thesis by (rule adds_mono) (use False in auto)
  qed
qed (simp add: adds_refl)

lemma check_files_ok:
  assumes "\<forall>f \<in> set fs. backupPath (bfPath f) \<and> length (bfData f) \<le> backupFileLimit \<and> bfPath f \<notin> seen"
    and "distinct (map bfPath fs)" and "used + sum_list (map (\<lambda>f. length (bfData f)) fs) \<le> archiveTotal"
  shows "check_files fs seen used = Inr ()"
  using assms
proof (induction fs arbitrary: seen used)
  case (Cons f fs)
  have "bfPath g \<noteq> bfPath f" if "g \<in> set fs" for g
    using Cons.prems(2) that by (metis distinct.simps(2) image_eqI list.set_map list.simps(9))
  then have "check_files fs (insert (bfPath f) seen) (used + length (bfData f)) = Inr ()"
    using Cons.prems by (intro Cons.IH) (auto simp: add.assoc image_iff)
  with Cons.prems show ?case by simp
qed simp

text \<open>
  What a backup collects, a restore accepts: the archive made of any data directory in which the names of a directory are distinct
  passes the checks of the manifest and of every file, when the program's version and the CAs' ids have the lengths they always have.
\<close>

lemma accepted_snapshot:
  assumes "snapshotBackup dir version now s = (Inr a, t)" and "named (DirNode (dir t))" and "list_all short_id (Records t)"
    and "version \<noteq> []" and "length version \<le> 128" and "now \<noteq> 0"
  shows "manifest_ok a \<and> check_files (baFiles a) {} 0 = Inr ()"
proof -
  from assms(1) obtain b fs n where roots: "collect_roots (dir t) backupRoots ([], 0) = Inr b"
    and sec: "collect_secrets (secrets t) (Records t) {} b = Inr (fs, n)"
    and a: "a = \<lparr>baFormat = 1, baApplication = version, baCreated = now, baFiles = fs\<rparr>"
    by (auto simp: snapshotBackup_def bindE_Inr_iff thenE_Inr_iff)
  have plain_names: "\<forall>r \<in> set backupRoots. CHR ''/'' \<notin> set r" by (simp add: backupRoots_def)
  from collect_roots_adds [OF roots assms(2) distinct_backupRoots plain_names] collect_secrets_adds [OF sec assms(3)]
  have "adds (\<lambda>p. (\<exists>r \<in> set backupRoots - {caSecretsRoot}. below r p) \<or>
      (\<exists>r \<in> set (Records t). caIDOf r \<notin> {} \<and> p = caSecretsRoot @ CHR ''/'' # caIDOf r)) ([], 0) (fs, n)"
  proof (rule adds_trans)
    fix p assume "\<exists>r \<in> set backupRoots - {caSecretsRoot}. below r p"
      and "\<exists>r \<in> set (Records t). caIDOf r \<notin> {} \<and> p = caSecretsRoot @ CHR ''/'' # caIDOf r"
    then obtain r k where "r \<in> set backupRoots" "r \<noteq> caSecretsRoot" "below r p" "p = caSecretsRoot @ CHR ''/'' # k" by blast
    with slash_split [of r caSecretsRoot "[]" p] plain_names show False
      by (auto simp: below_def HasPrefix_iff caSecretsRoot_def)
  qed
  then have fs: "\<forall>f \<in> set fs. backupPath (bfPath f) \<and> length (bfData f) \<le> backupFileLimit" "distinct (map bfPath fs)"
      "sum_list (map (\<lambda>f. length (bfData f)) fs) \<le> archiveTotal" "length fs \<le> archiveCount"
    by (auto simp: adds_def)
  with assms(4,5,6) show ?thesis by (simp add: a manifest_ok_def check_files_ok)
qed

end
