(* ===== verification/Downloads.thy ===== *)
theory Downloads
  imports Views BackupValidate
begin

text \<open>
  The details of a certificate and the downloads of \<open>server.go\<close>, with the texts of \<open>certinfo.go\<close> and the PKCS#7 bundle of
  \<open>pkcs7.go\<close>. A bundle is the list of its certificates and a PKCS#12 file what it was made of; \<open>pkcs12.Encode\<close> may refuse,
  as an argument says. Reading a file of the store does not fail here unless the file is missing. Whether a certificate names
  itself as its issuer is an argument.
\<close>

section \<open>Certificates as shown\<close>

definition parseCertPEM :: "certpem \<Rightarrow> xcert result" where
  "parseCertPEM pem =
     (case pem_Decode pem of
        None \<Rightarrow> Inl ''no PEM certificate found''
      | Some (None, _) \<Rightarrow> Inl ''x509: malformed certificate''
      | Some (Some c, _) \<Rightarrow> Inr c)"

definition parseCertsPEM :: "certpem \<Rightarrow> xcert list result" where
  "parseCertsPEM pem =
     (case certs_of pem of
        None \<Rightarrow> Inl ''x509: malformed certificate''
      | Some cs \<Rightarrow> if cs = [] then Inl ''no PEM certificates found'' else Inr cs)"

definition describePublicKey :: "pubkey \<Rightarrow> string" where
  "describePublicKey k =
     (case k of RSAKey _ bits \<Rightarrow> ''RSA '' @ Itoa bits @ ''-bit'' | ECKey curve _ \<Rightarrow> ''ECDSA '' @ curve | OtherKey _ \<Rightarrow> ''unknown'')"

definition key_usage_names :: "(int \<times> string) list" where
  "key_usage_names = [(KeyUsageDigitalSignature, ''Digital Signature''), (KeyUsageContentCommitment, ''Content Commitment''),
     (KeyUsageKeyEncipherment, ''Key Encipherment''), (8, ''Data Encipherment''), (16, ''Key Agreement''),
     (KeyUsageCertSign, ''Certificate Sign''), (KeyUsageCRLSign, ''CRL Sign''), (128, ''Encipher Only''), (256, ''Decipher Only'')]"

definition keyUsageStrings :: "int \<Rightarrow> string list" where
  "keyUsageStrings ku = map snd (filter (\<lambda>(b, _). ku AND b \<noteq> 0) key_usage_names)"

fun ext_key_usage_name :: "ext_key_usage \<Rightarrow> string" where
  "ext_key_usage_name ServerAuth = ''TLS Web Server Authentication''"
| "ext_key_usage_name ClientAuth = ''TLS Web Client Authentication''"
| "ext_key_usage_name CodeSigning = ''Code Signing''"
| "ext_key_usage_name EmailProtection = ''Email Protection''"

record CertInfo =
  ciCommonName :: string
  ciSerialHex :: string
  ciExpired :: bool
  ciIsCA :: bool
  ciMaxPathLen :: string
  ciPublicKey :: string
  ciKeyUsages :: "string list"
  ciExtKeyUsages :: "string list"
  ciDNSNames :: "string list"
  ciIPAddresses :: "addr list"
  ciEmailAddresses :: "string list"
  ciURIs :: "string list"
  ciSHA256 :: string

definition describeCert :: "libraries \<Rightarrow> time \<Rightarrow> xcert \<Rightarrow> CertInfo" where
  "describeCert lib now c =
     \<lparr>ciCommonName = CommonName (Subject c), ciSerialHex = serialString (SerialNumber c), ciExpired = (now > NotAfter c),
      ciIsCA = IsCA c,
      ciMaxPathLen = (if IsCA c \<and> MaxPathLenZero c then ''0 (leaf certificates only)'' else if IsCA c then ''unconstrained'' else []),
      ciPublicKey = describePublicKey (PublicKey c), ciKeyUsages = keyUsageStrings (KeyUsage c),
      ciExtKeyUsages = map ext_key_usage_name (ExtKeyUsage c), ciDNSNames = DNSNames c, ciIPAddresses = IPAddresses c,
      ciEmailAddresses = EmailAddresses c, ciURIs = URIs c, ciSHA256 = hexColons (sha256 lib (cert_Raw lib c))\<rparr>"

section \<open>The pages of a certificate and of a CA\<close>

record chainStep =
  csName :: string
  csHref :: string
  csValid :: bool

definition newChainStep :: "time \<Rightarrow> string \<Rightarrow> string \<Rightarrow> time \<Rightarrow> time \<Rightarrow> chainStep" where
  "newChainStep now name href notBefore notAfter =
     \<lparr>csName = name, csHref = href, csValid = (\<not> now < notBefore \<and> \<not> now > notAfter)\<rparr>"

definition caChain :: "time \<Rightarrow> store \<Rightarrow> string \<Rightarrow> chainStep list option" where
  "caChain now s ca =
     (case CAPath s ca of
        Inl e \<Rightarrow> None
      | Inr path \<Rightarrow> Some (map (\<lambda>r. newChainStep now (rCommonName r) (''/ca/view/'' @ caIDOf r) (rNotBefore r) (rNotAfter r)) path))"

definition kindTag :: "string \<Rightarrow> string" where
  "kindTag kind =
     (if kind = caRoot then ''Root CA'' else if kind = caIntermediate then ''Intermediate CA''
      else if kind = ''issued'' then ''Issued'' else if kind = ''csr'' then ''Signed CSR'' else kind)"

record detailsPage =
  dpInfo :: CertInfo
  dpKindTag :: string
  dpIsCAView :: bool
  dpCAID :: string
  dpSerial :: string
  dpHasKey :: bool
  dpCanChain :: bool
  dpCertPEM :: certpem
  dpKeyPEM :: "keypem option"
  dpChain :: "chainStep list"
  dpTemplateName :: string
  dpPushes :: "DevicePush list"

datatype details = Details detailsPage | Broken error | NoDetails nat

definition handleCertDetails :: "libraries \<Rightarrow> site \<Rightarrow> User option \<Rightarrow> time \<Rightarrow> store \<Rightarrow> string \<Rightarrow> details" where
  "handleCertDetails lib w v now s serial =
     (if \<not> ValidSerial serial then NoDetails 400
      else case certs s serial of
          None \<Rightarrow> NoDetails 404
        | Some pem \<Rightarrow>
            (case parseCertPEM pem of
               Inl e \<Rightarrow> Broken e
             | Inr c \<Rightarrow>
                 let rec = (case RecordBySerial s serial of None \<Rightarrow> noRecord | Some r \<Rightarrow> r);
                     own = newChainStep now (CommonName (Subject c)) [] (NotBefore c) (NotAfter c) in
                 Details \<lparr>dpInfo = describeCert lib now c, dpKindTag = kindTag (rKind rec), dpIsCAView = False, dpCAID = [],
                   dpSerial = serial, dpHasKey = rHasKey rec, dpCanChain = (rIssuerID rec \<noteq> [] \<and> rIssuerID rec \<noteq> caRoot),
                   dpCertPEM = pem, dpKeyPEM = (if rHasKey rec \<and> isAdmin w v then keys s serial else None),
                   dpChain = (if rIssuerID rec = [] then []
                     else case caChain now s (rIssuerID rec) of None \<Rightarrow> [] | Some steps \<Rightarrow> steps @ [own]),
                   dpTemplateName = rTemplateName rec, dpPushes = rPushes rec\<rparr>))"

text \<open>The page of a CA; its own step of the chain has no link.\<close>

definition handleCADetails :: "libraries \<Rightarrow> time \<Rightarrow> store \<Rightarrow> string \<Rightarrow> details" where
  "handleCADetails lib now s ca =
     (if \<not> ValidCAID s ca then NoDetails 404
      else case LoadCACertPEM s ca of
          None \<Rightarrow> NoDetails 404
        | Some pem \<Rightarrow>
            (case parseCertPEM pem of
               Inl e \<Rightarrow> Broken e
             | Inr c \<Rightarrow>
                 let steps = (case caChain now s ca of None \<Rightarrow> [] | Some steps \<Rightarrow> steps) in
                 Details \<lparr>dpInfo = describeCert lib now c, dpKindTag = kindTag (if ca \<noteq> caRoot then caIntermediate else caRoot),
                   dpIsCAView = True, dpCAID = ca, dpSerial = [], dpHasKey = False, dpCanChain = (ca \<noteq> caRoot), dpCertPEM = pem,
                   dpKeyPEM = None, dpChain = (if steps = [] then [] else butlast steps @ [(last steps)\<lparr>csHref := []\<rparr>]),
                   dpTemplateName = [], dpPushes = []\<rparr>))"

section \<open>Downloads\<close>

datatype payload =
    PEMFile certpem
  | DERFile xcert
  | P7File "xcert list"
  | KeyFile keypem
  | KeyBytes keyblock
  | P12File privkey xcert "xcert list" string

datatype reply = Answers nat | Sends string payload

definition dropRoot :: "(xcert \<Rightarrow> bool) \<Rightarrow> xcert list \<Rightarrow> xcert list" where
  "dropRoot self cs = (if length cs > 1 \<and> self (last cs) then butlast cs else cs)"

definition serveChain :: "(xcert \<Rightarrow> bool) \<Rightarrow> web_request \<Rightarrow> string \<Rightarrow> xcert list \<Rightarrow> reply" where
  "serveChain self r name cs =
     (let trimmed = dropRoot self cs;
          dropped = (QueryGet r ''noroot'' \<noteq> [] \<and> length trimmed < length cs);
          sent = (if dropped then trimmed else cs);
          name' = (if dropped then name @ ''-noroot'' else name) in
      if QueryGet r ''format'' = ''p7b'' then Sends (name' @ ''-chain.p7b'') (P7File sent)
      else Sends (name' @ ''-chain.pem'') (PEMFile (concat (map encodeCertPEM sent))))"

definition handleDownloadCA :: "(xcert \<Rightarrow> bool) \<Rightarrow> store \<Rightarrow> web_request \<Rightarrow> string \<Rightarrow> string \<Rightarrow> reply" where
  "handleDownloadCA self s r ca what =
     (let with_cert = (\<lambda>f. case LoadCACertPEM s ca of
            None \<Rightarrow> Answers 404
          | Some pem \<Rightarrow> (case parseCertPEM pem of Inl e \<Rightarrow> Answers 500 | Inr c \<Rightarrow> f c)) in
      if \<not> ValidCAID s ca then Answers 404
      else if what = ''cert'' then
        (case LoadCACertPEM s ca of None \<Rightarrow> Answers 404 | Some pem \<Rightarrow> Sends (ca @ ''-cert.pem'') (PEMFile pem))
      else if what = ''der'' then with_cert (\<lambda>c. Sends (ca @ ''-cert.der'') (DERFile c))
      else if what = ''p7b'' then with_cert (\<lambda>c. Sends (ca @ ''-cert.p7b'') (P7File [c]))
      else if what = ''chain'' then
        (case IssuerChainPEM s ca of
           Inl e \<Rightarrow> Answers 404
         | Inr pem \<Rightarrow> (case parseCertsPEM pem of Inl e \<Rightarrow> Answers 500 | Inr cs \<Rightarrow> serveChain self r ca cs))
      else Answers 400)"

definition loadCert :: "store \<Rightarrow> string \<Rightarrow> xcert result" where
  "loadCert s serial = (case certs s serial of None \<Rightarrow> Inl ''file does not exist'' | Some pem \<Rightarrow> parseCertPEM pem)"

text \<open>The certificate, and the chain of its issuer when that can be read.\<close>

definition leafChainCerts :: "store \<Rightarrow> string \<Rightarrow> xcert list result" where
  "leafChainCerts s serial =
     bindR (loadCert s serial) (\<lambda>leaf.
       let rec = (case RecordBySerial s serial of None \<Rightarrow> noRecord | Some r \<Rightarrow> r) in
       Inr (leaf # (case IssuerChainPEM s (rIssuerID rec) of
           Inl e \<Rightarrow> []
         | Inr pem \<Rightarrow> (case parseCertsPEM pem of Inl e \<Rightarrow> [] | Inr cs \<Rightarrow> cs))))"

definition handleDownload :: "(xcert \<Rightarrow> bool) \<Rightarrow> store \<Rightarrow> web_request \<Rightarrow> string \<Rightarrow> string \<Rightarrow> reply" where
  "handleDownload self s r serial what =
     (if \<not> ValidSerial serial then Answers 400
      else if what = ''cert'' then
        (case certs s serial of None \<Rightarrow> Answers 404 | Some pem \<Rightarrow> Sends (serial @ ''-cert.pem'') (PEMFile pem))
      else if what = ''der'' then
        (case loadCert s serial of Inl e \<Rightarrow> Answers 404 | Inr c \<Rightarrow> Sends (serial @ ''-cert.der'') (DERFile c))
      else if what = ''p7b'' then
        (case loadCert s serial of Inl e \<Rightarrow> Answers 404 | Inr c \<Rightarrow> Sends (serial @ ''-cert.p7b'') (P7File [c]))
      else if what = ''key'' then
        (case keys s serial of
           None \<Rightarrow> Answers 404
         | Some pem \<Rightarrow>
             if QueryGet r ''format'' \<noteq> ''der'' then Sends (serial @ ''-key.pem'') (KeyFile pem)
             else (case pem of None \<Rightarrow> Answers 500 | Some block \<Rightarrow> Sends (serial @ ''-key.der'') (KeyBytes block)))
      else if what = ''chain'' then
        (case leafChainCerts s serial of Inl e \<Rightarrow> Answers 404 | Inr cs \<Rightarrow> serveChain self r serial cs)
      else Answers 400)"

definition handleExportP12 ::
  "(xcert \<Rightarrow> bool) \<Rightarrow> (privkey \<Rightarrow> xcert \<Rightarrow> xcert list \<Rightarrow> string \<Rightarrow> bool) \<Rightarrow> store \<Rightarrow> web_request \<Rightarrow> string \<Rightarrow> reply" where
  "handleExportP12 self p12_ok s r serial =
     (if \<not> ValidSerial serial then Answers 400
      else if \<not> wqParses r then Answers 400
      else case keys s serial of
          None \<Rightarrow> Answers 404
        | Some pem \<Rightarrow>
            (case unmarshalKey pem [] of
               Inl e \<Rightarrow> Answers 500
             | Inr key \<Rightarrow>
                 (case leafChainCerts s serial of
                    Inl e \<Rightarrow> Answers 404
                  | Inr cs \<Rightarrow>
                      let chain = (if FormValue r ''noroot'' \<noteq> [] then dropRoot self cs else cs) in
                      if p12_ok key (hd chain) (tl chain) (FormValue r ''password'')
                      then Sends (serial @ ''.p12'') (P12File key (hd chain) (tl chain) (FormValue r ''password''))
                      else Answers 500)))"

section \<open>Private keys\<close>

fun secret_payload :: "payload \<Rightarrow> bool" where
  "secret_payload (KeyFile _) = True"
| "secret_payload (KeyBytes _) = True"
| "secret_payload (P12File _ _ _ _) = True"
| "secret_payload _ = False"

definition download_path :: "string \<Rightarrow> string \<Rightarrow> string" where
  "download_path serial what = ''/download/'' @ serial @ ''/'' @ what"

lemma serveChain_public: "serveChain self r name cs = Sends file p \<Longrightarrow> \<not> secret_payload p"
  by (auto simp: serveChain_def Let_def split: if_splits)

lemma handleDownload_private:
  "handleDownload self s r serial what = Sends file p \<Longrightarrow> secret_payload p \<Longrightarrow> what = ''key'' \<and> ValidSerial serial"
  by (auto simp: handleDownload_def dest: serveChain_public split: if_splits option.splits sum.splits)

lemma no_slash: "ValidSerial serial \<Longrightarrow> CHR ''/'' \<notin> set serial"
  by (auto simp: ValidSerial_def list_all_iff is_digit_def between_def ascii_def)

text \<open>The exception of \<open>requiresAdmin\<close> for CAs catches one serial number as well.\<close>

lemma ca_prefix:
  assumes "ValidSerial serial"
  shows "HasPrefix (download_path serial ''key'') ''/download/ca/'' \<longleftrightarrow> serial = ''ca''"
proof
  assume "HasPrefix (download_path serial ''key'') ''/download/ca/''"
  then obtain rest where rest: "serial @ ''/key'' = ''ca/'' @ rest" by (auto simp: HasPrefix_iff download_path_def)
  note slash = no_slash [OF assms]
  from rest have "takeWhile (\<lambda>c. c \<noteq> CHR ''/'') (serial @ ''/key'') = ''ca''" by simp
  moreover have "takeWhile (\<lambda>c. c \<noteq> CHR ''/'') (serial @ ''/key'') = serial" using slash by (subst takeWhile_append2) auto
  ultimately show "serial = ''ca''" by simp
qed (simp add: HasPrefix_def download_path_def)

lemma download_paths:
  "\<not> isPublicPath (download_path serial what)" "download_path serial what \<notin> {''/login'', ''/setup''}"
  by (auto simp: isPublicPath_def scepPath_def scepPaths_def download_path_def)

lemma requiresAdmin_key:
  assumes "ValidSerial serial" "serial \<noteq> ''ca''"
  shows "requiresAdmin ''GET'' (download_path serial ''key'')"
proof -
  have "\<not> HasPrefix (download_path serial ''key'') ''/download/ca/''" using ca_prefix [OF assms(1)] assms(2) by blast
  moreover have "HasPrefix (download_path serial ''key'') ''/download/''" by (simp add: HasPrefix_def download_path_def)
  moreover have "HasSuffix (download_path serial ''key'') ''/key''" by (auto simp: HasSuffix_iff download_path_def)
  moreover have "\<not> HasPrefix (download_path serial ''key'') ''/tools/''" by (simp add: HasPrefix_def download_path_def)
  ultimately show ?thesis by (simp add: requiresAdmin_def)
qed

lemma requiresAdmin_p12: "requiresAdmin meth (download_path serial ''p12'')"
proof -
  have "HasPrefix (download_path serial ''p12'') ''/download/''" by (simp add: HasPrefix_def download_path_def)
  moreover have "HasSuffix (download_path serial ''p12'') ''/p12''" by (auto simp: HasSuffix_iff download_path_def)
  moreover have "\<not> HasPrefix (download_path serial ''p12'') ''/tools/''" by (simp add: HasPrefix_def download_path_def)
  ultimately show ?thesis by (simp add: requiresAdmin_def)
qed

lemma admitted_admin:
  assumes "Middleware C w now meth (download_path serial what) cookie s = (Serve v, t)" "siEnabled w"
    "requiresAdmin meth (download_path serial what)"
  shows "isAdmin w v"
  using Middleware_admits [OF assms(1,2) download_paths] assms(2,3) by (auto simp: isAdmin_def)


section \<open>A viewer and the serial number ca\<close>

definition viewer :: User where
  "viewer = \<lparr>uUsername = ''eve'', uRole = RoleViewer, uPasswordHash = [], uCreatedAt = 0\<rparr>"

definition viewer_site :: site where
  "viewer_site = \<lparr>siEnabled = True, siKey = ''k'', siStopped = False\<rparr>"

definition viewer_key :: keypem where
  "viewer_key = Some \<lparr>kType = plainKeyType, kHeaders = [], kSalt = [], kNonce = [], kPlain = PKCS8 (Private (OtherKey 3)), kCipher = NotSealed\<rparr>"

definition viewer_store :: store where
  "viewer_store = empty_store\<lparr>users := [viewer], keys := [''ca'' \<mapsto> viewer_key]\<rparr>"

definition viewer_request :: web_request where
  "viewer_request = \<lparr>wqMethod = ''GET'', wqPath = download_path ''ca'' ''key'', wqHost = [], wqOrigin = None, wqCookie = None,
     wqParses = True, wqPost = [], wqQuery = [], wqFile = []\<rparr>"

lemma viewer_passes:
  assumes "\<not> isPublicPath path" and "path \<notin> {''/login'', ''/setup''}" and "\<not> requiresAdmin meth path"
  shows "Middleware example_crypto viewer_site 0 meth path (Some (issueSession example_crypto ''k'' 0 ''eve'')) viewer_store =
    (Serve (Some viewer), viewer_store)"
proof -
  have user: "findUser ''eve'' viewer_store = (Some viewer, viewer_store)" "HasUsers viewer_store = (True, viewer_store)"
    by (simp_all add: findUser_def HasUsers_def loadUsers_def readE_def io_def op_simps viewer_store_def empty_store_def viewer_def)
  have "currentUser example_crypto ''k'' 0 (Some (issueSession example_crypto ''k'' 0 ''eve'')) viewer_store = (Some viewer, viewer_store)"
    using session_accepted [of 0 example_crypto "''k''" 0 "''eve''" viewer_store] user by (simp add: sessionTTL_def time_units)
  then show ?thesis using user assms by (simp add: Middleware_def viewer_site_def)
qed

lemma viewer_admitted:
  "Middleware example_crypto viewer_site 0 ''GET'' (download_path ''ca'' ''key'')
     (Some (issueSession example_crypto ''k'' 0 ''eve'')) viewer_store = (Serve (Some viewer), viewer_store)"
proof -
  have "\<not> requiresAdmin ''GET'' (download_path ''ca'' ''key'')" by code_simp
  then show ?thesis by (rule viewer_passes [OF download_paths])
qed

text \<open>The exception is real: a viewer downloads the private key of the certificate with serial number 202, in hexadecimal \<open>ca\<close>.\<close>

lemma ex_valid_serial_ca: "ValidSerial ''ca''"
  by code_simp

lemma viewer_gets_key:
  "handleDownload self viewer_store viewer_request ''ca'' ''key'' = Sends ''ca-key.pem'' (KeyFile viewer_key)"
  by (simp add: handleDownload_def ex_valid_serial_ca viewer_store_def QueryGet_def viewer_request_def values_of_def first_value_def)


end
