(* ===== verification/ServerCert.thy ===== *)
theory ServerCert
  imports Downloads
begin

text \<open>
  The HTTPS identity, \<open>tlscert.go\<close>: the certificate and key of the server's own listener, kept while it is valid and else made anew,
  by the root CA when its key opens without a passphrase; and the readers of the environment in \<open>main.go\<close>. The two files are written
  one after the other, each in full or not at all.
\<close>

record identity =
  idCert :: "certpem option"
  idKey :: "keypem option"

definition serverCertValid :: "time \<Rightarrow> identity \<Rightarrow> bool" where
  "serverCertValid now i \<longleftrightarrow>
     (case (idKey i, idCert i) of
        (Some _, Some pem) \<Rightarrow> (case parseCertPEM pem of Inl _ \<Rightarrow> False | Inr c \<Rightarrow> now + 24 * hour < NotAfter c)
      | _ \<Rightarrow> False)"

definition envOr :: "(string \<Rightarrow> string option) \<Rightarrow> string \<Rightarrow> string \<Rightarrow> string" where
  "envOr env key fallback = (case env key of None \<Rightarrow> fallback | Some v \<Rightarrow> if v \<noteq> [] then v else fallback)"

definition envBool :: "(string \<Rightarrow> string option) \<Rightarrow> string \<Rightarrow> bool" where
  "envBool env key \<longleftrightarrow>
     ToLower (TrimSpace (case env key of None \<Rightarrow> [] | Some v \<Rightarrow> v)) \<in> {''1'', ''true'', ''yes'', ''on''}"

definition splitComma :: "string \<Rightarrow> string list" where
  "splitComma s = filter (\<lambda>p. p \<noteq> []) (map TrimSpace (Split CHR '','' s))"

section \<open>A new identity\<close>

definition server_template :: "time \<Rightarrow> nat \<Rightarrow> string list \<Rightarrow> xcert" where
  "server_template now serial hosts =
     (let hosts = (if hosts = [] then [''localhost'', ''127.0.0.1''] else hosts) in
      noCert\<lparr>SerialNumber := serial, Subject := subject (hd hosts) [] [], NotBefore := now - 5 * minute, NotAfter := AddDays now 825,
        KeyUsage := KeyUsageDigitalSignature OR KeyUsageKeyEncipherment, ExtKeyUsage := [ServerAuth],
        DNSNames := fst (splitSANs hosts), IPAddresses := snd (splitSANs hosts)\<rparr>)"

text \<open>The certificate issued by the root CA, followed by the root's file; none when the root's key is not at hand.\<close>

definition issued_by_root :: "store \<Rightarrow> xcert \<Rightarrow> pubkey \<Rightarrow> certpem option" where
  "issued_by_root s tmpl pub =
     (if \<not> HasCA s caRoot then None
      else case loadCA s caRoot [] of
          Inl _ \<Rightarrow> None
        | Inr (cert, key) \<Rightarrow>
            (case CreateCertificate tmpl cert pub key of
               Inl _ \<Rightarrow> None
             | Inr der \<Rightarrow> Some (encodeCertPEM der @ (case LoadCACertPEM s caRoot of None \<Rightarrow> [] | Some pem \<Rightarrow> pem))))"

definition identity_pem :: "store \<Rightarrow> xcert \<Rightarrow> privkey \<Rightarrow> (certpem \<times> string) result" where
  "identity_pem s tmpl key =
     (case issued_by_root s tmpl (public key) of
        Some pem \<Rightarrow> Inr (pem, ''issued by root CA'')
      | None \<Rightarrow> bindR (CreateCertificate tmpl (tmpl\<lparr>PublicKey := public key\<rparr>) (public key) key) (\<lambda>der. Inr (encodeCertPEM der, ''self-signed'')))"

text \<open>Writing a file of the identity, with the outcome of the disk.\<close>

definition write_identity :: "(identity \<Rightarrow> identity) \<Rightarrow> (identity \<times> store, unit) op" where
  "write_identity f = (\<lambda>(i, s). case disk s of
       [] \<Rightarrow> (Inr (), (f i, s))
     | NoFault # fs \<Rightarrow> (Inr (), (f i, s\<lparr>disk := fs\<rparr>))
     | Failed # fs \<Rightarrow> (Inl ''input/output error'', (i, s\<lparr>disk := fs\<rparr>))
     | FailedLate # fs \<Rightarrow> (Inl ''input/output error'', (f i, s\<lparr>disk := fs\<rparr>)))"

definition ensureServerCert :: "time \<Rightarrow> randoms \<Rightarrow> string list \<Rightarrow> (identity \<times> store, string) op" where
  "ensureServerCert now r hosts = (\<lambda>(i, s).
     if serverCertValid now i then (Inr ''existing certificate'', (i, s))
     else (let key = Private (ECKey ''P-256'' (rndKey r)) in
       bindE (liftE (identity_pem s (server_template now (rndSerial r) hosts) key)) (\<lambda>(pem, descr).
       thenE (write_identity (\<lambda>i. i\<lparr>idCert := Some pem\<rparr>))
       (thenE (write_identity (\<lambda>i. i\<lparr>idKey := Some (marshalKey [] [] key [])\<rparr>))
         (ret descr)))) (i, s))"

section \<open>The identity serves\<close>

text \<open>The root's file is its certificate alone, and that of a CA.\<close>

definition root_alone :: "store \<Rightarrow> bool" where
  "root_alone s \<longleftrightarrow>
     (case (LoadCACertPEM s caRoot, loadCA s caRoot []) of
        (Some pem, Inr (c, _)) \<Rightarrow> pem = encodeCertPEM c \<and> IsCA c \<and> KeyUsage c AND KeyUsageCertSign \<noteq> 0
      | _ \<Rightarrow> True)"

definition fitting :: "(certpem \<Rightarrow> keypem \<Rightarrow> bool) \<Rightarrow> bool" where
  "fitting key_pair \<longleftrightarrow>
     (\<forall>c rest key. PublicKey c = public key \<longrightarrow> key_pair (encodeCertPEM c @ rest) (marshalKey [] [] key []))"

lemma write_identity_Inr: "write_identity f (i, s) = (Inr x, (j, t)) \<Longrightarrow> j = f i"
  by (auto simp: write_identity_def split: list.splits disk_fault.splits)

lemma identity_pem_shape:
  assumes "identity_pem s tmpl key = Inr (pem, descr)" and "root_alone s"
  obtains c cs where "certs_of pem = Some (c # cs)" "pem = encodeCertPEM c @ map (\<lambda>x. Block (Some x)) cs" "PublicKey c = public key"
    "IsCA c = IsCA tmpl" "NotAfter c = der_time (NotAfter tmpl)" "signed_in_turn (c # cs)"
proof (cases "issued_by_root s tmpl (public key)")
  case None
  with assms(1) obtain der where "CreateCertificate tmpl (tmpl\<lparr>PublicKey := public key\<rparr>) (public key) key = Inr der"
    and "pem = encodeCertPEM der" by (auto simp: identity_pem_def)
  then show ?thesis using that [of der "[]"] by (auto simp: CreateCertificate_def encodeCertPEM_def split: if_splits)
next
  case (Some p)
  then obtain root rkey where root: "HasCA s caRoot" "loadCA s caRoot [] = Inr (root, rkey)"
    by (auto simp: issued_by_root_def split: if_splits sum.splits)
  with Some obtain der where der: "CreateCertificate tmpl root (public key) rkey = Inr der"
    and p: "p = encodeCertPEM der @ (case LoadCACertPEM s caRoot of None \<Rightarrow> [] | Some pem \<Rightarrow> pem)"
    by (auto simp: issued_by_root_def split: sum.splits)
  from assms(1) Some have pem: "pem = p" by (simp add: identity_pem_def)
  from der have c: "PublicKey der = public key" "IsCA der = IsCA tmpl" "NotAfter der = der_time (NotAfter tmpl)" "SignedBy der = PublicKey root"
    by (auto simp: CreateCertificate_def split: if_splits)
  show ?thesis
  proof (cases "LoadCACertPEM s caRoot")
    case None
    with p pem c show ?thesis using that [of der "[]"] by (simp add: encodeCertPEM_def)
  next
    case (Some rpem)
    with assms(2) root(2) have "rpem = encodeCertPEM root" "IsCA root" "KeyUsage root AND KeyUsageCertSign \<noteq> 0"
      by (auto simp: root_alone_def)
    with Some p pem c show ?thesis using that [of der "[root]"] by (simp add: encodeCertPEM_def CheckSignatureFrom_def)
  qed
qed

lemma day_825: "now + 24 * hour < der_time (AddDays now 825)"
proof -
  have "now + 825 * day - second < der_time (now + 825 * day)"
    unfolding der_time_def second_def by (simp add: minus_div_mult_eq_mod [symmetric])
  moreover have "now + 24 * hour < now + 825 * day - second" by (simp add: time_units)
  ultimately show ?thesis by (simp add: AddDays_def)
qed

text \<open>
  A new identity serves: when a certificate had to be made, what is on disk afterwards is a key and a certificate that fits it,
  valid for more than a day, no CA, and followed, when the root issued it, by the root that signed it. It passes the check that a
  backup's identity has to pass.
\<close>

lemma new_identity_serves:
  assumes "ensureServerCert now r hosts (i, s) = (Inr descr, (j, t))" and "\<not> serverCertValid now i"
    and "root_alone s" and "fitting key_pair"
  shows "serverCertValid now j \<and> validateIdentity key_pair (idCert j) (idKey j) = Inr ()"
proof -
  let ?key = "Private (ECKey ''P-256'' (rndKey r))" and ?tmpl = "server_template now (rndSerial r) hosts"
  from assms(1,2) obtain pem j1 s1 where pem: "identity_pem s ?tmpl ?key = Inr (pem, descr)"
    and w1: "write_identity (\<lambda>i. i\<lparr>idCert := Some pem\<rparr>) (i, s) = (Inr (), (j1, s1))"
    and w2: "write_identity (\<lambda>i. i\<lparr>idKey := Some (marshalKey [] [] ?key [])\<rparr>) (j1, s1) = (Inr (), (j, t))"
    by (auto simp: ensureServerCert_def Let_def bindE_Inr_iff thenE_Inr_iff)
  have j: "idCert j = Some pem" "idKey j = Some (marshalKey [] [] ?key [])"
    using write_identity_Inr [OF w1] write_identity_Inr [OF w2] by simp_all
  from identity_pem_shape [OF pem assms(3)] obtain c cs where c: "certs_of pem = Some (c # cs)"
    "pem = encodeCertPEM c @ map (\<lambda>x. Block (Some x)) cs" "PublicKey c = public ?key" "IsCA c = IsCA ?tmpl"
    "NotAfter c = der_time (NotAfter ?tmpl)" "signed_in_turn (c # cs)" .
  have "IsCA c = False" "NotAfter c = der_time (AddDays now 825)"
    using c(4,5) by (simp_all add: server_template_def Let_def noCert_def)
  moreover have "key_pair pem (marshalKey [] [] ?key [])" using assms(4) c(2,3) by (auto simp: fitting_def)
  moreover have "parseCertPEM pem = Inr c" by (simp add: c(2) parseCertPEM_def encodeCertPEM_def)
  ultimately show ?thesis using c(1,6) day_825 [of now]
    by (simp add: serverCertValid_def validateIdentity_def j)
qed

text \<open>
  The two files are not replaced together. When the process stops between the writes of a renewal, or the second one fails, the new
  certificate stays beside the old key, and as it is valid it is kept at every later start.
\<close>

lemma interrupted_renewal_sticks:
  assumes "\<not> serverCertValid now i" and "idKey i = Some old" and "disk s = [NoFault, Failed]" and "root_alone s"
    and "ensureServerCert now r hosts (i, s) = (x, (j, t))"
  shows "idKey j = Some old \<and> idCert j \<noteq> None \<and> (\<forall>r' hosts' u. ensureServerCert now r' hosts' (j, u) = (Inr ''existing certificate'', (j, u)))"
proof -
  let ?key = "Private (ECKey ''P-256'' (rndKey r))" and ?tmpl = "server_template now (rndSerial r) hosts"
  obtain pem descr where pem: "identity_pem s ?tmpl ?key = Inr (pem, descr)"
    by (cases "issued_by_root s ?tmpl (public ?key)") (auto simp: identity_pem_def CreateCertificate_def)
  with assms(1,3,5) have j: "j = i\<lparr>idCert := Some pem\<rparr>"
    by (auto simp: ensureServerCert_def write_identity_def op_simps Let_def)
  from identity_pem_shape [OF pem assms(4)] obtain c cs where c:
    "pem = encodeCertPEM c @ map (\<lambda>x. Block (Some x)) cs" "NotAfter c = der_time (NotAfter ?tmpl)" .
  have "parseCertPEM pem = Inr c" by (simp add: c(1) parseCertPEM_def encodeCertPEM_def)
  moreover have "NotAfter c = der_time (AddDays now 825)" using c(2) by (simp add: server_template_def Let_def)
  ultimately have "serverCertValid now j" using day_825 [of now] assms(2) by (simp add: serverCertValid_def j)
  with assms(2) j show ?thesis by (simp add: ensureServerCert_def)
qed

end
