(* ===== verification/RestoreHttp.thy ===== *)
theory RestoreHttp
  imports Archive ServerCert ScepSafety
begin

text \<open>
  Backup and restore through the web interface, \<open>stageBackup\<close> of \<open>backup.go\<close> and the handlers of \<open>backup_http.go\<close>. A staged backup
  is its decoded content; how it is encoded into the roots of the data directory is an argument. Whether an operation got the
  exclusive lock within its time is an argument too: the error of the wait, if any.
\<close>

section \<open>Staging\<close>

text \<open>
  The libraries a restore uses: reading the JSON of the archive and the files it holds, the DER text of a certificate, the length of a
  key, and whether key and certificate of an identity fit.
\<close>

record importer =
  imParse :: "string \<Rightarrow> json option"
  imDecode :: "json \<Rightarrow> backupArchive option"
  imContent :: "backupFile list \<Rightarrow> backup result"
  imRaw :: "xcert \<Rightarrow> string"
  imLong :: "keyblock \<Rightarrow> bool"
  imPair :: "certpem \<Rightarrow> keypem \<Rightarrow> bool"

record staged =
  sgBackup :: backup
  sgStore :: store
  sgSession :: string
  sgIdentity :: identity
  sgDeviceKey :: "string option"

definition has_file :: "backupArchive \<Rightarrow> string \<Rightarrow> bool" where
  "has_file a p \<longleftrightarrow> p \<in> bfPath ` set (baFiles a)"

text \<open>A missing \<open>scep.json\<close> is an empty journal.\<close>

definition staged_content :: "importer \<Rightarrow> backupArchive \<Rightarrow> backup result" where
  "staged_content P a =
     bindR (imContent P (baFiles a)) (\<lambda>b. Inr (if has_file a ''scep.json'' then b else b\<lparr>bkSCEP := noSCEP\<rparr>))"

definition revoke_unused :: "scepState \<Rightarrow> scepState" where
  "revoke_unused st =
     st\<lparr>stChallenges := map (\<lambda>c. if iUsed (cIssuance c) = 0 then c\<lparr>cRevoked := True\<rparr> else c) (stChallenges st)\<rparr>"

text \<open>Recovery of the staged journal, and the revocation of what is unused in it.\<close>

definition stage_journal :: "bool \<Rightarrow> unit sop" where
  "stage_journal has_scep =
     bindE scep_load (\<lambda>st.
     bindE (scep_recover st) (\<lambda>st.
       if has_scep then scep_save (revoke_unused st) else ret ()))"

definition stage_identity :: "time \<Rightarrow> randoms \<Rightarrow> string list \<Rightarrow> bool \<Rightarrow> identity \<Rightarrow> identity sop" where
  "stage_identity now r hosts regenerate i =
     (if \<not> regenerate then ret i
      else thenE (io (\<lambda>s. s)) (thenE (io (\<lambda>s. s)) (\<lambda>s.
        let u = unlockSecrets (map caiID (CAs s)) (secrets s) s in
        case ensureServerCert now r hosts (\<lparr>idCert = None, idKey = None\<rparr>, u) of
          (Inl e, (_, t)) \<Rightarrow> (Inl e, t)
        | (Inr _, (j, t)) \<Rightarrow> (Inr j, t))))"

definition decode_archive :: "importer \<Rightarrow> string \<Rightarrow> backupArchive result" where
  "decode_archive P data =
     (if length data > backupLimit then Inl ''archive too large''
      else bindR (strictJSON (imParse P) (imDecode P) data) (\<lambda>a.
        if \<not> manifest_ok a then Inl ''unsupported backup manifest''
        else bindR (check_files (baFiles a) {} 0) (\<lambda>_. Inr a)))"

text \<open>
  \<open>fs\<close> are the outcomes of the staging directory's disk; on any error the directory is removed again, so that the checks on the paths
  and on the content can come before the files are written. The new session key is random; \<open>None\<close> when it cannot be drawn.
\<close>

definition stageBackup ::
  "importer \<Rightarrow> time \<Rightarrow> randoms \<Rightarrow> string list \<Rightarrow> string option \<Rightarrow> disk_fault list \<Rightarrow> bool \<Rightarrow> string \<Rightarrow> staged result" where
  "stageBackup P now r hosts session fs regenerate data =
     bindR (decode_archive P data) (\<lambda>a.
     bindR (staged_content P a) (\<lambda>b.
     bindR (validateBackup (imRaw P) (imLong P) (imPair P) b) (\<lambda>_.
       fst (
         thenE (io (\<lambda>s. s)) \<comment> \<open>MkdirTemp\<close>
         (thenE (mapE (\<lambda>f. thenE (io (\<lambda>s. s)) (io (\<lambda>s. s))) (baFiles a))
         (thenE (stage_journal (has_file a ''scep.json''))
         (case session of
            None \<Rightarrow> throw ''reading random bytes''
          | Some key \<Rightarrow>
              thenE (io (\<lambda>s. s))
              (bindE (stage_identity now r hosts regenerate \<lparr>idCert = bkTLSCert b, idKey = bkTLSKey b\<rparr>) (\<lambda>i.
               thenE (io (\<lambda>s. s)) \<comment> \<open>syncTree\<close>
                 (bindE (gets (\<lambda>s. s)) (\<lambda>s.
                   ret \<lparr>sgBackup = b, sgStore = s, sgSession = key, sgIdentity = i, sgDeviceKey = bkDeviceKey b\<rparr>)))))))
         ((bk_store b)\<lparr>disk := fs\<rparr>)))))"

section \<open>What staging does to the journal\<close>

definition no_unused :: "scepState \<Rightarrow> bool" where
  "no_unused st \<longleftrightarrow> list_all (\<lambda>c. cRevoked c \<or> iUsed (cIssuance c) \<noteq> 0) (stChallenges st)"

lemma revoke_unused_done: "no_unused (revoke_unused st)"
  by (auto simp: no_unused_def revoke_unused_def list_all_iff)

lemma stage_journal_scep:
  assumes "stage_journal b s = (Inr u, t)"
  shows "scep t = (if b then revoke_unused (mark_all (scep s)) else mark_all (scep s))"
proof -
  from assms obtain st s1 st2 s2 where l: "scep_load s = (Inr st, s1)" and rc: "scep_recover st s1 = (Inr st2, s2)"
    and sv: "(if b then scep_save (revoke_unused st2) else ret ()) s2 = (Inr u, t)"
    by (auto simp: stage_journal_def bindE_Inr_iff)
  from l have st: "st = scep s" "scep s1 = scep s" by (auto simp: scep_load_def dest: scep_file.load_Inr)
  from tripleD [OF recover_triple st(2) rc [unfolded st(1)]] have "st2 = mark_all (scep s)" "scep s2 = mark_all (scep s)" by simp_all
  with sv show ?thesis by (auto split: if_splits dest: tripleD [OF save_triple refl])
qed


text \<open>The rest of the staging leaves the journal alone.\<close>

lemma stays_writes: "stays (mapE (\<lambda>f. thenE (io (\<lambda>s. s)) (io (\<lambda>s. s))) fs)"
  by (rule stays_I) (intro preserves_mapE keeps preserves_io, simp_all)

lemma write_identity_scep: "write_identity f (i, s) = (x, (j, t)) \<Longrightarrow> scep t = scep s"
  by (auto simp: write_identity_def split: list.splits disk_fault.splits)

lemma ensureServerCert_scep:
  assumes "ensureServerCert now r hosts (i, s) = (x, (j, t))"
  shows "scep t = scep s"
  using assms
  by (auto simp: ensureServerCert_def Let_def bindE_def thenE_def liftE_def ret_def dest!: write_identity_scep
    split: if_splits sum.splits prod.splits)

lemma unlockSecrets_scep: "scep (unlockSecrets ids files s) = scep s"
proof -
  have "scep (unlockOne files k u) = scep u" for k u
    by (auto simp: unlockOne_def keyring_put_def split: option.splits sum.splits)
  then show ?thesis unfolding unlockSecrets_def by (induction ids arbitrary: s) simp_all
qed

lemma staysD: "stays m \<Longrightarrow> m s = (x, t) \<Longrightarrow> scep t = scep s"
  by (auto simp: stays_def dest: preservesD)

lemma stays_io_id: "stays (io (\<lambda>s. s))"
  by (rule stays_io) simp

lemma stage_identity_stays: "stays (stage_identity now r hosts regenerate i)"
proof -
  let ?make = "\<lambda>s. case ensureServerCert now r hosts (\<lparr>idCert = None, idKey = None\<rparr>, unlockSecrets (map caiID (CAs s)) (secrets s) s) of
      (Inl e, (_, t)) \<Rightarrow> (Inl e, t) | (Inr _, (j, t)) \<Rightarrow> (Inr j, t)"
  have "scep (snd (?make s)) = scep s" for s
    by (auto split: prod.splits sum.splits dest!: ensureServerCert_scep simp: unlockSecrets_scep)
  then have "stays ?make" by (intro stays_I preservesI) simp
  then show ?thesis unfolding stage_identity_def Let_def by (intro stays_if stays_then stays_io_id stays_rules)
qed

lemma fst_Inr: "fst p = Inr x \<longleftrightarrow> (\<exists>t. p = (Inr x, t))"
  by (cases p) simp

text \<open>A staged backup: its content was validated, and its journal is that of the backup, reconciled and with nothing left to use.\<close>

lemma stageBackup_Inr:
  assumes "stageBackup P now r hosts session fs regenerate data = Inr sg"
  obtains a where "decode_archive P data = Inr a" "staged_content P a = Inr (sgBackup sg)"
    "validateBackup (imRaw P) (imLong P) (imPair P) (sgBackup sg) = Inr ()" "session = Some (sgSession sg)"
    "scep (sgStore sg) = (if has_file a ''scep.json'' then revoke_unused (mark_all (bkSCEP (sgBackup sg))) else mark_all (bkSCEP (sgBackup sg)))"
proof -
  let ?w = "io (\<lambda>s. s) :: unit sop"
  from assms obtain a b where a: "decode_archive P data = Inr a" and b: "staged_content P a = Inr b"
    and v: "validateBackup (imRaw P) (imLong P) (imPair P) b = Inr ()" by (auto simp: stageBackup_def)
  with assms obtain k s1 s2 s3 s4 i s5 xs u1 u2 u3 s6 x where
    run: "?w ((bk_store b)\<lparr>disk := fs\<rparr>) = (Inr u1, s1)" "mapE (\<lambda>f. thenE ?w ?w) (baFiles a) s1 = (Inr xs, s2)"
      "stage_journal (has_file a ''scep.json'') s2 = (Inr u2, s3)" "?w s3 = (Inr u3, s4)"
      "stage_identity now r hosts regenerate \<lparr>idCert = bkTLSCert b, idKey = bkTLSKey b\<rparr> s4 = (Inr i, s5)" "?w s5 = (Inr x, s6)"
    and k: "session = Some k"
    and sg: "sg = \<lparr>sgBackup = b, sgStore = s6, sgSession = k, sgIdentity = i, sgDeviceKey = bkDeviceKey b\<rparr>"
    by (auto simp: stageBackup_def bindE_Inr_iff thenE_Inr_iff fst_Inr split: option.splits)
  have "scep s1 = bkSCEP b" using staysD [OF stays_io_id run(1)] by (simp add: bk_store_def)
  with staysD [OF stays_writes run(2)] have "scep s2 = bkSCEP b" by simp
  moreover have "scep s6 = scep s3"
    using staysD [OF stays_io_id run(4)] staysD [OF stage_identity_stays run(5)] staysD [OF stays_io_id run(6)] by simp
  ultimately show ?thesis using that [of a] a b v k stage_journal_scep [OF run(3)] by (simp add: sg)
qed

lemma staged_no_unused:
  assumes "stageBackup P now r hosts session fs regenerate data = Inr sg"
  shows "no_unused (scep (sgStore sg)) \<and>
    (scep (sgStore sg) = mark_all (bkSCEP (sgBackup sg)) \<or> scep (sgStore sg) = revoke_unused (mark_all (bkSCEP (sgBackup sg))))"
proof -
  from assms obtain a where b: "staged_content P a = Inr (sgBackup sg)"
    and j: "scep (sgStore sg) = (if has_file a ''scep.json'' then revoke_unused (mark_all (bkSCEP (sgBackup sg))) else mark_all (bkSCEP (sgBackup sg)))"
    by (rule stageBackup_Inr)
  have "bkSCEP (sgBackup sg) = noSCEP" if "\<not> has_file a ''scep.json''"
  proof -
    from b that have "(case imContent P (baFiles a) of Inl e \<Rightarrow> False | Inr x \<Rightarrow> x\<lparr>bkSCEP := noSCEP\<rparr> = sgBackup sg)"
      by (cases "imContent P (baFiles a)") (simp_all add: staged_content_def)
    then show ?thesis by (auto split: sum.splits dest: arg_cong [of _ _ bkSCEP])
  qed
  then have "\<not> has_file a ''scep.json'' \<Longrightarrow> no_unused (mark_all (bkSCEP (sgBackup sg)))"
    by (simp add: mark_all_def noSCEP_def no_unused_def)
  with j revoke_unused_done show ?thesis by simp
qed

lemma no_unused_mark: "no_unused st \<Longrightarrow> no_unused (mark_all st)"
  by (auto simp: no_unused_def mark_all_def mark_challenge_def list_all_iff)

lemma restored_grant:
  assumes "stageBackup P now r hosts session fs regenerate data = Inr sg" and "scep s = scep (sgStore sg)"
    and "decide lib later serial raw remote s = (Inr (Decided ca key m (Granted [] d)), t)"
  shows "\<exists>c \<in> set (stChallenges (bkSCEP (sgBackup sg))).
    cHash c = sha256 lib (smPassword m) \<and> iUsed (cIssuance c) \<noteq> 0 \<and> d = iDER (cIssuance c)"
proof -
  let ?bk = "bkSCEP (sgBackup sg)" and ?st = "mark_all (scep s)" and ?rq = "request_of lib m"
  note staged = staged_no_unused [OF assms(1), folded assms(2)]
  from assms(3) obtain s2 where s2: "authorize lib later serial ?st ?rq remote ca key s2 = (Inr (Granted [] d), t)"
    by (rule decide_split) blast
  have "find (chosen ?st (rqPasswordHash ?rq)) (stChallenges ?st) \<noteq> None"
  proof
    assume none: "find (chosen ?st (rqPasswordHash ?rq)) (stChallenges ?st) = None"
    have "yields (\<lambda>v. \<forall>d. v \<noteq> Granted [] d) (authorize lib later serial ?st ?rq remote ca key)"
      unfolding authorize_def none by (auto intro!: yields_ret enrollShared_origin split: option.split)
    with s2 show False by (auto simp: yields_def)
  qed
  then obtain c where found: "find (chosen ?st (rqPasswordHash ?rq)) (stChallenges ?st) = Some c" by blast
  then have c: "c \<in> set (stChallenges ?st)" "cHash c = rqPasswordHash ?rq"
    by (auto simp: chosen_def dest: find_Some_set)
  from no_unused_mark [OF conjunct1 [OF staged]] c(1) have dead: "cRevoked c \<or> iUsed (cIssuance c) \<noteq> 0"
    by (auto simp: no_unused_def list_all_iff)
  have used: "iUsed (cIssuance c) \<noteq> 0"
  proof
    assume unused: "iUsed (cIssuance c) = 0"
    with dead have "enrollNew later serial ?st c ?rq ca key s2 = (Inr (Denied ''challenge revoked''), s2)" by (simp add: enrollNew_def)
    with s2 found unused show False by (simp add: authorize_def)
  qed
  with s2 found have "enrollUsed later c ?rq s2 = (Inr (Granted [] d), t)" by (simp add: authorize_def)
  then have d: "d = iDER (cIssuance c)" by (auto simp: enrollUsed_def Let_def bindE_Inr_iff split: if_splits)
  from c(1) staged used obtain b where "b \<in> set (stChallenges ?bk)" "cHash b = cHash c" "iUsed (cIssuance b) = iUsed (cIssuance c)"
      "iDER (cIssuance b) = iDER (cIssuance c)"
    by (auto simp: mark_all_def mark_challenge_def revoke_unused_def split: if_splits)
  with c(2) used d show ?thesis by (auto simp: request_of_def)
qed


text \<open>A shared password is not revoked: its challenge stays as it was in the backup.\<close>

lemma restored_shared_challenges:
  assumes "stageBackup P now r hosts session fs regenerate data = Inr sg"
  shows "map hRevoked (stShared (scep (sgStore sg))) = map hRevoked (stShared (bkSCEP (sgBackup sg)))"
  using staged_no_unused [OF assms] by (auto simp: mark_all_def mark_shared_def revoke_unused_def)

section \<open>The barrier around operations\<close>

text \<open>The limits of a store; zero selects the default.\<close>

record operationLimits =
  olRead :: time
  olWrite :: time
  olExclusive :: time

definition read_limit :: "operationLimits \<Rightarrow> string \<Rightarrow> string \<Rightarrow> time" where
  "read_limit l meth path =
     (if olRead l \<noteq> 0 then olRead l else if meth = ''POST'' \<and> path = ''/admin/restore'' then 2 * minute else 30 * second)"

definition write_limit :: "operationLimits \<Rightarrow> time" where
  "write_limit l = (if olWrite l \<noteq> 0 then olWrite l else 2 * minute)"

definition exclusive_limit :: "operationLimits \<Rightarrow> time" where
  "exclusive_limit l = (if olExclusive l \<noteq> 0 then olExclusive l else 5 * second)"

text \<open>A request that already holds the lease passes; any other is refused once the instance is stopped.\<close>

definition operations :: "bool \<Rightarrow> site \<Rightarrow> handler \<Rightarrow> handler" where
  "operations leased w h = (if leased then h else if siStopped w then finish (Status 503) else h)"

definition maintenanceStatus :: "error \<Rightarrow> nat" where
  "maintenanceStatus e = (if e = ''context deadline exceeded'' then 503 else if e = ''context canceled'' then 408 else 500)"

text \<open>\<open>leased\<close> says that the request holds its read lease, \<open>wait\<close> is the error of the wait for the exclusive lock, if any.\<close>

definition backupExclusive :: "crypto \<Rightarrow> site \<Rightarrow> time \<Rightarrow> string option \<Rightarrow> bool \<Rightarrow> error option \<Rightarrow> unit sop" where
  "backupExclusive C w now cookie leased wait = (\<lambda>s.
     if \<not> leased then (Inl ''operation barrier missing'', s)
     else case wait of
         Some e \<Rightarrow> (Inl e, s)
       | None \<Rightarrow>
           if siStopped w then (Inl ''restart required'', s)
           else if \<not> siEnabled w then (Inr (), s)
           else (case currentUser C (siKey w) now cookie s of (u, t) \<Rightarrow>
             (case u of
                None \<Rightarrow> Inl ''administrator required''
              | Some a \<Rightarrow> if uRole a \<noteq> RoleAdmin then Inl ''administrator required'' else Inr (), t)))"

section \<open>Backup\<close>

datatype backup_reply = Declined nat error | Archive_file string

text \<open>What a request to back up or restore finds: another one running, its lease, and the wait for the lock.\<close>

record maintenance =
  mtBusy :: bool
  mtLeased :: bool
  mtWait :: "error option"

definition handleBackup ::
  "crypto \<Rightarrow> aead \<Rightarrow> (backupArchive \<Rightarrow> string) \<Rightarrow> (store \<Rightarrow> (string \<times> node) list) \<Rightarrow> string \<Rightarrow> string option \<Rightarrow> site \<Rightarrow> User option \<Rightarrow> time \<Rightarrow>
     maintenance \<Rightarrow> web_request \<Rightarrow> store \<Rightarrow> backup_reply \<times> store" where
  "handleBackup C G marshal dir version random w v now q r = (\<lambda>s.
     let p = PostGet r ''password'' in
     if \<not> isAdmin w v then (Declined 403 ''administrator required'', s)
     else if mtBusy q then (Declined 409 ''Another backup or restore is running.'', s)
     else if \<not> wqParses r then (Declined 400 ''invalid form'', s)
     else if \<not> backupCSRF C w r then (Declined 403 ''invalid origin or CSRF token; reload the form'', s)
     else case backupPassword p of
         Inl e \<Rightarrow> (Declined 400 e, s)
       | Inr _ \<Rightarrow>
           if p \<noteq> PostGet r ''password_confirm'' then (Declined 400 ''passwords do not match'', s)
           else case thenE (backupExclusive C w now (wqCookie r) (mtLeased q) (mtWait q)) (snapshotBackup dir version now) s of
               (Inl e, t) \<Rightarrow> (Declined (maintenanceStatus e) (''Snapshot failed: '' @ e), t)
             | (Inr a, t) \<Rightarrow>
                 (case sealBackup G random (marshal a) p of
                    Inl e \<Rightarrow> (Declined 500 e, t)
                  | Inr b \<Rightarrow> (Archive_file b, t)))"


section \<open>Restore\<close>

text \<open>
  The surroundings of a restore: the libraries, the names of the new HTTPS identity, whether the passphrase files are kept outside the
  data directory, and how the staged content is laid out as the roots of a data directory.
\<close>

record 'c surroundings =
  suImporter :: importer
  suAEAD :: aead
  suHosts :: "string list"
  suExternal :: bool
  suLayout :: "staged \<Rightarrow> string \<Rightarrow> 'c option"

text \<open>What comes with the request: the uploaded file, the random values and the outcomes of the staging directory's disk.\<close>

record restore_input = maintenance +
  riFile :: "string option"
  riRandoms :: randoms
  riSession :: "string option"
  riDisk :: "disk_fault list"

record 'c machine =
  mcArea :: "'c area"
  mcFaults :: "'c fault list"
  mcStopped :: bool
  mcRestart :: bool

datatype restore_reply = NotRestored nat error | Restored "string list" "error option" | Died

definition fail_with :: "string \<Rightarrow> 'a result \<Rightarrow> 'a result" where
  "fail_with before r = (case r of Inl e \<Rightarrow> Inl (before @ e) | Inr x \<Rightarrow> Inr x)"

text \<open>
  The last steps in the staging directory: a backup without a device key takes over the one of this instance, credentials that the key
  does not open are dropped, and the passphrase files are read out, and removed when they are kept outside.
\<close>

definition finish_stage :: "string \<Rightarrow> bool \<Rightarrow> staged \<Rightarrow> (string list \<times> (string \<Rightarrow> string option) \<times> staged) result" where
  "finish_stage live_key external sg =
     (case (thenE (io (\<lambda>s. s)) (thenE (case sgDeviceKey sg of Some _ \<Rightarrow> ret () | None \<Rightarrow> io (\<lambda>s. s\<lparr>deviceKey := live_key\<rparr>))
            (bindE dropUndecryptableCredentials (\<lambda>names.
             bindE (readE secrets) (\<lambda>files.
             thenE (if external then io (\<lambda>s. s\<lparr>secrets := (\<lambda>_. None)\<rparr>) else ret ())
               (ret (names, files))))))) (sgStore sg) of
        (Inl e, _) \<Rightarrow> Inl e
      | (Inr (names, files), t) \<Rightarrow> Inr (names, files, sg\<lparr>sgStore := t, sgDeviceKey := Some (deviceKey t)\<rparr>))"

text \<open>From the uploaded file to what will be activated. The upload is read up to a little more than its limit.\<close>

definition accept_backup ::
  "'c surroundings \<Rightarrow> time \<Rightarrow> web_request \<Rightarrow> restore_input \<Rightarrow> string \<Rightarrow> (string list \<times> (string \<Rightarrow> string option) \<times> staged) result" where
  "accept_backup E now r q live_key =
     (case riFile q of
        None \<Rightarrow> Inl ''backup file required''
      | Some f \<Rightarrow>
          bindR (openBackup (suAEAD E) (take (backupLimit + 128) f) (FormValue r ''password'')) (\<lambda>data.
          fail_with ''Backup validation/staging failed: ''
            (bindR (stageBackup (suImporter E) now (riRandoms q) (suHosts E) (riSession q) (riDisk q) (FormValue r ''regenerate'' = ''on'') data)
              (finish_stage live_key (suExternal E)))))"

text \<open>
  The activation: afterwards the instance is stopped, unless it failed with nothing of the transaction left. The staging directory is
  removed in the end.
\<close>

definition activate :: "(string \<Rightarrow> 'c option) \<Rightarrow> 'c machine \<Rightarrow> (failure + unit) \<times> 'c machine" where
  "activate n m =
     (let with = (\<lambda>stop (a, fs). m\<lparr>mcArea := a, mcFaults := fs, mcStopped := stop, mcRestart := stop\<rparr>);
          tidy = (\<lambda>s. snd (remove_stage s)) in
      case activateBackup ((mcArea m)\<lparr>stage := Some n\<rparr>, mcFaults m) of
        (Inl Crashed, s) \<Rightarrow> (Inl Crashed, with False s)
      | (Inl e, s) \<Rightarrow>
          (case peek tx_dir s of
             (Inl Crashed, t) \<Rightarrow> (Inl Crashed, with False t)
           | (Inr False, t) \<Rightarrow> (Inl e, with (mcStopped m) (tidy t))
           | (_, t) \<Rightarrow> (Inl e, with True (tidy t)))
      | (Inr _, s) \<Rightarrow> (Inr (), with True (tidy s)))"

definition write_secrets :: "(string \<Rightarrow> string option) \<Rightarrow> string list \<Rightarrow> unit sop" where
  "write_secrets files ids =
     (if ids = [] then ret ()
      else thenE (io (\<lambda>s. s)) (thenE (mapE (\<lambda>k. io (\<lambda>s. s\<lparr>secrets := (secrets s)(k := files k)\<rparr>)) ids) (ret ())))"

definition restore_failed :: "bool \<Rightarrow> error \<Rightarrow> error" where
  "restore_failed stopped e =
     ''Restore failed: '' @ e @
     (if stopped then ''. Serving is blocked; repair storage and restart NetAnchor to recover.'' else [])"

definition handleRestore ::
  "crypto \<Rightarrow> 'c surroundings \<Rightarrow> site \<Rightarrow> User option \<Rightarrow> time \<Rightarrow> restore_input \<Rightarrow> web_request \<Rightarrow> store \<times> 'c machine \<Rightarrow> restore_reply \<times> store \<times> 'c machine" where
  "handleRestore C E w v now q r = (\<lambda>(s, m).
     if \<not> isAdmin w v then (NotRestored 403 ''administrator required'', s, m)
     else if mtBusy q then (NotRestored 409 ''Another backup or restore is running.'', s, m)
     else if \<not> wqParses r then (NotRestored 400 ''Invalid upload (maximum 64 MiB archive).'', s, m)
     else if \<not> backupCSRF C w r then (NotRestored 403 ''invalid origin or CSRF token; reload the form'', s, m)
     else if FormValue r ''confirm'' \<noteq> ''REPLACE'' then (NotRestored 400 ''Type REPLACE to confirm full replacement.'', s, m)
     else case accept_backup E now r q (deviceKey s) of
         Inl e \<Rightarrow> (NotRestored 400 e, s, m)
       | Inr (names, files, sg) \<Rightarrow>
           (case backupExclusive C w now (wqCookie r) (mtLeased q) (mtWait q) s of
              (Inl e, t) \<Rightarrow> (NotRestored (maintenanceStatus e) (restore_failed False e), t, m)
            | (Inr _, t) \<Rightarrow>
                (case activate (suLayout E sg) m of
                   (Inl Crashed, m') \<Rightarrow> (Died, t, m')
                 | (Inl e, m') \<Rightarrow> (NotRestored 500 (restore_failed (mcStopped m') ''input/output error''), t, m')
                 | (Inr _, m') \<Rightarrow>
                     if suExternal E then
                       (case write_secrets files (remdups (map fst (ctSecrets (bkLive (sgBackup sg))))) t of
                          (x, u) \<Rightarrow> (Restored names (case x of Inl e \<Rightarrow> Some e | Inr _ \<Rightarrow> None), u, m'))
                     else (Restored names None, t, m'))))"

section \<open>All or nothing\<close>

definition idle :: "'c area \<Rightarrow> bool" where
  "idle a \<longleftrightarrow> \<not> tx_dir a \<and> Restore.journal a = None \<and> old_root a = (\<lambda>_. None)"

lemma stage_sides [simp]:
  "old_side L (a\<lparr>stage := x\<rparr>) = old_side L a" "new_side L N (a\<lparr>stage := x\<rparr>) = new_side L N a"
proof -
  have "Restore.kept L (a\<lparr>stage := x\<rparr>) = Restore.kept L a"
    by (simp add: Restore.kept_def fun_eq_iff split: option.split)
  then show "old_side L (a\<lparr>stage := x\<rparr>) = old_side L a" "new_side L N (a\<lparr>stage := x\<rparr>) = new_side L N a"
    by (simp_all add: old_side_def new_side_def settled_def undoing_def swapped_in_def)
qed

lemma remove_stage_holds:
  assumes "\<And>a x. P (a\<lparr>stage := x\<rparr>) = P a"
  shows "holds P remove_stage (\<lambda>_. P) P"
  unfolding remove_stage_def by (rule holds_step) (simp_all add: assms)

lemma remove_stage_sides:
  "old_side L (fst s) \<Longrightarrow> old_side L (fst (snd (remove_stage s)))"
  "new_side L N (fst s) \<Longrightarrow> new_side L N (fst (snd (remove_stage s)))"
  by (rule holds_any [OF remove_stage_holds [of "old_side L"]]; simp)
    (rule holds_any [OF remove_stage_holds [of "new_side L N"]]; simp)

lemma peek_area: "fst (snd (peek f s)) = fst s"
  by (rule holds_any [OF holds_peek [of "\<lambda>a. a = fst s" "\<lambda>_ a. a = fst s"]]) simp_all

lemma consistent_remove_stage: "consistent L N (fst s) \<Longrightarrow> consistent L N (fst (snd (remove_stage s)))"
  using remove_stage_sides [where L = L and s = s] by (auto simp: consistent_sides)

lemma activate_consistent:
  assumes "idle (mcArea m)" and "activate n m = (x, m')"
  shows "consistent (live (mcArea m)) n (mcArea m')" and "x = Inr () \<Longrightarrow> new_side (live (mcArea m)) n (mcArea m') \<and> mcStopped m'"
proof -
  let ?L = "live (mcArea m)" and ?a = "(mcArea m)\<lparr>stage := Some n\<rparr>"
  obtain y a fs where run: "activateBackup (?a, mcFaults m) = (y, (a, fs))" by (metis surj_pair)
  have fresh: "fresh ?L n ?a" using assms(1) by (simp add: fresh_def idle_def agree_def)
  from holdsD [OF activateBackup_holds, of ?L n "(?a, mcFaults m)"] fresh run
  have kept: "case y of Inl e \<Rightarrow> consistent ?L n a | Inr u \<Rightarrow> new_side ?L n a" by (simp split: sum.splits)
  obtain z b gs where peek: "peek tx_dir (a, fs) = (z, (b, gs))" by (metis surj_pair)
  with peek_area [of tx_dir "(a, fs)"] have b: "b = a" by simp
  have tidy: "consistent ?L n a \<Longrightarrow> consistent ?L n (fst (snd (remove_stage (a, hs))))" for hs
    using consistent_remove_stage [of ?L n "(a, hs)"] by simp
  have tidy': "new_side ?L n a \<Longrightarrow> new_side ?L n (fst (snd (remove_stage (a, hs))))" for hs
    using remove_stage_sides(2) [of ?L n "(a, hs)"] by simp
  show "consistent ?L n (mcArea m')"
  proof (cases y)
    case (Inr u)
    with kept tidy' [of fs] show ?thesis using assms(2) run
      by (auto simp: activate_def Let_def consistent_sides split: prod.splits)
  next
    case (Inl e)
    with kept have "consistent ?L n a" by simp
    with tidy [of gs] show ?thesis using assms(2) run peek Inl b
      by (auto simp: activate_def Let_def split: prod.splits failure.splits sum.splits bool.splits)
  qed
  assume "x = Inr ()"
  with assms(2) run peek have "y = Inr ()"
    by (cases y) (auto simp: activate_def Let_def split: prod.splits failure.splits sum.splits bool.splits)
  with kept tidy' [of fs] show "new_side ?L n (mcArea m') \<and> mcStopped m'" using assms(2) run
    by (auto simp: activate_def Let_def split: prod.splits)
qed

lemma recovered_side:
  assumes "consistent L N a"
  shows "\<exists>d. recoverRestore (restarts fss a, []) = (Inr (), (d, [])) \<and> closed d \<and> (agree (live d) L \<or> agree (live d) N)"
proof -
  from assms consider "old_side L (restarts fss a)" | "new_side L N (restarts fss a)"
    by (auto simp: consistent_sides intro: restarts_old_side restarts_new_side)
  then show ?thesis by cases (blast dest: old_side_recovers new_side_recovers)+
qed

lemma idle_consistent: "idle a \<Longrightarrow> consistent (live a) N a"
  by (simp add: idle_def consistent_def agree_def)

lemma handleRestore_cases:
  assumes "handleRestore C E w v now q r (s, m) = (reply, t, m')"
  obtains (refused) "m' = m" "\<And>names e. reply \<noteq> Restored names e"
    | (activated) names files sg x where "isAdmin w v" "backupCSRF C w r" "FormValue r ''confirm'' = ''REPLACE''"
      "accept_backup E now r q (deviceKey s) = Inr (names, files, sg)" "activate (suLayout E sg) m = (x, m')"
      "\<And>ns e. reply = Restored ns e \<Longrightarrow> x = Inr () \<and> ns = names"
proof (cases "\<not> isAdmin w v \<or> mtBusy q \<or> \<not> wqParses r \<or> \<not> backupCSRF C w r \<or> FormValue r ''confirm'' \<noteq> ''REPLACE''")
  case True
  with assms show ?thesis using refused by (auto simp: handleRestore_def split: if_splits)
next
  case False
  show ?thesis
  proof (cases "accept_backup E now r q (deviceKey s)")
    case (Inl e)
    with False assms show ?thesis using refused by (auto simp: handleRestore_def)
  next
    case (Inr p)
    obtain names files sg where p: "p = (names, files, sg)" by (cases p)
    obtain y u where ex: "backupExclusive C w now (wqCookie r) (mtLeased q) (mtWait q) s = (y, u)" by fastforce
    obtain x n where act: "activate (suLayout E sg) m = (x, n)" by fastforce
    show ?thesis
    proof (cases y)
      case (Inl e)
      with False assms Inr p ex show ?thesis using refused by (auto simp: handleRestore_def)
    next
      case (Inr z)
      with False assms \<open>accept_backup E now r q (deviceKey s) = Inr p\<close> p ex act have n: "n = m'"
        and rep: "\<And>ns e. reply = Restored ns e \<Longrightarrow> x = Inr () \<and> ns = names"
        by (auto simp: handleRestore_def split: sum.splits failure.splits if_splits prod.splits)
      show ?thesis by (rule activated [OF _ _ _ _ act [unfolded n] rep]) (use False \<open>accept_backup E now r q (deviceKey s) = Inr p\<close> p in auto)
    qed
  qed
qed

text \<open>
  C34. A restore through the web interface replaces everything or nothing, and only for an administrator. Whatever request arrives,
  whatever goes wrong in the staging directory, in the data directory or by the death of the process, and however many restarts are
  disturbed too: the next undisturbed recovery ends with every root as it was, or with every root as the uploaded backup lays it out;
  the latter only when an administrator sent the confirmed form with its token and the backup was opened, validated and staged. A page
  that reports success means that the roots are those of the backup, and that the instance serves no more until it is restarted.
\<close>

theorem restore_replaces_all_or_nothing:
  assumes "idle (mcArea m)" and "handleRestore C E w v now q r (s, m) = (reply, t, m')"
  shows "\<exists>d. recoverRestore (restarts fss (mcArea m'), []) = (Inr (), (d, [])) \<and> closed d \<and>
    (agree (live d) (live (mcArea m)) \<and> (\<forall>names e. reply \<noteq> Restored names e) \<or>
     isAdmin w v \<and> backupCSRF C w r \<and> FormValue r ''confirm'' = ''REPLACE'' \<and>
     (\<exists>names files sg. accept_backup E now r q (deviceKey s) = Inr (names, files, sg) \<and> agree (live d) (suLayout E sg) \<and>
        (\<forall>ns e. reply = Restored ns e \<longrightarrow> ns = names \<and> mcStopped m')))"
  using assms(2)
proof (cases rule: handleRestore_cases)
  case refused
  from recovered_side [OF idle_consistent [OF assms(1), of "live (mcArea m)"]] refused show ?thesis by fastforce
next
  case (activated names files sg x)
  note kept = activate_consistent [OF assms(1) activated(5)]
  show ?thesis
  proof (cases "x = Inr ()")
    case True
    from kept(2) [OF True] new_side_recovers [OF restarts_new_side] obtain d where
      "recoverRestore (restarts fss (mcArea m'), []) = (Inr (), (d, [])) \<and> closed d \<and> agree (live d) (suLayout E sg)" by blast
    with activated kept(2) [OF True] show ?thesis by blast
  next
    case False
    with activated(6) have "reply \<noteq> Restored ns e" for ns e by blast
    with recovered_side [OF kept(1), of fss] activated(1-4) show ?thesis by blast
  qed
qed

end
