(* ===== verification/Routes.thy ===== *)
theory Routes
  imports RestoreHttp CaHttp ScepAdmin GnoiAdmin DefinitionHttp
begin

text \<open>
  The routes of the web interface, \<open>Server.Routes\<close>: which handler gets a request, by the rules of the standard library's
  \<open>ServeMux\<close>, and what the middleware lets through to it. A path is given by its segments, each unescaped on its own as
  \<open>ServeMux\<close> compares them; unclean paths are redirected before. The results of the tools are kept apart from the store and
  are not part of this theory.
\<close>

section \<open>Patterns\<close>

text \<open>A literal segment or a wildcard; the segment of the pattern \<open>/{$}\<close> is the empty one.\<close>

datatype segment = Lit string | Wild

text \<open>Method, where empty stands for any, path and handler.\<close>

type_synonym route = "string \<times> segment list \<times> string"

definition routes :: "route list" where
  "routes =
     [(''GET'', [Lit ''admin'', Lit ''backup''], ''handleBackupPage''),
      (''POST'', [Lit ''admin'', Lit ''backup''], ''handleBackup''),
      (''POST'', [Lit ''admin'', Lit ''restore''], ''handleRestore''),
      ([], [Lit ''scep''], ''SCEP''),
      ([], [Lit ''scep'', Lit ''pkiclient.exe''], ''SCEP''),
      ([], [Lit ''scep'', Lit ''cgi-bin'', Lit ''pkiclient.exe''], ''SCEP''),
      ([], [Lit ''cgi-bin'', Lit ''pkiclient.exe''], ''SCEP''),
      (''GET'', [Lit ''admin'', Lit ''scep''], ''handleSCEPAdmin''),
      (''POST'', [Lit ''admin'', Lit ''scep'', Wild], ''handleSCEPAdmin''),
      (''GET'', [Lit ''push''], ''handlePush''),
      (''GET'', [Lit ''logs''], ''handleLogs''),
      (''GET'', [Lit ''logs.txt''], ''handleLogsText''),
      (''POST'', [Lit ''push''], ''handlePush''),
      (''GET'', [Lit ''devices''], ''handleDevices''),
      (''GET'', [Lit ''devices'', Lit ''new''], ''handleDeviceNew''),
      (''POST'', [Lit ''devices'', Lit ''save''], ''handleDeviceSave''),
      (''POST'', [Lit ''devices'', Lit ''probe''], ''handleDeviceProbe''),
      (''GET'', [Lit ''devices'', Wild], ''handleDeviceDetail''),
      (''GET'', [Lit ''devices'', Wild, Lit ''edit''], ''handleDeviceEdit''),
      (''POST'', [Lit ''devices'', Wild, Lit ''delete''], ''handleDeviceDelete''),
      (''POST'', [Lit ''devices'', Wild, Lit ''test''], ''handleDeviceTest''),
      (''POST'', [Lit ''devices'', Wild, Lit ''refresh''], ''handleDeviceRefresh''),
      (''POST'', [Lit ''devices'', Wild, Lit ''certificates'', Lit ''revoke''], ''handleDeviceRevoke''),
      (''GET'', [Lit ''definitions''], ''handleDefinitions''),
      (''GET'', [Lit ''definitions'', Lit ''new''], ''handleDefinitionNew''),
      (''POST'', [Lit ''definitions'', Lit ''save''], ''handleDefinitionSave''),
      (''GET'', [Lit ''definitions'', Wild, Lit ''edit''], ''handleDefinitionEdit''),
      (''POST'', [Lit ''definitions'', Wild, Lit ''delete''], ''handleDefinitionDelete''),
      (''GET'', [Lit []], ''handleDashboard''),
      (''GET'', [Lit ''certificates''], ''handleCertificates''),
      (''GET'', [Lit ''tools''], ''handleTools''),
      (''POST'', [Lit ''tools''], ''handleToolsDecode''),
      (''POST'', [Lit ''tools'', Lit ''check-password''], ''handleToolsPasswordCheck''),
      (''GET'', [Lit ''tools'', Wild], ''handleToolsResult''),
      (''POST'', [Lit ''tools'', Wild, Lit ''download''], ''handleToolsDownload''),
      (''GET'', [Lit ''ca''], ''handleCA''),
      (''POST'', [Lit ''ca'', Lit ''root''], ''handleCreateRoot''),
      (''POST'', [Lit ''ca'', Lit ''intermediate''], ''handleCreateIntermediate''),
      (''GET'', [Lit ''ca'', Lit ''view'', Wild], ''handleCADetails''),
      (''GET'', [Lit ''ca'', Lit ''delete'', Wild], ''handleCADeleteForm''),
      (''POST'', [Lit ''ca'', Lit ''delete'', Wild], ''handleCADeleteConfirm''),
      (''GET'', [Lit ''issue''], ''handleIssueForm''),
      (''POST'', [Lit ''issue''], ''handleIssue''),
      (''GET'', [Lit ''sign''], ''handleSignForm''),
      (''POST'', [Lit ''sign''], ''handleSign''),
      (''GET'', [Lit ''cert'', Wild], ''handleCertDetails''),
      (''GET'', [Lit ''cert'', Lit ''delete'', Wild], ''handleCertDeleteForm''),
      (''POST'', [Lit ''cert'', Lit ''delete'', Wild], ''handleCertDeleteConfirm''),
      (''GET'', [Lit ''download'', Lit ''ca'', Wild, Wild], ''handleDownloadCA''),
      (''GET'', [Lit ''download'', Wild, Wild], ''handleDownload''),
      (''POST'', [Lit ''download'', Wild, Lit ''p12''], ''handleExportP12''),
      (''GET'', [Lit ''templates''], ''handleTemplates''),
      (''POST'', [Lit ''templates'', Lit ''add''], ''handleTemplateAdd''),
      (''POST'', [Lit ''templates'', Lit ''duplicate''], ''handleTemplateDuplicate''),
      (''GET'', [Lit ''templates'', Lit ''edit'', Wild], ''handleTemplateEditForm''),
      (''POST'', [Lit ''templates'', Lit ''edit'', Wild], ''handleTemplateEdit''),
      (''POST'', [Lit ''templates'', Lit ''delete''], ''handleTemplateDelete''),
      (''GET'', [Lit ''login''], ''handleLoginForm''),
      (''POST'', [Lit ''login''], ''handleLogin''),
      (''GET'', [Lit ''setup''], ''handleSetupForm''),
      (''POST'', [Lit ''setup''], ''handleSetup''),
      (''POST'', [Lit ''logout''], ''handleLogout''),
      (''GET'', [Lit ''users''], ''handleUsers''),
      (''POST'', [Lit ''users'', Lit ''add''], ''handleUserAdd''),
      (''POST'', [Lit ''users'', Lit ''delete''], ''handleUserDelete''),
      (''GET'', [Lit ''healthz''], ''healthz''),
      (''GET'', [Lit ''logo.svg''], ''serveLogo''),
      (''GET'', [Lit ''favicon.ico''], ''serveLogo'')]"

text \<open>\<open>GET\<close> patterns take \<open>HEAD\<close> requests too.\<close>

definition method_fits :: "string \<Rightarrow> string \<Rightarrow> bool" where
  "method_fits p m \<longleftrightarrow> p = [] \<or> m = p \<or> (p = ''GET'' \<and> m = ''HEAD'')"

fun segment_fits :: "segment \<Rightarrow> string \<Rightarrow> bool" where
  "segment_fits (Lit s) w \<longleftrightarrow> w = s"
| "segment_fits Wild w \<longleftrightarrow> w \<noteq> []"

definition fits :: "route \<Rightarrow> string \<Rightarrow> string list \<Rightarrow> bool" where
  "fits p m ws \<longleftrightarrow> (case p of (meth, ss, h) \<Rightarrow> method_fits meth m \<and> list_all2 segment_fits ss ws)"

text \<open>The requests of one pattern are among those of the other.\<close>

definition method_below :: "string \<Rightarrow> string \<Rightarrow> bool" where
  "method_below m n \<longleftrightarrow> n = [] \<or> m = n \<or> (n = ''GET'' \<and> m = ''HEAD'')"

fun segment_below :: "segment \<Rightarrow> segment \<Rightarrow> bool" where
  "segment_below (Lit s) (Lit t) \<longleftrightarrow> s = t"
| "segment_below (Lit s) Wild \<longleftrightarrow> s \<noteq> []"
| "segment_below Wild (Lit t) \<longleftrightarrow> False"
| "segment_below Wild Wild \<longleftrightarrow> True"

definition narrower :: "route \<Rightarrow> route \<Rightarrow> bool" where
  "narrower p q \<longleftrightarrow> (case (p, q) of ((m, ss, h), (n, ts, k)) \<Rightarrow>
     method_below m n \<and> list_all2 segment_below ss ts)"

text \<open>Some request fits both.\<close>

fun segment_meets :: "segment \<Rightarrow> segment \<Rightarrow> bool" where
  "segment_meets (Lit s) (Lit t) \<longleftrightarrow> s = t"
| "segment_meets (Lit s) Wild \<longleftrightarrow> s \<noteq> []"
| "segment_meets Wild (Lit t) \<longleftrightarrow> t \<noteq> []"
| "segment_meets Wild Wild \<longleftrightarrow> True"

definition meets :: "route \<Rightarrow> route \<Rightarrow> bool" where
  "meets p q \<longleftrightarrow> (case (p, q) of ((m, ss, h), (n, ts, k)) \<Rightarrow>
     (method_below m n \<or> method_below n m) \<and> list_all2 segment_meets ss ts)"

text \<open>Registering a pattern panics when it meets an earlier one and neither is the more specific.\<close>

definition conflict :: "route \<Rightarrow> route \<Rightarrow> bool" where
  "conflict p q \<longleftrightarrow> meets p q \<and> narrower p q = narrower q p"

fun registers :: "route list \<Rightarrow> bool" where
  "registers [] \<longleftrightarrow> True"
| "registers (p # ps) \<longleftrightarrow> list_all (\<lambda>q. \<not> conflict p q) ps \<and> registers ps"

text \<open>The most specific pattern that fits, with the values of its wildcards.\<close>

fun wild_values :: "segment list \<Rightarrow> string list \<Rightarrow> string list" where
  "wild_values (Wild # ss) (w # ws) = w # wild_values ss ws"
| "wild_values (Lit s # ss) (w # ws) = wild_values ss ws"
| "wild_values _ _ = []"

definition dispatch :: "string \<Rightarrow> string list \<Rightarrow> (string \<times> string list) option" where
  "dispatch m ws =
     map_option (\<lambda>(meth, ss, h). (h, wild_values ss ws))
       (find (\<lambda>p. fits p m ws \<and> list_all (\<lambda>q. fits q m ws \<longrightarrow> narrower p q) routes) routes)"

definition url_path :: "string list \<Rightarrow> string" where
  "url_path ws = concat (map (\<lambda>w. CHR ''/'' # w) ws)"

section \<open>The table is well formed\<close>

fun all_meet :: "segment list \<Rightarrow> segment list \<Rightarrow> bool" where
  "all_meet [] ts \<longleftrightarrow> ts = []"
| "all_meet (s # ss) [] \<longleftrightarrow> False"
| "all_meet (s # ss) (t # ts) \<longleftrightarrow> (if segment_meets s t then all_meet ss ts else False)"

lemma conflict_code [code]:
  "conflict (m, ss, h) (n, ts, k) \<longleftrightarrow>
     (if all_meet ss ts then meets (m, ss, h) (n, ts, k) \<and> narrower (m, ss, h) (n, ts, k) = narrower (n, ts, k) (m, ss, h) else False)"
proof -
  have "all_meet ss ts \<longleftrightarrow> list_all2 segment_meets ss ts"
    by (induction ss ts rule: all_meet.induct) auto
  then show ?thesis by (simp add: conflict_def meets_def)
qed

lemma routes_register: "registers routes"
  by code_simp

lemma fits_meets:
  assumes "fits p m ws" and "fits q m ws"
  shows "meets p q"
proof -
  obtain mp sp hp mq sq hq where pq: "p = (mp, sp, hp)" "q = (mq, sq, hq)" by (metis prod_cases3)
  have seg: "segment_meets s t" if "segment_fits s w" "segment_fits t w" for s t w
    using that by (cases s; cases t) auto
  have "list_all2 segment_meets sp sq"
    using assms(1,2) unfolding fits_def pq prod.case
    by (auto simp: list_all2_conv_all_nth) (metis seg)
  moreover have "method_below mp mq \<or> method_below mq mp"
    using assms(1,2) by (auto simp: fits_def pq method_fits_def method_below_def)
  ultimately show ?thesis by (simp add: meets_def pq)
qed

lemma conflict_sym: "conflict p q \<longleftrightarrow> conflict q p"
proof -
  have seg: "segment_meets x y \<longleftrightarrow> segment_meets y x" for x y by (cases x; cases y) auto
  have "list_all2 segment_meets xs ys \<longleftrightarrow> list_all2 segment_meets ys xs" for xs ys
    by (auto simp: list_all2_conv_all_nth seg)
  then show ?thesis by (auto simp: conflict_def meets_def split: prod.splits)
qed

lemma registers_pairs: "registers ps \<Longrightarrow> p \<in> set ps \<Longrightarrow> q \<in> set ps \<Longrightarrow> p = q \<or> \<not> conflict p q"
  by (induction ps) (auto simp: list_all_iff conflict_sym)

lemma narrower_refl: "narrower p p"
proof -
  have "segment_below x x" for x by (cases x) simp_all
  then show ?thesis by (auto simp: narrower_def method_below_def list_all2_refl split: prod.split)
qed

lemma narrower_trans: "narrower p q \<Longrightarrow> narrower q r \<Longrightarrow> narrower p r"
proof -
  have seg: "segment_below x y \<Longrightarrow> segment_below y z \<Longrightarrow> segment_below x z" for x y z
    by (cases x; cases y; cases z) auto
  then have "list_all2 segment_below xs ys \<Longrightarrow> list_all2 segment_below ys zs \<Longrightarrow> list_all2 segment_below xs zs" for xs ys zs
    by (rule list_all2_trans)
  then show "narrower p q \<Longrightarrow> narrower q r \<Longrightarrow> narrower p r"
    by (cases p; cases q; cases r) (auto simp: narrower_def method_below_def)
qed

lemma lowest:
  assumes "ps \<noteq> []" and "\<And>p q. p \<in> set ps \<Longrightarrow> q \<in> set ps \<Longrightarrow> narrower p q \<or> narrower q p"
  shows "\<exists>p \<in> set ps. \<forall>q \<in> set ps. narrower p q"
  using assms
proof (induction ps rule: list_nonempty_induct)
  case (cons p ps)
  then obtain b where b: "b \<in> set ps" "\<forall>q \<in> set ps. narrower b q" by auto
  from cons.prems [of p b] b(1) consider "narrower p b" | "narrower b p" by auto
  then show ?case
  proof cases
    case 1
    with b have "\<forall>q \<in> set (p # ps). narrower p q" using narrower_refl narrower_trans by auto
    then show ?thesis by auto
  qed (use b in auto)
qed (simp add: narrower_refl)

text \<open>A request that fits a pattern gets to a handler; registering the patterns does not panic.\<close>

lemma dispatch_total:
  assumes "p \<in> set routes" and "fits p m ws"
  shows "dispatch m ws \<noteq> None"
proof -
  let ?ps = "filter (\<lambda>p. fits p m ws) routes"
  have "?ps \<noteq> []" using assms by (auto simp: filter_empty_conv)
  moreover have "narrower q r \<or> narrower r q" if "q \<in> set ?ps" "r \<in> set ?ps" for q r
    using that registers_pairs [OF routes_register, of q r] fits_meets [of q m ws r] narrower_refl [of q] by (auto simp: conflict_def)
  ultimately obtain b where "b \<in> set ?ps" "\<forall>q \<in> set ?ps. narrower b q" using lowest by blast
  then have "find (\<lambda>p. fits p m ws \<and> list_all (\<lambda>q. fits q m ws \<longrightarrow> narrower p q) routes) routes \<noteq> None"
    unfolding find_None_iff list_all_iff set_filter by blast
  then show ?thesis by (simp add: dispatch_def)
qed

lemma dispatch_fits:
  assumes "dispatch m ws = Some (h, vals)"
  obtains meth ss where "(meth, ss, h) \<in> set routes" "method_fits meth m" "list_all2 segment_fits ss ws"
  using assms by (auto simp: dispatch_def fits_def dest!: find_Some_set split: prod.splits)

section \<open>What only administrators reach\<close>

text \<open>The handlers that rely on the middleware.\<close>

definition guarded :: "string list" where
  "guarded =
     [''handleBackupPage'', ''handleBackup'', ''handleRestore'', ''handleSCEPAdmin'', ''handleCreateRoot'', ''handleCreateIntermediate'',
      ''handleCADeleteForm'', ''handleCADeleteConfirm'', ''handleIssueForm'', ''handleIssue'', ''handleSignForm'', ''handleSign'',
      ''handleCertDeleteForm'', ''handleCertDeleteConfirm'', ''handleExportP12'', ''handleTemplates'', ''handleTemplateAdd'',
      ''handleTemplateDuplicate'', ''handleTemplateEditForm'', ''handleTemplateEdit'', ''handleTemplateDelete'', ''handleUsers'',
      ''handleUserAdd'', ''handleUserDelete'']"

definition admin_paths :: "string list list" where
  "admin_paths = [[''admin'', ''backup''], [''admin'', ''restore''], [''admin'', ''scep''], [''issue''], [''sign''], [''users''],
     [''ca'', ''root''], [''ca'', ''intermediate''], [''users'', ''add''], [''users'', ''delete'']]"

definition admin_segments :: "segment list \<Rightarrow> bool" where
  "admin_segments ss \<longleftrightarrow>
     ss \<in> set (map (map Lit) admin_paths) \<or> (ss \<noteq> [] \<and> hd ss = Lit ''templates'') \<or> ss = [Lit ''download'', Wild, Lit ''p12''] \<or>
     ss \<in> set [[Lit ''admin'', Lit ''scep'', Wild], [Lit ''ca'', Lit ''delete'', Wild], [Lit ''cert'', Lit ''delete'', Wild]]"

lemma guarded_segments: "list_all (\<lambda>(m, ss, h). h \<in> set guarded \<longrightarrow> admin_segments ss) routes"
  by code_simp

lemma fits_two: "list_all2 segment_fits [a, b] ws \<longleftrightarrow> (\<exists>v w. ws = [v, w] \<and> segment_fits a v \<and> segment_fits b w)"
  by (auto simp: list_all2_Cons1)

lemma fits_three:
  "list_all2 segment_fits [a, b, c] ws \<longleftrightarrow> (\<exists>u v w. ws = [u, v, w] \<and> segment_fits a u \<and> segment_fits b v \<and> segment_fits c w)"
  by (auto simp: list_all2_Cons1)

lemma fits_literals: "list_all2 segment_fits (map Lit us) ws \<longleftrightarrow> ws = us"
  by (induction us arbitrary: ws) (auto simp: list_all2_Cons1)

lemma requiresAdmin_templates: "requiresAdmin m (CHR ''/'' # ''templates'' @ rest)"
  by (simp add: requiresAdmin_def HasPrefix_def)

lemma requiresAdmin_listed: "ws \<in> set admin_paths \<Longrightarrow> requiresAdmin m (url_path ws)"
  unfolding admin_paths_def set_simps
  by (elim insertE emptyE; simp add: requiresAdmin_def url_path_def HasPrefix_def HasSuffix_def)

lemma requiresAdmin_below:
  "requiresAdmin m (''/admin/scep/'' @ w)" "requiresAdmin m (''/ca/delete/'' @ w)" "requiresAdmin m (''/cert/delete/'' @ w)"
  by (simp_all add: requiresAdmin_def HasPrefix_def)

lemma admin_segments_paths:
  assumes "admin_segments ss" and "list_all2 segment_fits ss ws"
  shows "requiresAdmin m (url_path ws)"
proof -
  let ?sub = "\<lambda>d f. ss = [Lit d, Lit f, Wild]"
  have listed: ?thesis if "ss \<in> map Lit ` set admin_paths" using that assms(2) by (auto simp: fits_literals requiresAdmin_listed)
  have templates: ?thesis if "ss \<noteq> []" "hd ss = Lit ''templates''"
  proof -
    from that obtain ts where "ss = Lit ''templates'' # ts" by (cases ss) simp_all
    with assms(2) obtain vs where "ws = ''templates'' # vs" by (cases ws) simp_all
    then show ?thesis using requiresAdmin_templates [of m "url_path vs"] by (simp add: url_path_def)
  qed
  have sub: "\<exists>w. ws = [d, f, w]" if "?sub d f" for d f using that assms(2) by (simp only: fits_three) auto
  have p12: "\<exists>v. ws = [''download'', v, ''p12'']" if "ss = [Lit ''download'', Wild, Lit ''p12'']"
    using that assms(2) by (simp only: fits_three) auto
  from assms(1) have "ss \<in> map Lit ` set admin_paths \<or> (ss \<noteq> [] \<and> hd ss = Lit ''templates'') \<or> ss = [Lit ''download'', Wild, Lit ''p12''] \<or>
      ?sub ''admin'' ''scep'' \<or> ?sub ''ca'' ''delete'' \<or> ?sub ''cert'' ''delete''"
    unfolding admin_segments_def by simp
  then show ?thesis
  proof (elim disjE conjE)
    assume "ss = [Lit ''download'', Wild, Lit ''p12'']"
    with p12 obtain v where "ws = [''download'', v, ''p12'']" by blast
    then show ?thesis using requiresAdmin_p12 [of m v] by (simp add: url_path_def download_path_def)
  next
    assume "?sub ''admin'' ''scep''"
    with sub obtain w where "ws = [''admin'', ''scep'', w]" by blast
    then show ?thesis using requiresAdmin_below(1) [of m w] by (simp add: url_path_def)
  next
    assume "?sub ''ca'' ''delete''"
    with sub obtain w where "ws = [''ca'', ''delete'', w]" by blast
    then show ?thesis using requiresAdmin_below(2) [of m w] by (simp add: url_path_def)
  next
    assume "?sub ''cert'' ''delete''"
    with sub obtain w where "ws = [''cert'', ''delete'', w]" by blast
    then show ?thesis using requiresAdmin_below(3) [of m w] by (simp add: url_path_def)
  qed (auto intro: listed templates)
qed

lemma guarded_paths:
  assumes "dispatch m ws = Some (h, vals)" and "h \<in> set guarded"
  shows "requiresAdmin m (url_path ws)"
proof -
  from assms(1) obtain meth ss where "(meth, ss, h) \<in> set routes" "list_all2 segment_fits ss ws" by (rule dispatch_fits)
  with guarded_segments assms(2) show ?thesis by (auto simp: list_all_iff intro: admin_segments_paths)
qed

section \<open>A viewer changes nothing\<close>

text \<open>
  A handler of the store at work in the world, and what a request does once it is dispatched: which handler runs with the values of the
  wildcards. The clock, the random values and the outcomes of the libraries and devices are arbitrary. A handler that only shows a page
  of the store is not listed.
\<close>

definition in_world :: "(store \<Rightarrow> 'p \<times> store) \<Rightarrow> 'd world \<Rightarrow> 'd world" where
  "in_world h x = x\<lparr>wdStore := snd (h (wdStore x))\<rparr>"

inductive handles :: "crypto \<Rightarrow> site \<Rightarrow> User option \<Rightarrow> web_request \<Rightarrow> string \<Rightarrow> string list \<Rightarrow> 'd world \<Rightarrow> 'd world \<Rightarrow> bool"
  for C :: crypto and w :: site and v :: "User option" and r :: web_request where
  "handles C w v r ''handleBackup'' [] x (in_world (handleBackup C G marshal dir version random w v now q r) x)"
| "handleRestore C E w v now inp r (wdStore x, m :: string machine) = (reply, t, m') \<Longrightarrow> handles C w v r ''handleRestore'' [] x (x\<lparr>wdStore := t\<rparr>)"
| "handles C w v r ''SCEP'' [] x (in_world (ScepEnroll.Routes lib now serial req) x)"
| "handles C w v r ''handleSCEPAdmin'' vals x (in_world (handleSCEPAdmin env H w v now secret r action) x)"
| "handles C w v r ''handlePush'' [] x (snd (handlePush G dec runs C w v r x))"
| "handles C w v r ''handleDevices'' [] x (snd (handleDevices x))"
| "handles C w v r ''handleDeviceNew'' [] x (snd (handleDeviceNew w v x))"
| "handles C w v r ''handleDeviceSave'' [] x (snd (handleDeviceSave G C w v now newid nonce r x))"
| "handles C w v r ''handleDeviceProbe'' [] x (snd (handleDeviceProbe G C w v r x))"
| "handles C w v r ''handleDeviceDetail'' [k] x (snd (handleDeviceDetail k x))"
| "handles C w v r ''handleDeviceEdit'' [k] x (snd (handleDeviceEdit w v k x))"
| "handles C w v r ''handleDeviceDelete'' [k] x (snd (handleDeviceDelete C w v r k x))"
| "handles C w v r ''handleDeviceTest'' [k] x (snd (handleDeviceCheck G C w v now False r k x))"
| "handles C w v r ''handleDeviceRefresh'' [k] x (snd (handleDeviceCheck G C w v now True r k x))"
| "handles C w v r ''handleDeviceRevoke'' [k] x (snd (handleDeviceRevoke G C w v now r k x))"
| "handles C w v r ''handleDefinitionSave'' [] x (in_world (handleDefinitionSave C w v now newid r) x)"
| "handles C w v r ''handleDefinitionDelete'' [k] x (in_world (handleDefinitionDelete C w v r k) x)"
| "handles C w v r ''handleCreateRoot'' [] x (in_world (handleCreateRoot now rnd r) x)"
| "handles C w v r ''handleCreateIntermediate'' [] x (in_world (handleCreateIntermediate w v now rnd r) x)"
| "handles C w v r ''handleCADeleteConfirm'' [ca] x (in_world (handleCADeleteConfirm r ca) x)"
| "handles C w v r ''handleIssue'' [] x (in_world (handleIssue parse now rnd r) x)"
| "handles C w v r ''handleSign'' [] x (in_world (handleSign decode_csr now serial r) x)"
| "handles C w v r ''handleCertDeleteConfirm'' [k] x (in_world (handleCertDeleteConfirm k) x)"
| "handles C w v r ''handleTemplateAdd'' [] x (in_world (handleTemplateAdd now r) x)"
| "handles C w v r ''handleTemplateDuplicate'' [] x (in_world (handleTemplateDuplicate now r) x)"
| "handles C w v r ''handleTemplateEdit'' [k] x (in_world (handleTemplateEdit r k) x)"
| "handles C w v r ''handleTemplateDelete'' [] x (in_world (handleTemplateDelete r) x)"
| "handles C w v r ''handleLogin'' [] x (in_world (handleLogin C w now r) x)"
| "handles C w v r ''handleSetup'' [] x (in_world (handleSetup C w now salt r) x)"
| "handles C w v r ''handleLogout'' [] x (in_world handleLogout x)"
| "handles C w v r ''handleUserAdd'' [] x (in_world (handleUserAdd C now salt r) x)"
| "handles C w v r ''handleUserDelete'' [] x (in_world (handleUserDelete r) x)"

text \<open>The same content, whatever accesses of the disk have happened in between.\<close>

definition same_data :: "store \<Rightarrow> store \<Rightarrow> bool" where
  "same_data s t \<longleftrightarrow> t = s\<lparr>disk := disk t\<rparr>"

lemma same_data_disk: "same_data s t \<longleftrightarrow> (\<exists>fs. t = s\<lparr>disk := fs\<rparr>)"
  by (auto simp: same_data_def)

lemma same_data_refl: "same_data s s"
  by (simp add: same_data_def)

lemma same_data_trans: "same_data s t \<Longrightarrow> same_data t u \<Longrightarrow> same_data s u"
  by (auto simp: same_data_disk)

lemma Middleware_data:
  assumes "Middleware C w now m path cookie s = (g, t)"
  shows "same_data s t"
proof -
  have users: "same_data s u" if "HasUsers s = (b, u)" for b u
    using that by (auto simp: same_data_disk dest: HasUsers_store)
  have current: "same_data u t" if "currentUser C (siKey w) now cookie u = (y, t)" for u y t
    using that by (auto simp: same_data_disk dest: currentUser_disk)
  from assms show ?thesis
    unfolding Middleware_def
    by (auto simp: same_data_refl intro: users same_data_trans [OF users current] split: if_splits prod.splits bool.splits option.splits)
qed

lemma handleLogin_data: "same_data s (snd (handleLogin C w now r s))"
  by (cases "wqParses r")
    (auto simp: handleLogin_def parse_form_def finish_def same_data_refl same_data_disk dest: findUser_disk split: prod.split option.split)

lemma handleSetup_path:
  assumes "dispatch m ws = Some (''handleSetup'', vals)"
  shows "url_path ws = ''/setup''"
proof -
  have "list_all (\<lambda>(m, ss, h). h = ''handleSetup'' \<longrightarrow> ss = [Lit ''setup'']) routes" by code_simp
  moreover from assms obtain meth ss where "(meth, ss, ''handleSetup'') \<in> set routes" "list_all2 segment_fits ss ws" by (rule dispatch_fits)
  ultimately have "list_all2 segment_fits [Lit ''setup''] ws" by (auto simp: list_all_iff)
  then show ?thesis by (auto simp: list_all2_Cons1 url_path_def)
qed

definition scep_segments :: "string list list" where
  "scep_segments = [[''scep''], [''scep'', ''pkiclient.exe''], [''scep'', ''cgi-bin'', ''pkiclient.exe''], [''cgi-bin'', ''pkiclient.exe'']]"

lemma scep_routes: "list_all (\<lambda>(m, ss, h). h = ''SCEP'' \<longrightarrow> list_ex (\<lambda>us. ss = map Lit us) scep_segments) routes"
  by code_simp

lemma scep_public: "list_all (\<lambda>us. isPublicPath (url_path us)) scep_segments"
  by code_simp

lemma SCEP_path:
  assumes "dispatch m ws = Some (''SCEP'', vals)"
  shows "isPublicPath (url_path ws)"
proof -
  from assms obtain meth ss where mem: "(meth, ss, ''SCEP'') \<in> set routes" and fits: "list_all2 segment_fits ss ws" by (rule dispatch_fits)
  from bspec [OF scep_routes [unfolded list_all_iff] mem] have "\<exists>us \<in> set scep_segments. ss = map Lit us"
    by (simp only: prod.case list_ex_iff simp_thms)
  then obtain us where us: "us \<in> set scep_segments" "ss = map Lit us" ..
  from fits have "ws = us" by (simp only: us(2) fits_literals)
  moreover from scep_public us(1) have "isPublicPath (url_path us)" by (simp only: list_all_iff)
  ultimately show ?thesis by (simp only:)
qed

lemma readE_data: "readE f s = (y, t) \<Longrightarrow> same_data s t"
  by (auto simp: readE_def io_def op_simps same_data_disk id_def intro: exI [of _ "disk s"] split: list.splits disk_fault.splits)

lemma GetDevice_data: "GetDevice k s = (y, t) \<Longrightarrow> same_data s t"
  by (auto simp: GetDevice_def loadDevices_def bindE_def op_simps dest: readE_data split: prod.splits sum.splits)

lemma handleDevices_data: "same_data (wdStore x) (wdStore (snd (handleDevices x)))"
  by (auto simp: handleDevices_def perform_live_def on_store_def DeviceCheck.answer_def ListDevices_def loadDevices_def bindE_def op_simps
    dest: readE_data split: prod.splits sum.splits)

lemma handleDeviceDetail_data: "same_data (wdStore x) (wdStore (snd (handleDeviceDetail k x)))"
  by (auto simp: handleDeviceDetail_def with_device_def renderDeviceDetail_def perform_live_def on_store_def DeviceCheck.answer_def
    dest: GetDevice_data split: prod.split sum.split option.split)

lemmas refusing = handlePush_def handleDeviceNew_def handleDeviceSave_def handleDeviceProbe_def handleDeviceEdit_def handleDeviceDelete_def
  handleDeviceCheck_def handleDeviceRevoke_def handleDefinitionSave_def handleDefinitionDelete_def admin_live_def admin_form_def
  DeviceCheck.answer_def finish_def in_world_def

lemma unguarded_data:
  assumes "handles C w v r h vals x y" and "\<not> isAdmin w v"
  shows "h \<in> set guarded \<or> h = ''handleSetup'' \<or> h = ''SCEP'' \<or> same_data (wdStore x) (wdStore y)"
  using assms
  by (cases rule: handles.cases)
    (simp_all add: guarded_def refusing same_data_refl Let_def handleLogin_data handleDevices_data handleDeviceDetail_data handleLogout_def)

text \<open>
  C37. A signed-in user who is no administrator changes nothing: whatever request the middleware lets through for such a user, to
  whatever handler it is dispatched, the accounts, authorities, certificates, keys, templates, devices, definitions and the enrollment
  journal are afterwards what they were.
\<close>

theorem viewer_changes_nothing:
  assumes "Middleware C w now (wqMethod r) (url_path segments) cookie s = (Serve (Some u), t)" and "uRole u \<noteq> RoleAdmin"
    and "dispatch (wqMethod r) segments = Some (h, vals)" and "handles C w (Some u) r h vals x y" and "wdStore x = t"
  shows "same_data s (wdStore y)"
proof -
  from assms(1) have on: "siEnabled w" "\<not> isPublicPath (url_path segments)" "url_path segments \<noteq> ''/setup''"
      "\<not> (requiresAdmin (wqMethod r) (url_path segments) \<and> uRole u \<noteq> RoleAdmin)"
    by (auto simp: Middleware_def split: if_splits prod.splits bool.splits option.splits)
  have "h \<notin> set guarded" using guarded_paths [OF assms(3)] on(4) assms(2) by blast
  moreover have "h \<noteq> ''handleSetup''" using handleSetup_path assms(3) on(3) by blast
  moreover have "h \<noteq> ''SCEP''" using SCEP_path assms(3) on(2) by blast
  moreover have "\<not> isAdmin w (Some u)" using on(1) assms(2) by (simp add: isAdmin_def)
  ultimately have "same_data t (wdStore y)" using unguarded_data [OF assms(4)] assms(5) by blast
  with Middleware_data [OF assms(1)] show ?thesis by (rule same_data_trans)
qed

section \<open>A viewer at the devices\<close>

definition delete_request :: web_request where
  "delete_request = viewer_request\<lparr>wqMethod := ''POST'', wqPath := ''/devices/d1/delete'', wqPost := [(''confirm_delete'', [''on''])]\<rparr>"

definition viewer_world :: "unit world" where
  "viewer_world = \<lparr>wdStore = viewer_store, wdDevice = (), wdEvents = [], wdSteps = []\<rparr>"

lemma delete_dispatched: "dispatch ''POST'' [''devices'', ''d1'', ''delete''] = Some (''handleDeviceDelete'', [''d1''])"
  by code_simp

lemma delete_path: "\<not> isPublicPath (url_path [''devices'', ''d1'', ''delete''])" "url_path [''devices'', ''d1'', ''delete''] \<notin> {''/login'', ''/setup''}"
    "\<not> requiresAdmin ''POST'' (url_path [''devices'', ''d1'', ''delete''])"
  by code_simp+

theorem viewer_changes_nothing_witness:
  "same_data viewer_store (wdStore (snd (handleDeviceDelete example_crypto viewer_site (Some viewer) delete_request ''d1'' viewer_world)))"
proof -
  have meth: "wqMethod delete_request = ''POST''" by (simp add: delete_request_def)
  have "uRole viewer \<noteq> RoleAdmin" by (simp add: viewer_def RoleViewer_def RoleAdmin_def)
  moreover have "wdStore viewer_world = viewer_store" by (simp add: viewer_world_def)
  ultimately show ?thesis
    using viewer_changes_nothing [of example_crypto viewer_site 0 delete_request "[''devices'', ''d1'', ''delete'']"]
      viewer_passes [OF delete_path] delete_dispatched handles.intros(12) unfolding meth by blast
qed

end
