(* ===== verification/Boot.thy ===== *)
theory Boot
  imports RestoreHttp
begin

text \<open>
  The start of the program, \<open>main\<close> in \<open>main.go\<close>, up to the listeners: an interrupted restore is settled before any data is opened,
  the keys and the journal are made ready, and the HTTPS identity is ensured; and the probe of a running server. How the roots of
  the data directory read as data is an argument. Log lines, the listeners and the shutdown are left out.
\<close>

section \<open>What a start finds\<close>

record data_dir =
  ddStore :: store
  ddSession :: "string option"
  ddDeviceKey :: "string option"
  ddIdentity :: identity

text \<open>The environment, the passphrase files of an external directory, and the random values.\<close>

record environment =
  enVar :: "string \<Rightarrow> string option"
  enSecrets :: "string \<Rightarrow> string \<Rightarrow> string option"
  enNow :: time
  enRandoms :: randoms
  enSessionKey :: "string option"
  enDeviceKey :: string

record running =
  rnStore :: store
  rnSite :: site
  rnAllow :: "prefix list"
  rnSCEP :: "string option"
  rnIdentity :: "identity option"

datatype start = Version | Probed nat | Fatal error | Running running

section \<open>Steps\<close>

text \<open>A session key that cannot be read or is too short is replaced.\<close>

definition loadOrCreateKey :: "string option \<Rightarrow> string option \<Rightarrow> string sop" where
  "loadOrCreateKey random file =
     (case file of
        Some b \<Rightarrow> if length b \<ge> 32 then ret b else (case random of None \<Rightarrow> throw ''reading random bytes'' | Some k \<Rightarrow> thenE (io (\<lambda>s. s)) (ret k))
      | None \<Rightarrow> (case random of None \<Rightarrow> throw ''reading random bytes'' | Some k \<Rightarrow> thenE (io (\<lambda>s. s)) (ret k)))"

definition NewAuth :: "string option \<Rightarrow> string option \<Rightarrow> bool \<Rightarrow> site sop" where
  "NewAuth random file enabled =
     bindE (loadOrCreateKey random file) (\<lambda>key. ret \<lparr>siEnabled = enabled, siKey = key, siStopped = False\<rparr>)"

definition caSecretsDir :: "(string \<Rightarrow> string option) \<Rightarrow> string option" where
  "caSecretsDir env = (case env ''NETANCHOR_CA_SECRETS_DIR'' of None \<Rightarrow> None | Some d \<Rightarrow> if d \<noteq> [] then Some d else None)"

text \<open>\<open>net.ParseCIDR\<close>: the network, as an IPv4 one when the address maps one.\<close>

definition ParseCIDR :: "string \<Rightarrow> prefix option" where
  "ParseCIDR s =
     (case cut CHR ''/'' s of
        None \<Rightarrow> None
      | Some (a, m) \<Rightarrow>
          (case if CHR ''%'' \<in> set a then None else ParseAddr a of
             None \<Rightarrow> None
           | Some ip \<Rightarrow>
               if m = [] \<or> \<not> list_all is_digit m \<or> number m > BitLen ip then None
               else Some (if Is4In6 ip \<and> number m \<ge> 96 then Masked (Prefix (Unmap ip) (int (number m) - 96))
                          else Masked (Prefix ip (int (number m))))))"

fun allow_parts :: "string list \<Rightarrow> prefix list result" where
  "allow_parts [] = Inr []"
| "allow_parts (p # ps) =
     (let part = TrimSpace p in
      if part = [] then allow_parts ps
      else case ParseCIDR part of
          None \<Rightarrow> Inl (quoted part @ '' is not a CIDR (for example 192.0.2.10/32)'')
        | Some n \<Rightarrow> bindR (allow_parts ps) (\<lambda>ns. Inr (n # ns)))"

definition parseGNOIAllow :: "string \<Rightarrow> prefix list result" where
  "parseGNOIAllow v = allow_parts (Split CHR '','' v)"

definition env_value :: "(string \<Rightarrow> string option) \<Rightarrow> string \<Rightarrow> string" where
  "env_value env k = (case env k of None \<Rightarrow> [] | Some v \<Rightarrow> v)"

definition tls_enabled :: "(string \<Rightarrow> string option) \<Rightarrow> bool" where
  "tls_enabled env \<longleftrightarrow> \<not> EqualFold (envOr env ''NETANCHOR_TLS'' ''on'') ''off''"

text \<open>The device key: a new one is written.\<close>

definition device_key :: "string \<Rightarrow> string option \<Rightarrow> string sop" where
  "device_key random file =
     bindE (liftE (loadOrCreateDeviceKey random file)) (\<lambda>(k, _).
       if file = None then thenE (io (\<lambda>s. s)) (ret k) else ret k)"

definition open_data :: "environment \<Rightarrow> data_dir \<Rightarrow> start" where
  "open_data E d =
     (let env = enVar E in
      case thenE (io (\<lambda>s. s)) (device_key (enDeviceKey E) (ddDeviceKey d)) (ddStore d) of
        (Inl e, _) \<Rightarrow> Fatal e
      | (Inr dk, s1) \<Rightarrow>
          let files = (case caSecretsDir env of None \<Rightarrow> secrets s1 | Some dir \<Rightarrow> enSecrets E dir);
              s2 = unlockSecrets (map caiID (CAs s1)) files (s1\<lparr>deviceKey := dk\<rparr>) in
          (case NewAuth (enSessionKey E) (ddSession d) (\<not> envBool env ''NETANCHOR_DISABLE_AUTH'') s2 of
             (Inl e, _) \<Rightarrow> Fatal (''initializing auth: '' @ e)
           | (Inr w, s3) \<Rightarrow>
               (case parseGNOIAllow (env_value env ''NETANCHOR_GNOI_ALLOW'') of
                  Inl e \<Rightarrow> Fatal (''NETANCHOR_GNOI_ALLOW: '' @ e)
                | Inr allow \<Rightarrow>
                    let s4 = snd (scep_startup s3);
                        addr = env_value env ''NETANCHOR_SCEP_ADDR'';
                        serve = (\<lambda>i s. Running \<lparr>rnStore = s, rnSite = w, rnAllow = allow, rnSCEP = (if addr \<noteq> [] then Some addr else None), rnIdentity = i\<rparr>) in
                    if \<not> tls_enabled env then serve None s4
                    else (case ensureServerCert (enNow E) (enRandoms E) (splitComma (envOr env ''NETANCHOR_TLS_HOSTS'' ''localhost,127.0.0.1''))
                              (ddIdentity d, s4) of
                        (Inl e, _) \<Rightarrow> Fatal (''preparing TLS certificate: '' @ e)
                      | (Inr _, (i, s5)) \<Rightarrow> serve (Some i) s5))))"

section \<open>The probe\<close>

definition health_url :: "string \<Rightarrow> bool \<Rightarrow> string" where
  "health_url addr tls =
     (let (host, port) = (case SplitHostPort addr of None \<Rightarrow> (''127.0.0.1'', ''8443'') | Some hp \<Rightarrow> hp);
          host = (if host = [] \<or> host = ''0.0.0.0'' \<or> host = ''::'' then ''127.0.0.1'' else host) in
      (if tls then ''https'' else ''http'') @ ''://'' @ host @ '':'' @ port @ ''/healthz'')"

text \<open>\<open>fetch\<close> gives the status of the answer, if there is one.\<close>

definition runHealthCheck :: "(string \<Rightarrow> nat option) \<Rightarrow> string \<Rightarrow> bool \<Rightarrow> nat" where
  "runHealthCheck fetch addr tls =
     (case fetch (health_url addr tls) of None \<Rightarrow> 1 | Some status \<Rightarrow> if status = 200 then 0 else 1)"

section \<open>The start\<close>

definition main ::
  "environment \<Rightarrow> ((string \<Rightarrow> 'c option) \<Rightarrow> data_dir) \<Rightarrow> (string \<Rightarrow> nat option) \<Rightarrow> string \<Rightarrow> bool \<Rightarrow> bool \<Rightarrow>
     'c area \<times> 'c fault list \<Rightarrow> start \<times> 'c area" where
  "main E read fetch addr showVersion health = (\<lambda>(a, fs).
     if showVersion then (Version, a)
     else if health then (Probed (runHealthCheck fetch addr (tls_enabled (enVar E))), a)
     else case recoverRestore (a, fs) of
         (Inl e, (b, _)) \<Rightarrow> (Fatal ''restore recovery failed; refusing to open data'', b)
       | (Inr _, (b, _)) \<Rightarrow> (open_data E (read (live b)), b))"

text \<open>
  A listener on all addresses is probed on the loopback address. An IPv6 address loses its brackets, and what is probed is no
  address of the listener.
\<close>

lemma health_addresses:
  "health_url ''0.0.0.0:8443'' True = ''https://127.0.0.1:8443/healthz''" "health_url '':8443'' True = ''https://127.0.0.1:8443/healthz''"
  "health_url ''[::1]:8443'' True = ''https://::1:8443/healthz''"
  by code_simp+

text \<open>Without a list no device can be reached.\<close>

lemma no_allow_list: "parseGNOIAllow [] = Inr []" "\<not> gnoiAllowed [] ip"
  by (code_simp, simp add: gnoiAllowed_def)

lemma loadOrCreateKey_Inr:
  assumes "loadOrCreateKey random file s = (Inr k, t)"
  shows "file = Some k \<and> length k \<ge> 32 \<or> random = Some k"
  using assms by (auto simp: loadOrCreateKey_def thenE_Inr_iff split: option.splits if_splits)

lemma device_key_Inr: "device_key random file s = (Inr k, t) \<Longrightarrow> length random = 32 \<Longrightarrow> length k = 32"
  by (auto simp: device_key_def bindE_Inr_iff thenE_Inr_iff loadOrCreateDeviceKey_def deviceKeySize_def split: option.splits if_splits)

lemma running_keys:
  assumes "open_data E d = Running rn" and "\<And>k. enSessionKey E = Some k \<Longrightarrow> length k = 32"
  shows "length (siKey (rnSite rn)) \<ge> 32 \<and> \<not> siStopped (rnSite rn) \<and> (siEnabled (rnSite rn) \<longleftrightarrow> \<not> envBool (enVar E) ''NETANCHOR_DISABLE_AUTH'')"
  using assms
  by (auto simp: open_data_def Let_def NewAuth_def bindE_Inr_iff dest!: loadOrCreateKey_Inr split: sum.splits prod.splits if_splits)

lemma ensureServerCert_valid:
  assumes "ensureServerCert now r hosts (i, s) = (Inr descr, (j, t))" and "root_alone s"
  shows "serverCertValid now j"
proof (cases "serverCertValid now i")
  case True
  with assms(1) show ?thesis by (simp add: ensureServerCert_def)
next
  case False
  have "fitting (\<lambda>_ _. True)" by (simp add: fitting_def)
  with new_identity_serves [OF assms(1) False assms(2)] show ?thesis by blast
qed

text \<open>
  After any start that serves, an interrupted restore is settled one way or the other: the roots it serves are all as before that
  restore or all as in the backup, and nothing of the restore is left.
\<close>

lemma start_settles:
  assumes "consistent L N a" and "main E read fetch addr False False (restarts fss a, []) = (Running rn, b)"
  shows "closed b \<and> (agree (live b) L \<or> agree (live b) N) \<and> open_data E (read (live b)) = Running rn"
proof -
  from recovered_side [OF assms(1)] obtain d where d: "recoverRestore (restarts fss a, []) = (Inr (), (d, []))" "closed d"
      "agree (live d) L \<or> agree (live d) N" by blast
  with assms(2) show ?thesis by (auto simp: main_def)
qed

lemma start_refuses: "recoverRestore (a, fs) = (Inl e, s) \<Longrightarrow> fst (main E read fetch addr False False (a, fs)) \<noteq> Running rn"
  by (cases s) (simp add: main_def)

end
