(* ===== verification/BackupExample.thy ===== *)
theory BackupExample
  imports BackupValidate ScepExample
begin

text \<open>
  A backup that passes validation: a root, an enrollment CA below it and a certificate of that CA, one administrator,
  one device and one template.
\<close>

section \<open>The data\<close>

definition ex_leaf :: xcert where
  "ex_leaf = noCert\<lparr>SerialNumber := 11, NotAfter := 90 * day, PublicKey := RSAKey 7 2048, SignedBy := RSAKey 2 2048\<rparr>"

definition plain_key :: "pubkey \<Rightarrow> keypem" where
  "plain_key k = Some \<lparr>kType = plainKeyType, kHeaders = [], kSalt = [], kNonce = [], kPlain = PKCS8 (Private k), kCipher = NotSealed\<rparr>"

definition root_record :: CertRecord where
  "root_record = noRecord\<lparr>rSerial := ''1'', rKind := caRoot, rHasKey := True, rNotAfter := 4000 * day\<rparr>"

definition ca_record :: CertRecord where
  "ca_record = noRecord\<lparr>rSerial := ''a'', rKind := caIntermediate, rCAID := ''a'', rIssuerID := caRoot, rHasKey := True,
     rNotAfter := 3000 * day\<rparr>"

definition leaf_record :: CertRecord where
  "leaf_record = noRecord\<lparr>rSerial := ''b'', rKind := ''csr'', rIssuerID := ''a'', rNotAfter := 90 * day\<rparr>"

definition ex_tree :: cert_tree where
  "ex_tree = \<lparr>ctIndex = [root_record, ca_record, leaf_record],
     ctCAs = [(caRoot, \<lparr>caCert = Some (encodeCertPEM ex_root), caKey = Some (plain_key (PublicKey ex_root))\<rparr>),
              (''a'', \<lparr>caCert = Some (encodeCertPEM ex_ca), caKey = Some (plain_key (PublicKey ex_ca))\<rparr>)],
     ctCerts = [(''b'', encodeCertPEM ex_leaf)], ctKeys = [], ctSecrets = [(''a'', ''pass'')]\<rparr>"

definition ex_user :: User where
  "ex_user = \<lparr>uUsername = ''root'', uRole = RoleAdmin,
     uPasswordHash = ''pbkdf2$1$'' @ replicate 22 CHR ''A'' @ ''$'' @ replicate 43 CHR ''A'', uCreatedAt = 0\<rparr>"

definition ex_backup :: backup where
  "ex_backup = \<lparr>bkUsers = [ex_user], bkSessionKey = None, bkDeviceKey = None, bkTLSCert = None, bkTLSKey = None, bkLive = ex_tree,
     bkTemplates = [], bkDevices = [], bkDefinitions = [], bkTrash = [], bkSCEP = noSCEP\<lparr>stCA := ''a''\<rparr>\<rparr>"

section \<open>It is valid\<close>

definition zeros :: "nat \<Rightarrow> string" where "zeros n = replicate n CHR ''A''"

lemma ex_password_parts: "Split CHR ''$'' (uPasswordHash ex_user) = [''pbkdf2'', ''1'', zeros 22, zeros 43]"
  by code_simp

lemma ex_password_salt: "map_option length (decode64 std_val (zeros 22)) = Some 16"
  by code_simp

lemma ex_password_hash: "map_option length (decode64 std_val (zeros 43)) = Some 32"
  by code_simp

lemma ex_password_rounds: "ParseInt ''1'' = Some 1"
  by code_simp

lemma ex_users: "validateUsers [ex_user] = Inr ()"
proof -
  from ex_password_salt obtain salt where salt: "decode64 std_val (zeros 22) = Some salt" "length salt = 16" by auto
  from ex_password_hash obtain hash where hash: "decode64 std_val (zeros 43) = Some hash" "length hash = 32" by auto
  have "password_hash_check (uPasswordHash ex_user) = Inr ()"
    by (simp only: password_hash_check_def ex_password_parts list.case) (simp add: ex_password_rounds salt hash pwIter_def)
  moreover have "TrimSpace (ToLower (uUsername ex_user)) \<noteq> []" "\<not> ContainsAny (ToLower (uUsername ex_user)) (''|'' @ [CR, LF])"
    by code_simp+
  moreover have "uRole ex_user = RoleAdmin" by (simp add: ex_user_def)
  ultimately show ?thesis by (simp add: validateUsers_def Let_def)
qed

definition ex_checked :: checked where
  "ex_checked = \<lparr>vcCAs = [caRoot \<mapsto> ex_root, ''a'' \<mapsto> ex_ca], vcRecords = [''1'' \<mapsto> root_record, ''a'' \<mapsto> ca_record, ''b'' \<mapsto> leaf_record],
     vcCerts = [''1'' \<mapsto> ex_root, ''a'' \<mapsto> ex_ca, ''b'' \<mapsto> ex_leaf],
     vcFiles = [leaf_cert_path ''b'', ca_key_path ''a'', ca_cert_path ''a'', ca_key_path caRoot, ca_cert_path caRoot]\<rparr>"

lemma ex_serials: "serialString (Suc 0) = ''1''" "serialString 10 = ''a''" "serialString 11 = ''b''"
  by code_simp+

lemma ex_valid_serials: "ValidSerial ''1''" "ValidSerial ''a''" "ValidSerial ''b''"
  by code_simp+

lemmas ex_record_defs = check_record_def record_metadata_def record_files_def record_matches_def sole_certificate_def validateBackupKey_def
  unmarshalKey_def plain_key_def plainKeyType_def encKeyType_def ex_tree_def root_record_def ca_record_def leaf_record_def ex_root_def ex_ca_def ex_leaf_def
  noCert_def noRecord_def noTemplate_def encodeCertPEM_def
  is_ca_def caIDOf_def backupCAID_def ca_kinds ex_serials ex_valid_serials

lemma ex_root_checked: "check_record (\<lambda>_. True) ex_tree nothing_checked root_record = Inr
    \<lparr>vcCAs = [caRoot \<mapsto> ex_root], vcRecords = [''1'' \<mapsto> root_record], vcCerts = [''1'' \<mapsto> ex_root],
     vcFiles = [ca_key_path caRoot, ca_cert_path caRoot]\<rparr>"
  by (simp add: ex_record_defs nothing_checked_def)

lemma ex_ca_checked: "check_record (\<lambda>_. True) ex_tree
    \<lparr>vcCAs = [caRoot \<mapsto> ex_root], vcRecords = [''1'' \<mapsto> root_record], vcCerts = [''1'' \<mapsto> ex_root],
     vcFiles = [ca_key_path caRoot, ca_cert_path caRoot]\<rparr> ca_record = Inr
    \<lparr>vcCAs = [caRoot \<mapsto> ex_root, ''a'' \<mapsto> ex_ca], vcRecords = [''1'' \<mapsto> root_record, ''a'' \<mapsto> ca_record],
     vcCerts = [''1'' \<mapsto> ex_root, ''a'' \<mapsto> ex_ca],
     vcFiles = [ca_key_path ''a'', ca_cert_path ''a'', ca_key_path caRoot, ca_cert_path caRoot]\<rparr>"
  by (simp add: ex_record_defs)

lemma ex_leaf_checked: "check_record (\<lambda>_. True) ex_tree
    \<lparr>vcCAs = [caRoot \<mapsto> ex_root, ''a'' \<mapsto> ex_ca], vcRecords = [''1'' \<mapsto> root_record, ''a'' \<mapsto> ca_record],
     vcCerts = [''1'' \<mapsto> ex_root, ''a'' \<mapsto> ex_ca],
     vcFiles = [ca_key_path ''a'', ca_cert_path ''a'', ca_key_path caRoot, ca_cert_path caRoot]\<rparr> leaf_record = Inr ex_checked"
  by (simp add: ex_record_defs ex_checked_def)

lemma ex_records: "validateRecords (\<lambda>_. True) (bkSCEP ex_backup) True ex_tree = Inr ex_checked"
proof -
  have "ctIndex ex_tree = [root_record, ca_record, leaf_record]" by (simp add: ex_tree_def)
  moreover have "check_records (\<lambda>_. True) ex_tree [root_record, ca_record, leaf_record] nothing_checked = Inr ex_checked"
    by (simp only: check_records.simps bindR_Inr ex_root_checked ex_ca_checked ex_leaf_checked)
  moreover have "length (ctIndex ex_tree) = 3" by (simp add: ex_tree_def)
  moreover have "fst ` set (tree_files ex_tree) \<subseteq> set (vcFiles ex_checked)"
    by (simp add: tree_files_def ex_tree_def ex_checked_def)
  ultimately show ?thesis by (auto simp: validateRecords_def ex_backup_def)
qed

lemma ex_maps: "vcCAs ex_checked caRoot = Some ex_root" "vcCAs ex_checked ''a'' = Some ex_ca"
    "vcCerts ex_checked ''1'' = Some ex_root" "vcCerts ex_checked ''a'' = Some ex_ca" "vcCerts ex_checked ''b'' = Some ex_leaf"
    "vcRecords ex_checked ''a'' = Some ca_record"
  by (simp_all add: ex_checked_def caRoot_def)

lemma ex_record_fields: "rSerial root_record = ''1''" "rSerial ca_record = ''a''" "rSerial leaf_record = ''b''"
    "rKind root_record = caRoot" "rKind ca_record = caIntermediate" "rKind leaf_record = ''csr''"
    "rIssuerID ca_record = caRoot" "rIssuerID leaf_record = ''a''" "rCAID ca_record = ''a''"
  by (simp_all add: root_record_def ca_record_def leaf_record_def noRecord_def)

lemma ex_signatures: "CheckSignatureFrom ex_root ex_root" "CheckSignatureFrom ex_ca ex_root" "CheckSignatureFrom ex_leaf ex_ca"
  by (simp_all add: CheckSignatureFrom_def ex_root_def ex_ca_def ex_leaf_def noCert_def ku_defs)

lemma ex_serial_of_ca: "serialString (SerialNumber ex_ca) = ''a''"
  by (simp add: ex_ca_def ex_serials)

lemma chain_at_root: "chain_to_root v n caRoot"
  by (simp add: chain_to_root.simps)

lemma ex_chain: "chain_to_root ex_checked 64 ''a''"
  by (simp add: chain_to_root.simps [of _ _ "''a''"] numeral_eq_Suc ex_maps issuer_of_def ex_serial_of_ca ex_record_fields chain_at_root)

lemma ex_index: "ctIndex ex_tree = [root_record, ca_record, leaf_record]"
  by (simp add: ex_tree_def)

lemma ex_issuers: "\<forall>r \<in> set (ctIndex ex_tree). check_issuer ex_checked r = Inr ()"
proof -
  have "check_issuer ex_checked root_record = Inr ()"
    by (simp only: check_issuer_def ex_record_fields ex_maps option.case simp_thms if_True ex_signatures checkR_True)
  moreover have "check_issuer ex_checked ca_record = Inr ()"
    using kinds_differ by (simp add: check_issuer_def ex_record_fields ex_maps ex_signatures chain_at_root)
  moreover have "check_issuer ex_checked leaf_record = Inr ()"
    by (simp add: check_issuer_def ex_record_fields ex_maps ex_signatures ex_chain) (simp add: caRoot_def)
  ultimately show ?thesis by (subst ex_index) simp
qed

lemma ex_usage: "KeyUsage ex_ca AND scep_key_usage = scep_key_usage"
  by (simp add: ex_ca_def scep_key_usage_def ca_key_usage_def ku_defs)

lemma ex_selection: "scep_ca (bk_store ex_backup) ''a'' = Inr ex_ca"
proof -
  have "LoadCACertPEM (bk_store ex_backup) ''a'' = Some (encodeCertPEM ex_ca)" "ValidCAID (bk_store ex_backup) ''a''"
    by (simp_all add: ValidCAID_def HasCA_def bk_store_def ex_backup_def LoadCACertPEM_def ex_tree_def ca_kinds ex_valid_serials)
  moreover have "is_rsa (PublicKey ex_ca)" "rsa_bits (PublicKey ex_ca) = 2048" "IsCA ex_ca" "MaxPathLenZero ex_ca"
    by (simp_all add: ex_ca_def)
  ultimately show ?thesis using ex_usage by (simp add: scep_ca_def encodeCertPEM_def) (simp add: caRoot_def)
qed

lemma ex_parts: "bkLive ex_backup = ex_tree" "bkSCEP ex_backup = noSCEP\<lparr>stCA := ''a''\<rparr>" "bkUsers ex_backup = [ex_user]"
    "bkSessionKey ex_backup = None" "bkDeviceKey ex_backup = None" "bkTLSCert ex_backup = None" "bkTLSKey ex_backup = None"
    "bkTemplates ex_backup = []" "bkDevices ex_backup = []" "bkDefinitions ex_backup = []" "bkTrash ex_backup = []"
  by (simp_all add: ex_backup_def)

lemma ex_valid: "validateBackup (\<lambda>_. []) (\<lambda>_. True) (\<lambda>_ _. True) ex_backup = Inr ()"
proof -
  have "''a'' \<noteq> caRoot" by (simp add: caRoot_def)
  then have "validateSCEP (\<lambda>_. []) ex_backup ex_checked h = Inr ()" for h
    by (simp add: validateSCEP_def ex_parts noSCEP_def backupCAID_def ex_valid_serials ex_selection Let_def)
  moreover have "validateCASecrets ex_tree (vcCAs ex_checked) = Inr ()"
    by (simp add: validateCASecrets_def ex_tree_def ex_maps caSecretLimit_def)
  ultimately show ?thesis
    using ex_users ex_records ex_issuers
    by (simp add: validateBackup_def ex_parts validateIdentity_def validateTemplates_def validateDevices_def
        validateDefinitions_def)
qed

theorem validated_lists_witness: "has_admin (bkUsers ex_backup)"
  using validated_lists [OF ex_valid] by (simp add: ex_backup_def)

theorem restored_chains_witness:
  "\<exists>chain cs. IssuerChainPEM (bk_store ex_backup) ''a'' = Inr chain \<and> certs_of chain = Some cs \<and> verified_chain ex_leaf cs"
proof -
  have "legacy_below_root (ctIndex (bkLive ex_backup))"
    by (simp add: legacy_below_root_def ex_parts ex_tree_def ex_record_fields ca_kinds)
  moreover have "leaf_record \<in> set (index (bk_store ex_backup))" by (simp add: bk_store_def ex_backup_def ex_tree_def)
  moreover have "rKind leaf_record \<noteq> caRoot" by (simp add: ex_record_fields ca_kinds)
  moreover have "\<not> is_ca leaf_record" by (simp add: is_ca_def ex_record_fields ca_kinds)
  moreover have "certs (bk_store ex_backup) ''b'' = Some (encodeCertPEM ex_leaf)"
    by (simp add: bk_store_def ex_backup_def ex_tree_def)
  ultimately show ?thesis
    using restored_chains [OF ex_valid, of leaf_record] by (auto simp: ex_record_fields encodeCertPEM_def)
qed

end
