(* ===== verification/RestoreExample.thy ===== *)
theory RestoreExample
  imports RestoreHttp BackupExample
begin

text \<open>
  A backup file sealed with a simple authenticated cipher, the identity that a first start makes, and a restore of the example
  backup through its form. They show that the hypotheses of the backup and restore theorems can hold.
\<close>

section \<open>A sealed file\<close>

definition ex_tag :: string where "ex_tag = replicate 16 CHR ''x''"

definition ex_gcm :: aead where
  "ex_gcm = \<lparr>gcmSeal = (\<lambda>k n p a. p @ ex_tag),
     gcmOpen = (\<lambda>k n c a. let m = length c - 16 in if drop m c = ex_tag then Some (take m c) else None)\<rparr>"

lemma ex_gcm_laws: "gcm_laws ex_gcm"
proof -
  have "drop (length c - 16) c = ex_tag \<and> take (length c - 16) c = p \<longleftrightarrow> c = p @ ex_tag" for c p
  proof
    assume "drop (length c - 16) c = ex_tag \<and> take (length c - 16) c = p"
    then show "c = p @ ex_tag" by (metis append_take_drop_id)
  qed (simp add: ex_tag_def)
  then show ?thesis by (auto simp: gcm_laws_def ex_gcm_def Let_def ex_tag_def)
qed

definition ex_random :: string where "ex_random = replicate 28 CHR ''r''"

definition ex_password :: string where "ex_password = ''correct horse''"

definition ex_sealed :: string where "ex_sealed = backupMagic @ ex_random @ ''abc'' @ ex_tag"

lemma ex_password_ok: "backupPassword ex_password = Inr ()"
  by code_simp

lemma ex_seals: "sealBackup ex_gcm (Some ex_random) ''abc'' ex_password = Inr ex_sealed"
  by (simp add: sealBackup_def ex_password_ok backupLimit_def ex_sealed_def ex_gcm_def Let_def)

lemma ex_opens: "openBackup ex_gcm ex_sealed ex_password = Inr ''abc''"
  unfolding backup_opens [OF ex_gcm_laws] using ex_seals by (intro exI [of _ ex_random]) (simp add: ex_random_def)

theorem backup_opens_iff_witness: "openBackup ex_gcm ex_sealed ex_password = Inr ''abc''"
  unfolding backup_opens_iff [OF ex_gcm_laws] using ex_seals by (intro exI [of _ ex_random]) (simp add: ex_random_def)

section \<open>The identity of a first start\<close>

definition ex_randoms :: randoms where
  "ex_randoms = \<lparr>rndKey = 5, rndSerial = 77, rndSalt = ''salt'', rndNonce = ''nonce''\<rparr>"

text \<open>Key and certificate fit when the key that the file holds is the certificate's.\<close>

definition ex_fitting :: "certpem \<Rightarrow> keypem \<Rightarrow> bool" where
  "ex_fitting pem key \<longleftrightarrow>
     (case (parseCertPEM pem, unmarshalKey key []) of (Inr c, Inr k) \<Rightarrow> PublicKey c = public k | _ \<Rightarrow> False)"

lemma ex_fits: "fitting ex_fitting"
proof -
  have "unmarshalKey (marshalKey [] [] key []) [] = Inr key" for key by (simp add: unmarshal_marshal)
  moreover have "parseCertPEM (encodeCertPEM c @ rest) = Inr c" for c rest by (simp add: parseCertPEM_def encodeCertPEM_def)
  ultimately show ?thesis by (simp add: fitting_def ex_fitting_def)
qed

lemma ex_identity: "\<exists>j t. ensureServerCert (100 * day) ex_randoms [''ca.lab'', ''10.0.0.1''] (\<lparr>idCert = None, idKey = None\<rparr>, empty_store) = (Inr ''self-signed'', (j, t))"
proof -
  let ?key = "Private (ECKey ''P-256'' (rndKey ex_randoms))"
  have "issued_by_root empty_store tmpl (public ?key) = None" for tmpl
    by (simp add: issued_by_root_def HasCA_def empty_store_def)
  then have "\<exists>pem. identity_pem empty_store tmpl ?key = Inr (pem, ''self-signed'')" for tmpl
    by (simp add: identity_pem_def CreateCertificate_def)
  then obtain pem where "identity_pem empty_store (server_template (100 * day) (rndSerial ex_randoms) [''ca.lab'', ''10.0.0.1'']) ?key = Inr (pem, ''self-signed'')" by blast
  moreover have "disk empty_store = []" by (simp add: empty_store_def)
  ultimately show ?thesis by (simp add: ensureServerCert_def serverCertValid_def write_identity_def op_simps Let_def)
qed

theorem new_identity_serves_witness:
  "\<exists>j t. ensureServerCert (100 * day) ex_randoms [''ca.lab'', ''10.0.0.1''] (\<lparr>idCert = None, idKey = None\<rparr>, empty_store) = (Inr ''self-signed'', (j, t)) \<and>
     serverCertValid (100 * day) j \<and> validateIdentity ex_fitting (idCert j) (idKey j) = Inr ()"
proof -
  from ex_identity obtain j t where run: "ensureServerCert (100 * day) ex_randoms [''ca.lab'', ''10.0.0.1'']
      (\<lparr>idCert = None, idKey = None\<rparr>, empty_store) = (Inr ''self-signed'', (j, t))" by blast
  have "\<not> serverCertValid (100 * day) \<lparr>idCert = None, idKey = None\<rparr>" by (simp add: serverCertValid_def)
  moreover have "root_alone empty_store" by (simp add: root_alone_def LoadCACertPEM_def empty_store_def)
  ultimately show ?thesis using new_identity_serves [OF run _ _ ex_fits] run by blast
qed

section \<open>A restore\<close>

text \<open>The archive holds one file, the journal; the libraries read it as the example backup.\<close>

definition ex_archive :: backupArchive where
  "ex_archive = \<lparr>baFormat = 1, baApplication = ''1.0'', baCreated = 1, baFiles = [\<lparr>bfPath = ''scep.json'', bfData = ''{}''\<rparr>]\<rparr>"

definition ex_importer :: importer where
  "ex_importer = \<lparr>imParse = (\<lambda>_. Some (JObject [(''format'', JAtom ''1'')])), imDecode = (\<lambda>_. Some ex_archive),
     imContent = (\<lambda>_. Inr ex_backup), imRaw = (\<lambda>_. []), imLong = (\<lambda>_. True), imPair = (\<lambda>_ _. True)\<rparr>"

lemma ex_journal_path: "backupPath ''scep.json''"
  by code_simp

lemma ex_read: "strictJSON (imParse ex_importer) (imDecode ex_importer) data = Inr ex_archive"
  by (simp add: strictJSON_def ex_importer_def)

lemma ex_decoded: "length data \<le> backupLimit \<Longrightarrow> decode_archive ex_importer data = Inr ex_archive"
  by (simp add: decode_archive_def ex_read)
    (simp add: ex_archive_def manifest_ok_def archiveCount_def ex_journal_path backupFileLimit_def archiveTotal_def)

definition ex_session :: string where "ex_session = replicate 32 CHR ''k''"
definition ex_live_key :: string where "ex_live_key = replicate 32 CHR ''d''"

definition ex_staged :: staged where
  "ex_staged = \<lparr>sgBackup = ex_backup, sgStore = bk_store ex_backup, sgSession = ex_session, sgIdentity = \<lparr>idCert = None, idKey = None\<rparr>,
     sgDeviceKey = None\<rparr>"

lemma io_fine: "disk s = [] \<Longrightarrow> io f s = (Inr (), f s)"
  by (simp add: io_def)

lemma ex_bk: "disk (bk_store ex_backup) = []" "scep (bk_store ex_backup) = noSCEP\<lparr>stCA := ''a''\<rparr>" "devices (bk_store ex_backup) = []"
    "(bk_store ex_backup)\<lparr>disk := []\<rparr> = bk_store ex_backup"
  by (simp_all add: bk_store_def empty_store_def ex_parts)

lemma ex_journal: "stage_journal True (bk_store ex_backup) = (Inr (), bk_store ex_backup)"
proof -
  have same: "(bk_store ex_backup)\<lparr>scep := noSCEP\<lparr>stCA := ''a''\<rparr>\<rparr> = bk_store ex_backup"
    by (simp add: bk_store_def ex_parts)
  have "scep_load (bk_store ex_backup) = (Inr (noSCEP\<lparr>stCA := ''a''\<rparr>), bk_store ex_backup)"
    by (simp add: scep_load_def readE_def op_simps io_fine ex_bk)
  moreover have "scep_recover (noSCEP\<lparr>stCA := ''a''\<rparr>) (bk_store ex_backup) = (Inr (noSCEP\<lparr>stCA := ''a''\<rparr>), bk_store ex_backup)"
    by (simp add: scep_recover_def dirty_def noSCEP_def op_simps Let_def)
  moreover have "revoke_unused (noSCEP\<lparr>stCA := ''a''\<rparr>) = noSCEP\<lparr>stCA := ''a''\<rparr>"
    by (simp add: revoke_unused_def noSCEP_def)
  ultimately show ?thesis
    by (simp add: stage_journal_def op_simps scep_save_def io_fine ex_bk same)
qed

lemma ex_stages: "stageBackup ex_importer day ex_randoms [] (Some ex_session) [] False ''abc'' = Inr ex_staged"
proof -
  have "staged_content ex_importer ex_archive = Inr ex_backup"
    by (simp add: staged_content_def ex_importer_def ex_archive_def has_file_def)
  moreover have "validateBackup (imRaw ex_importer) (imLong ex_importer) (imPair ex_importer) ex_backup = Inr ()"
    using ex_valid by (simp add: ex_importer_def)
  moreover have "has_file ex_archive ''scep.json''" "baFiles ex_archive = [\<lparr>bfPath = ''scep.json'', bfData = ''{}''\<rparr>]"
    by (simp_all add: ex_archive_def has_file_def)
  ultimately show ?thesis
    by (simp add: stageBackup_def ex_decoded backupLimit_def ex_bk ex_journal io_fine thenE_def bindE_def gets_def ret_def
        stage_identity_def ex_parts ex_staged_def)
qed


section \<open>Through the forms\<close>

definition rx_crypto :: crypto where "rx_crypto = \<lparr>hmac = (\<lambda>k m. k @ m), kdf = (\<lambda>p s i n. p)\<rparr>"

definition rx_site :: site where "rx_site = \<lparr>siEnabled = False, siKey = ''k'', siStopped = False\<rparr>"

definition rx_request :: "string \<Rightarrow> web_request" where
  "rx_request path = \<lparr>wqMethod = ''POST'', wqPath = path, wqHost = ''ca.lab'',
     wqOrigin = Some \<lparr>ogScheme = ''https'', ogHost = ''ca.lab'', ogUser = False, ogPath = [], ogQuery = [], ogFragment = []\<rparr>,
     wqCookie = None, wqParses = True,
     wqPost = [(''csrf'', [sign rx_crypto ''k'' (csrf_payload ''trusted-local'')]), (''password'', [ex_password]),
       (''password_confirm'', [ex_password]), (''confirm'', [''REPLACE''])],
     wqQuery = [], wqFile = []\<rparr>"

lemma rx_values: "FormValue (rx_request p) ''password'' = ex_password" "PostGet (rx_request p) ''password'' = ex_password"
    "PostGet (rx_request p) ''password_confirm'' = ex_password" "FormValue (rx_request p) ''confirm'' = ''REPLACE''"
    "FormValue (rx_request p) ''regenerate'' = []" "FormValue (rx_request p) ''csrf'' = sign rx_crypto ''k'' (csrf_payload ''trusted-local'')"
    "wqParses (rx_request p)" "wqCookie (rx_request p) = None"
  by (simp_all add: FormValue_def FormAll_def PostGet_def values_of_def rx_request_def first_value_def)

lemma rx_csrf: "backupCSRF rx_crypto rx_site (rx_request p)"
proof -
  have "backupToken rx_crypto rx_site (rx_request p) = sign rx_crypto ''k'' (csrf_payload ''trusted-local'')"
    by (simp add: backupToken_def rx_values rx_site_def)
  moreover have "wqOrigin (rx_request p) = Some \<lparr>ogScheme = ''https'', ogHost = ''ca.lab'', ogUser = False, ogPath = [], ogQuery = [], ogFragment = []\<rparr>"
      "wqHost (rx_request p) = ''ca.lab''"
    by (simp_all add: rx_request_def)
  ultimately show ?thesis by (simp add: backupCSRF_def rx_values)
qed

lemma rx_admin: "isAdmin rx_site v" "backupExclusive rx_crypto rx_site now c True None s = (Inr (), s)"
  by (simp_all add: isAdmin_def backupExclusive_def rx_site_def)

definition rx_state :: maintenance where "rx_state = \<lparr>mtBusy = False, mtLeased = True, mtWait = None\<rparr>"

definition rx_archive :: backupArchive where
  "rx_archive = \<lparr>baFormat = 1, baApplication = ''1.0'', baCreated = 1, baFiles = []\<rparr>"

definition rx_importer :: importer where
  "rx_importer = ex_importer\<lparr>imDecode := (\<lambda>_. Some rx_archive)\<rparr>"

lemma rx_snapshot: "snapshotBackup (\<lambda>_. []) ''1.0'' 1 empty_store = (Inr rx_archive, empty_store)"
proof -
  have parts: "disk empty_store = []" "scep empty_store = noSCEP" "templates empty_store = []" "Records empty_store = []"
    by (simp_all add: empty_store_def Records_def)
  have "LoadTemplates empty_store = (Inr [], empty_store)"
    by (simp add: LoadTemplates_def readE_def io_fine parts op_simps migrateTemplates_def Let_def)
  moreover have "reconcileSCEP empty_store = (Inr (), empty_store)"
    by (simp add: reconcileSCEP_def scep_load_def readE_def scep_recover_def dirty_def op_simps io_fine parts noSCEP_def Let_def)
  ultimately show ?thesis
    by (simp add: snapshotBackup_def thenE_def bindE_def ret_def parts rx_archive_def backupRoots_def caSecretsRoot_def)
qed

lemma rx_backup: "\<exists>b. handleBackup rx_crypto ex_gcm (\<lambda>_. ''abc'') (\<lambda>_. []) ''1.0'' (Some ex_random) rx_site None 1 rx_state
     (rx_request ''/admin/backup'') empty_store = (Archive_file b, empty_store)"
  by (simp add: handleBackup_def Let_def rx_values rx_csrf rx_admin ex_password_ok rx_state_def thenE_def bindE_def rx_snapshot ex_seals)


section \<open>A restore that succeeds\<close>

definition rx_surroundings :: "nat surroundings" where
  "rx_surroundings = \<lparr>suImporter = ex_importer, suAEAD = ex_gcm, suHosts = [], suExternal = False, suLayout = (\<lambda>_. exampleN)\<rparr>"

definition rx_input :: restore_input where
  "rx_input = \<lparr>mtBusy = False, mtLeased = True, mtWait = None, riFile = Some ex_sealed, riRandoms = ex_randoms,
     riSession = Some ex_session, riDisk = []\<rparr>"

definition rx_machine :: "nat machine" where
  "rx_machine = \<lparr>mcArea = example_area, mcFaults = [], mcStopped = False, mcRestart = False\<rparr>"

lemma rx_accepted: "\<exists>files sg. accept_backup rx_surroundings day (rx_request p) rx_input ex_live_key = Inr ([], files, sg)"
proof -
  have "take (backupLimit + 128) ex_sealed = ex_sealed"
    by (simp add: ex_sealed_def ex_random_def ex_tag_def backupLimit_def)
  moreover obtain files sg where "finish_stage ex_live_key False ex_staged = Inr ([], files, sg)"
    by (simp add: finish_stage_def ex_staged_def thenE_def bindE_def io_fine ex_bk dropUndecryptableCredentials_def loadDevices_def
        readE_def gets_def ret_def Let_def)
  ultimately show ?thesis
    by (simp add: accept_backup_def rx_input_def rx_surroundings_def rx_values ex_opens ex_stages fail_with_def)
qed

lemma rx_activated: "\<exists>m. activate exampleN rx_machine = (Inr (), m)"
proof -
  have "example_area\<lparr>stage := Some exampleN\<rparr> = example_area" by (simp add: example_area_def)
  with example_success show ?thesis
    by (auto simp: activate_def rx_machine_def Let_def split: prod.splits sum.splits)
qed

lemma rx_restored: "\<exists>t m. handleRestore rx_crypto rx_surroundings rx_site None day rx_input (rx_request ''/admin/restore'')
    (empty_store\<lparr>deviceKey := ex_live_key\<rparr>, rx_machine) = (Restored [] None, t, m)"
proof -
  from rx_accepted obtain files sg where
    ok: "accept_backup rx_surroundings day (rx_request ''/admin/restore'') rx_input ex_live_key = Inr ([], files, sg)" by blast
  from rx_activated obtain m where act: "activate (suLayout rx_surroundings sg) rx_machine = (Inr (), m)"
    by (auto simp: rx_surroundings_def)
  have "mtBusy rx_input = False" "mtLeased rx_input = True" "mtWait rx_input = None" "suExternal rx_surroundings = False"
    by (simp_all add: rx_input_def rx_surroundings_def)
  with ok act show ?thesis by (simp add: handleRestore_def rx_values rx_csrf rx_admin)
qed

theorem restore_replaces_all_or_nothing_witness:
  "\<exists>t m d. handleRestore rx_crypto rx_surroundings rx_site None day rx_input (rx_request ''/admin/restore'')
      (empty_store\<lparr>deviceKey := ex_live_key\<rparr>, rx_machine) = (Restored [] None, t, m) \<and>
    recoverRestore (restarts [[Fine, Die]] (mcArea m), []) = (Inr (), (d, [])) \<and> agree (live d) exampleN \<and> mcStopped m"
proof -
  from rx_restored obtain t m where run: "handleRestore rx_crypto rx_surroundings rx_site None day rx_input (rx_request ''/admin/restore'')
      (empty_store\<lparr>deviceKey := ex_live_key\<rparr>, rx_machine) = (Restored [] None, t, m)" by blast
  have "idle (mcArea rx_machine)" by (simp add: idle_def rx_machine_def example_area_def)
  from restore_replaces_all_or_nothing [OF this run, of "[[Fine, Die]]"] run show ?thesis
    by (auto simp: rx_surroundings_def)
qed

end
