(* ===== verification/RestoredStart.thy ===== *)
theory RestoredStart
  imports Boot RestoreExample
begin

text \<open>
  A restore through the web interface and the start that follows it, taken together: what the restarted instance serves.
\<close>

section \<open>What the steps of a start and of the staging leave alone\<close>

definition core :: "store \<Rightarrow> User list \<times> CertTemplate list \<times> CertDefinition list \<times> (string \<Rightarrow> ca_dir option)" where
  "core s = (users s, templates s, definitions s, cas s)"

definition spares :: "'a sop \<Rightarrow> bool" where
  "spares m \<longleftrightarrow> (\<forall>x. preserves (\<lambda>s. core s = x) m)"

lemma spares_I: "(\<And>x. preserves (\<lambda>s. core s = x) m) \<Longrightarrow> spares m"
  by (simp add: spares_def)

lemma sparesD:
  assumes "spares m" and "m s = (x, t)"
  shows "core t = core s"
proof -
  from assms(1) have "preserves (\<lambda>u. core u = core s) m" unfolding spares_def by blast
  from preservesD [OF this refl assms(2)] show ?thesis .
qed

lemma spares_io: "(\<And>s. core (f s) = core s) \<Longrightarrow> spares (io f)"
  by (rule spares_I) (rule preserves_io, simp_all add: core_def)

lemma spares_readE: "spares (readE f)"
  by (rule spares_I) (rule preserves_readE, simp add: core_def)

lemma spares_bind: "spares m \<Longrightarrow> (\<And>x. spares (f x)) \<Longrightarrow> spares (bindE m f)"
  unfolding spares_def by (intro allI keeps) blast+

lemma spares_then: "spares m \<Longrightarrow> spares n \<Longrightarrow> spares (thenE m n)"
  unfolding spares_def by (intro allI keeps) blast+

lemma spares_ret: "spares (ret x)" "spares (throw e)" "spares (gets f)" "spares (\<lambda>s. (g s, s))"
  by (auto simp: spares_def preserves_def op_simps)

lemma spares_if: "spares m \<Longrightarrow> spares n \<Longrightarrow> spares (if b then m else n)"
  by simp

lemma spares_mapE: "(\<And>x. spares (f x)) \<Longrightarrow> spares (mapE f xs)"
  by (induction xs) (auto intro: spares_bind spares_ret)

lemmas spares_rules = spares_bind spares_then spares_ret spares_if spares_mapE spares_readE

lemma recover_spares: "spares (scep_recover st)"
  unfolding scep_recover_def pending_challenge_def pending_shared_def pending_def publish_def loadIndex_def saveIndex_def scep_save_def Let_def
  by (intro spares_rules spares_io) (simp_all add: core_def)

lemma startup_spares: "spares scep_startup"
  unfolding scep_startup_def scep_load_def by (intro spares_rules recover_spares)

lemma stage_journal_spares: "spares (stage_journal b)"
  unfolding stage_journal_def scep_load_def scep_save_def by (intro spares_rules recover_spares spares_io) (simp add: core_def)

lemma unlockSecrets_core: "core (unlockSecrets ids files s) = core s"
proof -
  have "core (unlockOne files k u) = core u" for k u
    by (auto simp: unlockOne_def keyring_put_def core_def split: option.splits sum.splits)
  then show ?thesis unfolding unlockSecrets_def by (induction ids arbitrary: s) simp_all
qed

lemma write_identity_core: "write_identity f (i, s) = (x, (j, t)) \<Longrightarrow> core t = core s"
  by (auto simp: write_identity_def core_def split: list.splits disk_fault.splits)

lemma ensureServerCert_core:
  assumes "ensureServerCert now r hosts (i, s) = (x, (j, t))"
  shows "core t = core s"
  using assms
  by (auto simp: ensureServerCert_def Let_def bindE_def thenE_def liftE_def ret_def dest!: write_identity_core
    split: if_splits sum.splits prod.splits)

lemma stage_identity_spares: "spares (stage_identity now r hosts regenerate i)"
proof -
  let ?make = "\<lambda>s. case ensureServerCert now r hosts (\<lparr>idCert = None, idKey = None\<rparr>, unlockSecrets (map caiID (CAs s)) (secrets s) s) of
      (Inl e, (_, t)) \<Rightarrow> (Inl e, t) | (Inr _, (j, t)) \<Rightarrow> (Inr j, t)"
  have "core (snd (?make s)) = core s" for s
    by (auto split: prod.splits sum.splits dest!: ensureServerCert_core simp: unlockSecrets_core)
  then have "spares ?make" by (intro spares_I preservesI) simp
  then show ?thesis unfolding stage_identity_def Let_def by (intro spares_rules spares_io) simp_all
qed

lemma stageBackup_core:
  assumes "stageBackup P now r hosts session fs regenerate data = Inr sg"
  shows "core (sgStore sg) = core (bk_store (sgBackup sg))"
proof -
  let ?w = "io (\<lambda>s. s) :: unit sop"
  from assms obtain a b where "decode_archive P data = Inr a" "staged_content P a = Inr b"
    "validateBackup (imRaw P) (imLong P) (imPair P) b = Inr ()" by (auto simp: stageBackup_def)
  with assms obtain k s1 s2 s3 s4 i s5 xs u1 u2 u3 s6 x where
    run: "?w ((bk_store b)\<lparr>disk := fs\<rparr>) = (Inr u1, s1)" "mapE (\<lambda>f. thenE ?w ?w) (baFiles a) s1 = (Inr xs, s2)"
      "stage_journal (has_file a ''scep.json'') s2 = (Inr u2, s3)" "?w s3 = (Inr u3, s4)"
      "stage_identity now r hosts regenerate \<lparr>idCert = bkTLSCert b, idKey = bkTLSKey b\<rparr> s4 = (Inr i, s5)" "?w s5 = (Inr x, s6)"
    and sg: "sg = \<lparr>sgBackup = b, sgStore = s6, sgSession = k, sgIdentity = i, sgDeviceKey = bkDeviceKey b\<rparr>"
    by (auto simp: stageBackup_def bindE_Inr_iff thenE_Inr_iff fst_Inr split: option.splits)
  have w: "spares ?w" by (rule spares_io) simp
  have "core s6 = core ((bk_store b)\<lparr>disk := fs\<rparr>)"
    using sparesD [OF w run(1)] sparesD [OF spares_mapE [OF spares_then [OF w w]] run(2)] sparesD [OF stage_journal_spares run(3)]
      sparesD [OF w run(4)] sparesD [OF stage_identity_spares run(5)] sparesD [OF w run(6)] by simp
  then show ?thesis by (simp add: sg core_def)
qed

lemma finish_stage_same:
  assumes "finish_stage live_key external sg = Inr (names, files, sg')"
  shows "sgBackup sg' = sgBackup sg \<and> sgSession sg' = sgSession sg \<and> core (sgStore sg') = core (sgStore sg) \<and>
    scep (sgStore sg') = scep (sgStore sg)"
proof -
  let ?m = "thenE (io (\<lambda>s. s)) (thenE (case sgDeviceKey sg of Some _ \<Rightarrow> ret () | None \<Rightarrow> io (\<lambda>s. s\<lparr>deviceKey := live_key\<rparr>))
            (bindE dropUndecryptableCredentials (\<lambda>names.
             bindE (readE secrets) (\<lambda>files.
             thenE (if external then io (\<lambda>s. s\<lparr>secrets := (\<lambda>_. None)\<rparr>) else ret ())
               (ret (names, files))))))"
  have core: "spares ?m"
    unfolding dropUndecryptableCredentials_def loadDevices_def saveDevices_def Let_def
    by (intro spares_rules spares_io) (auto simp: core_def intro: spares_ret spares_io split: option.split)
  have journal: "stays ?m"
    unfolding dropUndecryptableCredentials_def loadDevices_def saveDevices_def Let_def
    by (intro stays_if stays_then stays_bind stays_rules stays_io) (auto intro: stays_rules stays_io split: option.split)
  from assms obtain t where t: "?m (sgStore sg) = (Inr (names, files), t)"
    and sg': "sg' = sg\<lparr>sgStore := t, sgDeviceKey := Some (deviceKey t)\<rparr>"
    by (auto simp: finish_stage_def split: prod.splits sum.splits)
  from sparesD [OF core t] staysD [OF journal t] show ?thesis by (simp add: sg')
qed

section \<open>The restarted instance\<close>

lemma fail_with_Inr: "fail_with e r = Inr x \<longleftrightarrow> r = Inr x"
  by (cases r) (simp_all add: fail_with_def)

lemma accept_backup_staged:
  assumes "accept_backup E now r q live_key = Inr (names, files, sg)"
  shows "core (sgStore sg) = core (bk_store (sgBackup sg)) \<and> no_unused (scep (sgStore sg)) \<and> riSession q = Some (sgSession sg)"
proof -
  from assms obtain data sg' where st: "stageBackup (suImporter E) now (riRandoms q) (suHosts E) (riSession q) (riDisk q)
      (FormValue r ''regenerate'' = ''on'') data = Inr sg'" and fin: "finish_stage live_key (suExternal E) sg' = Inr (names, files, sg)"
    by (auto simp: accept_backup_def fail_with_Inr bindR_Inr_iff split: option.splits)
  from stageBackup_core [OF st] staged_no_unused [OF st] finish_stage_same [OF fin] st show ?thesis
    by (auto elim!: stageBackup_Inr)
qed

lemma startup_scep: "scep (snd (scep_startup s)) = scep s \<or> scep (snd (scep_startup s)) = mark_all (scep s)"
proof -
  obtain r1 t1 where l: "scep_load s = (r1, t1)" by fastforce
  then have same: "scep t1 = scep s" by (auto simp: scep_load_def readE_def io_def op_simps split: list.splits disk_fault.splits)
  show ?thesis
  proof (cases r1)
    case (Inl e)
    with l same show ?thesis by (simp add: scep_startup_def bindE_Inl)
  next
    case (Inr st)
    with l have st: "st = scep s" by (auto simp: scep_load_def dest: scep_file.load_Inr)
    obtain r2 t2 where rc: "scep_recover st t1 = (r2, t2)" by fastforce
    from spec [OF recover_triple [of st, unfolded triple_def], of t1] have "case scep_recover st t1 of (Inl e, t) \<Rightarrow> scep t = st \<or> scep t = mark_all st
        | (Inr st', t) \<Rightarrow> st' = mark_all st \<and> scep t = mark_all st"
      by (rule mp) (simp only: same st)
    with rc have "scep t2 = st \<or> scep t2 = mark_all st" by (cases r2) simp_all
    moreover have "snd (scep_startup s) = t2" using l Inr rc
      by (cases r2) (simp_all add: scep_startup_def bindE_def thenE_def ret_def)
    ultimately show ?thesis using st by simp
  qed
qed

lemma device_key_same: "device_key random file s = (x, t) \<Longrightarrow> core t = core s \<and> scep t = scep s"
proof -
  have "spares (device_key random file)" unfolding device_key_def liftE_def
    by (rule spares_bind) (auto intro!: spares_rules spares_io simp: core_def case_prod_beta split: sum.split)
  moreover have "stays (device_key random file)" unfolding device_key_def
    by (intro stays_bind stays_rules) (auto intro!: stays_if stays_then stays_rules stays_io simp: case_prod_beta)
  ultimately show "device_key random file s = (x, t) \<Longrightarrow> core t = core s \<and> scep t = scep s" by (blast dest: sparesD staysD)
qed

lemma NewAuth_same: "NewAuth random file b s = (x, t) \<Longrightarrow> core t = core s \<and> scep t = scep s"
proof -
  have "spares (NewAuth random file b)" unfolding NewAuth_def loadOrCreateKey_def
    by (rule spares_bind) (auto intro!: spares_rules spares_io simp: core_def split: option.split)
  moreover have "stays (NewAuth random file b)" unfolding NewAuth_def loadOrCreateKey_def
    by (rule stays_bind) (auto intro!: stays_if stays_then stays_rules stays_io split: option.split)
  ultimately show "NewAuth random file b s = (x, t) \<Longrightarrow> core t = core s \<and> scep t = scep s" by (blast dest: sparesD staysD)
qed

lemma ensureServerCert_same:
  "ensureServerCert now r hosts (i, s) = (x, (j, t)) \<Longrightarrow> core t = core s \<and> scep t = scep s"
  using ensureServerCert_core ensureServerCert_scep by blast

lemma open_data_serves:
  assumes "open_data V d = Running rn"
  shows "core (rnStore rn) = core (ddStore d)"
    and "scep (rnStore rn) = scep (ddStore d) \<or> scep (rnStore rn) = mark_all (scep (ddStore d))"
    and "ddSession d = Some k \<Longrightarrow> length k \<ge> 32 \<Longrightarrow> siKey (rnSite rn) = k"
proof -
  let ?files = "\<lambda>s. case caSecretsDir (enVar V) of None \<Rightarrow> secrets s | Some dir \<Rightarrow> enSecrets V dir"
  from assms obtain dk s1 w s3 where
    1: "thenE (io (\<lambda>s. s)) (device_key (enDeviceKey V) (ddDeviceKey d)) (ddStore d) = (Inr dk, s1)" and
    2: "NewAuth (enSessionKey V) (ddSession d) (\<not> envBool (enVar V) ''NETANCHOR_DISABLE_AUTH'')
      (unlockSecrets (map caiID (CAs s1)) (?files s1) (s1\<lparr>deviceKey := dk\<rparr>)) = (Inr w, s3)" and
    3: "core (rnStore rn) = core (snd (scep_startup s3)) \<and> scep (rnStore rn) = scep (snd (scep_startup s3))" "rnSite rn = w"
    by (auto simp: open_data_def Let_def dest!: ensureServerCert_same split: sum.splits prod.splits if_splits)
  have s1: "core s1 = core (ddStore d) \<and> scep s1 = scep (ddStore d)"
  proof -
    from 1 obtain u s0 where "io (\<lambda>s. s) (ddStore d) = (Inr u, s0)" "device_key (enDeviceKey V) (ddDeviceKey d) s0 = (Inr dk, s1)"
      by (auto simp: thenE_Inr_iff)
    moreover have "spares (io (\<lambda>s. s))" by (rule spares_io) simp
    ultimately show ?thesis using device_key_same sparesD staysD [OF stays_io_id] by metis
  qed
  have "core s3 = core s1 \<and> scep s3 = scep s1"
    using NewAuth_same [OF 2] by (simp add: unlockSecrets_core unlockSecrets_scep) (simp add: core_def)
  moreover have "core (snd (scep_startup s3)) = core s3" using sparesD [OF startup_spares, of s3] by (cases "scep_startup s3") simp
  ultimately show "core (rnStore rn) = core (ddStore d)"
    and "scep (rnStore rn) = scep (ddStore d) \<or> scep (rnStore rn) = mark_all (scep (ddStore d))"
    using 3(1) s1 startup_scep [of s3] by simp_all
  show "siKey (rnSite rn) = k" if "ddSession d = Some k" "length k \<ge> 32"
    using 2 3(2) that by (auto simp: NewAuth_def loadOrCreateKey_def bindE_Inr_iff)
qed

text \<open>How the roots of a data directory read, given how a staged backup is laid out in them.\<close>

definition reads_layout :: "(staged \<Rightarrow> string \<Rightarrow> 'c option) \<Rightarrow> ((string \<Rightarrow> 'c option) \<Rightarrow> data_dir) \<Rightarrow> bool" where
  "reads_layout layout read \<longleftrightarrow>
     (\<forall>sg roots. agree roots (layout sg) \<longrightarrow>
        read roots = \<lparr>ddStore = (sgStore sg)\<lparr>disk := []\<rparr>, ddSession = Some (sgSession sg), ddDeviceKey = sgDeviceKey sg,
          ddIdentity = sgIdentity sg\<rparr>)"


section \<open>A restart\<close>

definition rs_layout :: "staged \<Rightarrow> string \<Rightarrow> staged option" where
  "rs_layout sg root = (if root = ''cas'' then Some sg else None)"

definition rs_read :: "(string \<Rightarrow> staged option) \<Rightarrow> data_dir" where
  "rs_read roots =
     (case roots ''cas'' of
        Some sg \<Rightarrow> \<lparr>ddStore = (sgStore sg)\<lparr>disk := []\<rparr>, ddSession = Some (sgSession sg), ddDeviceKey = sgDeviceKey sg, ddIdentity = sgIdentity sg\<rparr>
      | None \<Rightarrow> \<lparr>ddStore = empty_store, ddSession = None, ddDeviceKey = None, ddIdentity = \<lparr>idCert = None, idKey = None\<rparr>\<rparr>)"

lemma rs_reads: "reads_layout rs_layout rs_read"
  by (simp add: reads_layout_def agree_def rs_layout_def rs_read_def backupRoots_def)

definition rs_area :: "staged area" where
  "rs_area = \<lparr>live = (\<lambda>_. None), old_root = (\<lambda>_. None), new_root = (\<lambda>_. None), tx_dir = False, journal = None, stage = None\<rparr>"

definition rs_machine :: "staged machine" where
  "rs_machine = \<lparr>mcArea = rs_area, mcFaults = [], mcStopped = False, mcRestart = False\<rparr>"

definition rs_surroundings :: "staged surroundings" where
  "rs_surroundings = \<lparr>suImporter = ex_importer, suAEAD = ex_gcm, suHosts = [], suExternal = False, suLayout = rs_layout\<rparr>"

definition rs_environment :: environment where
  "rs_environment = \<lparr>enVar = [''NETANCHOR_TLS'' \<mapsto> ''off''], enSecrets = (\<lambda>_ _. None), enNow = day, enRandoms = ex_randoms,
     enSessionKey = None, enDeviceKey = ex_live_key\<rparr>"

lemma rs_accepted:
  "\<exists>files sg. accept_backup rs_surroundings day (rx_request p) rx_input ex_live_key = Inr ([], files, sg) \<and>
     disk (sgStore sg) = [] \<and> sgDeviceKey sg = Some ex_live_key"
proof -
  have "take (backupLimit + 128) ex_sealed = ex_sealed"
    by (simp add: ex_sealed_def ex_random_def ex_tag_def backupLimit_def)
  moreover obtain files sg where "finish_stage ex_live_key False ex_staged = Inr ([], files, sg)" "disk (sgStore sg) = []"
      "sgDeviceKey sg = Some ex_live_key"
    by (simp add: finish_stage_def ex_staged_def thenE_def bindE_def io_fine ex_bk dropUndecryptableCredentials_def loadDevices_def
        readE_def gets_def ret_def Let_def)
  ultimately show ?thesis
    by (simp add: accept_backup_def rx_input_def rs_surroundings_def rx_values ex_opens ex_stages fail_with_def)
qed

lemma rs_activated: "\<exists>m. activate (rs_layout sg) rs_machine = (Inr (), m)"
proof -
  have "fst (activateBackup (rs_area\<lparr>stage := Some (rs_layout sg)\<rparr>, [])) = Inr ()"
    by (simp add: activateBackup_def prepare_def failing_def unprepared_def commit_def recoverRestore_def
      swap_root_def backupRoots_def rs_area_def rs_layout_def run_simps stage_to_new_def live_to_old_def new_to_live_def was_present_def)
  then show ?thesis by (auto simp: activate_def rs_machine_def Let_def split: prod.splits sum.splits)
qed

lemma rs_restored: "\<exists>t m. handleRestore rx_crypto rs_surroundings rx_site None day rx_input (rx_request ''/admin/restore'')
    (empty_store\<lparr>deviceKey := ex_live_key\<rparr>, rs_machine) = (Restored [] None, t, m)"
proof -
  from rs_accepted obtain files sg where
    ok: "accept_backup rs_surroundings day (rx_request ''/admin/restore'') rx_input ex_live_key = Inr ([], files, sg)" by blast
  from rs_activated obtain m where act: "activate (suLayout rs_surroundings sg) rs_machine = (Inr (), m)"
    by (auto simp: rs_surroundings_def)
  have "mtBusy rx_input = False" "mtLeased rx_input = True" "mtWait rx_input = None" "suExternal rs_surroundings = False"
    by (simp_all add: rx_input_def rs_surroundings_def)
  with ok act show ?thesis by (simp add: handleRestore_def rx_values rx_csrf rx_admin)
qed

text \<open>With the variables of the example a start serves whatever data without faults it reads.\<close>

lemma rs_env: "\<not> tls_enabled (enVar rs_environment)" "parseGNOIAllow (env_value (enVar rs_environment) ''NETANCHOR_GNOI_ALLOW'') = Inr []"
proof -
  have "tls_enabled [''NETANCHOR_TLS'' \<mapsto> ''off''] = False" by code_simp
  then show "\<not> tls_enabled (enVar rs_environment)" by (simp add: rs_environment_def)
  show "parseGNOIAllow (env_value (enVar rs_environment) ''NETANCHOR_GNOI_ALLOW'') = Inr []"
    by (simp add: env_value_def rs_environment_def no_allow_list)
qed

lemma rs_starts:
  assumes "disk (ddStore d) = []" and "ddSession d = Some ex_session" and "ddDeviceKey d = Some ex_live_key"
  shows "\<exists>rn. open_data rs_environment d = Running rn"
proof -
  have "loadOrCreateDeviceKey random (Some ex_live_key) = Inr (ex_live_key, ex_live_key)" for random
    by (simp add: loadOrCreateDeviceKey_def ex_live_key_def deviceKeySize_def)
  moreover have "length ex_session \<ge> 32" by (simp add: ex_session_def)
  ultimately show ?thesis using assms rs_env
    by (simp add: open_data_def Let_def thenE_def bindE_def io_fine device_key_def liftE_def NewAuth_def loadOrCreateKey_def ret_def)
qed


end
