(* ===== verification/Forms.thy ===== *)
theory Forms
  imports DefinitionHttp Downloads Tools
begin

text \<open>
  Pages that only show something: the list and the forms of certificate definitions, the result of the tools, and the forms before a
  deletion, a change of a template and a sign-in. A page is its content here.
\<close>

section \<open>Definitions\<close>

text \<open>What a page reads: the definitions by name, with the error of reading them.\<close>

definition handleDefinitions :: "store \<Rightarrow> (CertDefinition list \<times> error) \<times> store" where
  "handleDefinitions s =
     (case ListDefinitions s of
        (Inl e, t) \<Rightarrow> (([], e), t)
      | (Inr ds, t) \<Rightarrow> ((ds, []), t))"

definition blank_form :: definitionForm where
  "blank_form = \<lparr>definitionForm.dfID = [], definitionForm.dfName = [], dfCAID = [], dfProfile = [], dfCountry = [], dfState = [], dfOrganization = [], dfCity = [],
     dfOU = [], dfValidDays = ''365'', dfCertID = [], dfCommonName = ''{{ fqdn }}'', dfDNSSANs = ''{{ fqdn }}'', dfIPSANs = ''{{ ip }}''\<rparr>"

definition edit_form :: "CertDefinition \<Rightarrow> definitionForm" where
  "edit_form d = \<lparr>definitionForm.dfID = fID d, definitionForm.dfName = fName d, dfCAID = fCAID d, dfProfile = fProfile d, dfCountry = fCountry d, dfState = fState d,
     dfOrganization = fOrganization d, dfCity = fCity d, dfOU = fOU d, dfValidDays = show_int (fValidDays d), dfCertID = fCertID d,
     dfCommonName = fCommonName d, dfDNSSANs = Join (fDNSSANs d) '', '', dfIPSANs = Join (fIPSANs d) '', ''\<rparr>"

datatype 'a form_page = FormStatus nat | FormError error | FormShown 'a

definition handleDefinitionNew :: "site \<Rightarrow> User option \<Rightarrow> definitionForm form_page" where
  "handleDefinitionNew w v = (if \<not> isAdmin w v then FormStatus 403 else FormShown blank_form)"

definition handleDefinitionEdit :: "site \<Rightarrow> User option \<Rightarrow> string \<Rightarrow> store \<Rightarrow> definitionForm form_page \<times> store" where
  "handleDefinitionEdit w v k s =
     (if \<not> isAdmin w v then (FormStatus 403, s)
      else case GetDefinition k s of
          (Inl e, t) \<Rightarrow> (FormError e, t)
        | (Inr None, t) \<Rightarrow> (FormStatus 404, t)
        | (Inr (Some d), t) \<Rightarrow> (FormShown (edit_form d), t))"

section \<open>The result of the tools\<close>

record toolItemView =
  tvKind :: string
  tvLabel :: string
  tvCert :: "CertInfo option"
  tvCSRCommonName :: string
  tvCSRDNS :: "string list"
  tvCSRIP :: "addr list"
  tvCSREmail :: "string list"
  tvCSRURI :: "string list"
  tvCSRKey :: string
  tvValidity :: string
  tvKeyType :: string
  tvMatch :: int
  tvMatchLabel :: string

definition validity_label :: "time \<Rightarrow> xcert \<Rightarrow> string" where
  "validity_label now c =
     (if now < NotBefore c then ''Not yet valid'' else if now > NotAfter c then ''Expired'' else ''Currently valid'')"

definition tool_item_view :: "libraries \<Rightarrow> time \<Rightarrow> toolItem \<Rightarrow> toolItemView" where
  "tool_item_view lib now i =
     (let of_csr = (\<lambda>f. case tiCSR i of None \<Rightarrow> [] | Some c \<Rightarrow> f c) in
      \<lparr>tvKind = tiKind i, tvLabel = tiLabel i, tvCert = map_option (describeCert lib now) (tiCert i),
        tvCSRCommonName = (case tiCSR i of None \<Rightarrow> [] | Some c \<Rightarrow> CommonName (csrSubject c)),
        tvCSRDNS = of_csr csrDNS, tvCSRIP = (case tiCSR i of None \<Rightarrow> [] | Some c \<Rightarrow> csrIPs c),
        tvCSREmail = of_csr csrEmails, tvCSRURI = of_csr csrURIs,
        tvCSRKey = (case tiCSR i of None \<Rightarrow> [] | Some c \<Rightarrow> describePublicKey (csrPublicKey c)),
        tvValidity = (case tiCert i of None \<Rightarrow> [] | Some c \<Rightarrow> validity_label now c),
        tvKeyType = (case tiKey i of None \<Rightarrow> [] | Some k \<Rightarrow> describePublicKey (public k)),
        tvMatch = tiMatch i, tvMatchLabel = (if tiMatch i \<ge> 0 then show_int (tiMatch i + 1) else [])\<rparr>)"

text \<open>The items, the warnings, the token and whether downloads of keys are offered.\<close>

definition show_result ::
  "libraries \<Rightarrow> site \<Rightarrow> User option \<Rightarrow> time \<Rightarrow> 'x web_request_scheme \<Rightarrow> string \<Rightarrow> cache \<Rightarrow>
     (toolItemView list \<times> string list \<times> string \<times> bool) form_page \<times> cache" where
  "show_result lib w v now r k cs =
     (case handleToolsResult v now r k cs of
        (None, ds) \<Rightarrow> (FormStatus 404, ds)
      | (Some e, ds) \<Rightarrow> (FormShown (map (tool_item_view lib now) (teItems e), teWarnings e, k, isAdmin w v), ds))"

section \<open>Other forms\<close>

definition handleCertDeleteForm :: "store \<Rightarrow> string \<Rightarrow> CertRecord form_page" where
  "handleCertDeleteForm s serial =
     (if \<not> ValidSerial serial then FormStatus 400
      else case RecordBySerial s serial of
          None \<Rightarrow> FormStatus 404
        | Some r \<Rightarrow> if rKind r \<noteq> ''issued'' \<and> rKind r \<noteq> ''csr'' then FormStatus 404 else FormShown r)"

definition handleTemplateEditForm :: "string \<Rightarrow> store \<Rightarrow> CertTemplate form_page \<times> store" where
  "handleTemplateEditForm name s =
     (case GetTemplate name s of
        (None, t) \<Rightarrow> (FormStatus 404, t)
      | (Some tmpl, t) \<Rightarrow> (if tBuiltin tmpl then FormStatus 404 else FormShown tmpl, t))"

definition handleLoginForm :: "crypto \<Rightarrow> site \<Rightarrow> time \<Rightarrow> string option \<Rightarrow> store \<Rightarrow> page \<times> store" where
  "handleLoginForm C w now cookie s =
     (case currentUser C (siKey w) now cookie s of
        (Some _, t) \<Rightarrow> (To ''/'', t)
      | (None, t) \<Rightarrow> (Shown ''login'' [], t))"

definition handleSetupForm :: "store \<Rightarrow> page \<times> store" where
  "handleSetupForm s = (case HasUsers s of (b, t) \<Rightarrow> (if b then To ''/login'' else Shown ''setup'' [], t))"

section \<open>A form sent back unchanged\<close>

definition clean_entry :: "string \<Rightarrow> bool" where
  "clean_entry v \<longleftrightarrow> v \<noteq> [] \<and> CHR '','' \<notin> set v \<and> TrimSpace v = v"

lemma TrimSpace_subset: "set (TrimSpace s) \<subseteq> set s"
  by (auto simp: TrimSpace_def TrimRight_def TrimLeft_def dest!: set_dropWhileD)

lemma splitSANList_clean: "v \<in> set (splitSANList s) \<Longrightarrow> clean_entry v"
proof -
  assume "v \<in> set (splitSANList s)"
  then obtain w where w: "w \<in> set (Split CHR '','' s)" "v = TrimSpace w" "v \<noteq> []" by (auto simp: splitSANList_def)
  from Split_no_sep [OF w(1)] have "CHR '','' \<notin> set v" unfolding w(2) by (rule contra_subsetD [OF TrimSpace_subset, rotated])
  with w show ?thesis by (simp add: clean_entry_def)
qed

lemma Split_listed: "vs \<noteq> [] \<Longrightarrow> \<forall>v \<in> set vs. CHR '','' \<notin> set v \<Longrightarrow>
    Split CHR '','' (Join vs '', '') = hd vs # map ((#) CHR '' '') (tl vs)"
  by (induction vs rule: induct_list012) (simp_all add: Split_single Split_append)

lemma TrimSpace_blank: "TrimSpace (CHR '' '' # v) = TrimSpace v"
  by (simp add: TrimSpace_def TrimLeft_def is_space_def ascii_def)

lemma splitSANList_Join:
  assumes "\<forall>v \<in> set vs. clean_entry v"
  shows "splitSANList (Join vs '', '') = vs"
proof (cases vs)
  case (Cons v us)
  have "map TrimSpace (Split CHR '','' (Join vs '', '')) = vs"
    using assms Cons Split_listed [of vs] by (auto simp: clean_entry_def TrimSpace_blank intro: map_idI)
  moreover have "filter (\<lambda>v. v \<noteq> []) vs = vs" using assms by (auto simp: clean_entry_def intro: filter_True)
  ultimately show ?thesis by (simp add: splitSANList_def)
qed (simp add: splitSANList_def TrimSpace_def TrimLeft_def TrimRight_def)

text \<open>What the form needs of a definition to give it back, which every definition that came from a form has.\<close>

definition editable :: "CertDefinition \<Rightarrow> bool" where
  "editable d \<longleftrightarrow> well_formed d \<and> (\<forall>v \<in> set (fDNSSANs d @ fIPSANs d). clean_entry v) \<and> fValidDays d < 2 ^ 63"

lemma ParseInt_less: "ParseInt s = Some n \<Longrightarrow> n < 2 ^ 63"
  by (simp add: ParseInt_def Let_def split: prod.splits option.splits if_splits)

lemma definitionFromForm_editable: "yields editable (definitionFromForm now f)"
  unfolding definitionFromForm_def Let_def
  by (intro yields_if yields_throw yields_then_lift yields_then yields_bind yields_option yields_ret)
    (auto simp: editable_def well_formed_def dest: splitSANList_clean ParseInt_less)

text \<open>
  Opening a definition for editing and sending the form back as it is gives the same definition, when it is accepted at all: the
  names survive the way through the text fields.
\<close>

lemma edit_unchanged:
  assumes "editable d" and "definitionFromForm now (edit_form d) s = (Inr d', t)"
  shows "d' = d\<lparr>fProfile := fProfile d', fCreated := 0, fUpdated := 0\<rparr>"
proof -
  from assms(1) have wf: "well_formed d" and clean: "\<forall>v \<in> set (fDNSSANs d @ fIPSANs d). clean_entry v" and "fValidDays d < 2 ^ 63"
    by (simp_all add: editable_def)
  then have days: "ParseInt (show_int (fValidDays d)) = Some (fValidDays d)"
    using ParseInt_Itoa [of "nat (fValidDays d)"] by (simp add: well_formed_def show_int_def)
  have lists: "splitSANList (Join (fDNSSANs d) '', '') = fDNSSANs d" "splitSANList (Join (fIPSANs d) '', '') = fIPSANs d"
    using clean by (simp_all add: splitSANList_Join)
  have empty: "fCertID d \<noteq> []" "fExtraSANs d = []" "fCNSource d = []" using wf by (auto simp: well_formed_def validCertID_def)
  from assms(2) show ?thesis
    by (auto simp: definitionFromForm_def edit_form_def Let_def lists days empty bindE_Inr_iff thenE_Inr_iff split: if_splits option.splits)
qed

corollary accepted_form_reopens:
  assumes "definitionFromForm now f s = (Inr d, t)" and "definitionFromForm later (edit_form d) s' = (Inr d', t')"
  shows "d' = d\<lparr>fProfile := fProfile d'\<rparr>"
proof -
  from assms(1) have "editable d" using definitionFromForm_editable [of now f] by (auto simp: yields_def)
  moreover have "fCreated d = 0" "fUpdated d = 0" using assms(1)
    by (auto simp: definitionFromForm_def Let_def bindE_Inr_iff thenE_Inr_iff split: if_splits option.splits)
  ultimately have "d\<lparr>fProfile := fProfile d', fCreated := 0, fUpdated := 0\<rparr> = d\<lparr>fProfile := fProfile d'\<rparr>" by (cases d) simp
  with edit_unchanged [OF \<open>editable d\<close> assms(2)] show ?thesis by simp
qed

end
