(* ===== verification/DevicePages.thy ===== *)
theory DevicePages
  imports Forms GnoiAdmin Views
begin

text \<open>
  What the pages of devices and the push page show (\<open>device_http.go\<close>, \<open>device_check.go\<close>, \<open>gnoi_admin.go\<close>), and the envelope that all
  pages have (\<open>base\<close> of \<open>server.go\<close>). The handlers in the other theories keep of a page its name and its message.
\<close>

section \<open>The envelope\<close>

record pageData =
  pdHasCA :: bool
  pdHasIntermediate :: bool
  pdAuthEnabled :: bool
  pdAuthenticated :: bool
  pdUsername :: string
  pdRole :: string
  pdIsAdmin :: bool

definition base :: "site \<Rightarrow> User option \<Rightarrow> store \<Rightarrow> pageData" where
  "base w v s =
     (let d = \<lparr>pdHasCA = HasCA s caRoot, pdHasIntermediate = hasIntermediate s, pdAuthEnabled = siEnabled w, pdAuthenticated = False,
                pdUsername = [], pdRole = [], pdIsAdmin = False\<rparr> in
      if \<not> siEnabled w then d\<lparr>pdAuthenticated := True, pdIsAdmin := True\<rparr>
      else case v of
          None \<Rightarrow> d
        | Some u \<Rightarrow> d\<lparr>pdAuthenticated := True, pdUsername := uUsername u, pdRole := uRole u, pdIsAdmin := (uRole u = RoleAdmin)\<rparr>)"

text \<open>What a page offers is what the handlers behind it allow.\<close>

lemma base_admin: "pdIsAdmin (base w v s) \<longleftrightarrow> isAdmin w v"
  by (simp add: base_def isAdmin_def Let_def split: option.splits)

section \<open>Devices\<close>

definition new_device_form :: deviceForm where
  "new_device_form =
     \<lparr>dfID = [], dfName = [], dfFQDN = [], dfManagementIP = [], dfPort = show_int deviceDefaultPort, dfPlatform = devicePlatformIOSXE,
      dfSite = [], dfTags = [], dfNotes = [], dfModel = [], dfSerial = [], dfFingerprint = [], dfProbedTarget = [],
      dfProbedFingerprint = [], dfUsername = [], dfRemoveCreds = False, dfPassword = []\<rparr>"

text \<open>The form of a stored device, with the error of opening its credentials. The password stays in the store.\<close>

definition edit_device_form :: "store \<Rightarrow> Device \<Rightarrow> deviceForm \<times> error" where
  "edit_device_form s d =
     (let (user, e) = (case dCredentials d of
            None \<Rightarrow> ([], [])
          | Some blob \<Rightarrow> (case openCredentials s blob of Inl e \<Rightarrow> ([], e) | Inr c \<Rightarrow> (dcUsername c, []))) in
      (\<lparr>dfID = dID d, dfName = dName d, dfFQDN = dFQDN d, dfManagementIP = dManagementIP d, dfPort = show_int (dPort d),
        dfPlatform = dPlatform d, dfSite = dSite d, dfTags = Join (dTags d) '', '', dfNotes = dNotes d, dfModel = dModel d,
        dfSerial = dSerial d, dfFingerprint = dPin d, dfProbedTarget = [], dfProbedFingerprint = [], dfUsername = user,
        dfRemoveCreds = False, dfPassword = []\<rparr>, e))"

text \<open>\<open>fillDeviceForm\<close>: whether the form edits a device, and whether this has credentials.\<close>

definition fillDeviceForm :: "deviceForm \<Rightarrow> (bool \<times> bool) sop" where
  "fillDeviceForm f =
     (if dfID f = [] then ret (False, False)
      else bindE (GetDevice (dfID f)) (\<lambda>d. case d of
          None \<Rightarrow> throw ''device not found''
        | Some dev \<Rightarrow> ret (True, dCredentials dev \<noteq> None)))"

record deviceCheckResult =
  ckOutcome :: string
  ckClass :: string
  ckRefresh :: bool

record deviceDetailPage =
  ddStored :: bool
  ddSnapshot :: "deviceCertRow list"
  ddServed :: "deviceCertRow option"
  ddTaken :: time
  ddCheck :: "deviceCheckResult option"
  ddFlash :: "string option"

text \<open>A check that went well is a message, any other stays on the page.\<close>

definition device_page :: "'d gear \<Rightarrow> time \<Rightarrow> Device \<Rightarrow> deviceCheckResult option \<Rightarrow> deviceDetailPage" where
  "device_page G now dev check =
     (let (rows, served) = deviceSnapshotView G (dSnapshot dev) now;
          (flash, shown) = (case check of
              None \<Rightarrow> (None, None)
            | Some c \<Rightarrow> if ckClass c = ''ok'' then (Some (ckOutcome c), None) else (None, Some c)) in
      \<lparr>ddStored = (dCredentials dev \<noteq> None), ddSnapshot = rows, ddServed = served,
       ddTaken = (case dSnapshot dev of None \<Rightarrow> 0 | Some sn \<Rightarrow> snTaken sn), ddCheck = shown, ddFlash = flash\<rparr>)"

section \<open>The push page\<close>

record pushDeviceRow =
  pwID :: string
  pwName :: string
  pwSite :: string
  pwAddress :: string
  pwPinned :: bool
  pwTags :: string
  pwStored :: bool
  pwSelected :: bool

definition push_row :: "string set \<Rightarrow> Device \<Rightarrow> pushDeviceRow" where
  "push_row selected d =
     \<lparr>pwID = dID d, pwName = dName d, pwSite = dSite d, pwAddress = JoinHostPort (dManagementIP d) (show_int (dPort d)),
      pwPinned = (dPin d \<noteq> []), pwTags = Join (dTags d) '', '', pwStored = (dCredentials d \<noteq> None), pwSelected = (dID d \<in> selected)\<rparr>"

record pushPage =
  ppDefs :: "CertDefinition list"
  ppNeedPass :: "string \<Rightarrow> bool"
  ppUnlocked :: "string \<Rightarrow> bool"
  ppDevices :: "pushDeviceRow list"
  ppDefinition :: string
  ppUsername :: string
  ppNeedCreds :: bool

text \<open>The CA of a definition as the menu of CAs shows it; the last one counts.\<close>

definition definition_ca :: "store \<Rightarrow> CertDefinition \<Rightarrow> caOptionData option" where
  "definition_ca s d = map_of (rev (map (\<lambda>c. (coCAID c, c)) (getIssueCAs s))) (fCAID d)"

definition of_definition :: "(CertDefinition \<Rightarrow> bool) \<Rightarrow> CertDefinition list \<Rightarrow> string \<Rightarrow> bool" where
  "of_definition P ds k \<longleftrightarrow> (case map_of (rev (map (\<lambda>d. (fID d, P d)) ds)) k of None \<Rightarrow> False | Some b \<Rightarrow> b)"

text \<open>Lists that cannot be read are empty, and the error of the later one is shown.\<close>

definition or_empty :: "'a list sop \<Rightarrow> store \<Rightarrow> 'a list \<times> error option \<times> store" where
  "or_empty m s = (case m s of (Inl e, t) \<Rightarrow> ([], Some e, t) | (Inr xs, t) \<Rightarrow> (xs, None, t))"

definition push_page :: "web_request \<Rightarrow> store \<Rightarrow> pushPage \<times> error \<times> store" where
  "push_page r s =
     (let (defs, e, t) = or_empty ListDefinitions s; (devs, e', u) = or_empty ListDevices t in
      (\<lparr>ppDefs = defs,
        ppNeedPass = of_definition (\<lambda>d. case definition_ca u d of None \<Rightarrow> False | Some c \<Rightarrow> coLocked c) defs,
        ppUnlocked = of_definition (\<lambda>d. case definition_ca u d of None \<Rightarrow> False | Some c \<Rightarrow> coKeyEnc c \<and> \<not> coLocked c) defs,
        ppDevices = map (push_row (set (FormAll r ''device''))) devs,
        ppDefinition = FormValue r ''definition'', ppUsername = TrimSpace (FormValue r ''username''),
        ppNeedCreds = list_ex (\<lambda>d. dCredentials d = None) devs\<rparr>,
       (case e' of Some m \<Rightarrow> m | None \<Rightarrow> case e of Some m \<Rightarrow> m | None \<Rightarrow> []), u))"

section \<open>A device sent back unchanged\<close>

text \<open>What the form needs of a device to give it back; an address is stored as it is printed.\<close>

definition editable_device :: "Device \<Rightarrow> bool" where
  "editable_device d \<longleftrightarrow> pinned d \<and> dID d \<noteq> [] \<and> (\<forall>t \<in> set (dTags d). clean_entry t) \<and>
     (\<exists>ip. ParseIP (dManagementIP d) = Some ip \<and> addr_string ip = dManagementIP d)"

lemma parsePort_shown:
  assumes "1 \<le> n" and "n \<le> 65535"
  shows "parsePort (show_int n) = Inr n"
proof -
  have digits: "list_all is_digit (show_int n)" "show_int n \<noteq> []" using assms by (simp_all add: show_int_def Itoa_digits)
  then have "TrimSpace (show_int n) = show_int n"
    by (intro TrimSpace_nospace) (fastforce simp: list_all_iff char_defs)
  moreover have "ParseInt (show_int n) = Some n" using assms ParseInt_Itoa [of "nat n"] by (simp add: show_int_def)
  ultimately show ?thesis using digits assms by (simp add: parsePort_def)
qed

text \<open>
  Opening a device for editing and sending the form back as it is, the password left blank, is accepted and changes nothing, also
  when its credentials cannot be opened. The pin needs no new confirmation.
\<close>

lemma edit_device_unchanged:
  assumes "editable_device d"
  shows "form_device s nonce (fst (edit_device_form s d)) d = Inr d"
proof -
  from assms obtain ip where ip: "ParseIP (dManagementIP d) = Some ip" "addr_string ip = dManagementIP d"
    and p: "pinned d" "dID d \<noteq> []" and tags: "\<forall>t \<in> set (dTags d). clean_entry t" by (auto simp: editable_device_def)
  have port: "parsePort (show_int (dPort d)) = Inr (dPort d)" using p by (simp add: pinned_def parsePort_shown)
  have list: "filter (\<lambda>t. t \<noteq> []) (map TrimSpace (Split CHR '','' (Join (dTags d) '', ''))) = dTags d"
    using splitSANList_Join [OF tags] by (simp add: splitSANList_def)
  let ?f = "fst (edit_device_form s d)"
  have pin: "form_pin ?f (dPin d) (dPinAddress d) (JoinHostPort (addr_string ip) (show_int (dPort d))) = Inr (dPin d, dPinAddress d)"
    using p ip by (simp add: form_pin_def edit_device_form_def Let_def pinned_def check_target_def split_beta)
  have creds: "deviceCredentials s nonce (dCredentials d) ?f = Inr (dCredentials d)"
    by (simp add: deviceCredentials_def edit_device_form_def Let_def split_beta split: option.splits sum.splits)
  show ?thesis
    using ip port list pin creds p by (simp add: form_device_def edit_device_form_def Let_def split_beta bindR_def pinned_def)
qed

end
