(* ===== verification/Durable.thy ===== *)
theory Durable
  imports Restore Model
begin

text \<open>
  \<open>durableWrite\<close> of \<open>scep_store.go\<close>, which writes the index, the journal and the other files that must survive: the text goes to a
  temporary file, which is synced and then renamed. Here a file has its contents apart from its names in the directory, either may
  be lost at a power failure until it is synced, and every call may fail before or after its effect or be the point where the
  process dies. The other theories take a write for one step; the refinement at the end justifies this.
\<close>

section \<open>A directory\<close>

text \<open>
  The names lead to files. \<open>fdPast\<close> holds the earlier versions of the directory that a power failure may bring back, and the
  contents of a file that is not \<open>fdSafe\<close> may come back as anything.
\<close>

record folder =
  fdNames :: "string \<Rightarrow> nat option"
  fdPast :: "(string \<Rightarrow> nat option) list"
  fdData :: "nat \<Rightarrow> string"
  fdSafe :: "nat \<Rightarrow> bool"
  fdFresh :: nat

definition contents :: "folder \<Rightarrow> string \<Rightarrow> string option" where
  "contents d p = map_option (fdData d) (fdNames d p)"

definition power_loss :: "nat \<Rightarrow> (nat \<Rightarrow> string) \<Rightarrow> folder \<Rightarrow> folder" where
  "power_loss k junk d =
     d\<lparr>fdNames := (fdNames d # fdPast d) ! k, fdPast := [], fdData := (\<lambda>i. if fdSafe d i then fdData d i else junk i),
       fdSafe := (\<lambda>_. True)\<rparr>"

datatype mishap = Smooth | Refused | Late | Killed | KilledLate | Cut nat bool

type_synonym 'a fop = "(folder \<times> mishap list, failure, 'a) opx"

text \<open>One call, with the effect of a write that stops after some bytes.\<close>

definition fcall :: "(folder \<Rightarrow> folder) \<Rightarrow> (nat \<Rightarrow> folder \<Rightarrow> folder) \<Rightarrow> unit fop" where
  "fcall f part = (\<lambda>(d, ms). case ms of
       [] \<Rightarrow> (Inr (), (f d, []))
     | Smooth # ms \<Rightarrow> (Inr (), (f d, ms))
     | Refused # ms \<Rightarrow> (Inl IOError, (d, ms))
     | Late # ms \<Rightarrow> (Inl IOError, (f d, ms))
     | Killed # ms \<Rightarrow> (Inl Crashed, (d, ms))
     | KilledLate # ms \<Rightarrow> (Inl Crashed, (f d, ms))
     | Cut k died # ms \<Rightarrow> (Inl (if died then Crashed else IOError), (part k d, ms)))"

definition uncut :: "(folder \<Rightarrow> folder) \<Rightarrow> unit fop" where
  "uncut f = fcall f (\<lambda>_ d. d)"

definition fails_if :: "(folder \<Rightarrow> bool) \<Rightarrow> 'a fop \<Rightarrow> 'a fop" where
  "fails_if b m = (\<lambda>s. if b (fst s) then (Inl IOError, s) else m s)"

definition rebind :: "((string \<Rightarrow> nat option) \<Rightarrow> string \<Rightarrow> nat option) \<Rightarrow> folder \<Rightarrow> folder" where
  "rebind f d = d\<lparr>fdNames := f (fdNames d), fdPast := fdNames d # fdPast d\<rparr>"

definition new_file :: "string \<Rightarrow> folder \<Rightarrow> folder" where
  "new_file p d = (rebind (\<lambda>v. v(p \<mapsto> fdFresh d)) d)\<lparr>fdData := (fdData d)(fdFresh d := []),
     fdSafe := (fdSafe d)(fdFresh d := False), fdFresh := fdFresh d + 1\<rparr>"

definition append_to :: "nat \<Rightarrow> string \<Rightarrow> folder \<Rightarrow> folder" where
  "append_to i b d = d\<lparr>fdData := (fdData d)(i := fdData d i @ b), fdSafe := (fdSafe d)(i := False)\<rparr>"

definition CreateTemp :: "string \<Rightarrow> nat fop" where
  "CreateTemp p = fails_if (\<lambda>d. fdNames d p \<noteq> None)
     (bindE (gets (\<lambda>s. fdFresh (fst s))) (\<lambda>i. thenE (uncut (new_file p)) (ret i)))"

definition WriteTo :: "nat \<Rightarrow> string \<Rightarrow> unit fop" where
  "WriteTo i b = fcall (append_to i b) (\<lambda>k. append_to i (take k b))"

definition SyncFile :: "nat \<Rightarrow> unit fop" where
  "SyncFile i = uncut (\<lambda>d. d\<lparr>fdSafe := (fdSafe d)(i := True)\<rparr>)"

definition RenameTo :: "string \<Rightarrow> string \<Rightarrow> unit fop" where
  "RenameTo p q = fails_if (\<lambda>d. fdNames d p = None) (uncut (rebind (\<lambda>v. v(q := v p, p := None))))"

definition RemoveName :: "string \<Rightarrow> unit fop" where
  "RemoveName p = fails_if (\<lambda>d. fdNames d p = None) (uncut (rebind (\<lambda>v. v(p := None))))"

definition SyncFolder :: "unit fop" where
  "SyncFolder = uncut (\<lambda>d. d\<lparr>fdPast := []\<rparr>)"

text \<open>A call without an effect on the directory: opening it, closing a file.\<close>

definition quiet :: "unit fop" where
  "quiet = uncut (\<lambda>d. d)"

section \<open>Writing a file\<close>

text \<open>A deferred call: it runs however the body returns, unless the process died, and its error is dropped.\<close>

definition deferring :: "unit fop \<Rightarrow> 'a fop \<Rightarrow> 'a fop" where
  "deferring u m = (\<lambda>s. case m s of
       (Inl Crashed, t) \<Rightarrow> (Inl Crashed, t)
     | (r, t) \<Rightarrow> (case u t of (Inl Crashed, v) \<Rightarrow> (Inl Crashed, v) | (_, v) \<Rightarrow> (r, v)))"

text \<open>A call that runs whether the one before failed or not; the first error counts.\<close>

definition finally_do :: "unit fop \<Rightarrow> unit fop \<Rightarrow> unit fop" where
  "finally_do u m = (\<lambda>s. case m s of
       (Inl Crashed, t) \<Rightarrow> (Inl Crashed, t)
     | (Inl e, t) \<Rightarrow> (case u t of (Inl Crashed, v) \<Rightarrow> (Inl Crashed, v) | (_, v) \<Rightarrow> (Inl e, v))
     | (Inr _, t) \<Rightarrow> u t)"

definition durableWrite :: "string \<Rightarrow> string \<Rightarrow> string \<Rightarrow> unit fop" where
  "durableWrite tmp path b =
     bindE (CreateTemp tmp) (\<lambda>i.
       deferring (RemoveName tmp)
         (thenE (finally_do quiet (thenE (WriteTo i b) (SyncFile i)))
         (thenE (RenameTo tmp path)
         (thenE quiet
           (deferring quiet SyncFolder)))))"

section \<open>Rules\<close>

lemma holds_fcall:
  assumes "\<And>d. P d \<Longrightarrow> Q (f d)" and "\<And>d. P d \<Longrightarrow> E d" and "\<And>d. P d \<Longrightarrow> E (f d)" and "\<And>k d. P d \<Longrightarrow> E (part k d)"
  shows "holds P (fcall f part) (\<lambda>_. Q) E"
  using assms by (auto simp: holds_def triple_def fcall_def split: list.splits mishap.splits)

lemma holds_uncut:
  "(\<And>d. P d \<Longrightarrow> Q (f d)) \<Longrightarrow> (\<And>d. P d \<Longrightarrow> E d) \<Longrightarrow> (\<And>d. P d \<Longrightarrow> E (f d)) \<Longrightarrow> holds P (uncut f) (\<lambda>_. Q) E"
  unfolding uncut_def by (rule holds_fcall)

lemma holds_quiet: "(\<And>d. P d \<Longrightarrow> E d) \<Longrightarrow> holds P quiet (\<lambda>_. P) E"
  unfolding quiet_def by (rule holds_uncut)

lemma holds_fails_if:
  "holds (\<lambda>d. P d \<and> \<not> b d) m Q E \<Longrightarrow> (\<And>d. P d \<Longrightarrow> E d) \<Longrightarrow> holds P (fails_if b m) Q E"
  by (simp add: holds_def triple_def fails_if_def)

lemma holds_deferring:
  assumes "holds P m (\<lambda>_. Q) E" and "holds Q u (\<lambda>_. Q) Q" and "holds E u (\<lambda>_. E) E" and "\<And>d. Q d \<Longrightarrow> E d"
  shows "holds P (deferring u m) (\<lambda>_. Q) E"
  using assms unfolding holds_def triple_def deferring_def
  by (fastforce split: prod.splits sum.splits failure.splits)

lemma holds_finally_do:
  assumes "holds P m (\<lambda>_. Q) E" and "holds Q u (\<lambda>_. R) E" and "holds E u (\<lambda>_. E) E"
  shows "holds P (finally_do u m) (\<lambda>_. R) E"
  using assms unfolding holds_def triple_def finally_do_def
  by (fastforce split: prod.splits sum.splits failure.splits)

lemma holds_fact: "(b \<Longrightarrow> holds P m Q E) \<Longrightarrow> holds (\<lambda>d. b \<and> P d) m Q E"
  by (auto simp: holds_def triple_def)

section \<open>What a write leaves behind\<close>

abbreviation versions :: "folder \<Rightarrow> (string \<Rightarrow> nat option) set" where
  "versions d \<equiv> insert (fdNames d) (set (fdPast d))"

text \<open>What a name may lead to, now or after a power failure.\<close>

definition may_hold :: "folder \<Rightarrow> string \<Rightarrow> string option \<Rightarrow> bool" where
  "may_hold d p c \<longleftrightarrow> c = contents d p \<or> (\<exists>k junk. k \<le> length (fdPast d) \<and> c = contents (power_loss k junk d) p)"

definition sound :: "folder \<Rightarrow> bool" where
  "sound d \<longleftrightarrow> (\<forall>p i. fdNames d p = Some i \<longrightarrow> i < fdFresh d)"

definition lasting :: "folder \<Rightarrow> string \<Rightarrow> bool" where
  "lasting d p \<longleftrightarrow> (\<forall>v \<in> versions d. v p = fdNames d p) \<and> (\<forall>i. fdNames d p = Some i \<longrightarrow> fdSafe d i)"

text \<open>The stages of a write of \<open>b\<close>, with \<open>n\<close> the new file: it is written, complete, renamed. An error at any of them leaves either text.\<close>

definition unrelated :: "folder \<Rightarrow> string \<Rightarrow> string \<Rightarrow> nat \<Rightarrow> folder \<Rightarrow> bool" where
  "unrelated d0 tmp path n d \<longleftrightarrow> (\<forall>q. q \<noteq> tmp \<and> q \<noteq> path \<longrightarrow> fdNames d q = fdNames d0 q) \<and>
     (\<forall>i. i \<noteq> n \<longrightarrow> fdData d i = fdData d0 i \<and> fdSafe d i = fdSafe d0 i)"

definition complete :: "string \<Rightarrow> nat \<Rightarrow> folder \<Rightarrow> bool" where
  "complete b n d \<longleftrightarrow> fdData d n = b \<and> fdSafe d n"

definition either :: "folder \<Rightarrow> string \<Rightarrow> string \<Rightarrow> string \<Rightarrow> nat \<Rightarrow> folder \<Rightarrow> bool" where
  "either d0 tmp path b n d \<longleftrightarrow> unrelated d0 tmp path n d \<and>
     (\<forall>v \<in> versions d. v path = fdNames d0 path \<or> v path = Some n \<and> complete b n d)"

definition drafting :: "folder \<Rightarrow> string \<Rightarrow> string \<Rightarrow> nat \<Rightarrow> folder \<Rightarrow> bool" where
  "drafting d0 tmp path n d \<longleftrightarrow> unrelated d0 tmp path n d \<and> (\<forall>v \<in> versions d. v path = fdNames d0 path) \<and> fdNames d tmp = Some n"

definition renamed :: "folder \<Rightarrow> string \<Rightarrow> string \<Rightarrow> string \<Rightarrow> nat \<Rightarrow> folder \<Rightarrow> bool" where
  "renamed d0 tmp path b n d \<longleftrightarrow> either d0 tmp path b n d \<and> fdNames d path = Some n \<and> complete b n d \<and> fdNames d tmp = None"

lemmas stages = unrelated_def complete_def either_def drafting_def renamed_def rebind_def append_to_def

lemma holds_CreateTemp:
  assumes "tmp \<noteq> path"
  shows "holds (\<lambda>d. d = d0 \<and> lasting d path) (CreateTemp tmp)
     (\<lambda>i d. i = fdFresh d0 \<and> drafting d0 tmp path i d \<and> fdData d i = []) (either d0 tmp path b (fdFresh d0))"
proof -
  have new: "holds (\<lambda>d. i = fdFresh d \<and> (d = d0 \<and> lasting d path) \<and> fdNames d tmp = None) (thenE (uncut (new_file tmp)) (ret i))
      (\<lambda>i d. i = fdFresh d0 \<and> drafting d0 tmp path i d \<and> fdData d i = []) (either d0 tmp path b (fdFresh d0))" for i
    by (rule holds_thenE [OF holds_uncut [where Q = "\<lambda>d. i = fdFresh d0 \<and> drafting d0 tmp path i d \<and> fdData d i = []"] holds_ret])
      (use assms in \<open>auto simp: stages new_file_def lasting_def\<close>)
  have fresh: "holds P (gets (\<lambda>s. fdFresh (fst s))) (\<lambda>i d. i = fdFresh d \<and> P d) E" for P E
    by (auto simp: holds_def triple_def gets_def)
  have "holds (\<lambda>d. (d = d0 \<and> lasting d path) \<and> fdNames d tmp = None)
      (bindE (gets (\<lambda>s. fdFresh (fst s))) (\<lambda>i. thenE (uncut (new_file tmp)) (ret i)))
      (\<lambda>i d. i = fdFresh d0 \<and> drafting d0 tmp path i d \<and> fdData d i = []) (either d0 tmp path b (fdFresh d0))"
    by (rule holds_bindE [OF fresh new])
  then show ?thesis
    unfolding CreateTemp_def by (intro holds_fails_if) (auto simp: stages lasting_def)
qed

lemma holds_draft:
  "holds (\<lambda>d. drafting d0 tmp path n d \<and> fdData d n = []) (finally_do quiet (thenE (WriteTo n b) (SyncFile n)))
     (\<lambda>_ d. drafting d0 tmp path n d \<and> complete b n d) (either d0 tmp path b n)"
proof (rule holds_finally_do [OF holds_thenE holds_quiet holds_quiet])
  show "holds (\<lambda>d. drafting d0 tmp path n d \<and> fdData d n = []) (WriteTo n b)
      (\<lambda>_ d. drafting d0 tmp path n d \<and> fdData d n = b) (either d0 tmp path b n)"
    unfolding WriteTo_def by (rule holds_fcall) (auto simp: stages)
  show "holds (\<lambda>d. drafting d0 tmp path n d \<and> fdData d n = b) (SyncFile n)
      (\<lambda>_ d. drafting d0 tmp path n d \<and> complete b n d) (either d0 tmp path b n)"
    unfolding SyncFile_def by (rule holds_uncut) (auto simp: stages)
qed (auto simp: stages)

lemma holds_rename:
  assumes "tmp \<noteq> path"
  shows "holds (\<lambda>d. drafting d0 tmp path n d \<and> complete b n d) (RenameTo tmp path) (\<lambda>_. renamed d0 tmp path b n) (either d0 tmp path b n)"
  unfolding RenameTo_def by (intro holds_fails_if holds_uncut) (use assms in \<open>auto simp: stages\<close>)

lemma holds_remove:
  assumes "tmp \<noteq> path"
  shows "holds (either d0 tmp path b n) (RemoveName tmp) (\<lambda>_. either d0 tmp path b n) (either d0 tmp path b n)"
  unfolding RemoveName_def by (intro holds_fails_if holds_uncut) (use assms in \<open>auto simp: stages\<close>)

text \<open>After the rename there is no temporary file to remove.\<close>

lemma holds_remove_none: "(\<And>d. P d \<Longrightarrow> fdNames d tmp = None) \<Longrightarrow> holds P (RemoveName tmp) (\<lambda>_. P) P"
  unfolding RemoveName_def by (rule holds_fails_if) (auto simp: holds_def triple_def)

lemma holds_sync_folder:
  "holds (renamed d0 tmp path b n) SyncFolder (\<lambda>_ d. renamed d0 tmp path b n d \<and> fdPast d = []) (either d0 tmp path b n)"
  unfolding SyncFolder_def by (rule holds_uncut) (auto simp: stages)

lemma holds_durableWrite:
  assumes "tmp \<noteq> path"
  shows "holds (\<lambda>d. d = d0 \<and> lasting d path) (durableWrite tmp path b)
     (\<lambda>_ d. renamed d0 tmp path b (fdFresh d0) d \<and> fdPast d = []) (either d0 tmp path b (fdFresh d0))"
proof -
  let ?n = "fdFresh d0"
  let ?E = "either d0 tmp path b ?n" and ?R = "renamed d0 tmp path b ?n"
  have RE: "?R d \<Longrightarrow> ?E d" for d by (simp add: renamed_def)
  have last: "holds ?R (deferring quiet SyncFolder) (\<lambda>_ d. ?R d \<and> fdPast d = []) ?E"
    by (rule holds_deferring [OF holds_sync_folder holds_quiet holds_quiet]) (auto simp: RE)
  have body: "holds (\<lambda>d. drafting d0 tmp path ?n d \<and> fdData d ?n = [])
      (thenE (finally_do quiet (thenE (WriteTo ?n b) (SyncFile ?n))) (thenE (RenameTo tmp path) (thenE quiet (deferring quiet SyncFolder))))
      (\<lambda>_ d. ?R d \<and> fdPast d = []) ?E"
    by (rule holds_thenE [OF holds_draft holds_thenE [OF holds_rename [OF assms] holds_thenE [OF holds_quiet last]]]) (rule RE)
  have "holds (\<lambda>d. drafting d0 tmp path ?n d \<and> fdData d ?n = [])
      (deferring (RemoveName tmp)
        (thenE (finally_do quiet (thenE (WriteTo ?n b) (SyncFile ?n))) (thenE (RenameTo tmp path) (thenE quiet (deferring quiet SyncFolder)))))
      (\<lambda>_ d. ?R d \<and> fdPast d = []) ?E"
    by (rule holds_deferring [OF body holds_remove_none holds_remove [OF assms]]) (auto simp: renamed_def)
  then show ?thesis
    unfolding durableWrite_def by (intro holds_bindE [OF holds_CreateTemp [OF assms]] holds_fact) simp
qed

lemma durableWrite_outcome:
  assumes "lasting d path" and "tmp \<noteq> path" and "durableWrite tmp path b (d, ms) = (r, (d', ms'))"
  shows "either d tmp path b (fdFresh d) d' \<and> (r = Inr () \<longrightarrow> renamed d tmp path b (fdFresh d) d' \<and> fdPast d' = [])"
proof -
  from holds_durableWrite [OF assms(2), of d b] assms(1,3)
  have "case r of Inl _ \<Rightarrow> either d tmp path b (fdFresh d) d' | Inr _ \<Rightarrow> renamed d tmp path b (fdFresh d) d' \<and> fdPast d' = []"
    unfolding holds_def by (cases r) (auto dest!: tripleD)
  then show ?thesis by (cases r) (simp_all add: renamed_def)
qed

text \<open>Either text, and the new one for good after a success.\<close>

lemma may_hold_either:
  assumes "either d0 tmp path b n d" and "lasting d0 path" and "fdNames d0 path \<noteq> Some n" and "may_hold d path c"
  shows "c = contents d0 path \<or> c = Some b"
proof -
  have held: "map_option (fdData e) (v path) = contents d0 path \<or> map_option (fdData e) (v path) = Some b"
    if "v \<in> versions d" and "\<And>i. fdSafe d i \<Longrightarrow> fdData e i = fdData d i" for v e
    using that assms(1-3) by (cases "fdNames d0 path") (auto simp: stages lasting_def contents_def)
  from assms(4) consider "c = contents d path" | k junk where "k \<le> length (fdPast d)" "c = contents (power_loss k junk d) path"
    by (auto simp: may_hold_def)
  then show ?thesis
  proof cases
    case 1
    with held [of "fdNames d" d] show ?thesis by (simp add: contents_def)
  next
    case (2 k junk)
    then have "(fdNames d # fdPast d) ! k \<in> versions d"
      by (metis length_Cons less_Suc_eq_le list.set(2) nth_mem)
    with held [of _ "power_loss k junk d"] 2(2) show ?thesis by (simp add: contents_def power_loss_def)
  qed
qed

lemma may_hold_renamed:
  assumes "renamed d0 tmp path b n d" and "fdPast d = []"
  shows "may_hold d path c \<longleftrightarrow> c = Some b"
  using assms by (auto simp: may_hold_def contents_def power_loss_def stages)

text \<open>
  C40. Writing a file is all or nothing, and final once it succeeds. Whatever calls of \<open>durableWrite\<close> fail and wherever the process
  dies, the name leads to the old text or to the new one, also after a power failure; after a success it leads to the new text
  for good, and no temporary file is left. No other file of the directory changes.
\<close>

theorem durable_write:
  assumes "sound d" and "lasting d path" and "tmp \<noteq> path" and "durableWrite tmp path b (d, ms) = (r, (d', ms'))"
  shows "(\<forall>c. may_hold d' path c \<longrightarrow> c = contents d path \<or> c = Some b) \<and>
    (r = Inr () \<longrightarrow> (\<forall>c. may_hold d' path c \<longrightarrow> c = Some b) \<and> lasting d' path \<and> fdNames d' tmp = None) \<and>
    (\<forall>q. q \<noteq> tmp \<and> q \<noteq> path \<longrightarrow> contents d' q = contents d q)"
proof -
  from durableWrite_outcome [OF assms(2-4)]
  have E: "either d tmp path b (fdFresh d) d'" and S: "r = Inr () \<Longrightarrow> renamed d tmp path b (fdFresh d) d' \<and> fdPast d' = []"
    by auto
  from assms(1) have old: "fdNames d q \<noteq> Some (fdFresh d)" for q by (auto simp: sound_def)
  have "contents d' q = contents d q" if "q \<noteq> tmp" "q \<noteq> path" for q
    using E old [of q] that by (cases "fdNames d q") (auto simp: stages contents_def)
  moreover have "lasting d' path \<and> fdNames d' tmp = None" if "r = Inr ()"
    using S [OF that] by (simp add: lasting_def stages)
  ultimately show ?thesis
    using may_hold_either [OF E assms(2) old] may_hold_renamed S by blast
qed

definition example_folder :: folder where
  "example_folder = \<lparr>fdNames = (\<lambda>p. if p = ''f'' then Some 0 else None), fdPast = [], fdData = (\<lambda>_. ''old''), fdSafe = (\<lambda>_. True), fdFresh = 1\<rparr>"

text \<open>A write that is cut short, and whose temporary file cannot be removed.\<close>

lemma durable_write_witness:
  "let (r, (d', _)) = durableWrite ''t'' ''f'' ''new'' (example_folder, [Smooth, Cut 1 False, Smooth, Refused]) in
     r = Inl IOError \<and> contents d' ''t'' = Some ''n'' \<and> (\<forall>c. may_hold d' ''f'' c \<longrightarrow> c = Some ''old'' \<or> c = Some ''new'')"
proof -
  let ?run = "durableWrite ''t'' ''f'' ''new'' (example_folder, [Smooth, Cut 1 False, Smooth, Refused])"
  obtain r d' ms' where run: "?run = (r, (d', ms'))" by (metis prod.exhaust)
  have "sound example_folder" "lasting example_folder ''f''" by (simp_all add: sound_def lasting_def example_folder_def)
  from durable_write [OF this _ run] have "\<forall>c. may_hold d' ''f'' c \<longrightarrow> c = Some ''old'' \<or> c = Some ''new''"
    by (simp add: contents_def example_folder_def)
  moreover from run have "r = Inl IOError \<and> contents d' ''t'' = Some ''n''"
    by (simp add: durableWrite_def bindE_def thenE_def gets_def ret_def CreateTemp_def fails_if_def uncut_def fcall_def new_file_def
        rebind_def deferring_def finally_do_def WriteTo_def append_to_def SyncFile_def RemoveName_def quiet_def contents_def example_folder_def)
      auto
  ultimately show ?thesis using run by simp
qed

section \<open>A write as one step\<close>

text \<open>
  A run of \<open>durableWrite\<close> that the process survives is one access of the disk as the store takes it, \<open>io\<close>: done, failed without an
  effect, or failed with it. \<open>get\<close> is the file in the store and \<open>put\<close> the write.
\<close>

lemma durableWrite_io:
  assumes "sound d" and "lasting d path" and "tmp \<noteq> path" and "durableWrite tmp path b (d, ms) = (r, (d', ms'))" and "r \<noteq> Inl Crashed"
    and "\<And>s fs. get (s\<lparr>disk := fs\<rparr>) = get s" and "\<And>s. get (put s) = Some b" and "get s = contents d path"
  shows "\<exists>f q t. io put (s\<lparr>disk := f # fs\<rparr>) = (q, t) \<and> isl q = isl r \<and> get t = contents d' path"
proof -
  from durableWrite_outcome [OF assms(2-4)]
  have E: "either d tmp path b (fdFresh d) d'" and S: "r = Inr () \<Longrightarrow> renamed d tmp path b (fdFresh d) d' \<and> fdPast d' = []"
    by auto
  from assms(1) have "fdNames d path \<noteq> Some (fdFresh d)" by (auto simp: sound_def)
  from may_hold_either [OF E assms(2) this, of "contents d' path"]
  consider "contents d' path = contents d path" "isl r" | "contents d' path = Some b" "isl r" | "contents d' path = Some b" "r = Inr ()"
    using S may_hold_renamed [of d tmp path b "fdFresh d" d' "contents d' path"] by (cases r) (auto simp: may_hold_def)
  then show ?thesis
  proof cases
    case 1
    then show ?thesis using assms(6,8) by (intro exI [of _ Failed]) (simp add: io_def)
  next
    case 2
    then show ?thesis using assms(7) by (intro exI [of _ FailedLate]) (simp add: io_def)
  next
    case 3
    then show ?thesis using assms(7) by (intro exI [of _ NoFault]) (simp add: io_def)
  qed
qed

end
