(* ===== verification/Spec2Isabelle.thy ===== *)
theory Spec2Isabelle
  imports DeviceExample PagesExample Pkcs7 AppLog Flash Routes RestoredStart DevicePages Durable
begin

text \<open>
  NetAnchor, a certificate authority in Go with a web interface, a SCEP server for the enrollment of network devices and a gNOI client
  that pushes certificates to them, modelled in Isabelle/HOL.

  The program and its parts. The data directory (\<open>src/store.go\<close>) holds the authorities, the certificates and their index, and a JSON
  file each for templates, devices, definitions, accounts and the enrollment journal; one record \<open>store\<close> (\<open>Model\<close>) is this
  directory as the code reads it, with the keyring of unlocked CA keys and the outcomes of the disk accesses to come. An operation is
  a function of the store with an error or a value as its result (\<open>Prelude\<close>), one definition for each Go function, with the branches
  and early returns of the code. Requests reach the operations through the middleware and the routes; a restore replaces the directory
  as a whole while the program runs and ends with a restart.

  Theories and sources, in the order of the dependencies.

  \<^item> Shared: \<open>Prelude\<close> (operations, their algebra, invariants and triples), \<open>GoStrings\<close>, \<open>Netip\<close>, \<open>Base64\<close> (what the program uses
    of Go's strings, addresses and encodings), \<open>Model\<close> (certificates, keys, records, the store; the contract \<open>stored\<close> of a JSON
    file), \<open>Upsert\<close> (the contract of saving by identifier under unique names, used by devices and definitions).
  \<^item> \<open>Restore\<close>: \<open>restore.go\<close>, the transaction over the roots of the data directory, with a fault at every file-system call.
  \<^item> \<open>Templates\<close>: \<open>certtemplates.go\<close>, \<open>profile_policy.go\<close>, and the templates of \<open>store.go\<close>. \<open>Keycrypt\<close>: \<open>keycrypt.go\<close>, \<open>ca_unlock.go\<close>.
    \<open>CaTree\<close>: index, CA tree and trash of \<open>store.go\<close>. \<open>CaIssue\<close>: \<open>ca.go\<close>.
  \<^item> \<open>ScepStore\<close>, \<open>ScepShared\<close>, \<open>ScepJournal\<close>, \<open>Durable\<close>: \<open>scep_store.go\<close>, \<open>scep_shared.go\<close>; \<open>Asn1_Bound\<close>: \<open>scep_asn1.go\<close>;
    \<open>ScepMessage\<close>, \<open>ScepEnroll\<close>, \<open>ScepSafety\<close>, \<open>ScepNames\<close>: \<open>scep_protocol.go\<close>; \<open>ScepAdmin\<close>: \<open>scep_admin.go\<close>.
  \<^item> \<open>Devices\<close>: \<open>device_store.go\<close>; \<open>Definitions\<close>, \<open>DefinitionHttp\<close>: \<open>definition_*.go\<close>; \<open>Gnoi\<close>: \<open>gnoi_push.go\<close>; \<open>GnoiAdmin\<close>:
    \<open>gnoi_admin.go\<close>; \<open>DeviceCheck\<close>: \<open>device_check.go\<close>; \<open>DeviceHttp\<close>: \<open>device_http.go\<close>;
    \<open>DevicePages\<close>: what the pages of these files show.
  \<^item> \<open>Auth\<close>: \<open>auth.go\<close>; \<open>Web\<close>, \<open>CaHttp\<close>, \<open>Pages\<close>, \<open>Views\<close>, \<open>Downloads\<close>, \<open>Flash\<close>, \<open>Forms\<close>, \<open>Routes\<close>: \<open>server.go\<close> and \<open>certinfo.go\<close>;
    \<open>Tools\<close>: \<open>tools.go\<close>; \<open>Pkcs7\<close>: \<open>pkcs7.go\<close>; \<open>AppLog\<close>: \<open>applog.go\<close>.
  \<^item> \<open>BackupValidate\<close>: \<open>backup_validate.go\<close>; \<open>Archive\<close>: \<open>backup.go\<close>; \<open>ServerCert\<close>: \<open>tlscert.go\<close>; \<open>RestoreHttp\<close>: \<open>backup_http.go\<close> and
    \<open>stageBackup\<close>; \<open>Boot\<close>: \<open>main.go\<close>; \<open>RestoredStart\<close>: restore and start together.
  \<^item> \<open>ScepExample\<close>, \<open>GnoiExample\<close>, \<open>DeviceExample\<close>, \<open>BackupExample\<close>, \<open>PagesExample\<close>, \<open>RestoreExample\<close>: runs on concrete data, which show
    that the hypotheses of the theorems can hold.

  What the theorems show.

  \<^item> Restore: whatever call fails and wherever the process dies, recovery ends with all roots old or all roots new; through the web
    interface only an administrator brings the new ones about, and what is served after the restart is the uploaded backup, with a new
    session key and no unused password of a single device. A backup file opens to a text exactly when it was sealed from it; what a
    backup collects a restore accepts; every certificate of a validated backup chains to its root.
  \<^item> Issuing: a certificate obeys the template it was issued under, and none outlives its chain; both policy checks are equivalent to
    a declarative one; the index is a tree below the root, deletions take whole subtrees and lose no file.
  \<^item> Enrollment: one password buys one certificate, what is answered is committed and published, the names of a certificate are those
    that its challenge or its source address authorizes, and shared challenges keep their rate. The scan that guards the parsers
    accepts exactly the nested TLV values within its limits and never indexes out of range.
  \<^item> Devices: pushes, checks and revocations talk only to addresses that are allowed, under a pinned certificate; a pin was confirmed
    for the address it is used for; a successful push has installed, stored and recorded the certificate.
  \<^item> Forms: a definition or a device that is opened for editing and sent back as it is stays the same, when it is accepted.
  \<^item> Access: sessions are made only by a login, a signed-in user who is no administrator changes nothing whatever is requested, and
    private keys are for administrators, but for one serial number.

  Conventions. A string is a list of bytes and an error its message. Times are nanoseconds, with zero for the zero time; the clock is read
  once per operation and passed in, and so are random values and serial numbers. Cryptography is ideal: a key pair is \<open>Private\<close> of a
  public key, AES-GCM messages carry their key, and a DER certificate is the certificate it parses to; hashes, CMS, the parsers of
  X.509, PKCS#12 and ASN.1, the resolver and the network are arguments, with their documented laws as named hypotheses where a theorem
  needs them. A write of a file takes effect in full or not at all and may report an error in both cases. \<open>Durable\<close> proves this of
  \<open>durableWrite\<close>, down to power failures (\<open>durableWrite_io\<close>); for the files that the code writes in place it is an assumption. The
  transaction of a restore has a finer model with torn writes. Locks make an operation one step. White space, letter case and host names are those of ASCII.

  Bounds and fuel. The depth of a chain that a backup may have is the code's own 64. The recursion of the dashboard has the number of
  authorities and one more as fuel, which \<open>Pages\<close> shows to be enough; the loop over a bundle has its length in bytes, as every
  round takes one at least (\<open>bundle_certs_reads\<close>); the search for the name of a copied template tries one name more than there are
  templates. The scan of ASN.1 terminates by a measure and has no fuel. The limits on archives, messages and forms are the code's.

  Not modelled. The HTML of the pages, response headers and cookie attributes, and the texts of log lines, but for those of requests.
  The listeners with their timeouts and the shutdown, and the clocks of deadlines: whether an operation gets its lock in time is an
  argument. TLS and gRPC below the calls of the client. The remaining time of a certificate as text (\<open>timeLeft\<close>), whose rounding is
  that of floating point. How JSON is written and read, and the encodings of the standard library other than base64, hexadecimal and
  the DER of PKCS#7 bundles.
\<close>

end
